(* ===== verification/Circ_Prelude.thy ===== *)
theory Circ_Prelude
  imports Main "HOL-Library.Word"
begin

text \<open>
  Shared vocabulary of the development: the machine integer types, the ways a run of the C++
  code can stop early, statements as state transformers that may fail or fail to return, and the
  weakest-precondition reading of statements that all component proofs use.
\<close>

section \<open>Machine integers\<close>

type_synonym u8 = "8 word"
type_synonym u32 = "32 word"
type_synonym u64 = "64 word"

section \<open>How a run can stop early\<close>

text \<open>
  Out-of-range accesses, reads of indeterminate values and double frees are undefined behaviour
  in C++; the model turns each of them into an error value, so that a theorem that a run succeeds
  also says that the run is free of them.
\<close>

datatype cerr =
    OutOfBounds
  | Uninitialised
  | NullPointer
  | DoubleFree
  | UseAfterFree
  | AssertFailed string
  | FrFail
  | RuntimeError string
  | SystemError string
  | BadDispatch nat

section \<open>Statements\<close>

text \<open>
  A statement maps a state to \<open>None\<close> (it does not return), \<open>Some (Inl e)\<close> (it stops with the
  error \<open>e\<close>) or \<open>Some (Inr s')\<close>.
\<close>

type_synonym 's stmt = "'s \<Rightarrow> (cerr + 's) option"
type_synonym ('s, 'a) rd = "'s \<Rightarrow> cerr + 'a"

definition bindR :: "cerr + 'a \<Rightarrow> ('a \<Rightarrow> cerr + 'b) \<Rightarrow> cerr + 'b" where
  "bindR r f = (case r of Inl e \<Rightarrow> Inl e | Inr a \<Rightarrow> f a)"

lemma bindR_simps [simp]:
  "bindR (Inl e) f = Inl e"
  "bindR (Inr a) f = f a"
  by (simp_all add: bindR_def)

definition skipM :: "'s stmt" where
  "skipM s = Some (Inr s)"

definition throwM :: "cerr \<Rightarrow> 's stmt" where
  "throwM e s = Some (Inl e)"

definition liftM :: "('s \<Rightarrow> cerr + 's) \<Rightarrow> 's stmt" where
  "liftM f s = Some (f s)"

fun seqM :: "'s stmt list \<Rightarrow> 's stmt" where
  "seqM [] s = Some (Inr s)"
| "seqM (c # cs) s =
     (case c s of
        None \<Rightarrow> None
      | Some (Inl e) \<Rightarrow> Some (Inl e)
      | Some (Inr s') \<Rightarrow> seqM cs s')"

declare seqM.simps [simp del]

definition ifM :: "('s, bool) rd \<Rightarrow> 's stmt \<Rightarrow> 's stmt \<Rightarrow> 's stmt" where
  "ifM b c d s =
     (case b s of Inl e \<Rightarrow> Some (Inl e) | Inr t \<Rightarrow> if t then c s else d s)"

definition assertM :: "string \<Rightarrow> ('s, bool) rd \<Rightarrow> 's stmt" where
  "assertM msg b = ifM b skipM (throwM (AssertFailed msg))"

text \<open>\<open>for (i = 0; i < n; i++) body\<close>, with the loop variable handed to the body.\<close>

definition forM :: "nat \<Rightarrow> (nat \<Rightarrow> 's stmt) \<Rightarrow> 's stmt" where
  "forM n body = seqM (map body [0..<n])"

text \<open>A loop of the source may run forever; then its value is \<open>None\<close>.\<close>

partial_function (option) whileM ::
    "('s \<Rightarrow> cerr + bool) \<Rightarrow> ('s \<Rightarrow> (cerr + 's) option) \<Rightarrow> 's \<Rightarrow> (cerr + 's) option" where
  "whileM b c s =
     (case b s of
        Inl e \<Rightarrow> Some (Inl e)
      | Inr t \<Rightarrow>
          if t then Option.bind (c s) (\<lambda>r. case r of Inl e \<Rightarrow> Some (Inl e) | Inr s' \<Rightarrow> whileM b c s')
          else Some (Inr s))"

section \<open>Weakest preconditions\<close>

text \<open>
  \<open>runs c s Q\<close>: from \<open>s\<close> the statement returns, without an error, in a state that satisfies
  \<open>Q\<close>. It is total correctness: neither an error nor a loop that runs forever satisfies it.
\<close>

definition runs :: "'s stmt \<Rightarrow> 's \<Rightarrow> ('s \<Rightarrow> bool) \<Rightarrow> bool" where
  "runs c s Q \<longleftrightarrow> (\<exists>s'. c s = Some (Inr s') \<and> Q s')"

text \<open>
  \<open>outcome c s Q E\<close>: the statement returns, with a state that satisfies \<open>Q\<close> or with an error that
  satisfies \<open>E\<close>. It states both sides of a check.
\<close>

definition outcome :: "'s stmt \<Rightarrow> 's \<Rightarrow> ('s \<Rightarrow> bool) \<Rightarrow> (cerr \<Rightarrow> bool) \<Rightarrow> bool" where
  "outcome c s Q E \<longleftrightarrow> (case c s of None \<Rightarrow> False | Some (Inl e) \<Rightarrow> E e | Some (Inr t) \<Rightarrow> Q t)"

named_theorems wp "how runs decomposes along the syntax of statements"

lemma runs_mono: "runs c s P \<Longrightarrow> (\<And>t. P t \<Longrightarrow> Q t) \<Longrightarrow> runs c s Q"
  by (auto simp: runs_def)

lemma runsE:
  assumes "runs c s Q"
  obtains t where "c s = Some (Inr t)" "Q t"
  using assms by (auto simp: runs_def)

lemma runs_eqI: "c s = Some (Inr t) \<Longrightarrow> Q t \<Longrightarrow> runs c s Q"
  by (simp add: runs_def)

lemma runs_skip [wp]: "runs skipM s Q \<longleftrightarrow> Q s"
  by (simp add: runs_def skipM_def)

lemma runs_throw [wp]: "runs (throwM e) s Q \<longleftrightarrow> False"
  by (simp add: runs_def throwM_def)

lemma runs_lift [wp]: "runs (liftM f) s Q \<longleftrightarrow> (case f s of Inl e \<Rightarrow> False | Inr t \<Rightarrow> Q t)"
  by (simp add: runs_def liftM_def split: sum.splits)

lemma runs_seq_Nil [wp]: "runs (seqM []) s Q \<longleftrightarrow> Q s"
  by (simp add: runs_def seqM.simps)

lemma runs_seq_Cons [wp]: "runs (seqM (c # cs)) s Q \<longleftrightarrow> runs c s (\<lambda>t. runs (seqM cs) t Q)"
  by (auto simp: runs_def seqM.simps split: option.splits sum.splits)

lemma runs_seq_append: "runs (seqM (cs @ ds)) s Q \<longleftrightarrow> runs (seqM cs) s (\<lambda>t. runs (seqM ds) t Q)"
  by (induction cs arbitrary: s) (simp_all add: wp)

lemma seqM_append:
  "seqM (cs @ ds) s =
     (case seqM cs s of None \<Rightarrow> None | Some (Inl e) \<Rightarrow> Some (Inl e) | Some (Inr t) \<Rightarrow> seqM ds t)"
  by (induction cs arbitrary: s) (simp_all add: seqM.simps split: option.splits sum.splits)

lemma runs_if [wp]:
  "runs (ifM b c d) s Q \<longleftrightarrow>
     (case b s of Inl e \<Rightarrow> False | Inr t \<Rightarrow> if t then runs c s Q else runs d s Q)"
  by (auto simp: runs_def ifM_def split: sum.splits)

lemma runs_assert [wp]: "runs (assertM m b) s Q \<longleftrightarrow> b s = Inr True \<and> Q s"
  by (auto simp: assertM_def wp split: sum.splits)

lemma runs_whileM_unfold:
  "runs (whileM b c) s Q \<longleftrightarrow>
     (case b s of Inl e \<Rightarrow> False | Inr t \<Rightarrow> if t then runs c s (\<lambda>t. runs (whileM b c) t Q) else Q s)"
  by (subst runs_def, subst whileM.simps)
     (auto simp: runs_def split: sum.splits Option.bind_splits)

lemma runs_outcome: "runs c s Q \<longleftrightarrow> outcome c s Q (\<lambda>_. False)"
  by (auto simp: runs_def outcome_def split: option.splits sum.splits)

lemma outcome_mono:
  "outcome c s P D \<Longrightarrow> (\<And>t. P t \<Longrightarrow> Q t) \<Longrightarrow> (\<And>e. D e \<Longrightarrow> E e) \<Longrightarrow> outcome c s Q E"
  by (auto simp: outcome_def split: option.splits sum.splits)

lemma outcome_runs: "runs c s P \<Longrightarrow> (\<And>t. P t \<Longrightarrow> Q t) \<Longrightarrow> outcome c s Q E"
  by (auto simp: outcome_def runs_def)

lemma outcome_seq:
  "outcome (seqM []) s Q E \<longleftrightarrow> Q s"
  "outcome (seqM (c # cs)) s Q E \<longleftrightarrow> outcome c s (\<lambda>t. outcome (seqM cs) t Q E) E"
  by (auto simp: outcome_def seqM.simps split: option.splits sum.splits)

lemma outcome_seq_append:
  "outcome (seqM (cs @ ds)) s Q E \<longleftrightarrow> outcome (seqM cs) s (\<lambda>t. outcome (seqM ds) t Q E) E"
  by (induction cs arbitrary: s) (simp_all add: outcome_seq)

lemma outcome_assert:
  "outcome (assertM m b) s Q E \<longleftrightarrow>
     (case b s of Inl e \<Rightarrow> E e | Inr t \<Rightarrow> if t then Q s else E (AssertFailed m))"
  by (auto simp: assertM_def ifM_def outcome_def skipM_def throwM_def split: sum.splits)

lemma outcome_whileM_unfold:
  "outcome (whileM b c) s Q E \<longleftrightarrow>
     (case b s of Inl e \<Rightarrow> E e
      | Inr t \<Rightarrow> if t then outcome c s (\<lambda>t. outcome (whileM b c) t Q E) E else Q s)"
  by (subst outcome_def, subst whileM.simps)
     (auto simp: outcome_def split: sum.splits option.splits Option.bind_splits)

text \<open>
  The loop rule: an invariant indexed by the number of rounds done. The count is the variant, so
  the conclusion includes that the loop returns.
\<close>

lemma outcome_while_count:
  assumes start: "I 0 s"
    and guard: "\<And>i t. i < n \<Longrightarrow> I i t \<Longrightarrow> b t = Inr True"
    and body: "\<And>i t. i < n \<Longrightarrow> I i t \<Longrightarrow> outcome c t (I (Suc i)) E"
    and exit: "\<And>t. I n t \<Longrightarrow> b t = Inr False \<and> Q t"
  shows "outcome (whileM b c) s Q E"
proof -
  have "outcome (whileM b c) t Q E" if "I i t" "i \<le> n" for i t
    using that
  proof (induction "n - i" arbitrary: i t)
    case 0
    then have "I n t" by simp
    from exit [OF this] show ?case by (subst outcome_whileM_unfold) simp
  next
    case (Suc k)
    then have lt: "i < n" by simp
    have "outcome c t (\<lambda>t. outcome (whileM b c) t Q E) E"
    proof (rule outcome_mono [OF body [OF lt Suc.prems(1)]])
      fix u assume "I (Suc i) u"
      then show "outcome (whileM b c) u Q E" using Suc.hyps(1) [of "Suc i" u] Suc.hyps(2) lt by simp
    qed
    with guard [OF lt Suc.prems(1)] show ?case by (subst outcome_whileM_unfold) simp
  qed
  from this [OF start] show ?thesis by simp
qed

lemma runs_while_count:
  assumes "I 0 s"
    and "\<And>i t. i < n \<Longrightarrow> I i t \<Longrightarrow> b t = Inr True"
    and "\<And>i t. i < n \<Longrightarrow> I i t \<Longrightarrow> runs c t (I (Suc i))"
    and "\<And>t. I n t \<Longrightarrow> b t = Inr False \<and> Q t"
  shows "runs (whileM b c) s Q"
  unfolding runs_outcome by (rule outcome_while_count [where I = I]) (use assms in \<open>simp_all add: runs_outcome\<close>)

lemma runs_for:
  assumes start: "I 0 s"
    and body: "\<And>i t. i < n \<Longrightarrow> I i t \<Longrightarrow> runs (body i) t (I (Suc i))"
    and exit: "\<And>t. I n t \<Longrightarrow> Q t"
  shows "runs (forM n body) s Q"
proof -
  have "runs (forM m body) s (I m)" if "m \<le> n" for m
    using that
  proof (induction m)
    case 0
    show ?case by (simp add: forM_def wp start)
  next
    case (Suc m)
    then have "runs (forM m body) s (I m)" by simp
    then show ?case
      unfolding forM_def using body [of m] Suc.prems
      by (auto simp: runs_seq_append wp elim!: runs_mono)
  qed
  from this [of n] exit show ?thesis by (auto elim: runs_mono)
qed

lemma runs_for_0 [wp]: "runs (forM 0 body) s Q \<longleftrightarrow> Q s"
  by (simp add: forM_def wp)

section \<open>Checked arrays\<close>

text \<open>
  An array of \<open>n\<close> cells: reading needs an index in range and a cell that was written, writing
  needs an index in range. Indices are integers, as the index expressions of the code are.
\<close>

definition arr_read :: "nat \<Rightarrow> (nat \<rightharpoonup> 'a) \<Rightarrow> int \<Rightarrow> cerr + 'a" where
  "arr_read n m i =
     (if i < 0 \<or> int n \<le> i then Inl OutOfBounds
      else case m (nat i) of None \<Rightarrow> Inl Uninitialised | Some v \<Rightarrow> Inr v)"

definition arr_write :: "nat \<Rightarrow> (nat \<rightharpoonup> 'a) \<Rightarrow> int \<Rightarrow> 'a \<Rightarrow> cerr + (nat \<rightharpoonup> 'a)" where
  "arr_write n m i v =
     (if i < 0 \<or> int n \<le> i then Inl OutOfBounds else Inr (m(nat i \<mapsto> v)))"

text \<open>An array that is a list, all of whose cells were written.\<close>

definition read_list :: "'a list \<Rightarrow> nat \<Rightarrow> cerr + 'a" where
  "read_list xs i = (if i < length xs then Inr (xs ! i) else Inl OutOfBounds)"

lemma arr_read_int [simp]:
  "arr_read n m (int i) =
     (if i < n then (case m i of None \<Rightarrow> Inl Uninitialised | Some v \<Rightarrow> Inr v) else Inl OutOfBounds)"
  by (simp add: arr_read_def)

lemma arr_write_int [simp]:
  "arr_write n m (int i) v = (if i < n then Inr (m(i \<mapsto> v)) else Inl OutOfBounds)"
  by (simp add: arr_write_def)

lemma arr_read_Inr_iff: "arr_read n m i = Inr v \<longleftrightarrow> 0 \<le> i \<and> i < int n \<and> m (nat i) = Some v"
  by (auto simp: arr_read_def split: option.splits)

end
