(* ===== verification/Fr_Raw.thy ===== *)
theory Fr_Raw
  imports Circ_Prelude
begin

text \<open>
  The four-limb routines of \<open>circuit_cpp/fr.asm\<close> (the \<open>Fr_raw*\<close> functions and the internal
  \<open>raw*LL\<close>, \<open>raw*LS\<close>, \<open>raw*SL\<close>), instruction by instruction over 64-bit words with explicit
  carry and overflow flags, and the proof that on values below the prime \<open>q\<close> they compute
  addition, subtraction, negation and Montgomery multiplication modulo \<open>q\<close>.
\<close>

section \<open>Limbs and their value\<close>

datatype FrRaw = FrRaw u64 u64 u64 u64

fun rval :: "FrRaw \<Rightarrow> int" where
  "rval (FrRaw a b c d) = uint a + 2 ^ 64 * uint b + 2 ^ 128 * uint c + 2 ^ 192 * uint d"

lemma uint64_bounds: "0 \<le> uint (a :: u64)" "uint (a :: u64) < 18446744073709551616"
  using uint_lt2p [of a] by simp_all

lemma rval_bounds: "0 \<le> rval a" "rval a < 2 ^ 256"
proof -
  obtain x y z w where "a = FrRaw x y z w" by (cases a)
  then show "0 \<le> rval a" "rval a < 2 ^ 256"
    using uint64_bounds [of x] uint64_bounds [of y] uint64_bounds [of z] uint64_bounds [of w]
    by simp_all
qed

section \<open>The constants of the data section\<close>

definition q_int :: int where
  "q_int = 21888242871839275222246405745257275088548364400416034343698204186575808495617"

definition Fr_rawq :: FrRaw where
  "Fr_rawq = FrRaw 0x43e1f593f0000001 0x2833e84879b97091 0xb85045b68181585d 0x30644e72e131a029"

definition raw_half :: FrRaw where
  "raw_half = FrRaw 0xa1f0fac9f8000000 0x9419f4243cdcb848 0xdc2822db40c0ac2e 0x183227397098d014"

definition raw_R2 :: FrRaw where
  "raw_R2 = FrRaw 0x1bb8e645ae216da7 0x53fe3ab1e35c59e3 0x8c49833d53bb8085 0x0216d0b17f4e44a5"

definition Fr_rawR3 :: FrRaw where
  "Fr_rawR3 = FrRaw 0x5e94d8e1b4bf0040 0x2a489cbe1cfbb6b8 0x893cc664a19fcfed 0x0cf8594b7fcc657c"

definition raw_np :: u64 where
  "raw_np = 0xc2e1f593efffffff"

text \<open>The inverse of \<open>2 ^ 256\<close> modulo \<open>q\<close>, in which the Montgomery results are stated.\<close>

definition Rinv :: int where
  "Rinv = 9915499612839321149637521777990102151350674507940716049588462388200839649614"

lemma rval_q: "rval Fr_rawq = q_int"
  by (simp add: Fr_rawq_def q_int_def)

lemma rval_half: "rval raw_half = (q_int - 1) div 2"
  by (simp add: raw_half_def q_int_def)

text \<open>Remainders of large powers, from a quotient: evaluating \<open>mod\<close> itself is slow.\<close>

lemma mod_from_quotient: "x = k * m + r \<Longrightarrow> 0 \<le> r \<Longrightarrow> r < m \<Longrightarrow> x mod m = r" for x :: int
  by simp

lemma rval_R2: "rval raw_R2 = 2 ^ 512 mod q_int"
proof -
  have "(2 :: int) ^ 512 = 612557527273816073910311476275045157067432104571610153771051915293407781491289 * q_int + rval raw_R2"
    by (simp add: q_int_def raw_R2_def)
  moreover have "rval raw_R2 < q_int" by (simp add: q_int_def raw_R2_def)
  ultimately show ?thesis by (intro mod_from_quotient [symmetric]) (auto simp: rval_bounds)
qed

lemma rval_R3: "rval Fr_rawR3 = 2 ^ 768 mod q_int"
proof -
  have "(2 :: int) ^ 768 = 70929315861079460050545713470651790607402830534048198787532827173243548470465703496313271925294460383522548860604705121879455647723825082663417941967568832 * q_int + rval Fr_rawR3"
    by (simp add: q_int_def Fr_rawR3_def)
  moreover have "rval Fr_rawR3 < q_int" by (simp add: q_int_def Fr_rawR3_def)
  ultimately show ?thesis by (intro mod_from_quotient [symmetric]) (auto simp: rval_bounds)
qed

lemma Rinv_inverse: "2 ^ 256 * Rinv mod q_int = 1"
proof -
  have "2 ^ 256 * Rinv = 52454480824480482120356829342366457550537710351690908576382634413609933864959 * q_int + 1"
    by (simp add: Rinv_def q_int_def)
  then show ?thesis by (rule mod_from_quotient) (simp_all add: q_int_def)
qed

lemma q_int_bounds: "0 < q_int" "1 < q_int" "4 * q_int < 2 ^ 256" "2 ^ 64 < q_int"
  by (simp_all add: q_int_def)

section \<open>Instructions\<close>

lemma mod_sub_once:
  fixes x k :: int
  assumes "k \<le> x" "x < 2 * k"
  shows "x mod k = x - k"
proof -
  have "(x - k) mod k = x - k" using assms by (intro mod_pos_pos_trivial) auto
  then show ?thesis by simp
qed

lemma mod_add_once:
  fixes x k :: int
  assumes "- k \<le> x" "x < 0"
  shows "x mod k = x + k"
proof -
  have "(x + k) mod k = x + k" using assms by (intro mod_pos_pos_trivial) auto
  then show ?thesis by simp
qed

text \<open>\<open>add\<close>/\<open>adc\<close>/\<open>adcx\<close>/\<open>adox\<close>: the sum and the carry out.\<close>

definition adc :: "u64 \<Rightarrow> u64 \<Rightarrow> bool \<Rightarrow> u64 \<times> bool" where
  "adc a b c = (a + b + of_bool c, 2 ^ 64 \<le> uint a + uint b + of_bool c)"

text \<open>\<open>sub\<close>/\<open>sbb\<close>: the difference and the borrow out.\<close>

definition sbb :: "u64 \<Rightarrow> u64 \<Rightarrow> bool \<Rightarrow> u64 \<times> bool" where
  "sbb a b c = (a - b - of_bool c, uint a < uint b + of_bool c)"

text \<open>\<open>mulx hi, lo, src\<close>: the high and the low half of the 128-bit product.\<close>

definition mulx :: "u64 \<Rightarrow> u64 \<Rightarrow> u64 \<times> u64" where
  "mulx a b = (word_of_int (uint a * uint b div 2 ^ 64), a * b)"

lemma adc_eq:
  assumes "adc a b c = (r, c')"
  shows "uint r + 18446744073709551616 * of_bool c' = uint a + uint b + of_bool c"
proof -
  have r: "uint r = (uint a + uint b + of_bool c) mod 2 ^ 64"
    using assms by (auto simp: adc_def uint_word_ariths mod_simps)
  have c': "c' \<longleftrightarrow> 2 ^ 64 \<le> uint a + uint b + of_bool c"
    using assms by (simp add: adc_def)
  show ?thesis
  proof (cases c')
    case True
    have "(uint a + uint b + of_bool c) mod 2 ^ 64 = uint a + uint b + of_bool c - 2 ^ 64"
      using uint64_bounds [of a] uint64_bounds [of b] True c'
      by (intro mod_sub_once) (auto split: if_splits)
    with r True show ?thesis by simp
  next
    case False
    then show ?thesis using uint64_bounds [of a] uint64_bounds [of b] c' r by simp
  qed
qed

lemma sbb_eq:
  assumes "sbb a b c = (r, c')"
  shows "uint r - 18446744073709551616 * of_bool c' = uint a - uint b - of_bool c"
proof -
  have r: "uint r = (uint a - uint b - of_bool c) mod 2 ^ 64"
    using assms by (auto simp: sbb_def uint_word_ariths mod_simps)
  have c': "c' \<longleftrightarrow> uint a < uint b + of_bool c"
    using assms by (simp add: sbb_def)
  show ?thesis
  proof (cases c')
    case True
    have "(0 :: int) \<le> of_bool c" "of_bool c \<le> (1 :: int)" by simp_all
    with True c' uint64_bounds [of a] uint64_bounds [of b]
    have "- 18446744073709551616 \<le> uint a - uint b - of_bool c" "uint a - uint b - of_bool c < 0"
      by linarith+
    then have "(uint a - uint b - of_bool c) mod 2 ^ 64 = uint a - uint b - of_bool c + 2 ^ 64"
      by (intro mod_add_once) simp_all
    with r True show ?thesis by simp
  next
    case False
    have "(0 :: int) \<le> of_bool c" "of_bool c \<le> (1 :: int)" by simp_all
    with False c' uint64_bounds [of a] uint64_bounds [of b]
    have "0 \<le> uint a - uint b - of_bool c" "uint a - uint b - of_bool c < 18446744073709551616"
      by linarith+
    with r False show ?thesis by simp
  qed
qed

lemma mulx_eq:
  assumes "mulx a b = (hi, lo)"
  shows "uint lo + 18446744073709551616 * uint hi = uint a * uint b"
proof -
  have "uint a * uint b < 2 ^ 64 * 2 ^ 64"
    using uint64_bounds [of a] uint64_bounds [of b] by (intro mult_strict_mono') auto
  then have "uint a * uint b div 2 ^ 64 < 2 ^ 64"
    using div_mult_mod_eq [of "uint a * uint b" "2 ^ 64"] pos_mod_sign [of "2 ^ 64" "uint a * uint b"]
    by simp
  moreover have "0 \<le> uint a * uint b div 2 ^ 64"
    using uint64_bounds [of a] uint64_bounds [of b] by (intro div_int_pos_iff [THEN iffD2]) simp
  ultimately have hi: "uint hi = uint a * uint b div 2 ^ 64"
    using assms by (auto simp: mulx_def uint_word_of_int_eq take_bit_eq_mod)
  have lo: "uint lo = uint a * uint b mod 2 ^ 64"
    using assms by (auto simp: mulx_def uint_word_ariths)
  show ?thesis using hi lo by simp
qed

section \<open>Chains of four additions and subtractions\<close>

fun add4 :: "FrRaw \<Rightarrow> FrRaw \<Rightarrow> FrRaw \<times> bool" where
  "add4 (FrRaw a0 a1 a2 a3) (FrRaw b0 b1 b2 b3) =
     (let (r0, c) = adc a0 b0 False;
          (r1, c) = adc a1 b1 c;
          (r2, c) = adc a2 b2 c;
          (r3, c) = adc a3 b3 c
      in (FrRaw r0 r1 r2 r3, c))"

fun sub4 :: "FrRaw \<Rightarrow> FrRaw \<Rightarrow> FrRaw \<times> bool" where
  "sub4 (FrRaw a0 a1 a2 a3) (FrRaw b0 b1 b2 b3) =
     (let (r0, c) = sbb a0 b0 False;
          (r1, c) = sbb a1 b1 c;
          (r2, c) = sbb a2 b2 c;
          (r3, c) = sbb a3 b3 c
      in (FrRaw r0 r1 r2 r3, c))"

lemma add4_eq:
  assumes "add4 a b = (r, c)"
  shows "rval r + 2 ^ 256 * of_bool c = rval a + rval b"
proof -
  obtain a0 a1 a2 a3 b0 b1 b2 b3 where ab: "a = FrRaw a0 a1 a2 a3" "b = FrRaw b0 b1 b2 b3"
    by (cases a, cases b) blast
  obtain r0 c0 where e0: "adc a0 b0 False = (r0, c0)" by fastforce
  obtain r1 c1 where e1: "adc a1 b1 c0 = (r1, c1)" by fastforce
  obtain r2 c2 where e2: "adc a2 b2 c1 = (r2, c2)" by fastforce
  obtain r3 c3 where e3: "adc a3 b3 c2 = (r3, c3)" by fastforce
  have "r = FrRaw r0 r1 r2 r3" "c = c3" using assms ab e0 e1 e2 e3 by simp_all
  with ab adc_eq [OF e0] adc_eq [OF e1] adc_eq [OF e2] adc_eq [OF e3] show ?thesis by simp
qed

lemma sub4_eq:
  assumes "sub4 a b = (r, c)"
  shows "rval r - 2 ^ 256 * of_bool c = rval a - rval b"
proof -
  obtain a0 a1 a2 a3 b0 b1 b2 b3 where ab: "a = FrRaw a0 a1 a2 a3" "b = FrRaw b0 b1 b2 b3"
    by (cases a, cases b) blast
  obtain r0 c0 where e0: "sbb a0 b0 False = (r0, c0)" by fastforce
  obtain r1 c1 where e1: "sbb a1 b1 c0 = (r1, c1)" by fastforce
  obtain r2 c2 where e2: "sbb a2 b2 c1 = (r2, c2)" by fastforce
  obtain r3 c3 where e3: "sbb a3 b3 c2 = (r3, c3)" by fastforce
  have "r = FrRaw r0 r1 r2 r3" "c = c3" using assms ab e0 e1 e2 e3 by simp_all
  with ab sbb_eq [OF e0] sbb_eq [OF e1] sbb_eq [OF e2] sbb_eq [OF e3] show ?thesis by simp
qed

lemma sub4_borrow: "snd (sub4 a b) \<longleftrightarrow> rval a < rval b"
proof -
  obtain r c where rc: "sub4 a b = (r, c)" by fastforce
  show ?thesis using sub4_eq [OF rc] rval_bounds [of r] rc by (cases c) auto
qed

text \<open>The comparison chains of the code: from the top limb down, \<open>jc\<close> and \<open>jnz\<close>.\<close>

fun raw_lt :: "FrRaw \<Rightarrow> FrRaw \<Rightarrow> bool" where
  "raw_lt (FrRaw a0 a1 a2 a3) (FrRaw b0 b1 b2 b3) =
     (if a3 < b3 then True else if a3 \<noteq> b3 then False
      else if a2 < b2 then True else if a2 \<noteq> b2 then False
      else if a1 < b1 then True else if a1 \<noteq> b1 then False
      else a0 < b0)"

lemma limbs_lt:
  fixes lo hi lo' hi' k :: int
  assumes "0 \<le> lo" "lo < k" "0 \<le> lo'" "lo' < k"
  shows "lo + k * hi < lo' + k * hi' \<longleftrightarrow> hi < hi' \<or> hi = hi' \<and> lo < lo'"
proof -
  consider "hi < hi'" | "hi = hi'" | "hi' < hi" by linarith
  then show ?thesis
  proof cases
    case 1
    then have "k * (hi + 1) \<le> k * hi'" using assms by (intro mult_left_mono) auto
    then show ?thesis using 1 assms by (simp add: distrib_left)
  next
    case 2
    then show ?thesis by simp
  next
    case 3
    then have "k * (hi' + 1) \<le> k * hi" using assms by (intro mult_left_mono) auto
    then show ?thesis using 3 assms by (simp add: distrib_left)
  qed
qed

lemma raw_lt_iff: "raw_lt a b \<longleftrightarrow> rval a < rval b"
proof -
  obtain a0 a1 a2 a3 b0 b1 b2 b3 where ab: "a = FrRaw a0 a1 a2 a3" "b = FrRaw b0 b1 b2 b3"
    by (cases a, cases b) blast
  note bnds = uint64_bounds [of a0] uint64_bounds [of a1] uint64_bounds [of a2]
    uint64_bounds [of b0] uint64_bounds [of b1] uint64_bounds [of b2]
  have "rval a < rval b \<longleftrightarrow> uint a3 < uint b3 \<or> uint a3 = uint b3 \<and>
     uint a0 + 2 ^ 64 * uint a1 + 2 ^ 128 * uint a2 < uint b0 + 2 ^ 64 * uint b1 + 2 ^ 128 * uint b2"
    using bnds unfolding ab rval.simps by (intro limbs_lt) simp_all
  also have "uint a0 + 2 ^ 64 * uint a1 + 2 ^ 128 * uint a2
      < uint b0 + 2 ^ 64 * uint b1 + 2 ^ 128 * uint b2 \<longleftrightarrow>
    uint a2 < uint b2 \<or> uint a2 = uint b2 \<and> uint a0 + 2 ^ 64 * uint a1 < uint b0 + 2 ^ 64 * uint b1"
    using bnds by (intro limbs_lt) simp_all
  also have "uint a0 + 2 ^ 64 * uint a1 < uint b0 + 2 ^ 64 * uint b1 \<longleftrightarrow>
    uint a1 < uint b1 \<or> uint a1 = uint b1 \<and> uint a0 < uint b0"
    using bnds by (intro limbs_lt) simp_all
  finally show ?thesis by (auto simp: ab word_less_def word_uint_eq_iff)
qed


lemma rval_inject: "rval a = rval b \<longleftrightarrow> a = b"
proof
  assume "rval a = rval b"
  then have "\<not> raw_lt a b" "\<not> raw_lt b a" by (simp_all add: raw_lt_iff)
  then show "a = b" by (cases a; cases b) (auto split: if_splits)
qed simp


section \<open>Addition, subtraction and negation modulo q\<close>

text \<open>\<open>Fr_rawCopy\<close>, \<open>Fr_rawZero\<close>, \<open>Fr_rawIsEq\<close>, \<open>Fr_rawIsZero\<close>.\<close>

definition Fr_rawCopy :: "FrRaw \<Rightarrow> FrRaw" where
  "Fr_rawCopy a = a"

definition Fr_rawZero :: FrRaw where
  "Fr_rawZero = FrRaw 0 0 0 0"

fun Fr_rawIsEq :: "FrRaw \<Rightarrow> FrRaw \<Rightarrow> bool" where
  "Fr_rawIsEq (FrRaw a0 a1 a2 a3) (FrRaw b0 b1 b2 b3) =
     (if a0 \<noteq> b0 then False else if a1 \<noteq> b1 then False
      else if a2 \<noteq> b2 then False else if a3 \<noteq> b3 then False else True)"

fun Fr_rawIsZero :: "FrRaw \<Rightarrow> bool" where
  "Fr_rawIsZero (FrRaw a0 a1 a2 a3) =
     (if a0 \<noteq> 0 then False else if a1 \<noteq> 0 then False
      else if a2 \<noteq> 0 then False else if a3 \<noteq> 0 then False else True)"

text \<open>
  \<open>Fr_rawSwap\<close> keeps the destination's old limb in \<open>rcx\<close> but stores \<open>rbx\<close>, a register the
  routine never loads: the source operand receives the caller's \<open>rbx\<close> four times.
\<close>

definition Fr_rawSwap :: "u64 \<Rightarrow> FrRaw \<Rightarrow> FrRaw \<Rightarrow> FrRaw \<times> FrRaw" where
  "Fr_rawSwap rbx dst src = (src, FrRaw rbx rbx rbx rbx)"

text \<open>The shared endings: subtract \<open>q\<close> unless the value is below it; add \<open>q\<close> after a borrow.\<close>

definition sub_q :: "FrRaw \<Rightarrow> FrRaw" where
  "sub_q r = fst (sub4 r Fr_rawq)"

definition add_q :: "FrRaw \<Rightarrow> FrRaw" where
  "add_q r = fst (add4 r Fr_rawq)"

definition reduce_once :: "FrRaw \<Rightarrow> FrRaw" where
  "reduce_once r = (if raw_lt r Fr_rawq then r else sub_q r)"

definition Fr_rawAdd :: "FrRaw \<Rightarrow> FrRaw \<Rightarrow> FrRaw" where
  "Fr_rawAdd a b = (let (r, c) = add4 a b in if c then sub_q r else reduce_once r)"

definition rawAddLS :: "FrRaw \<Rightarrow> u64 \<Rightarrow> FrRaw" where
  "rawAddLS a b =
     (let (r, c) = add4 a (FrRaw b 0 0 0) in if c then sub_q r else reduce_once r)"

definition Fr_rawSub :: "FrRaw \<Rightarrow> FrRaw \<Rightarrow> FrRaw" where
  "Fr_rawSub a b = (let (r, c) = sub4 a b in if c then add_q r else r)"

definition rawSubLS :: "FrRaw \<Rightarrow> u64 \<Rightarrow> FrRaw" where
  "rawSubLS a b = (let (r, c) = sub4 a (FrRaw b 0 0 0) in if c then add_q r else r)"

definition rawSubSL :: "u64 \<Rightarrow> FrRaw \<Rightarrow> FrRaw" where
  "rawSubSL a b = (let (r, c) = sub4 (FrRaw a 0 0 0) b in if c then add_q r else r)"

definition rawNegLS :: "FrRaw \<Rightarrow> u64 \<Rightarrow> FrRaw" where
  "rawNegLS a b =
     (let (t, dl) = sub4 Fr_rawq (FrRaw b 0 0 0);
          (r, dh) = sub4 t a
      in if dl \<or> dh then add_q r else r)"

definition Fr_rawNeg :: "FrRaw \<Rightarrow> FrRaw" where
  "Fr_rawNeg a = (if Fr_rawIsZero a then Fr_rawZero else fst (sub4 Fr_rawq a))"

lemma rval_limb [simp]: "rval (FrRaw b 0 0 0) = uint b"
  by simp

lemma rval_Zero [simp]: "rval Fr_rawZero = 0"
  by (simp add: Fr_rawZero_def)

lemma Fr_rawIsEq_iff: "Fr_rawIsEq a b \<longleftrightarrow> rval a = rval b"
  by (cases a; cases b) (auto simp: rval_inject simp del: rval.simps)

lemma Fr_rawIsZero_iff: "Fr_rawIsZero a \<longleftrightarrow> rval a = 0"
  using rval_inject [of a Fr_rawZero] by (cases a) (auto simp: Fr_rawZero_def simp del: rval.simps)

lemma rval_sub4: "rval (fst (sub4 a b)) = (if rval a < rval b then rval a - rval b + 2 ^ 256 else rval a - rval b)"
proof -
  obtain r c where rc: "sub4 a b = (r, c)" by fastforce
  then show ?thesis using sub4_eq [OF rc] sub4_borrow [of a b] by (cases c) auto
qed

lemma rval_sub_q: "rval (sub_q r) = (if rval r < q_int then rval r - q_int + 2 ^ 256 else rval r - q_int)"
  by (simp add: sub_q_def rval_sub4 rval_q)

lemma rval_add_q_borrow:
  assumes "rval r = x + 2 ^ 256" "x < 0" "- q_int \<le> x"
  shows "rval (add_q r) = x + q_int"
proof -
  obtain t c where tc: "add4 r Fr_rawq = (t, c)" by fastforce
  with assms add4_eq [OF tc] rval_bounds [of t] q_int_bounds show ?thesis
    by (cases c) (auto simp: add_q_def rval_q)
qed

lemma reduce_once_mod:
  assumes "rval r < 2 * q_int"
  shows "rval (reduce_once r) = rval r mod q_int"
proof (cases "rval r < q_int")
  case True
  then show ?thesis using rval_bounds [of r] by (simp add: reduce_once_def raw_lt_iff rval_q)
next
  case False
  then show ?thesis using assms rval_bounds [of r]
    by (simp add: reduce_once_def raw_lt_iff rval_q rval_sub_q mod_sub_once)
qed

lemma Fr_rawAdd_mod:
  assumes "rval a < q_int" "rval b < q_int"
  shows "rval (Fr_rawAdd a b) = (rval a + rval b) mod q_int"
proof -
  obtain r c where rc: "add4 a b = (r, c)" by fastforce
  have "\<not> c" and eq: "rval r = rval a + rval b"
    using add4_eq [OF rc] assms rval_bounds [of r] q_int_bounds by (cases c; simp)+
  then show ?thesis using rc assms by (simp add: Fr_rawAdd_def reduce_once_mod)
qed

lemma rawAddLS_mod:
  assumes "rval a < q_int"
  shows "rval (rawAddLS a b) = (rval a + uint b) mod q_int"
proof -
  obtain r c where rc: "add4 a (FrRaw b 0 0 0) = (r, c)" by fastforce
  have "\<not> c" and eq: "rval r = rval a + uint b"
    using add4_eq [OF rc] assms rval_bounds [of r] q_int_bounds uint64_bounds [of b]
    by (cases c; simp del: rval.simps)+
  then show ?thesis using rc assms uint64_bounds [of b] q_int_bounds
    by (simp add: rawAddLS_def reduce_once_mod)
qed

lemma Fr_rawSub_mod:
  assumes "rval a < q_int" "rval b < q_int"
  shows "rval (Fr_rawSub a b) = (rval a - rval b) mod q_int"
proof -
  obtain r c where rc: "sub4 a b = (r, c)" by fastforce
  show ?thesis
  proof (cases c)
    case True
    then have "rval a - rval b < 0" and r: "rval r = rval a - rval b + 2 ^ 256"
      using sub4_borrow [of a b] sub4_eq [OF rc] rc by auto
    then show ?thesis using rc True assms rval_bounds [of a]
      by (simp add: Fr_rawSub_def rval_add_q_borrow [OF r] mod_add_once)
  next
    case False
    then show ?thesis using sub4_borrow [of a b] sub4_eq [OF rc] rc assms rval_bounds [of b]
      by (simp add: Fr_rawSub_def)
  qed
qed

lemma rawSubLS_eq: "rawSubLS a b = Fr_rawSub a (FrRaw b 0 0 0)"
  by (simp add: rawSubLS_def Fr_rawSub_def)

lemma rawSubSL_eq: "rawSubSL a b = Fr_rawSub (FrRaw a 0 0 0) b"
  by (simp add: rawSubSL_def Fr_rawSub_def)

lemma uint64_less_q: "uint (b :: u64) < q_int"
  using uint64_bounds [of b] q_int_bounds by simp

lemma rawNegLS_mod:
  assumes "rval a < q_int" "0 < uint b"
  shows "rval (rawNegLS a b) = (- uint b - rval a) mod q_int"
proof -
  obtain t dl where t: "sub4 Fr_rawq (FrRaw b 0 0 0) = (t, dl)" by fastforce
  obtain r dh where r: "sub4 t a = (r, dh)" by fastforce
  have "\<not> dl" using sub4_borrow [of Fr_rawq "FrRaw b 0 0 0"] t uint64_less_q [of b]
    by (simp add: rval_q del: rval.simps)
  then have tv: "rval t = q_int - uint b" using sub4_eq [OF t] by (simp add: rval_q del: rval.simps)
  have mod: "(- uint b - rval a) mod q_int = (q_int - uint b - rval a) mod q_int"
    using mod_add_self1 [of q_int "- uint b - rval a"] by (simp add: algebra_simps)
  show ?thesis
  proof (cases dh)
    case True
    then have "rval t - rval a < 0" and rv: "rval r = rval t - rval a + 2 ^ 256"
      using sub4_borrow [of t a] sub4_eq [OF r] r by auto
    then show ?thesis using r t True assms uint64_less_q [of b] rval_bounds [of t]
      by (simp add: rawNegLS_def rval_add_q_borrow [OF rv] mod tv mod_add_once)
  next
    case False
    then have "0 \<le> rval t - rval a" and rv: "rval r = rval t - rval a"
      using sub4_borrow [of t a] sub4_eq [OF r] r by auto
    then show ?thesis using r t False \<open>\<not> dl\<close> tv assms(2) rval_bounds [of a]
      by (simp add: rawNegLS_def mod)
  qed
qed

lemma Fr_rawNeg_mod:
  assumes "rval a < q_int"
  shows "rval (Fr_rawNeg a) = (- rval a) mod q_int"
proof (cases "rval a = 0")
  case True
  then show ?thesis by (simp add: Fr_rawNeg_def Fr_rawIsZero_iff)
next
  case False
  then have "(- rval a) mod q_int = - rval a + q_int"
    using assms rval_bounds [of a] by (intro mod_add_once) auto
  then show ?thesis using False assms
    by (simp add: Fr_rawNeg_def Fr_rawIsZero_iff rval_sub4 rval_q)
qed

section \<open>Montgomery multiplication\<close>

text \<open>
  The five registers \<open>r11 \<dots> r15\<close> hold the running value; \<open>CF\<close> is the chain of \<open>adcx\<close>, \<open>OF\<close>
  that of \<open>adox\<close>. The flags are carried from row to row as in the code, which never clears them
  after the first \<open>xor\<close>.
\<close>

type_synonym acc = "u64 \<times> u64 \<times> u64 \<times> u64 \<times> u64 \<times> bool \<times> bool"

text \<open>The first \<open>FirstLoop\<close>: the product of one word with four limbs.\<close>

fun mul_row_first :: "u64 \<Rightarrow> FrRaw \<Rightarrow> acc" where
  "mul_row_first rdx (FrRaw b0 b1 b2 b3) =
     (let (rax, r11) = mulx rdx b0;
          (r8, r12) = mulx rdx b1;
          (r12, cf) = adc r12 rax False;
          (rax, r13) = mulx rdx b2;
          (r13, cf) = adc r13 r8 cf;
          (r8, r14) = mulx rdx b3;
          (r14, cf) = adc r14 rax cf;
          (r15, cf) = adc 0 r8 cf
      in (r11, r12, r13, r14, r15, cf, False))"

text \<open>The later \<open>FirstLoop\<close>s: add the product of one word with four limbs to \<open>r11 \<dots> r14\<close>.\<close>

fun mul_row :: "u64 \<Rightarrow> FrRaw \<Rightarrow> acc \<Rightarrow> acc" where
  "mul_row rdx (FrRaw b0 b1 b2 b3) (r11, r12, r13, r14, r15, cf, ovf) =
     (let (r8, rax) = mulx rdx b0;
          (r11, cf) = adc r11 rax cf;
          (r12, ovf) = adc r12 r8 ovf;
          (r8, rax) = mulx rdx b1;
          (r12, cf) = adc r12 rax cf;
          (r13, ovf) = adc r13 r8 ovf;
          (r8, rax) = mulx rdx b2;
          (r13, cf) = adc r13 rax cf;
          (r14, ovf) = adc r14 r8 ovf;
          (r8, rax) = mulx rdx b3;
          (r14, cf) = adc r14 rax cf;
          (r15, ovf) = adc 0 r8 ovf;
          (r15, cf) = adc r15 0 cf
      in (r11, r12, r13, r14, r15, cf, ovf))"

text \<open>\<open>SecondLoop\<close>: add the multiple of \<open>q\<close> that clears the lowest limb, and drop that limb.\<close>

fun reduce_row :: "acc \<Rightarrow> acc" where
  "reduce_row (r11, r12, r13, r14, r15, cf, ovf) =
     (case Fr_rawq of FrRaw q0 q1 q2 q3 \<Rightarrow>
       let (rax, rdx) = mulx raw_np r11;
           (r8, rax) = mulx rdx q0;
           (rax, cf) = adc rax r11 cf;
           (rax, r11) = mulx rdx q1;
           (r11, cf) = adc r11 r8 cf;
           (r11, ovf) = adc r11 r12 ovf;
           (r8, r12) = mulx rdx q2;
           (r12, cf) = adc r12 rax cf;
           (r12, ovf) = adc r12 r13 ovf;
           (rax, r13) = mulx rdx q3;
           (r13, cf) = adc r13 r8 cf;
           (r13, ovf) = adc r13 r14 ovf;
           (r14, cf) = adc 0 rax cf;
           (r14, ovf) = adc r14 r15 ovf
       in (r11, r12, r13, r14, 0, cf, ovf))"

fun acc_raw :: "acc \<Rightarrow> FrRaw" where
  "acc_raw (r11, r12, r13, r14, r15, cf, ovf) = FrRaw r11 r12 r13 r14"

fun acc_val :: "acc \<Rightarrow> int" where
  "acc_val (r11, r12, r13, r14, r15, cf, ovf) =
     uint r11 + 2 ^ 64 * uint r12 + 2 ^ 128 * uint r13 + 2 ^ 192 * uint r14 + 2 ^ 256 * uint r15"

text \<open>Between rows both flags are clear, and after a reduction the fifth register is zero.\<close>

fun acc_clear :: "acc \<Rightarrow> bool" where
  "acc_clear (r11, r12, r13, r14, r15, cf, ovf) \<longleftrightarrow> \<not> cf \<and> \<not> ovf"

fun acc_four :: "acc \<Rightarrow> bool" where
  "acc_four (r11, r12, r13, r14, r15, cf, ovf) \<longleftrightarrow> \<not> cf \<and> \<not> ovf \<and> r15 = 0"

fun Fr_rawMMul :: "FrRaw \<Rightarrow> FrRaw \<Rightarrow> FrRaw" where
  "Fr_rawMMul (FrRaw a0 a1 a2 a3) b =
     reduce_once (acc_raw
       (reduce_row (mul_row a3 b
         (reduce_row (mul_row a2 b
           (reduce_row (mul_row a1 b
             (reduce_row (mul_row_first a0 b)))))))))"

text \<open>\<open>Fr_rawMSquare\<close> is the same row sequence with both operands at \<open>rsi\<close>.\<close>

definition Fr_rawMSquare :: "FrRaw \<Rightarrow> FrRaw" where
  "Fr_rawMSquare a = Fr_rawMMul a a"

definition Fr_rawMMul1 :: "FrRaw \<Rightarrow> u64 \<Rightarrow> FrRaw" where
  "Fr_rawMMul1 a b =
     reduce_once (acc_raw (reduce_row (reduce_row (reduce_row (reduce_row (mul_row_first b a))))))"

fun Fr_rawFromMontgomery :: "FrRaw \<Rightarrow> FrRaw" where
  "Fr_rawFromMontgomery (FrRaw a0 a1 a2 a3) =
     reduce_once (acc_raw
       (reduce_row (reduce_row (reduce_row (reduce_row (a0, a1, a2, a3, 0, False, False))))))"

definition Fr_rawToMontgomery :: "FrRaw \<Rightarrow> FrRaw" where
  "Fr_rawToMontgomery a = Fr_rawMMul a raw_R2"

subsection \<open>One row at a time\<close>

lemma mul_row_first_val:
  "acc_val (mul_row_first a b) = uint a * rval b \<and> acc_clear (mul_row_first a b)"
proof -
  obtain b0 b1 b2 b3 where b: "b = FrRaw b0 b1 b2 b3" by (cases b)
  obtain h0 r11 where m0: "mulx a b0 = (h0, r11)" by fastforce
  obtain h1 l1 where m1: "mulx a b1 = (h1, l1)" by fastforce
  obtain r12 c1 where s1: "adc l1 h0 False = (r12, c1)" by fastforce
  obtain h2 l2 where m2: "mulx a b2 = (h2, l2)" by fastforce
  obtain r13 c2 where s2: "adc l2 h1 c1 = (r13, c2)" by fastforce
  obtain h3 l3 where m3: "mulx a b3 = (h3, l3)" by fastforce
  obtain r14 c3 where s3: "adc l3 h2 c2 = (r14, c3)" by fastforce
  obtain r15 c4 where s4: "adc 0 h3 c3 = (r15, c4)" by fastforce
  have res: "mul_row_first a b = (r11, r12, r13, r14, r15, c4, False)"
    by (simp add: b m0 m1 s1 m2 s2 m3 s3 s4)
  note eqs = mulx_eq [OF m0] mulx_eq [OF m1] mulx_eq [OF m2] mulx_eq [OF m3]
    adc_eq [OF s1] adc_eq [OF s2] adc_eq [OF s3] adc_eq [OF s4]
  have prod: "uint a * rval b = uint a * uint b0 + 18446744073709551616 * (uint a * uint b1)
      + 340282366920938463463374607431768211456 * (uint a * uint b2)
      + 6277101735386680763835789423207666416102355444464034512896 * (uint a * uint b3)"
    by (simp add: b algebra_simps)
  have tot: "acc_val (mul_row_first a b) + 2 ^ 320 * of_bool c4 = uint a * rval b"
    using eqs unfolding prod by (simp add: res)
  have "uint a * rval b < 2 ^ 64 * 2 ^ 256"
    using uint64_bounds [of a] rval_bounds [of b] by (intro mult_strict_mono') simp_all
  moreover have "0 \<le> acc_val (mul_row_first a b)"
    by (simp add: res)
  ultimately have "\<not> c4" using tot by (cases c4) auto
  with tot res show ?thesis by simp
qed

lemma mul_row_val:
  assumes "acc_four u"
  shows "acc_val (mul_row a b u) = acc_val u + uint a * rval b \<and> acc_clear (mul_row a b u)"
proof -
  obtain b0 b1 b2 b3 where b: "b = FrRaw b0 b1 b2 b3" by (cases b)
  obtain u1 u2 u3 u4 where u: "u = (u1, u2, u3, u4, 0, False, False)"
    using assms by (cases u) auto
  obtain h0 l0 where m0: "mulx a b0 = (h0, l0)" by fastforce
  obtain r11 c0 where s0: "adc u1 l0 False = (r11, c0)" by fastforce
  obtain x12 o0 where t0: "adc u2 h0 False = (x12, o0)" by fastforce
  obtain h1 l1 where m1: "mulx a b1 = (h1, l1)" by fastforce
  obtain r12 c1 where s1: "adc x12 l1 c0 = (r12, c1)" by fastforce
  obtain x13 o1 where t1: "adc u3 h1 o0 = (x13, o1)" by fastforce
  obtain h2 l2 where m2: "mulx a b2 = (h2, l2)" by fastforce
  obtain r13 c2 where s2: "adc x13 l2 c1 = (r13, c2)" by fastforce
  obtain x14 o2 where t2: "adc u4 h2 o1 = (x14, o2)" by fastforce
  obtain h3 l3 where m3: "mulx a b3 = (h3, l3)" by fastforce
  obtain r14 c3 where s3: "adc x14 l3 c2 = (r14, c3)" by fastforce
  obtain x15 o3 where t3: "adc 0 h3 o2 = (x15, o3)" by fastforce
  obtain r15 c4 where s4: "adc x15 0 c3 = (r15, c4)" by fastforce
  have res: "mul_row a b u = (r11, r12, r13, r14, r15, c4, o3)"
    by (simp add: b u m0 s0 t0 m1 s1 t1 m2 s2 t2 m3 s3 t3 s4)
  note eqs = mulx_eq [OF m0] mulx_eq [OF m1] mulx_eq [OF m2] mulx_eq [OF m3]
    adc_eq [OF s0] adc_eq [OF s1] adc_eq [OF s2] adc_eq [OF s3] adc_eq [OF s4]
    adc_eq [OF t0] adc_eq [OF t1] adc_eq [OF t2] adc_eq [OF t3]
  have prod: "uint a * rval b = uint a * uint b0 + 18446744073709551616 * (uint a * uint b1)
      + 340282366920938463463374607431768211456 * (uint a * uint b2)
      + 6277101735386680763835789423207666416102355444464034512896 * (uint a * uint b3)"
    by (simp add: b algebra_simps)
  have tot: "acc_val (mul_row a b u) + 2 ^ 320 * (of_bool c4 + of_bool o3) = acc_val u + uint a * rval b"
    using eqs unfolding prod res unfolding u by simp
  have "uint a * rval b \<le> (2 ^ 64 - 1) * (2 ^ 256 - 1)"
    using uint64_bounds [of a] rval_bounds [of b] by (intro mult_mono) simp_all
  moreover have "acc_val u < 2 ^ 256"
    using rval_bounds [of "acc_raw u"] by (simp add: u)
  ultimately have "acc_val u + uint a * rval b < 2 ^ 320" by simp
  moreover have "0 \<le> acc_val (mul_row a b u)"
    by (simp add: res)
  ultimately have "\<not> c4 \<and> \<not> o3" using tot by (cases c4; cases o3) auto
  with tot res show ?thesis by simp
qed

lemma reduce_row_val:
  assumes clear: "acc_clear u" and bound: "acc_val u + 2 ^ 64 * q_int \<le> 2 ^ 320"
  obtains m where "0 \<le> m" "m < 2 ^ 64"
    "2 ^ 64 * acc_val (reduce_row u) = acc_val u + m * q_int" "acc_four (reduce_row u)"
proof -
  obtain q0 q1 q2 q3 where q: "Fr_rawq = FrRaw q0 q1 q2 q3"
    and qv: "uint q0 = 0x43e1f593f0000001" "uint q1 = 0x2833e84879b97091"
      "uint q2 = 0xb85045b68181585d" "uint q3 = 0x30644e72e131a029"
    by (simp add: Fr_rawq_def)
  obtain u1 u2 u3 u4 u5 where u: "u = (u1, u2, u3, u4, u5, False, False)"
    using clear by (cases u) auto
  obtain h m where mm: "mulx raw_np u1 = (h, m)" by fastforce
  obtain h0 l0 where m0: "mulx m q0 = (h0, l0)" by fastforce
  obtain r10 c0 where s0: "adc l0 u1 False = (r10, c0)" by fastforce
  obtain h1 l1 where m1: "mulx m q1 = (h1, l1)" by fastforce
  obtain x11 c1 where s1: "adc l1 h0 c0 = (x11, c1)" by fastforce
  obtain r11 o1 where t1: "adc x11 u2 False = (r11, o1)" by fastforce
  obtain h2 l2 where m2: "mulx m q2 = (h2, l2)" by fastforce
  obtain x12 c2 where s2: "adc l2 h1 c1 = (x12, c2)" by fastforce
  obtain r12 o2 where t2: "adc x12 u3 o1 = (r12, o2)" by fastforce
  obtain h3 l3 where m3: "mulx m q3 = (h3, l3)" by fastforce
  obtain x13 c3 where s3: "adc l3 h2 c2 = (x13, c3)" by fastforce
  obtain r13 o3 where t3: "adc x13 u4 o2 = (r13, o3)" by fastforce
  obtain x14 c4 where s4: "adc 0 h3 c3 = (x14, c4)" by fastforce
  obtain r14 o4 where t4: "adc x14 u5 o3 = (r14, o4)" by fastforce
  have res: "reduce_row u = (r11, r12, r13, r14, 0, c4, o4)"
    by (simp add: q u mm m0 s0 m1 s1 t1 m2 s2 t2 m3 s3 t3 s4 t4)
  have "r10 = m * q0 + u1" using s0 m0 by (auto simp: adc_def mulx_def)
  also have "\<dots> = u1 * (raw_np * q0 + 1)" using mm by (auto simp: mulx_def algebra_simps)
  also have "raw_np * q0 + 1 = 0" using q by (simp add: raw_np_def Fr_rawq_def)
  finally have r10: "r10 = 0" by simp
  note eqs = mulx_eq [OF m0] mulx_eq [OF m1] mulx_eq [OF m2] mulx_eq [OF m3]
    adc_eq [OF s0] adc_eq [OF s1] adc_eq [OF s2] adc_eq [OF s3] adc_eq [OF s4]
    adc_eq [OF t1] adc_eq [OF t2] adc_eq [OF t3] adc_eq [OF t4]
  have tot: "2 ^ 64 * acc_val (reduce_row u) + 2 ^ 320 * (of_bool c4 + of_bool o4)
      = acc_val u + uint m * q_int"
    using eqs unfolding res unfolding u r10 qv q_int_def by simp
  have "uint m * q_int < 2 ^ 64 * q_int"
    using uint64_bounds [of m] q_int_bounds by (intro mult_strict_right_mono) simp_all
  with bound have "acc_val u + uint m * q_int < 2 ^ 320" by simp
  moreover have "0 \<le> acc_val (reduce_row u)"
    by (simp add: res)
  ultimately have "\<not> c4 \<and> \<not> o4" using tot by (cases c4; cases o4) auto
  with tot res that [of "uint m"] uint64_bounds [of m] show ?thesis by simp
qed

subsection \<open>Whole products\<close>

lemma acc_raw_val: "acc_four u \<Longrightarrow> rval (acc_raw u) = acc_val u"
  by (cases u) simp

lemma acc_four_clear: "acc_four u \<Longrightarrow> acc_clear u"
  by (cases u) simp

lemma mont_cancel:
  assumes "2 ^ 256 * u = x + m * q_int"
  shows "u mod q_int = x * Rinv mod q_int"
proof -
  have "x * Rinv = u * (2 ^ 256 * Rinv) - q_int * (m * Rinv)"
    using assms by (simp add: algebra_simps)
  then have "x * Rinv mod q_int = u * (2 ^ 256 * Rinv) mod q_int"
    by (simp add: mod_diff_right_eq [symmetric] mod_diff_eq)
  also have "\<dots> = u * (2 ^ 256 * Rinv mod q_int) mod q_int"
    by (simp add: mod_mult_right_eq)
  finally show ?thesis by (simp only: Rinv_inverse mult_1_right)
qed

text \<open>The value after a row stays below \<open>2 * q\<close>, so one conditional subtraction ends the routine.\<close>

lemma reduce_row_next:
  assumes clear: "acc_clear u" and bound: "acc_val u < (2 ^ 64 + 1) * q_int"
  obtains m where "2 ^ 64 * acc_val (reduce_row u) = acc_val u + m * q_int"
    "acc_four (reduce_row u)" "acc_val (reduce_row u) < 2 * q_int"
proof -
  have "acc_val u + 2 ^ 64 * q_int \<le> 2 ^ 320" using bound by (simp add: q_int_def)
  then obtain m where m: "0 \<le> m" "m < 2 ^ 64"
    "2 ^ 64 * acc_val (reduce_row u) = acc_val u + m * q_int" "acc_four (reduce_row u)"
    by (rule reduce_row_val [OF clear])
  have "m * q_int \<le> (2 ^ 64 - 1) * q_int"
    using m q_int_bounds by (intro mult_right_mono) simp_all
  with bound m(3) have "2 ^ 64 * acc_val (reduce_row u) < 2 ^ 64 * (2 * q_int)" by simp
  then have "acc_val (reduce_row u) < 2 * q_int" by simp
  with m that show ?thesis by blast
qed

lemma mul_reduce_next:
  assumes four: "acc_four u" and small: "acc_val u < 2 * q_int" and b: "rval b < q_int"
  obtains m where "2 ^ 64 * acc_val (reduce_row (mul_row a b u)) = acc_val u + uint a * rval b + m * q_int"
    "acc_four (reduce_row (mul_row a b u))" "acc_val (reduce_row (mul_row a b u)) < 2 * q_int"
proof -
  note mv = mul_row_val [OF four, of a b]
  have "uint a * rval b \<le> (2 ^ 64 - 1) * q_int"
    using b uint64_bounds [of a] rval_bounds [of b] by (intro mult_mono) simp_all
  with small mv have "acc_val (mul_row a b u) < (2 ^ 64 + 1) * q_int" by simp
  with mv that show ?thesis by (metis reduce_row_next)
qed

lemma mul_first_reduce:
  assumes b: "rval b < q_int"
  obtains m where "2 ^ 64 * acc_val (reduce_row (mul_row_first a b)) = uint a * rval b + m * q_int"
    "acc_four (reduce_row (mul_row_first a b))" "acc_val (reduce_row (mul_row_first a b)) < 2 * q_int"
proof -
  note mv = mul_row_first_val [of a b]
  have "uint a * rval b \<le> (2 ^ 64 - 1) * q_int"
    using b uint64_bounds [of a] rval_bounds [of b] by (intro mult_mono) simp_all
  then have "uint a * rval b < (2 ^ 64 + 1) * q_int" using q_int_bounds by simp
  with mv that show ?thesis by (metis reduce_row_next)
qed

lemma finish_mod:
  assumes "acc_four u" "acc_val u < 2 * q_int" "2 ^ 256 * acc_val u = x + m * q_int"
  shows "rval (reduce_once (acc_raw u)) = x * Rinv mod q_int"
  using assms by (simp add: reduce_once_mod acc_raw_val mont_cancel)

lemma Fr_rawMMul_mod:
  assumes b: "rval b < q_int"
  shows "rval (Fr_rawMMul a b) = rval a * rval b * Rinv mod q_int"
proof -
  obtain a0 a1 a2 a3 where a: "a = FrRaw a0 a1 a2 a3" by (cases a)
  let ?u0 = "reduce_row (mul_row_first a0 b)"
  let ?u1 = "reduce_row (mul_row a1 b ?u0)"
  let ?u2 = "reduce_row (mul_row a2 b ?u1)"
  let ?u3 = "reduce_row (mul_row a3 b ?u2)"
  obtain m0 where u0: "2 ^ 64 * acc_val ?u0 = uint a0 * rval b + m0 * q_int"
    "acc_four ?u0" "acc_val ?u0 < 2 * q_int"
    by (rule mul_first_reduce [OF b])
  obtain m1 where u1: "2 ^ 64 * acc_val ?u1 = acc_val ?u0 + uint a1 * rval b + m1 * q_int"
    "acc_four ?u1" "acc_val ?u1 < 2 * q_int"
    by (rule mul_reduce_next [OF u0(2,3) b])
  obtain m2 where u2: "2 ^ 64 * acc_val ?u2 = acc_val ?u1 + uint a2 * rval b + m2 * q_int"
    "acc_four ?u2" "acc_val ?u2 < 2 * q_int"
    by (rule mul_reduce_next [OF u1(2,3) b])
  obtain m3 where u3: "2 ^ 64 * acc_val ?u3 = acc_val ?u2 + uint a3 * rval b + m3 * q_int"
    "acc_four ?u3" "acc_val ?u3 < 2 * q_int"
    by (rule mul_reduce_next [OF u2(2,3) b])
  have "2 ^ 256 * acc_val ?u3
      = rval a * rval b + (m0 + 2 ^ 64 * m1 + 2 ^ 128 * m2 + 2 ^ 192 * m3) * q_int"
    using u0(1) u1(1) u2(1) u3(1) by (simp add: a algebra_simps)
  then show ?thesis using u3(2,3) by (simp add: a finish_mod)
qed

lemma Fr_rawMSquare_mod:
  "rval a < q_int \<Longrightarrow> rval (Fr_rawMSquare a) = rval a * rval a * Rinv mod q_int"
  by (simp add: Fr_rawMSquare_def Fr_rawMMul_mod)

lemma reduce_four_rows:
  assumes "acc_clear u" "acc_val u < (2 ^ 64 + 1) * q_int"
  shows "rval (reduce_once (acc_raw (reduce_row (reduce_row (reduce_row (reduce_row u))))))
    = acc_val u * Rinv mod q_int"
proof -
  let ?u0 = "reduce_row u"
  let ?u1 = "reduce_row ?u0"
  let ?u2 = "reduce_row ?u1"
  let ?u3 = "reduce_row ?u2"
  have weak: "x < (2 ^ 64 + 1) * q_int" if "x < 2 * q_int" for x
    using that q_int_bounds by simp
  obtain m0 where u0: "2 ^ 64 * acc_val ?u0 = acc_val u + m0 * q_int"
    "acc_four ?u0" "acc_val ?u0 < 2 * q_int"
    by (rule reduce_row_next [OF assms])
  obtain m1 where u1: "2 ^ 64 * acc_val ?u1 = acc_val ?u0 + m1 * q_int"
    "acc_four ?u1" "acc_val ?u1 < 2 * q_int"
    by (rule reduce_row_next [OF acc_four_clear [OF u0(2)] weak [OF u0(3)]])
  obtain m2 where u2: "2 ^ 64 * acc_val ?u2 = acc_val ?u1 + m2 * q_int"
    "acc_four ?u2" "acc_val ?u2 < 2 * q_int"
    by (rule reduce_row_next [OF acc_four_clear [OF u1(2)] weak [OF u1(3)]])
  obtain m3 where u3: "2 ^ 64 * acc_val ?u3 = acc_val ?u2 + m3 * q_int"
    "acc_four ?u3" "acc_val ?u3 < 2 * q_int"
    by (rule reduce_row_next [OF acc_four_clear [OF u2(2)] weak [OF u2(3)]])
  have "2 ^ 256 * acc_val ?u3
      = acc_val u + (m0 + 2 ^ 64 * m1 + 2 ^ 128 * m2 + 2 ^ 192 * m3) * q_int"
    using u0(1) u1(1) u2(1) u3(1) by (simp add: algebra_simps)
  then show ?thesis using u3(2,3) by (simp add: finish_mod)
qed

lemma Fr_rawMMul1_mod:
  assumes "rval a < q_int"
  shows "rval (Fr_rawMMul1 a b) = rval a * uint b * Rinv mod q_int"
proof -
  have "uint b * rval a \<le> (2 ^ 64 - 1) * q_int"
    using assms uint64_bounds [of b] rval_bounds [of a] by (intro mult_mono) simp_all
  then have "acc_val (mul_row_first b a) < (2 ^ 64 + 1) * q_int"
    using mul_row_first_val [of b a] q_int_bounds by simp
  then show ?thesis using mul_row_first_val [of b a]
    by (simp add: Fr_rawMMul1_def reduce_four_rows mult.commute)
qed

lemma Fr_rawFromMontgomery_mod: "rval (Fr_rawFromMontgomery a) = rval a * Rinv mod q_int"
proof -
  obtain a0 a1 a2 a3 where a: "a = FrRaw a0 a1 a2 a3" by (cases a)
  have "rval a < (2 ^ 64 + 1) * q_int" using rval_bounds [of a] by (simp add: q_int_def)
  then show ?thesis using reduce_four_rows [of "(a0, a1, a2, a3, 0, False, False)"] by (simp add: a)
qed

lemma R2_Rinv: "x * rval raw_R2 * Rinv mod q_int = x * 2 ^ 256 mod q_int"
proof -
  have "x * rval raw_R2 * Rinv mod q_int = x * 2 ^ 512 * Rinv mod q_int"
    unfolding rval_R2 by (metis mod_mult_left_eq mod_mult_right_eq)
  also have "x * 2 ^ 512 * Rinv = x * 2 ^ 256 * (2 ^ 256 * Rinv)"
    by simp
  also have "\<dots> mod q_int = x * 2 ^ 256 * (2 ^ 256 * Rinv mod q_int) mod q_int"
    by (simp only: mod_mult_right_eq)
  finally show ?thesis by (simp only: Rinv_inverse mult_1_right)
qed

lemma R3_Rinv: "x * rval Fr_rawR3 * Rinv mod q_int = x * 2 ^ 512 mod q_int"
proof -
  have "x * rval Fr_rawR3 * Rinv mod q_int = x * 2 ^ 768 * Rinv mod q_int"
    unfolding rval_R3 by (metis mod_mult_left_eq mod_mult_right_eq)
  also have "x * 2 ^ 768 * Rinv = x * 2 ^ 512 * (2 ^ 256 * Rinv)"
    by simp
  also have "\<dots> mod q_int = x * 2 ^ 512 * (2 ^ 256 * Rinv mod q_int) mod q_int"
    by (simp only: mod_mult_right_eq)
  finally show ?thesis by (simp only: Rinv_inverse mult_1_right)
qed

lemma rval_R2_less: "rval raw_R2 < q_int"
  by (simp add: raw_R2_def q_int_def)

lemma rval_R3_less: "rval Fr_rawR3 < q_int"
  by (simp add: Fr_rawR3_def q_int_def)

lemma Fr_rawToMontgomery_mod: "rval (Fr_rawToMontgomery a) = rval a * 2 ^ 256 mod q_int"
  by (simp only: Fr_rawToMontgomery_def Fr_rawMMul_mod [OF rval_R2_less] R2_Rinv)

lemma Fr_rawFromTo: 
  assumes "rval a < q_int"
  shows "Fr_rawFromMontgomery (Fr_rawToMontgomery a) = a"
proof -
  have "rval (Fr_rawFromMontgomery (Fr_rawToMontgomery a)) = rval a * (2 ^ 256 * Rinv mod q_int) mod q_int"
    by (simp only: Fr_rawFromMontgomery_mod Fr_rawToMontgomery_mod mod_simps mult.assoc)
  also have "\<dots> = rval a" using assms rval_bounds [of a] by (simp only: Rinv_inverse) simp
  finally show ?thesis by (simp only: rval_inject)
qed

end
