(* ===== verification/Fr_Elem.thy ===== *)
theory Fr_Elem
  imports Fr_Raw
begin

text \<open>
  Field elements in their four representations and the element-level operations of
  \<open>circuit_cpp/fr.asm\<close> (\<open>Fr_add\<close>, \<open>Fr_sub\<close>, \<open>Fr_neg\<close>, \<open>Fr_mul\<close>, \<open>Fr_square\<close>, the
  comparisons, the boolean operations, the conversions and \<open>Fr_toInt\<close>), branch by branch.

  The struct \<open>FrElement\<close> of \<open>fr.hpp\<close> is a tagged union: bit 31 of \<open>type\<close> selects short or
  long, bit 30 says that \<open>longVal\<close> holds the Montgomery form. The datatype has one constructor
  per tag, with the fields that are live under that tag. Fields that are dead under a tag keep
  stale bytes in memory; no routine reads them.
\<close>

section \<open>Representations\<close>

datatype FrElement =
    Fr_SHORT "32 word"
  | Fr_SHORTMONTGOMERY "32 word" FrRaw
  | Fr_LONG FrRaw
  | Fr_LONGMONTGOMERY FrRaw

text \<open>The value an element stands for, and when a representation is a legal one.\<close>

fun fval :: "FrElement \<Rightarrow> int" where
  "fval (Fr_SHORT s) = sint s mod q_int"
| "fval (Fr_SHORTMONTGOMERY s m) = sint s mod q_int"
| "fval (Fr_LONG l) = rval l mod q_int"
| "fval (Fr_LONGMONTGOMERY m) = rval m * Rinv mod q_int"

fun fok :: "FrElement \<Rightarrow> bool" where
  "fok (Fr_SHORT s) = True"
| "fok (Fr_SHORTMONTGOMERY s m) = (rval m = sint s * 2 ^ 256 mod q_int)"
| "fok (Fr_LONG l) = (rval l < q_int)"
| "fok (Fr_LONGMONTGOMERY m) = (rval m < q_int)"

text \<open>\<open>movsx\<close>: a 32-bit value sign-extended to 64 bits.\<close>

definition movsx :: "32 word \<Rightarrow> u64" where
  "movsx s = scast s"

section \<open>Conversions\<close>

text \<open>\<open>rawCopyS2L\<close>: a signed 64-bit value as a long element; a negative one has \<open>q\<close> added.\<close>

definition rawCopyS2L :: "u64 \<Rightarrow> FrElement" where
  "rawCopyS2L v =
     (if sint v < 0 then Fr_LONG (fst (add4 (FrRaw v (-1) (-1) (-1)) Fr_rawq))
      else Fr_LONG (FrRaw v 0 0 0))"

text \<open>Multiplication of a long element by a short one, done on the absolute value.\<close>

definition rawMMulS :: "FrRaw \<Rightarrow> 32 word \<Rightarrow> FrRaw" where
  "rawMMulS l s =
     (if sint s < 0 then Fr_rawNeg (Fr_rawMMul1 l (- movsx s)) else Fr_rawMMul1 l (movsx s))"

fun Fr_toMontgomery :: "FrElement \<Rightarrow> FrElement" where
  "Fr_toMontgomery (Fr_SHORT s) = Fr_SHORTMONTGOMERY s (rawMMulS raw_R2 s)"
| "Fr_toMontgomery (Fr_SHORTMONTGOMERY s m) = Fr_SHORTMONTGOMERY s m"
| "Fr_toMontgomery (Fr_LONG l) = Fr_LONGMONTGOMERY (Fr_rawMMul l raw_R2)"
| "Fr_toMontgomery (Fr_LONGMONTGOMERY m) = Fr_LONGMONTGOMERY m"

fun Fr_toNormal :: "FrElement \<Rightarrow> FrElement" where
  "Fr_toNormal (Fr_LONGMONTGOMERY m) = Fr_LONG (Fr_rawFromMontgomery m)"
| "Fr_toNormal e = e"

fun Fr_toLongNormal :: "FrElement \<Rightarrow> FrElement" where
  "Fr_toLongNormal (Fr_SHORT s) = rawCopyS2L (movsx s)"
| "Fr_toLongNormal (Fr_SHORTMONTGOMERY s m) = rawCopyS2L (movsx s)"
| "Fr_toLongNormal (Fr_LONG l) = Fr_LONG l"
| "Fr_toLongNormal (Fr_LONGMONTGOMERY m) = Fr_LONG (Fr_rawFromMontgomery m)"

text \<open>The \<open>longVal\<close> field, as the callers of the conversions read it.\<close>

fun longVal :: "FrElement \<Rightarrow> FrRaw" where
  "longVal (Fr_SHORT s) = Fr_rawZero"
| "longVal (Fr_SHORTMONTGOMERY s m) = m"
| "longVal (Fr_LONG l) = l"
| "longVal (Fr_LONGMONTGOMERY m) = m"

definition Fr_copy :: "FrElement \<Rightarrow> FrElement" where
  "Fr_copy a = a"

text \<open>
  \<open>Fr_toInt\<close>: a short element is its value; a long one must be below \<open>2 ^ 31\<close> or at most
  \<open>2 ^ 31\<close> below \<open>q\<close>, otherwise \<open>Fr_fail\<close> is called.
\<close>

fun long_toInt :: "FrRaw \<Rightarrow> cerr + int" where
  "long_toInt (FrRaw a0 a1 a2 a3) =
     (if drop_bit 31 a0 = 0 \<and> a1 = 0 \<and> a2 = 0 \<and> a3 = 0 then Inr (uint a0)
      else case Fr_rawq of FrRaw q0 q1 q2 q3 \<Rightarrow>
        let (r, c0) = sbb a0 q0 False; (_, c1) = sbb a1 q1 c0;
            (_, c2) = sbb a2 q2 c1; (_, c3) = sbb a3 q3 c2
        in if c0 \<and> c1 \<and> c2 \<and> c3 \<and> signed_drop_bit 31 r + 1 = 0 then Inr (sint r) else Inl FrFail)"

fun Fr_toInt :: "FrElement \<Rightarrow> cerr + int" where
  "Fr_toInt (Fr_SHORT s) = Inr (sint s)"
| "Fr_toInt (Fr_SHORTMONTGOMERY s m) = Inr (sint s)"
| "Fr_toInt (Fr_LONG l) = long_toInt l"
| "Fr_toInt (Fr_LONGMONTGOMERY m) = long_toInt (Fr_rawFromMontgomery m)"

section \<open>Arithmetic\<close>

text \<open>Two short operands: 32-bit arithmetic, redone in 64 bits after a signed overflow.\<close>

definition fits32 :: "int \<Rightarrow> bool" where
  "fits32 x \<longleftrightarrow> - (2 ^ 31) \<le> x \<and> x < 2 ^ 31"

definition add_s1s2 :: "32 word \<Rightarrow> 32 word \<Rightarrow> FrElement" where
  "add_s1s2 a b =
     (if fits32 (sint a + sint b) then Fr_SHORT (a + b) else rawCopyS2L (movsx a + movsx b))"

definition sub_s1s2 :: "32 word \<Rightarrow> 32 word \<Rightarrow> FrElement" where
  "sub_s1s2 a b =
     (if fits32 (sint a - sint b) then Fr_SHORT (a - b) else rawCopyS2L (movsx a - movsx b))"

text \<open>
  The product of two short operands: the store of the 32-bit result is not followed by a return,
  so control falls through to the 64-bit code whether or not the product overflows.
\<close>

definition mul_s1s2 :: "32 word \<Rightarrow> 32 word \<Rightarrow> FrElement" where
  "mul_s1s2 a b = rawCopyS2L (movsx a * movsx b)"

text \<open>A long normal operand and a short one, for which only \<open>shortVal\<close> is read.\<close>

definition add_l1ns2 :: "FrRaw \<Rightarrow> 32 word \<Rightarrow> FrElement" where
  "add_l1ns2 l s =
     Fr_LONG (if sint s < 0 then rawSubLS l (- movsx s) else rawAddLS l (movsx s))"

definition sub_l1ns2 :: "FrRaw \<Rightarrow> 32 word \<Rightarrow> FrElement" where
  "sub_l1ns2 l s =
     Fr_LONG (if sint s < 0 then rawAddLS l (- movsx s) else rawSubLS l (movsx s))"

definition sub_s1l2n :: "32 word \<Rightarrow> FrRaw \<Rightarrow> FrElement" where
  "sub_s1l2n s l =
     Fr_LONG (if sint s < 0 then rawNegLS l (- movsx s) else rawSubSL (movsx s) l)"

text \<open>The Montgomery limbs of an operand, converted where it is not in that form.\<close>

definition montVal :: "FrElement \<Rightarrow> FrRaw" where
  "montVal e = longVal (Fr_toMontgomery e)"

fun Fr_add :: "FrElement \<Rightarrow> FrElement \<Rightarrow> FrElement" where
  "Fr_add (Fr_SHORT a) (Fr_SHORT b) = add_s1s2 a b"
| "Fr_add (Fr_SHORT a) (Fr_SHORTMONTGOMERY b _) = add_s1s2 a b"
| "Fr_add (Fr_SHORTMONTGOMERY a _) (Fr_SHORT b) = add_s1s2 a b"
| "Fr_add (Fr_SHORTMONTGOMERY a _) (Fr_SHORTMONTGOMERY b _) = add_s1s2 a b"
| "Fr_add (Fr_LONG a) (Fr_SHORT b) = add_l1ns2 a b"
| "Fr_add (Fr_LONG a) (Fr_SHORTMONTGOMERY b _) = add_l1ns2 a b"
| "Fr_add (Fr_LONGMONTGOMERY a) (Fr_SHORT b) =
     Fr_LONGMONTGOMERY (Fr_rawAdd a (montVal (Fr_SHORT b)))"
| "Fr_add (Fr_LONGMONTGOMERY a) (Fr_SHORTMONTGOMERY _ m) = Fr_LONGMONTGOMERY (Fr_rawAdd a m)"
| "Fr_add (Fr_SHORT a) (Fr_LONG b) = add_l1ns2 b a"
| "Fr_add (Fr_SHORTMONTGOMERY a _) (Fr_LONG b) = add_l1ns2 b a"
| "Fr_add (Fr_SHORT a) (Fr_LONGMONTGOMERY b) =
     Fr_LONGMONTGOMERY (Fr_rawAdd (montVal (Fr_SHORT a)) b)"
| "Fr_add (Fr_SHORTMONTGOMERY _ m) (Fr_LONGMONTGOMERY b) = Fr_LONGMONTGOMERY (Fr_rawAdd m b)"
| "Fr_add (Fr_LONG a) (Fr_LONG b) = Fr_LONG (Fr_rawAdd a b)"
| "Fr_add (Fr_LONG a) (Fr_LONGMONTGOMERY b) =
     Fr_LONGMONTGOMERY (Fr_rawAdd (montVal (Fr_LONG a)) b)"
| "Fr_add (Fr_LONGMONTGOMERY a) (Fr_LONG b) =
     Fr_LONGMONTGOMERY (Fr_rawAdd a (montVal (Fr_LONG b)))"
| "Fr_add (Fr_LONGMONTGOMERY a) (Fr_LONGMONTGOMERY b) = Fr_LONGMONTGOMERY (Fr_rawAdd a b)"

fun Fr_sub :: "FrElement \<Rightarrow> FrElement \<Rightarrow> FrElement" where
  "Fr_sub (Fr_SHORT a) (Fr_SHORT b) = sub_s1s2 a b"
| "Fr_sub (Fr_SHORT a) (Fr_SHORTMONTGOMERY b _) = sub_s1s2 a b"
| "Fr_sub (Fr_SHORTMONTGOMERY a _) (Fr_SHORT b) = sub_s1s2 a b"
| "Fr_sub (Fr_SHORTMONTGOMERY a _) (Fr_SHORTMONTGOMERY b _) = sub_s1s2 a b"
| "Fr_sub (Fr_LONG a) (Fr_SHORT b) = sub_l1ns2 a b"
| "Fr_sub (Fr_LONG a) (Fr_SHORTMONTGOMERY b _) = sub_l1ns2 a b"
| "Fr_sub (Fr_LONGMONTGOMERY a) (Fr_SHORT b) =
     Fr_LONGMONTGOMERY (Fr_rawSub a (montVal (Fr_SHORT b)))"
| "Fr_sub (Fr_LONGMONTGOMERY a) (Fr_SHORTMONTGOMERY _ m) = Fr_LONGMONTGOMERY (Fr_rawSub a m)"
| "Fr_sub (Fr_SHORT a) (Fr_LONG b) = sub_s1l2n a b"
| "Fr_sub (Fr_SHORTMONTGOMERY a _) (Fr_LONG b) = sub_s1l2n a b"
| "Fr_sub (Fr_SHORT a) (Fr_LONGMONTGOMERY b) =
     Fr_LONGMONTGOMERY (Fr_rawSub (montVal (Fr_SHORT a)) b)"
| "Fr_sub (Fr_SHORTMONTGOMERY _ m) (Fr_LONGMONTGOMERY b) = Fr_LONGMONTGOMERY (Fr_rawSub m b)"
| "Fr_sub (Fr_LONG a) (Fr_LONG b) = Fr_LONG (Fr_rawSub a b)"
| "Fr_sub (Fr_LONG a) (Fr_LONGMONTGOMERY b) =
     Fr_LONGMONTGOMERY (Fr_rawSub (montVal (Fr_LONG a)) b)"
| "Fr_sub (Fr_LONGMONTGOMERY a) (Fr_LONG b) =
     Fr_LONGMONTGOMERY (Fr_rawSub a (montVal (Fr_LONG b)))"
| "Fr_sub (Fr_LONGMONTGOMERY a) (Fr_LONGMONTGOMERY b) = Fr_LONGMONTGOMERY (Fr_rawSub a b)"

text \<open>A short operand becomes plain short, whether or not its Montgomery form was cached.\<close>

definition neg_s :: "32 word \<Rightarrow> FrElement" where
  "neg_s s = (if fits32 (- sint s) then Fr_SHORT (- s) else rawCopyS2L (- movsx (- s)))"

fun Fr_neg :: "FrElement \<Rightarrow> FrElement" where
  "Fr_neg (Fr_SHORT s) = neg_s s"
| "Fr_neg (Fr_SHORTMONTGOMERY s _) = neg_s s"
| "Fr_neg (Fr_LONG l) = Fr_LONG (Fr_rawNeg l)"
| "Fr_neg (Fr_LONGMONTGOMERY m) = Fr_LONGMONTGOMERY (Fr_rawNeg m)"

fun Fr_mul :: "FrElement \<Rightarrow> FrElement \<Rightarrow> FrElement" where
  "Fr_mul (Fr_SHORT a) (Fr_SHORT b) = mul_s1s2 a b"
| "Fr_mul (Fr_SHORT a) (Fr_SHORTMONTGOMERY b _) = mul_s1s2 a b"
| "Fr_mul (Fr_SHORTMONTGOMERY a _) (Fr_SHORT b) = mul_s1s2 a b"
| "Fr_mul (Fr_SHORTMONTGOMERY a _) (Fr_SHORTMONTGOMERY b _) = mul_s1s2 a b"
| "Fr_mul (Fr_LONG a) (Fr_SHORT b) = Fr_LONGMONTGOMERY (Fr_rawMMul (rawMMulS a b) Fr_rawR3)"
| "Fr_mul (Fr_LONG a) (Fr_SHORTMONTGOMERY _ m) = Fr_LONG (Fr_rawMMul a m)"
| "Fr_mul (Fr_LONGMONTGOMERY a) (Fr_SHORT b) = Fr_LONG (rawMMulS a b)"
| "Fr_mul (Fr_LONGMONTGOMERY a) (Fr_SHORTMONTGOMERY _ m) = Fr_LONGMONTGOMERY (Fr_rawMMul a m)"
| "Fr_mul (Fr_SHORT a) (Fr_LONG b) = Fr_LONGMONTGOMERY (Fr_rawMMul (rawMMulS b a) Fr_rawR3)"
| "Fr_mul (Fr_SHORT a) (Fr_LONGMONTGOMERY b) = Fr_LONG (rawMMulS b a)"
| "Fr_mul (Fr_SHORTMONTGOMERY _ m) (Fr_LONG b) = Fr_LONG (Fr_rawMMul m b)"
| "Fr_mul (Fr_SHORTMONTGOMERY _ m) (Fr_LONGMONTGOMERY b) = Fr_LONGMONTGOMERY (Fr_rawMMul m b)"
| "Fr_mul (Fr_LONG a) (Fr_LONG b) = Fr_LONGMONTGOMERY (Fr_rawMMul (Fr_rawMMul a b) Fr_rawR3)"
| "Fr_mul (Fr_LONG a) (Fr_LONGMONTGOMERY b) = Fr_LONG (Fr_rawMMul a b)"
| "Fr_mul (Fr_LONGMONTGOMERY a) (Fr_LONG b) = Fr_LONG (Fr_rawMMul a b)"
| "Fr_mul (Fr_LONGMONTGOMERY a) (Fr_LONGMONTGOMERY b) = Fr_LONGMONTGOMERY (Fr_rawMMul a b)"

fun Fr_square :: "FrElement \<Rightarrow> FrElement" where
  "Fr_square (Fr_SHORT a) = mul_s1s2 a a"
| "Fr_square (Fr_SHORTMONTGOMERY a _) = mul_s1s2 a a"
| "Fr_square (Fr_LONG a) = Fr_LONGMONTGOMERY (Fr_rawMMul (Fr_rawMSquare a) Fr_rawR3)"
| "Fr_square (Fr_LONGMONTGOMERY a) = Fr_LONGMONTGOMERY (Fr_rawMSquare a)"

section \<open>Comparisons and boolean operations\<close>

fun shortVal :: "FrElement \<Rightarrow> 32 word option" where
  "shortVal (Fr_SHORT s) = Some s"
| "shortVal (Fr_SHORTMONTGOMERY s _) = Some s"
| "shortVal _ = None"

text \<open>The signed order of two long normal values: above \<open>(q - 1) / 2\<close> counts as negative.\<close>

definition rltL1L2 :: "FrRaw \<Rightarrow> FrRaw \<Rightarrow> bool" where
  "rltL1L2 a b =
     (if raw_lt raw_half a then (if raw_lt raw_half b then raw_lt a b else True)
      else (if raw_lt raw_half b then False else raw_lt a b))"

definition rgtL1L2 :: "FrRaw \<Rightarrow> FrRaw \<Rightarrow> bool" where
  "rgtL1L2 a b =
     (if raw_lt raw_half a then (if raw_lt raw_half b then raw_lt b a else False)
      else (if raw_lt raw_half b then True else raw_lt b a))"

definition Fr_rlt :: "FrElement \<Rightarrow> FrElement \<Rightarrow> bool" where
  "Fr_rlt a b =
     (case (shortVal a, shortVal b) of
        (Some s, Some t) \<Rightarrow> sint s < sint t
      | _ \<Rightarrow> rltL1L2 (longVal (Fr_toLongNormal a)) (longVal (Fr_toLongNormal b)))"

definition Fr_rgt :: "FrElement \<Rightarrow> FrElement \<Rightarrow> bool" where
  "Fr_rgt a b =
     (case (shortVal a, shortVal b) of
        (Some s, Some t) \<Rightarrow> sint t < sint s
      | _ \<Rightarrow> rgtL1L2 (longVal (Fr_toLongNormal a)) (longVal (Fr_toLongNormal b)))"

text \<open>Equality: in long normal form if a long operand is in it and no Montgomery one is.\<close>

fun Fr_req :: "FrElement \<Rightarrow> FrElement \<Rightarrow> bool" where
  "Fr_req (Fr_LONGMONTGOMERY a) b = Fr_rawIsEq a (montVal b)"
| "Fr_req a (Fr_LONGMONTGOMERY b) = Fr_rawIsEq (montVal a) b"
| "Fr_req (Fr_LONG a) b = Fr_rawIsEq a (longVal (Fr_toLongNormal b))"
| "Fr_req a (Fr_LONG b) = Fr_rawIsEq (longVal (Fr_toLongNormal a)) b"
| "Fr_req a b = (shortVal a = shortVal b)"

definition bool_elem :: "bool \<Rightarrow> FrElement" where
  "bool_elem b = Fr_SHORT (of_bool b)"

definition Fr_lt :: "FrElement \<Rightarrow> FrElement \<Rightarrow> FrElement" where
  "Fr_lt a b = bool_elem (Fr_rlt a b)"

definition Fr_gt :: "FrElement \<Rightarrow> FrElement \<Rightarrow> FrElement" where
  "Fr_gt a b = bool_elem (Fr_rgt a b)"

definition Fr_leq :: "FrElement \<Rightarrow> FrElement \<Rightarrow> FrElement" where
  "Fr_leq a b = bool_elem (\<not> Fr_rgt a b)"

definition Fr_geq :: "FrElement \<Rightarrow> FrElement \<Rightarrow> FrElement" where
  "Fr_geq a b = bool_elem (\<not> Fr_rlt a b)"

definition Fr_eq :: "FrElement \<Rightarrow> FrElement \<Rightarrow> FrElement" where
  "Fr_eq a b = bool_elem (Fr_req a b)"

definition Fr_neq :: "FrElement \<Rightarrow> FrElement \<Rightarrow> FrElement" where
  "Fr_neq a b = bool_elem (\<not> Fr_req a b)"

fun Fr_isTrue :: "FrElement \<Rightarrow> bool" where
  "Fr_isTrue (Fr_SHORT s) = (s \<noteq> 0)"
| "Fr_isTrue (Fr_SHORTMONTGOMERY s _) = (s \<noteq> 0)"
| "Fr_isTrue (Fr_LONG l) = (\<not> Fr_rawIsZero l)"
| "Fr_isTrue (Fr_LONGMONTGOMERY l) = (\<not> Fr_rawIsZero l)"

definition Fr_land :: "FrElement \<Rightarrow> FrElement \<Rightarrow> FrElement" where
  "Fr_land a b = bool_elem (Fr_isTrue b \<and> Fr_isTrue a)"

definition Fr_lor :: "FrElement \<Rightarrow> FrElement \<Rightarrow> FrElement" where
  "Fr_lor a b = bool_elem (Fr_isTrue b \<or> Fr_isTrue a)"

definition Fr_lnot :: "FrElement \<Rightarrow> FrElement" where
  "Fr_lnot a = bool_elem (\<not> Fr_isTrue a)"

section \<open>The representations are kept and the values are those of the field\<close>

lemma sint32_bounds: "- (2 ^ 31) \<le> sint (s :: 32 word)" "sint (s :: 32 word) < 2 ^ 31"
  using sint_greater_eq [of s] sint_less [of s] by simp_all

lemma sint32_bounds': "- 2147483648 \<le> sint (s :: 32 word)" "sint (s :: 32 word) < 2147483648"
  using sint32_bounds [of s] by simp_all

lemma sint_word_of_int_64: "- (2 ^ 63) \<le> x \<Longrightarrow> x < 2 ^ 63 \<Longrightarrow> sint (word_of_int x :: u64) = x"
  by (simp add: sint_sbintrunc' signed_take_bit_int_eq_self)

lemma sint_word_of_int_32: "fits32 x \<Longrightarrow> sint (word_of_int x :: 32 word) = x"
  by (simp add: sint_sbintrunc' signed_take_bit_int_eq_self fits32_def)

lemma uint_from_sint: "uint (v :: u64) = (if sint v < 0 then sint v + 2 ^ 64 else sint v)"
proof -
  have "uint v = sint v mod 2 ^ 64"
    by (simp add: uint_sint take_bit_eq_mod)
  then show ?thesis
    using sint_greater_eq [of v] sint_less [of v] by (auto simp: mod_add_once)
qed

lemma movsx_eq: "movsx s = word_of_int (sint s)"
  by (simp add: movsx_def)

lemma sint_movsx [simp]: "sint (movsx s) = sint s"
  unfolding movsx_eq using sint32_bounds [of s] by (intro sint_word_of_int_64) simp_all

lemma movsx_ops:
  "movsx a + movsx b = word_of_int (sint a + sint b)"
  "movsx a - movsx b = word_of_int (sint a - sint b)"
  "movsx a * movsx b = word_of_int (sint a * sint b)"
  "- movsx a = word_of_int (- sint a)"
  by (simp_all add: movsx_def)

lemma sint_neg_movsx: "sint (- movsx s) = - sint s"
  unfolding movsx_ops using sint32_bounds [of s] by (intro sint_word_of_int_64) simp_all

lemma uint_movsx: "0 \<le> sint s \<Longrightarrow> uint (movsx s) = sint s"
  by (simp add: uint_from_sint)

lemma uint_neg_movsx: "sint s < 0 \<Longrightarrow> uint (- movsx s) = - sint s"
  by (simp add: uint_from_sint sint_neg_movsx)

lemma rawCopyS2L_ok: "fok (rawCopyS2L v)" and rawCopyS2L_val: "fval (rawCopyS2L v) = sint v mod q_int"
proof -
  have "fok (rawCopyS2L v) \<and> fval (rawCopyS2L v) = sint v mod q_int"
  proof (cases "sint v < 0")
    case True
    obtain r c where rc: "add4 (FrRaw v (-1) (-1) (-1)) Fr_rawq = (r, c)" by fastforce
    have m1: "uint (- 1 :: u64) = 18446744073709551615"
      by (simp add: unsigned_minus_1_eq_mask mask_eq_exp_minus_1)
    have "rval (FrRaw v (-1) (-1) (-1)) = sint v + 2 ^ 256"
      using True by (simp add: m1 uint_from_sint [of v])
    then have eq: "rval r + 2 ^ 256 * of_bool c = sint v + 2 ^ 256 + q_int"
      using add4_eq [OF rc] by (simp add: rval_q del: rval.simps)
    have lo: "- (2 ^ 63) \<le> sint v" using sint_greater_eq [of v] by simp
    then have c using eq rval_bounds [of r] q_int_bounds(4) by (cases c) simp_all
    with eq have r: "rval r = sint v + q_int" by simp
    then have "sint v mod q_int = rval r"
      using True lo q_int_bounds(4) by (simp add: mod_add_once)
    then show ?thesis using True r rc by (simp add: rawCopyS2L_def)
  next
    case False
    have "rval (FrRaw v 0 0 0) = sint v" using False by (simp add: uint_from_sint)
    moreover have "sint v < q_int" using False uint64_less_q [of v] by (simp add: uint_from_sint)
    ultimately show ?thesis using False by (simp add: rawCopyS2L_def del: rval.simps)
  qed
  then show "fok (rawCopyS2L v)" "fval (rawCopyS2L v) = sint v mod q_int" by blast+
qed

lemma rawMMulS_val:
  assumes "rval l < q_int"
  shows "rval (rawMMulS l s) = rval l * sint s * Rinv mod q_int"
proof (cases "sint s < 0")
  case True
  have "rval (rawMMulS l s) = - (rval l * (- sint s) * Rinv mod q_int) mod q_int"
    using True assms by (simp add: rawMMulS_def Fr_rawNeg_mod Fr_rawMMul1_mod uint_neg_movsx q_int_bounds)
  also have "\<dots> = rval l * sint s * Rinv mod q_int"
    by (simp add: mod_minus_eq)
  finally show ?thesis .
next
  case False
  then show ?thesis using assms by (simp add: rawMMulS_def Fr_rawMMul1_mod uint_movsx)
qed

lemma mod_q_bounds [simp]: "x mod q_int < q_int" "0 \<le> x mod q_int"
  using q_int_bounds by simp_all

lemma fval_bounds: "0 \<le> fval e" "fval e < q_int"
  by (cases e; simp)+

lemma mod_Rinv: "x * 2 ^ 256 mod q_int * Rinv mod q_int = x mod q_int"
proof -
  have "x * 2 ^ 256 mod q_int * Rinv mod q_int = x * (2 ^ 256 * Rinv mod q_int) mod q_int"
    by (simp only: mod_mult_left_eq mod_mult_right_eq mult.assoc)
  then show ?thesis by (simp only: Rinv_inverse mult_1_right)
qed

lemma montVal_less: "fok e \<Longrightarrow> rval (montVal e) < q_int"
  by (cases e) (simp_all add: montVal_def rawMMulS_val rval_R2_less Fr_rawMMul_mod)

lemma montVal_val: "fok e \<Longrightarrow> rval (montVal e) * Rinv mod q_int = fval e"
proof (cases e)
  case (Fr_SHORT s)
  have "rval raw_R2 * sint s * Rinv mod q_int = sint s * 2 ^ 256 mod q_int"
    using R2_Rinv [of "sint s"] by (simp add: mult.commute)
  then show ?thesis
    using Fr_SHORT by (simp only: montVal_def Fr_toMontgomery.simps longVal.simps
        rawMMulS_val [OF rval_R2_less] fval.simps mod_Rinv)
next
  case (Fr_SHORTMONTGOMERY s m)
  moreover assume "fok e"
  ultimately show ?thesis
    by (simp only: montVal_def Fr_toMontgomery.simps longVal.simps fok.simps fval.simps mod_Rinv)
next
  case (Fr_LONG l)
  then show ?thesis
    by (simp only: montVal_def Fr_toMontgomery.simps longVal.simps fval.simps
        Fr_rawMMul_mod [OF rval_R2_less] R2_Rinv mod_Rinv)
next
  case (Fr_LONGMONTGOMERY m)
  then show ?thesis by (simp add: montVal_def)
qed

lemma toLongNormal_val:
  assumes "fok e"
  shows "rval (longVal (Fr_toLongNormal e)) = fval e" "\<exists>l. Fr_toLongNormal e = Fr_LONG l"
proof -
  have S: "\<exists>l. rawCopyS2L v = Fr_LONG l" "rval (longVal (rawCopyS2L v)) = fval (rawCopyS2L v)" for v
  proof -
    show "\<exists>l. rawCopyS2L v = Fr_LONG l" by (simp add: rawCopyS2L_def)
    then obtain l where l: "rawCopyS2L v = Fr_LONG l" ..
    then show "rval (longVal (rawCopyS2L v)) = fval (rawCopyS2L v)"
      using rawCopyS2L_ok [of v] rval_bounds [of l] by simp
  qed
  show "\<exists>l. Fr_toLongNormal e = Fr_LONG l" using S(1) by (cases e) auto
  show "rval (longVal (Fr_toLongNormal e)) = fval e"
    using assms by (cases e) (auto simp: S(2) rawCopyS2L_val Fr_rawFromMontgomery_mod rval_bounds)
qed

end
