(* ===== verification/Fr_Field.thy ===== *)
theory Fr_Field
  imports Fr_Elem
begin

text \<open>
  The element operations of \<open>circuit_cpp/fr.asm\<close> compute in the field of order \<open>q\<close>: every
  operation keeps the representation invariant and its value is the operation modulo \<open>q\<close>,
  whichever of the four representations its operands are in. Then the interface of the
  arithmetic that the circuit templates rely on, as a locale with the Fr operations as its
  interpretation.
\<close>

section \<open>Arithmetic\<close>

text \<open>An element that is legal and stands for \<open>v\<close> modulo \<open>q\<close>.\<close>

definition denotes :: "FrElement \<Rightarrow> int \<Rightarrow> bool" where
  "denotes e v \<longleftrightarrow> fok e \<and> fval e = v mod q_int"

lemma denotesI_fval: "fok e \<Longrightarrow> denotes e (fval e)"
  using fval_bounds [of e] by (simp add: denotes_def)

lemma denotes_mod_cong: "denotes e v \<Longrightarrow> v mod q_int = w mod q_int \<Longrightarrow> denotes e w"
  by (simp add: denotes_def)

lemma mont_addI:
  "x * Rinv mod q_int = u mod q_int \<Longrightarrow> y * Rinv mod q_int = v mod q_int \<Longrightarrow>
    (x + y) mod q_int * Rinv mod q_int = (u + v) mod q_int"
  by (metis distrib_right mod_add_eq mod_mult_left_eq)

lemma mont_subI:
  "x * Rinv mod q_int = u mod q_int \<Longrightarrow> y * Rinv mod q_int = v mod q_int \<Longrightarrow>
    (x - y) mod q_int * Rinv mod q_int = (u - v) mod q_int"
  by (metis left_diff_distrib mod_diff_eq mod_mult_left_eq)

lemma mont_mulI:
  assumes "x * Rinv mod q_int = u mod q_int" "y * Rinv mod q_int = v mod q_int"
  shows "x * y * Rinv mod q_int * Rinv mod q_int = u * v mod q_int"
proof -
  have "x * y * Rinv mod q_int * Rinv mod q_int = (x * Rinv) * (y * Rinv) mod q_int"
    by (simp only: mod_mult_left_eq) (simp only: mult_ac)
  also have "\<dots> = (x * Rinv mod q_int) * (y * Rinv mod q_int) mod q_int"
    by (simp only: mod_mult_eq)
  finally show ?thesis by (simp only: assms mod_mult_eq)
qed

lemma mixed_mulI:
  assumes "y * Rinv mod q_int = v mod q_int"
  shows "x * y * Rinv mod q_int = x * v mod q_int"
  using mod_mult_cong [OF refl assms, of x] by (simp add: mult.assoc)

lemma R3_scale: "(x * Rinv mod q_int) * rval Fr_rawR3 * Rinv mod q_int * Rinv mod q_int = x mod q_int"
proof -
  have "(x * Rinv mod q_int) * rval Fr_rawR3 * Rinv mod q_int = (x * Rinv mod q_int) * 2 ^ 512 mod q_int"
    by (rule R3_Rinv)
  also have "\<dots> = x * 2 ^ 256 * (2 ^ 256 * Rinv) mod q_int"
    by (subst mod_mult_left_eq) (simp add: mult_ac)
  also have "\<dots> = x * 2 ^ 256 * (2 ^ 256 * Rinv mod q_int) mod q_int"
    by (simp only: mod_mult_right_eq)
  finally show ?thesis by (simp only: Rinv_inverse mult_1_right mod_Rinv)
qed

lemma denotes_SHORT: "fits32 x \<Longrightarrow> denotes (Fr_SHORT (word_of_int x)) x"
  by (simp add: denotes_def sint_word_of_int_32)

lemma denotes_S2L: "denotes (rawCopyS2L v) (sint v)"
  by (simp add: denotes_def rawCopyS2L_ok rawCopyS2L_val)

lemma word_ops_32:
  "a + b = word_of_int (sint a + sint b)" "a - b = word_of_int (sint a - sint b)"
  "- a = word_of_int (- sint a)" for a b :: "32 word"
  by simp_all

lemma sint_prod_bound:
  "- (2 ^ 62) \<le> sint a * sint b" "sint a * sint b \<le> 2 ^ 62" for a b :: "32 word"
proof -
  have "\<bar>sint a * sint b\<bar> \<le> 2 ^ 31 * 2 ^ 31"
    unfolding abs_mult using sint32_bounds [of a] sint32_bounds [of b]
    by (intro mult_mono) auto
  then show "- (2 ^ 62) \<le> sint a * sint b" "sint a * sint b \<le> 2 ^ 62" by simp_all
qed

lemma add_s1s2_denotes: "denotes (add_s1s2 a b) (sint a + sint b)"
  using denotes_SHORT [of "sint a + sint b"] denotes_S2L [of "movsx a + movsx b"]
    sint32_bounds' [of a] sint32_bounds' [of b]
    sint_word_of_int_64 [of "sint a + sint b"]
  by (simp add: add_s1s2_def movsx_ops(1) word_ops_32(1) del: of_int_add)

lemma sub_s1s2_denotes: "denotes (sub_s1s2 a b) (sint a - sint b)"
  using denotes_SHORT [of "sint a - sint b"] denotes_S2L [of "movsx a - movsx b"]
    sint32_bounds' [of a] sint32_bounds' [of b]
    sint_word_of_int_64 [of "sint a - sint b"]
  by (simp add: sub_s1s2_def movsx_ops(2) word_ops_32(2) del: of_int_diff)

lemma mul_s1s2_denotes: "denotes (mul_s1s2 a b) (sint a * sint b)"
  using denotes_S2L [of "movsx a * movsx b"] sint_prod_bound [of a b]
    sint_word_of_int_64 [of "sint a * sint b"]
  by (simp add: mul_s1s2_def movsx_ops(3) del: of_int_mult)

lemma neg_s_denotes: "denotes (neg_s s) (- sint s)"
proof (cases "fits32 (- sint s)")
  case True
  then show ?thesis using denotes_SHORT [of "- sint s"] by (simp add: neg_s_def)
next
  case False
  then have eq: "sint s = - (2 ^ 31)" using sint32_bounds [of s] by (simp add: fits32_def)
  have "s = word_of_int (sint s)" by simp
  then have "s = word_of_int (- (2 ^ 31))" by (simp only: eq)
  then have "- movsx (- s) = word_of_int (2 ^ 31)" by (simp add: movsx_def)
  then show ?thesis using False denotes_S2L [of "word_of_int (2 ^ 31)"] eq
      sint_word_of_int_64 [of "2 ^ 31"] by (simp add: neg_s_def)
qed

lemma add_l1ns2_denotes:
  assumes "rval l < q_int"
  shows "denotes (add_l1ns2 l s) (rval l + sint s)"
  using assms uint64_less_q [of "- movsx s"]
  by (auto simp: add_l1ns2_def denotes_def rawSubLS_eq Fr_rawSub_mod rawAddLS_mod uint_movsx
      uint_neg_movsx simp del: rval.simps)

lemma sub_l1ns2_denotes:
  assumes "rval l < q_int"
  shows "denotes (sub_l1ns2 l s) (rval l - sint s)"
  using assms uint64_less_q [of "movsx s"]
  by (auto simp: sub_l1ns2_def denotes_def rawSubLS_eq Fr_rawSub_mod rawAddLS_mod uint_movsx
      uint_neg_movsx simp del: rval.simps)

lemma sub_s1l2n_denotes:
  assumes "rval l < q_int"
  shows "denotes (sub_s1l2n s l) (sint s - rval l)"
  using assms uint64_less_q [of "movsx s"]
  by (auto simp: sub_s1l2n_def denotes_def rawSubSL_eq Fr_rawSub_mod rawNegLS_mod uint_movsx
      uint_neg_movsx simp del: rval.simps)


text \<open>The Montgomery form of an element, whichever representation it is in.\<close>

lemma montVal_cong: "fok e \<Longrightarrow> rval (montVal e) * Rinv mod q_int = fval e mod q_int"
  using montVal_val [of e] fval_bounds [of e] by simp

lemma mont_add_denotes:
  "fok a \<Longrightarrow> fok b \<Longrightarrow>
    denotes (Fr_LONGMONTGOMERY (Fr_rawAdd (montVal a) (montVal b))) (fval a + fval b)"
  by (simp add: denotes_def Fr_rawAdd_mod montVal_less mont_addI montVal_cong)

lemma mont_sub_denotes:
  "fok a \<Longrightarrow> fok b \<Longrightarrow>
    denotes (Fr_LONGMONTGOMERY (Fr_rawSub (montVal a) (montVal b))) (fval a - fval b)"
  by (simp add: denotes_def Fr_rawSub_mod montVal_less mont_subI montVal_cong)

lemma mont_mul_denotes:
  "fok a \<Longrightarrow> fok b \<Longrightarrow>
    denotes (Fr_LONGMONTGOMERY (Fr_rawMMul (montVal a) (montVal b))) (fval a * fval b)"
  by (simp add: denotes_def Fr_rawMMul_mod montVal_less mont_mulI montVal_cong)

lemma fval_short: "shortVal e = Some s \<Longrightarrow> fval e = sint s mod q_int"
  by (cases e) auto

lemma denotes_mod [simp]:
  "denotes e (v mod q_int) = denotes e v"
  "denotes e (v mod q_int + w) = denotes e (v + w)" "denotes e (v + w mod q_int) = denotes e (v + w)"
  "denotes e (v mod q_int - w) = denotes e (v - w)" "denotes e (v - w mod q_int) = denotes e (v - w)"
  "denotes e (v mod q_int * w) = denotes e (v * w)" "denotes e (v * (w mod q_int)) = denotes e (v * w)"
  "denotes e (- (v mod q_int)) = denotes e (- v)"
  by (simp_all add: denotes_def mod_simps)

lemma long_denotes:
  "rval l < q_int \<Longrightarrow> rval k < q_int \<Longrightarrow> denotes (Fr_LONG (Fr_rawAdd l k)) (rval l + rval k)"
  "rval l < q_int \<Longrightarrow> rval k < q_int \<Longrightarrow> denotes (Fr_LONG (Fr_rawSub l k)) (rval l - rval k)"
  "rval l < q_int \<Longrightarrow> denotes (Fr_LONG (Fr_rawNeg l)) (- rval l)"
  by (simp_all add: denotes_def Fr_rawAdd_mod Fr_rawSub_mod Fr_rawNeg_mod)

lemma Fr_add_cases:
  obtains (mont) "Fr_add a b = Fr_LONGMONTGOMERY (Fr_rawAdd (montVal a) (montVal b))"
  | (short) s t where "shortVal a = Some s" "shortVal b = Some t" "Fr_add a b = add_s1s2 s t"
  | (left) l s where "a = Fr_LONG l" "shortVal b = Some s" "Fr_add a b = add_l1ns2 l s"
  | (right) l s where "b = Fr_LONG l" "shortVal a = Some s" "Fr_add a b = add_l1ns2 l s"
  | (long) l k where "a = Fr_LONG l" "b = Fr_LONG k" "Fr_add a b = Fr_LONG (Fr_rawAdd l k)"
  by (cases a; cases b) (simp_all add: montVal_def)

lemma Fr_add_denotes:
  assumes "fok a" "fok b"
  shows "denotes (Fr_add a b) (fval a + fval b)"
proof (cases rule: Fr_add_cases [of a b])
  case mont
  then show ?thesis using assms by (simp add: mont_add_denotes)
next
  case (short s t)
  then show ?thesis by (simp add: fval_short add_s1s2_denotes)
next
  case (left l s)
  then show ?thesis using assms by (simp add: fval_short add_l1ns2_denotes)
next
  case (right l s)
  then show ?thesis using assms by (simp add: fval_short add_l1ns2_denotes add.commute [of "sint s"])
next
  case (long l k)
  then show ?thesis using assms by (simp add: long_denotes)
qed

lemma Fr_sub_cases:
  obtains (mont) "Fr_sub a b = Fr_LONGMONTGOMERY (Fr_rawSub (montVal a) (montVal b))"
  | (short) s t where "shortVal a = Some s" "shortVal b = Some t" "Fr_sub a b = sub_s1s2 s t"
  | (left) l s where "a = Fr_LONG l" "shortVal b = Some s" "Fr_sub a b = sub_l1ns2 l s"
  | (right) l s where "b = Fr_LONG l" "shortVal a = Some s" "Fr_sub a b = sub_s1l2n s l"
  | (long) l k where "a = Fr_LONG l" "b = Fr_LONG k" "Fr_sub a b = Fr_LONG (Fr_rawSub l k)"
  by (cases a; cases b) (simp_all add: montVal_def)

lemma Fr_sub_denotes:
  assumes "fok a" "fok b"
  shows "denotes (Fr_sub a b) (fval a - fval b)"
proof (cases rule: Fr_sub_cases [of a b])
  case mont
  then show ?thesis using assms by (simp add: mont_sub_denotes)
next
  case (short s t)
  then show ?thesis by (simp add: fval_short sub_s1s2_denotes)
next
  case (left l s)
  then show ?thesis using assms by (simp add: fval_short sub_l1ns2_denotes)
next
  case (right l s)
  then show ?thesis using assms by (simp add: fval_short sub_s1l2n_denotes)
next
  case (long l k)
  then show ?thesis using assms by (simp add: long_denotes)
qed

lemma Fr_neg_denotes:
  assumes "fok a"
  shows "denotes (Fr_neg a) (- fval a)"
proof (cases a)
  case (Fr_LONGMONTGOMERY m)
  have "- rval m mod q_int * Rinv mod q_int = - (rval m * Rinv) mod q_int"
    by (simp add: mod_mult_left_eq)
  then show ?thesis using assms Fr_LONGMONTGOMERY
    by (simp add: denotes_def Fr_rawNeg_mod mod_minus_eq)
qed (use assms in \<open>simp_all add: neg_s_denotes long_denotes\<close>)

lemma Fr_mul_cases:
  obtains (mont) "Fr_mul a b = Fr_LONGMONTGOMERY (Fr_rawMMul (montVal a) (montVal b))"
  | (short) s t where "shortVal a = Some s" "shortVal b = Some t" "Fr_mul a b = mul_s1s2 s t"
  | (left) l where "a = Fr_LONG l" "Fr_mul a b = Fr_LONG (Fr_rawMMul l (montVal b))"
  | (right) l where "b = Fr_LONG l" "Fr_mul a b = Fr_LONG (Fr_rawMMul (montVal a) l)"
  | (ms) m s where "a = Fr_LONGMONTGOMERY m" "b = Fr_SHORT s" "Fr_mul a b = Fr_LONG (rawMMulS m s)"
  | (sm) m s where "b = Fr_LONGMONTGOMERY m" "a = Fr_SHORT s" "Fr_mul a b = Fr_LONG (rawMMulS m s)"
  | (ls) l s where "a = Fr_LONG l" "b = Fr_SHORT s"
      "Fr_mul a b = Fr_LONGMONTGOMERY (Fr_rawMMul (rawMMulS l s) Fr_rawR3)"
  | (sl) l s where "b = Fr_LONG l" "a = Fr_SHORT s"
      "Fr_mul a b = Fr_LONGMONTGOMERY (Fr_rawMMul (rawMMulS l s) Fr_rawR3)"
  | (long) l k where "a = Fr_LONG l" "b = Fr_LONG k"
      "Fr_mul a b = Fr_LONGMONTGOMERY (Fr_rawMMul (Fr_rawMMul l k) Fr_rawR3)"
  by (cases a; cases b) (simp_all add: montVal_def)

lemma rawMMulS_denotes:
  "rval m < q_int \<Longrightarrow> denotes (Fr_LONG (rawMMulS m s)) (rval m * Rinv * sint s)"
  by (simp add: denotes_def rawMMulS_val mult_ac)

lemma mul_R3_denotes:
  "denotes (Fr_LONGMONTGOMERY (Fr_rawMMul x Fr_rawR3)) v" if "rval x = v * Rinv mod q_int"
  using that by (simp add: denotes_def Fr_rawMMul_mod rval_R3_less R3_scale)

lemma Fr_mul_denotes:
  assumes "fok a" "fok b"
  shows "denotes (Fr_mul a b) (fval a * fval b)"
proof (cases rule: Fr_mul_cases [of a b])
  case mont
  then show ?thesis using assms by (simp add: mont_mul_denotes)
next
  case (short s t)
  then show ?thesis by (simp add: fval_short mul_s1s2_denotes)
next
  case (left l)
  then show ?thesis using assms mixed_mulI [OF montVal_cong, of b "rval l"]
    by (simp add: denotes_def Fr_rawMMul_mod montVal_less mod_mult_left_eq)
next
  case (right l)
  then show ?thesis using assms mixed_mulI [OF montVal_cong, of a "rval l"]
    by (simp add: denotes_def Fr_rawMMul_mod mod_mult_right_eq mult.commute)
next
  case (ms m s)
  then show ?thesis using assms by (simp add: rawMMulS_denotes)
next
  case (sm m s)
  then show ?thesis using assms by (simp add: rawMMulS_denotes mult.commute [of "sint s"])
next
  case (ls l s)
  then show ?thesis using assms by (simp add: mul_R3_denotes rawMMulS_val)
next
  case (sl l s)
  then show ?thesis using assms
    by (simp add: mul_R3_denotes rawMMulS_val mult.commute [of "sint s"])
next
  case (long l k)
  then show ?thesis using assms by (simp add: mul_R3_denotes Fr_rawMMul_mod)
qed

lemma Fr_square_denotes:
  assumes "fok a"
  shows "denotes (Fr_square a) (fval a * fval a)"
proof -
  have "Fr_square a = Fr_mul a a \<or> (\<exists>l. a = Fr_LONG l) \<or> (\<exists>l. a = Fr_LONGMONTGOMERY l)"
    by (cases a) simp_all
  then show ?thesis
    using assms Fr_mul_denotes [OF assms assms]
    by (auto simp: denotes_def Fr_rawMSquare_mod Fr_rawMMul_mod rval_R3_less)
qed

section \<open>Conversions keep the value\<close>

lemma rval_from_mont: "rval x < q_int \<Longrightarrow> rval x * Rinv mod q_int * 2 ^ 256 mod q_int = rval x"
proof -
  assume a: "rval x < q_int"
  have "rval x * Rinv mod q_int * 2 ^ 256 mod q_int = rval x * (2 ^ 256 * Rinv mod q_int) mod q_int"
    by (simp only: mod_mult_left_eq mod_mult_right_eq) (simp only: mult_ac)
  then show ?thesis using a rval_bounds [of x] by (simp only: Rinv_inverse mult_1_right) simp
qed

lemma montVal_eq_iff:
  assumes "fok a" "fok b"
  shows "rval (montVal a) = rval (montVal b) \<longleftrightarrow> fval a = fval b"
  using assms montVal_val [of a] montVal_val [of b] rval_from_mont [of "montVal a"]
    rval_from_mont [of "montVal b"] montVal_less [of a] montVal_less [of b] by metis

lemma Fr_toMontgomery_denotes:
  assumes "fok a"
  shows "denotes (Fr_toMontgomery a) (fval a)"
proof (cases a)
  case (Fr_SHORT s)
  have "rval (rawMMulS raw_R2 s) = sint s * 2 ^ 256 mod q_int"
    using R2_Rinv [of "sint s"] by (simp add: rawMMulS_val [OF rval_R2_less] mult.commute)
  then show ?thesis using Fr_SHORT by (simp add: denotes_def)
next
  case (Fr_LONG l)
  then show ?thesis
    using assms by (simp add: denotes_def Fr_rawMMul_mod rval_R2_less R2_Rinv mod_Rinv [simplified])
qed (use assms denotesI_fval [of a] in simp_all)

lemma Fr_toNormal_denotes: "fok a \<Longrightarrow> denotes (Fr_toNormal a) (fval a)"
  using denotesI_fval [of a] by (cases a) (simp_all add: denotes_def Fr_rawFromMontgomery_mod)

lemma Fr_toLongNormal_denotes:
  assumes "fok a"
  shows "denotes (Fr_toLongNormal a) (fval a)"
proof -
  obtain l where "Fr_toLongNormal a = Fr_LONG l" using toLongNormal_val(2) [OF assms] ..
  then show ?thesis using toLongNormal_val(1) [OF assms] fval_bounds [of a] by (simp add: denotes_def)
qed

section \<open>Comparisons\<close>

text \<open>The signed reading of a field element: values above \<open>(q - 1) / 2\<close> stand for negative ones.\<close>

definition signed_val :: "int \<Rightarrow> int" where
  "signed_val v = (if (q_int - 1) div 2 < v then v - q_int else v)"

lemma signed_val_short: "shortVal e = Some s \<Longrightarrow> signed_val (fval e) = sint s"
proof -
  assume "shortVal e = Some s"
  then have v: "fval e = sint s mod q_int" by (rule fval_short)
  have b: "4294967296 < (q_int - 1) div 2" "2 * ((q_int - 1) div 2) < q_int" by (simp_all add: q_int_def)
  show ?thesis
  proof (cases "sint s < 0")
    case True
    then have "fval e = sint s + q_int" using v b sint32_bounds' [of s] by (simp add: mod_add_once)
    then show ?thesis using True b sint32_bounds' [of s] by (simp add: signed_val_def)
  next
    case False
    then have "fval e = sint s" using v b sint32_bounds' [of s] by simp
    then show ?thesis using b sint32_bounds' [of s] by (simp add: signed_val_def)
  qed
qed

lemma rltL1L2_signed:
  assumes "rval a < q_int" "rval b < q_int"
  shows "rltL1L2 a b \<longleftrightarrow> signed_val (rval a) < signed_val (rval b)"
    "rgtL1L2 a b \<longleftrightarrow> signed_val (rval b) < signed_val (rval a)"
proof -
  define h where "h = (q_int - 1) div 2"
  show "rltL1L2 a b \<longleftrightarrow> signed_val (rval a) < signed_val (rval b)"
    "rgtL1L2 a b \<longleftrightarrow> signed_val (rval b) < signed_val (rval a)"
    using assms rval_bounds(1) [of a] rval_bounds(1) [of b]
    unfolding rltL1L2_def rgtL1L2_def raw_lt_iff rval_half signed_val_def h_def [symmetric]
    by (cases "h < rval a"; cases "h < rval b"; simp)+
qed

lemma longVal_toLongNormal:
  "fok a \<Longrightarrow> rval (longVal (Fr_toLongNormal a)) < q_int"
  using toLongNormal_val(1) [of a] fval_bounds [of a] by simp

lemma long_compare:
  assumes "fok a" "fok b"
  shows "rltL1L2 (longVal (Fr_toLongNormal a)) (longVal (Fr_toLongNormal b))
      \<longleftrightarrow> signed_val (fval a) < signed_val (fval b)"
    and "rgtL1L2 (longVal (Fr_toLongNormal a)) (longVal (Fr_toLongNormal b))
      \<longleftrightarrow> signed_val (fval b) < signed_val (fval a)"
  using rltL1L2_signed [OF longVal_toLongNormal longVal_toLongNormal] assms
  by (simp_all only: toLongNormal_val(1))

lemma Fr_rlt_signed:
  assumes "fok a" "fok b"
  shows "Fr_rlt a b \<longleftrightarrow> signed_val (fval a) < signed_val (fval b)"
    and "Fr_rgt a b \<longleftrightarrow> signed_val (fval b) < signed_val (fval a)"
  using assms
  by (simp_all add: Fr_rlt_def Fr_rgt_def long_compare signed_val_short split: option.splits)

lemma shorts_eq: "(sint s mod q_int = sint t mod q_int) \<longleftrightarrow> s = t" for s t :: "32 word"
proof
  assume "sint s mod q_int = sint t mod q_int"
  then have "fval (Fr_SHORT s) = fval (Fr_SHORT t)" by simp
  then have "sint s = sint t"
    using signed_val_short [of "Fr_SHORT s" s] signed_val_short [of "Fr_SHORT t" t]
    by (simp only: shortVal.simps simp_thms)
  then show "s = t" by (rule signed_word_eqI)
qed simp

lemma Fr_req_cases:
  obtains (mont) "Fr_req a b = Fr_rawIsEq (montVal a) (montVal b)"
  | (norm) "Fr_req a b = Fr_rawIsEq (longVal (Fr_toLongNormal a)) (longVal (Fr_toLongNormal b))"
  | (short) s t where "shortVal a = Some s" "shortVal b = Some t" "Fr_req a b = (s = t)"
  by (cases a; cases b) (simp_all add: montVal_def)

lemma Fr_req_iff:
  assumes "fok a" "fok b"
  shows "Fr_req a b \<longleftrightarrow> fval a = fval b"
  using assms
  by (cases rule: Fr_req_cases [of a b])
    (simp_all add: Fr_rawIsEq_iff montVal_eq_iff toLongNormal_val(1) fval_short shorts_eq)

lemma short_zero: "sint s mod q_int = 0 \<longleftrightarrow> s = 0" for s :: "32 word"
  using shorts_eq [of s 0] by (simp only: sint_0 mod_0)

lemma Fr_isTrue_iff:
  assumes "fok a"
  shows "Fr_isTrue a \<longleftrightarrow> fval a \<noteq> 0"
proof (cases a)
  case (Fr_LONGMONTGOMERY m)
  then show ?thesis
    using assms rval_from_mont [of m] by (auto simp: Fr_rawIsZero_iff)
next
  case (Fr_LONG l)
  then show ?thesis using assms rval_bounds [of l] by (simp add: Fr_rawIsZero_iff)
qed (simp_all add: short_zero)

lemma bool_elem_sem [simp]: "fok (bool_elem b)" "fval (bool_elem b) = of_bool b" "Fr_isTrue (bool_elem b) = b"
  by (cases b; simp add: bool_elem_def q_int_def)+

section \<open>Conversion to a machine integer\<close>

lemma long_toInt_small:
  assumes "0 \<le> rval l" "rval l < 2 ^ 31"
  shows "long_toInt l = Inr (rval l)"
proof -
  have u: "uint (word_of_int (rval l) :: u64) = rval l"
    using assms by (simp add: uint_word_of_int_eq take_bit_int_eq_self)
  have l: "l = FrRaw (word_of_int (rval l)) 0 0 0"
    by (subst rval_inject [symmetric]) (simp only: rval_limb u)
  have "uint (drop_bit 31 (word_of_int (rval l) :: u64)) = 0"
    using assms by (simp only: unsigned_drop_bit_eq u) (simp add: drop_bit_eq_div take_bit_int_eq_self)
  then have "drop_bit 31 (word_of_int (rval l) :: u64) = 0" by (simp add: word_uint_eq_iff)
  then show ?thesis using u by (subst l, subst long_toInt.simps) simp
qed

lemma long_toInt_neg:
  assumes "rval l = q_int + n" "- (2 ^ 31) \<le> n" "n < 0"
  shows "long_toInt l = Inr n"
proof -
  let ?q0 = "0x43e1f593f0000001 :: u64" and ?n = "word_of_int n :: u64"
  have sn: "sint ?n = n" using assms by (intro sint_word_of_int_64) auto
  have u: "uint (?q0 + ?n) = 0x43e1f593f0000001 + n"
  proof -
    have "?q0 + ?n = word_of_int (0x43e1f593f0000001 + n)" by simp
    then show ?thesis
      using assms by (simp only: uint_word_of_int_eq) (simp add: take_bit_int_eq_self)
  qed
  have "rval l = rval (FrRaw (?q0 + ?n) 0x2833e84879b97091 0xb85045b68181585d 0x30644e72e131a029)"
    by (simp only: assms(1) rval.simps u) (simp add: q_int_def)
  then have l: "l = FrRaw (?q0 + ?n) 0x2833e84879b97091 0xb85045b68181585d 0x30644e72e131a029"
    by (simp only: rval_inject)
  have "sint (signed_drop_bit 31 ?n) = n div 2 ^ 31"
    by (simp add: sint_signed_drop_bit_eq sn drop_bit_eq_div)
  also have "n div 2 ^ 31 = -1"  using assms(2,3) by simp
  finally have "signed_drop_bit 31 ?n = -1" by (intro signed_word_eqI) simp
  then show ?thesis
    using assms u by (subst l, subst long_toInt.simps) (simp add: Fr_rawq_def sbb_def sn)
qed

lemma signed_val_long:
  assumes "0 \<le> v" "v < q_int" "- (2 ^ 31) \<le> signed_val v" "signed_val v < 2 ^ 31"
  shows "0 \<le> v \<and> v < 2 ^ 31 \<and> signed_val v = v \<or> v = q_int + signed_val v \<and> signed_val v < 0"
  using assms by (auto simp: signed_val_def split: if_splits)

lemma Fr_toInt_small:
  assumes "fok a" "- (2 ^ 31) \<le> signed_val (fval a)" "signed_val (fval a) < 2 ^ 31"
  shows "Fr_toInt a = Inr (signed_val (fval a))"
proof -
  have L: "long_toInt l = Inr (signed_val (fval a))" if "rval l = fval a" for l
    using signed_val_long [OF fval_bounds [of a] assms(2,3)] that assms(2)
      long_toInt_small [of l] long_toInt_neg [of l "signed_val (fval a)"] by auto
  have S: "sint s = signed_val (fval a)" if "shortVal a = Some s" for s
    using signed_val_short [OF that] by simp
  show ?thesis
  proof (cases a)
    case (Fr_LONG l)
    then show ?thesis using L [of l] assms(1) rval_bounds [of l] by simp
  next
    case (Fr_LONGMONTGOMERY m)
    then show ?thesis using L [of "Fr_rawFromMontgomery m"] by (simp add: Fr_rawFromMontgomery_mod)
  qed (use S in simp_all)
qed

lemma Fr_toInt_short: "shortVal a = Some s \<Longrightarrow> Fr_toInt a = Inr (sint s)"
  by (cases a) auto

text \<open>
  What \<open>Fr_longNeg\<close> lets pass: every limb of the value is at most that of \<open>q\<close>, and the lowest one is at most
  \<open>2 ^ 31\<close> below it. It returns the difference of the lowest limbs.
\<close>

definition limb_of :: "int \<Rightarrow> nat \<Rightarrow> int" where
  "limb_of v i = v div 2 ^ (64 * i) mod 2 ^ 64"

definition read_as_negative :: "int \<Rightarrow> bool" where
  "read_as_negative v \<longleftrightarrow> limb_of q_int 0 - 2 ^ 31 \<le> limb_of v 0 \<and> limb_of v 0 < limb_of q_int 0 \<and>
     limb_of v 1 \<le> limb_of q_int 1 \<and> limb_of v 2 \<le> limb_of q_int 2 \<and> limb_of v 3 \<le> limb_of q_int 3"

lemma limb_of_rval:
  "limb_of (rval (FrRaw a0 a1 a2 a3)) 0 = uint a0" "limb_of (rval (FrRaw a0 a1 a2 a3)) 1 = uint a1"
  "limb_of (rval (FrRaw a0 a1 a2 a3)) 2 = uint a2" "limb_of (rval (FrRaw a0 a1 a2 a3)) 3 = uint a3"
proof -
  let ?B = "2 ^ 64 :: int"
  have d: "(uint a + ?B * h) mod ?B = uint a" "(uint a + ?B * h) div ?B = h" for a :: u64 and h
    using uint64_bounds [of a] by simp_all
  have r: "rval (FrRaw a0 a1 a2 a3) = uint a0 + ?B * (uint a1 + ?B * (uint a2 + ?B * (uint a3 + ?B * 0)))"
    by simp
  have p: "(2 :: int) ^ (64 * 0) = 1" "(2 :: int) ^ (64 * 1) = ?B" "(2 :: int) ^ (64 * 2) = ?B * ?B"
    "(2 :: int) ^ (64 * 3) = ?B * (?B * ?B)" by simp_all
  have n: "0 \<le> ?B" "0 \<le> ?B * ?B" by simp_all
  show "limb_of (rval (FrRaw a0 a1 a2 a3)) 0 = uint a0" "limb_of (rval (FrRaw a0 a1 a2 a3)) 1 = uint a1"
    "limb_of (rval (FrRaw a0 a1 a2 a3)) 2 = uint a2" "limb_of (rval (FrRaw a0 a1 a2 a3)) 3 = uint a3"
    unfolding limb_of_def r p zdiv_zmult2_eq [OF n(1)] zdiv_zmult2_eq [OF n(2)] div_by_1 d by (rule refl)+
qed

lemma limb_of_q:
  "limb_of q_int 0 = 0x43e1f593f0000001" "limb_of q_int 1 = 0x2833e84879b97091"
  "limb_of q_int 2 = 0xb85045b68181585d" "limb_of q_int 3 = 0x30644e72e131a029"
  by (simp_all add: limb_of_def q_int_def)

lemma sar31: "signed_drop_bit 31 r + 1 = 0 \<longleftrightarrow> - (2 ^ 31) \<le> sint r \<and> sint r < 0" for r :: u64
proof -
  have "signed_drop_bit 31 r + 1 = 0 \<longleftrightarrow> signed_drop_bit 31 r = - 1" by (simp add: add_eq_0_iff2)
  also have "\<dots> \<longleftrightarrow> sint (signed_drop_bit 31 r) = sint (- 1 :: u64)" using signed_word_eqI by metis
  also have "\<dots> \<longleftrightarrow> sint r div 2 ^ 31 = - 1" by (simp add: sint_signed_drop_bit_eq drop_bit_eq_div)
  also have "\<dots> \<longleftrightarrow> - (2 ^ 31) \<le> sint r \<and> sint r < 0" by simp linarith
  finally show ?thesis .
qed

lemma upper_limb_large:
  fixes a b c d :: int
  assumes "0 \<le> a" "0 \<le> b" "0 \<le> c" "0 \<le> d" "1 \<le> b \<or> 1 \<le> c \<or> 1 \<le> d"
  shows "2147483648 \<le> a + 18446744073709551616 * (b + 18446744073709551616 * (c + 18446744073709551616 * d))"
proof -
  have "1 \<le> b + 18446744073709551616 * (c + 18446744073709551616 * d)" using assms(2-) by auto
  then show ?thesis using assms(1) by simp
qed

lemma below_2_31: "rval (FrRaw a0 a1 a2 a3) < 2 ^ 31 \<longleftrightarrow> drop_bit 31 a0 = 0 \<and> a1 = 0 \<and> a2 = 0 \<and> a3 = 0"
proof -
  have "drop_bit 31 a0 = 0 \<longleftrightarrow> uint a0 div 2 ^ 31 = 0"
    by (simp add: word_uint_eq_iff uint_div drop_bit_eq_div)
  also have "\<dots> \<longleftrightarrow> uint a0 < 2 ^ 31" using uint64_bounds [of a0] by (auto simp: zdiv_eq_0_iff)
  finally have d: "drop_bit 31 a0 = 0 \<longleftrightarrow> uint a0 < 2 ^ 31" .
  have z: "a = 0 \<or> 1 \<le> uint a" for a :: u64
  proof -
    have "uint a = 0 \<or> 1 \<le> uint a" using uint64_bounds(1) [of a] by linarith
    then show ?thesis by (auto simp: word_uint_eq_iff)
  qed
  have r: "rval (FrRaw a0 a1 a2 a3) = uint a0 + 18446744073709551616 * (uint a1 +
      18446744073709551616 * (uint a2 + 18446744073709551616 * uint a3))"
    by simp
  have "(2147483648 :: int) \<le> rval (FrRaw a0 a1 a2 a3)" if "1 \<le> uint a1 \<or> 1 \<le> uint a2 \<or> 1 \<le> uint a3"
    unfolding r by (rule upper_limb_large) (use that in \<open>simp_all add: uint64_bounds\<close>)
  then have "2 ^ 31 \<le> rval (FrRaw a0 a1 a2 a3)" if "1 \<le> uint a1 \<or> 1 \<le> uint a2 \<or> 1 \<le> uint a3"
    using that by simp
  then have "a1 = 0 \<and> a2 = 0 \<and> a3 = 0 \<or> 2 ^ 31 \<le> rval (FrRaw a0 a1 a2 a3)" using z by blast
  then show ?thesis
  proof
    assume "a1 = 0 \<and> a2 = 0 \<and> a3 = 0"
    then show ?thesis unfolding d by simp
  next
    assume r: "2 ^ 31 \<le> rval (FrRaw a0 a1 a2 a3)"
    have "\<not> (uint a0 < 2 ^ 31 \<and> a1 = 0 \<and> a2 = 0 \<and> a3 = 0)" using r by auto
    then show ?thesis using r unfolding d by linarith
  qed
qed

lemma sint_below_q: "uint a0 < 0x43e1f593f0000001 \<Longrightarrow> sint (a0 - 0x43e1f593f0000001 :: u64) = uint a0 - 0x43e1f593f0000001"
proof -
  assume a: "uint a0 < 0x43e1f593f0000001"
  have "sint (word_of_int (uint a0 - 0x43e1f593f0000001) :: u64) = uint a0 - 0x43e1f593f0000001"
    using uint64_bounds [of a0] a by (intro sint_word_of_int_64) auto
  then show ?thesis by simp
qed

lemma long_toInt_iff:
  "long_toInt l = (if rval l < 2 ^ 31 then Inr (rval l)
     else if read_as_negative (rval l) then Inr (limb_of (rval l) 0 - limb_of q_int 0) else Inl FrFail)"
proof (cases l)
  case (FrRaw a0 a1 a2 a3)
  have "(uint a0 < 0x43e1f593f0000001 \<and> uint a1 < 0x2833e84879b97091 + 1 \<and> uint a2 < 0xb85045b68181585d + 1 \<and>
      uint a3 < 0x30644e72e131a029 + 1 \<and> signed_drop_bit 31 (a0 - 0x43e1f593f0000001) + 1 = 0) \<longleftrightarrow>
      read_as_negative (rval (FrRaw a0 a1 a2 a3))"
    unfolding read_as_negative_def limb_of_rval limb_of_q sar31 using sint_below_q [of a0] by auto
  moreover have "a0 = word_of_int (rval (FrRaw a0 a1 a2 a3))" if "a1 = 0" "a2 = 0" "a3 = 0" using that by simp
  ultimately show ?thesis
    unfolding FrRaw below_2_31 long_toInt.simps Fr_rawq_def FrRaw.case sbb_def Let_def prod.case limb_of_rval limb_of_q
    using sint_below_q [of a0] by (auto simp: limb_of_rval)
qed

lemma Fr_toInt_long:
  assumes "fok a" "shortVal a = None"
  shows "Fr_toInt a = (if fval a < 2 ^ 31 then Inr (fval a)
    else if read_as_negative (fval a) then Inr (limb_of (fval a) 0 - limb_of q_int 0) else Inl FrFail)"
  using assms by (cases a) (simp_all add: long_toInt_iff Fr_rawFromMontgomery_mod rval_bounds)

text \<open>So the reading is wrong exactly when it is negative and the upper limbs are not those of \<open>q\<close>.\<close>

lemma limb_of_0_split: "v = 2 ^ 64 * (v div 2 ^ 64) + limb_of v 0"
  by (simp add: limb_of_def)

lemma misread_iff:
  assumes v: "0 \<le> v" "v < q_int" "2 ^ 31 \<le> v" "read_as_negative v"
  shows "(limb_of v 0 - limb_of q_int 0) mod q_int = v \<longleftrightarrow> v div 2 ^ 64 = q_int div 2 ^ 64"
proof -
  have n: "- (2 ^ 31) \<le> limb_of v 0 - limb_of q_int 0" "limb_of v 0 - limb_of q_int 0 < 0"
    using v(4) by (simp_all add: read_as_negative_def)
  then have "(limb_of v 0 - limb_of q_int 0) mod q_int = limb_of v 0 - limb_of q_int 0 + q_int"
    using q_int_bounds(4) by (intro mod_add_once) auto
  then show ?thesis using limb_of_0_split [of v] limb_of_0_split [of q_int] by auto
qed

section \<open>Small integers\<close>

text \<open>Loop counters and constants: short elements whose value fits in 32 bits.\<close>

definition small :: "FrElement \<Rightarrow> int \<Rightarrow> bool" where
  "small e n \<longleftrightarrow> (\<exists>s. shortVal e = Some s \<and> sint s = n) \<and> fok e"

named_theorems small_int "arithmetic and comparison of small integers"

lemma smallI [small_int]: "fits32 n \<Longrightarrow> small (Fr_SHORT (word_of_int n)) n"
  by (simp add: small_def sint_word_of_int_32)

lemma small_fok: "small e n \<Longrightarrow> fok e"
  by (simp add: small_def)

lemma small_fval: "small e n \<Longrightarrow> fval e = n mod q_int"
  by (auto simp: small_def fval_short)

lemma small_toInt [small_int]: "small e n \<Longrightarrow> Fr_toInt e = Inr n"
  by (auto simp: small_def Fr_toInt_short)

lemma Fr_add_shorts: "shortVal a = Some s \<Longrightarrow> shortVal b = Some t \<Longrightarrow> Fr_add a b = add_s1s2 s t"
  by (cases a; cases b) auto

lemma small_add [small_int]:
  assumes "small a m" "small b n" "fits32 (m + n)"
  shows "small (Fr_add a b) (m + n)"
  using assms sint_word_of_int_32 [of "m + n"]
  by (auto simp: small_def Fr_add_shorts add_s1s2_def)

lemma Fr_sub_shorts: "shortVal a = Some s \<Longrightarrow> shortVal b = Some t \<Longrightarrow> Fr_sub a b = sub_s1s2 s t"
  by (cases a; cases b) auto

lemma small_sub [small_int]:
  assumes "small a m" "small b n" "fits32 (m - n)"
  shows "small (Fr_sub a b) (m - n)"
  using assms sint_word_of_int_32 [of "m - n"]
  by (auto simp: small_def Fr_sub_shorts sub_s1s2_def)

lemma small_lt [small_int]:
  "small a m \<Longrightarrow> small b n \<Longrightarrow> Fr_lt a b = bool_elem (m < n)"
  by (auto simp: small_def Fr_lt_def Fr_rlt_def)

lemma Fr_toMontgomery_small: "small a n \<Longrightarrow> small (Fr_toMontgomery a) n"
  using Fr_toMontgomery_denotes [of a] by (cases a) (auto simp: small_def denotes_def)
section \<open>The arithmetic the templates rely on\<close>

text \<open>The accumulation loop of the matrix templates: \<open>acc = acc + a * b\<close> over a list of pairs.\<close>

fun lincomb :: "('a \<Rightarrow> 'a \<Rightarrow> 'a) \<Rightarrow> ('a \<Rightarrow> 'a \<Rightarrow> 'a) \<Rightarrow> 'a \<Rightarrow> ('a \<times> 'a) list \<Rightarrow> 'a" where
  "lincomb ad mu acc [] = acc"
| "lincomb ad mu acc ((a, b) # ps) = lincomb ad mu (ad acc (mu a b)) ps"

lemma lincomb_snoc: "lincomb ad mu acc (ps @ [(a, b)]) = ad (lincomb ad mu acc ps) (mu a b)"
  by (induction ps arbitrary: acc) auto

locale field_ops =
  fixes ok :: "'a \<Rightarrow> bool" and val :: "'a \<Rightarrow> int" and p :: int
    and add sub mul :: "'a \<Rightarrow> 'a \<Rightarrow> 'a"
  assumes modulus: "1 < p"
    and reduced: "ok a \<Longrightarrow> val a mod p = val a"
    and add_ok: "ok a \<Longrightarrow> ok b \<Longrightarrow> ok (add a b)"
    and sub_ok: "ok a \<Longrightarrow> ok b \<Longrightarrow> ok (sub a b)"
    and mul_ok: "ok a \<Longrightarrow> ok b \<Longrightarrow> ok (mul a b)"
    and add_val: "ok a \<Longrightarrow> ok b \<Longrightarrow> val (add a b) = (val a + val b) mod p"
    and sub_val: "ok a \<Longrightarrow> ok b \<Longrightarrow> val (sub a b) = (val a - val b) mod p"
    and mul_val: "ok a \<Longrightarrow> ok b \<Longrightarrow> val (mul a b) = val a * val b mod p"
begin

lemmas ops_ok = add_ok sub_ok mul_ok
lemmas ops_val = add_val sub_val mul_val

lemma lincomb_correct:
  assumes "ok acc" "\<forall>(a, b) \<in> set ps. ok a \<and> ok b"
  shows "ok (lincomb add mul acc ps)"
    and "val (lincomb add mul acc ps) = (val acc + (\<Sum>(a, b) \<leftarrow> ps. val a * val b)) mod p"
proof -
  have "ok (lincomb add mul acc ps) \<and>
    val (lincomb add mul acc ps) = (val acc + (\<Sum>(a, b) \<leftarrow> ps. val a * val b)) mod p"
    using assms
  proof (induction ps arbitrary: acc)
    case Nil
    then show ?case by (simp add: reduced)
  next
    case (Cons ab ps)
    obtain a b where [simp]: "ab = (a, b)" by fastforce
    from Cons.prems have "ok (add acc (mul a b))" by (simp add: ops_ok)
    from Cons.IH [OF this] Cons.prems show ?case
      by (simp add: ops_ok ops_val mod_simps add.assoc)
  qed
  then show "ok (lincomb add mul acc ps)"
    "val (lincomb add mul acc ps) = (val acc + (\<Sum>(a, b) \<leftarrow> ps. val a * val b)) mod p" by simp_all
qed

lemma fifth_power:
  assumes "ok x"
  shows "ok (mul (mul (mul x x) (mul x x)) x)"
    and "val (mul (mul (mul x x) (mul x x)) x) = val x ^ 5 mod p"
  using assms by (simp_all add: ops_ok ops_val mod_simps power_numeral_reduce mult.assoc)

lemma select:
  assumes "ok a" "ok b" "ok s"
  shows "ok (add (mul (sub b a) s) a)"
    and "val s = 0 \<Longrightarrow> val (add (mul (sub b a) s) a) = val a"
    and "val s = 1 \<Longrightarrow> val (add (mul (sub b a) s) a) = val b"
  using assms by (simp_all add: ops_ok ops_val mod_simps reduced)

end

lemma denotes_fok: "denotes e v \<Longrightarrow> fok e"
  and denotes_fval: "denotes e v \<Longrightarrow> fval e = v mod q_int"
  by (simp_all add: denotes_def)

interpretation fr: field_ops fok fval q_int Fr_add Fr_sub Fr_mul
  using fval_bounds q_int_bounds(2)
  by unfold_locales
    (auto intro: denotes_fok [OF Fr_add_denotes] denotes_fok [OF Fr_sub_denotes] denotes_fok [OF Fr_mul_denotes]
      simp: denotes_fval [OF Fr_add_denotes] denotes_fval [OF Fr_sub_denotes] denotes_fval [OF Fr_mul_denotes])

end
