(* ===== verification/Bytes.thy ===== *)
theory Bytes
  imports Fr_Raw
begin

text \<open>
  Memory as bytes: the little-endian layout of machine integers and of the limbs of a raw field
  element, shared by the GMP conversions of \<open>fr.cpp\<close> and by the binary files that \<open>main.cpp\<close>
  reads and writes.
\<close>

fun le_val :: "u8 list \<Rightarrow> int" where
  "le_val [] = 0"
| "le_val (b # bs) = uint b + 256 * le_val bs"

fun le_bytes :: "nat \<Rightarrow> int \<Rightarrow> u8 list" where
  "le_bytes 0 v = []"
| "le_bytes (Suc n) v = word_of_int v # le_bytes n (v div 256)"

lemma length_le_bytes [simp]: "length (le_bytes n v) = n"
  by (induction n arbitrary: v) auto

lemma le_val_nonneg [simp]: "0 \<le> le_val bs"
  by (induction bs) auto

lemma uint_u8: "0 \<le> uint (b :: u8)" "uint (b :: u8) < 256"
  using uint_bounded [of b] by auto

lemma le_val_less: "le_val bs < 256 ^ length bs"
proof (induction bs)
  case (Cons b bs)
  then have "le_val bs + 1 \<le> 256 ^ length bs" by simp
  then show ?case using uint_u8 [of b] by simp
qed simp

lemma le_val_le_bytes: "le_val (le_bytes n v) = v mod 256 ^ n"
proof (induction n arbitrary: v)
  case (Suc n)
  have "v mod (256 * 256 ^ n) = 256 * (v div 256 mod 256 ^ n) + v mod 256"
    by (rule zmod_zmult2_eq) simp
  moreover have "uint (word_of_int v :: u8) = v mod 256"
    by (simp add: uint_word_of_int)
  ultimately show ?case by (simp add: Suc)
qed simp

lemma le_bytes_le_val: "le_bytes (length bs) (le_val bs) = bs"
proof (induction bs)
  case (Cons b bs)
  have "(uint b + 256 * le_val bs) div 256 = le_val bs"
    using uint_u8 [of b] by simp
  moreover have "word_of_int (uint b + 256 * le_val bs) = b"
  proof -
    have "(256 :: u8) = 0" by simp
    then show ?thesis by (simp only: of_int_add of_int_mult word_of_int_uint of_int_numeral) simp
  qed
  ultimately show ?case using Cons by simp
qed simp

lemma le_val_append: "le_val (as @ bs) = le_val as + 256 ^ length as * le_val bs"
  by (induction as) (simp_all add: distrib_left)

lemma le_val_replicate [simp]: "le_val (replicate n 0) = 0"
  by (induction n) auto

lemma le_val_inject: "length as = length bs \<Longrightarrow> le_val as = le_val bs \<longleftrightarrow> as = bs"
  by (metis le_bytes_le_val)

section \<open>The limbs of a raw element\<close>

fun raw_bytes :: "FrRaw \<Rightarrow> u8 list" where
  "raw_bytes (FrRaw a0 a1 a2 a3) =
     le_bytes 8 (uint a0) @ le_bytes 8 (uint a1) @ le_bytes 8 (uint a2) @ le_bytes 8 (uint a3)"

definition limb_at :: "u8 list \<Rightarrow> nat \<Rightarrow> u64" where
  "limb_at bs i = word_of_int (le_val (take 8 (drop (8 * i) bs)))"

definition raw_of_bytes :: "u8 list \<Rightarrow> FrRaw" where
  "raw_of_bytes bs = FrRaw (limb_at bs 0) (limb_at bs 1) (limb_at bs 2) (limb_at bs 3)"

lemma length_raw_bytes [simp]: "length (raw_bytes r) = 32"
  by (cases r) simp

lemma le_val_8 [simp]: "le_val (le_bytes 8 (uint (w :: u64))) = uint w"
  using uint64_bounds [of w] by (simp add: le_val_le_bytes)

lemma le_val_raw_bytes: "le_val (raw_bytes r) = rval r"
  by (cases r) (simp add: le_val_append)

lemma uint_limb: "length bs = 8 \<Longrightarrow> uint (word_of_int (le_val bs) :: u64) = le_val bs"
  using le_val_less [of bs] by (simp add: uint_word_of_int)

lemma rval_raw_of_bytes:
  assumes "length bs = 32"
  shows "rval (raw_of_bytes bs) = le_val bs"
proof -
  have 1: "le_val bs = le_val (take 8 bs @ drop 8 bs)" by simp
  have 2: "drop 8 bs = take 8 (drop 8 bs) @ drop 16 bs"
    using append_take_drop_id [of 8 "drop 8 bs"] by (simp only: drop_drop) simp
  have 3: "drop 16 bs = take 8 (drop 16 bs) @ drop 24 bs"
    using append_take_drop_id [of 8 "drop 16 bs"] by (simp only: drop_drop) simp
  have 4: "drop 24 bs = take 8 (drop 24 bs)" using assms by simp
  have "le_val bs = le_val (take 8 bs @ take 8 (drop 8 bs) @ take 8 (drop 16 bs) @ take 8 (drop 24 bs))"
    by (simp only: 1, subst 2, subst 3, subst 4) (rule refl)
  also have "\<dots> = rval (raw_of_bytes bs)"
    using assms by (simp add: le_val_append raw_of_bytes_def limb_at_def uint_limb)
  finally show ?thesis ..
qed

lemma raw_of_bytes_raw_bytes [simp]: "raw_of_bytes (raw_bytes r) = r"
  using rval_raw_of_bytes [of "raw_bytes r"]
  by (simp only: length_raw_bytes le_val_raw_bytes rval_inject simp_thms)

lemma raw_bytes_inject [simp]: "raw_bytes a = raw_bytes b \<longleftrightarrow> a = b"
  by (metis raw_of_bytes_raw_bytes)

end
