(* ===== verification/Fr_Gmp.thy ===== *)
theory Fr_Gmp
  imports Fr_Field Bytes
begin

text \<open>
  \<open>circuit_cpp/fr.cpp\<close>: the conversions between field elements, GMP integers and strings, and
  the operations done in GMP (integer division, modulus, power, inverse, division).

  GMP is not part of the repository. Its functions are the fields of the record \<open>gmp\<close>, an
  argument of the definitions that call them; \<open>gmp_spec\<close> states what the GMP manual documents
  of them for the arguments the code passes. \<open>gmp_ref\<close> is an implementation that satisfies it.
\<close>

section \<open>The library\<close>

record gmp =
  mpz_import :: "nat \<Rightarrow> int \<Rightarrow> nat \<Rightarrow> int \<Rightarrow> nat \<Rightarrow> u8 list \<Rightarrow> int"
  mpz_export :: "int \<Rightarrow> nat \<Rightarrow> int \<Rightarrow> nat \<Rightarrow> int \<Rightarrow> u8 list"
  mpz_fits_sint_p :: "int \<Rightarrow> bool"
  mpz_fdiv_q :: "int \<Rightarrow> int \<Rightarrow> int option"
  mpz_fdiv_r :: "int \<Rightarrow> int \<Rightarrow> int option"
  mpz_powm :: "int \<Rightarrow> int \<Rightarrow> int \<Rightarrow> int"
  mpz_invert :: "int \<Rightarrow> int \<Rightarrow> int"
  mpz_init_set_str :: "string \<Rightarrow> nat \<Rightarrow> int"
  mpz_get_str :: "nat \<Rightarrow> int \<Rightarrow> string"

text \<open>The number of 64-bit words \<open>mpz_export\<close> writes: none for zero, else as few as fit.\<close>

function words64 :: "int \<Rightarrow> nat" where
  "words64 v = (if v \<le> 0 then 0 else Suc (words64 (v div 2 ^ 64)))"
  by auto
termination by (relation "measure nat") auto

declare words64.simps [simp del]

text \<open>Digits of the bases 2 to 16, and the value of a string of digits.\<close>

definition digit_of :: "char \<Rightarrow> nat option" where
  "digit_of c =
     (let k = (of_char c :: nat)
      in if 48 \<le> k \<and> k \<le> 57 then Some (k - 48)
         else if 97 \<le> k \<and> k \<le> 102 then Some (k - 87)
         else if 65 \<le> k \<and> k \<le> 70 then Some (k - 55)
         else None)"

definition numeral_in :: "nat \<Rightarrow> string \<Rightarrow> bool" where
  "numeral_in base s \<longleftrightarrow>
     s \<noteq> [] \<and> (\<forall>c \<in> set s. case digit_of c of None \<Rightarrow> False | Some d \<Rightarrow> d < base)"

definition numeral_val :: "nat \<Rightarrow> string \<Rightarrow> int" where
  "numeral_val base s =
     foldl (\<lambda>v c. v * int base + (case digit_of c of None \<Rightarrow> 0 | Some d \<Rightarrow> int d)) 0 s"

text \<open>What the manual documents, for the ways the code calls each function.\<close>

definition gmp_spec :: "gmp \<Rightarrow> bool" where
  "gmp_spec g \<longleftrightarrow>
     (\<forall>n bs. length bs = 8 * n \<longrightarrow> mpz_import g n (-1) 8 (-1) 0 bs = le_val bs) \<and>
     (\<forall>v. 0 \<le> v \<longrightarrow> mpz_export g (-1) 8 (-1) 0 v = le_bytes (8 * words64 v) v) \<and>
     (\<forall>v. 0 \<le> v \<longrightarrow> mpz_export g 1 8 1 0 v = rev (le_bytes (8 * words64 v) v)) \<and>
     (\<forall>v. mpz_fits_sint_p g v = fits32 v) \<and>
     (\<forall>a b. mpz_fdiv_q g a b = (if b = 0 then None else Some (a div b))) \<and>
     (\<forall>a b. mpz_fdiv_r g a b = (if b = 0 then None else Some (a mod b))) \<and>
     (\<forall>a e m. 0 \<le> e \<longrightarrow> 0 < m \<longrightarrow> mpz_powm g a e m = a ^ nat e mod m) \<and>
     (\<forall>a m. 1 < m \<longrightarrow> coprime a m \<longrightarrow>
        0 \<le> mpz_invert g a m \<and> mpz_invert g a m < m \<and> a * mpz_invert g a m mod m = 1) \<and>
     (\<forall>s base. 2 \<le> base \<longrightarrow> base \<le> 16 \<longrightarrow> numeral_in base s \<longrightarrow>
        mpz_init_set_str g s base = numeral_val base s) \<and>
     (\<forall>v. 0 \<le> v \<longrightarrow> numeral_in 10 (mpz_get_str g 10 v) \<and> numeral_val 10 (mpz_get_str g 10 v) = v)"

section \<open>Conversions between elements and integers\<close>

text \<open>\<open>Fr_toMpz\<close>; the static \<open>q\<close> is imported from \<open>Fr_q\<close> by \<open>Fr_init\<close>.\<close>

definition Fr_init_q :: "gmp \<Rightarrow> int" where
  "Fr_init_q g = mpz_import g 4 (-1) 8 (-1) 0 (raw_bytes Fr_rawq)"

definition Fr_toMpz :: "gmp \<Rightarrow> FrElement \<Rightarrow> int" where
  "Fr_toMpz g pE =
     (let tmp = Fr_toNormal pE
      in case shortVal tmp of
           Some s \<Rightarrow> if sint s < 0 then sint s + Fr_init_q g else sint s
         | None \<Rightarrow> mpz_import g 4 (-1) 8 (-1) 0 (raw_bytes (longVal tmp)))"

text \<open>
  The exported words overwrite the front of the zeroed limbs; more words than there are limbs
  would be written past the element.
\<close>

definition export_raw :: "gmp \<Rightarrow> int \<Rightarrow> cerr + FrRaw" where
  "export_raw g v =
     (let bs = mpz_export g (-1) 8 (-1) 0 v
      in if 32 < length bs then Inl OutOfBounds
         else Inr (raw_of_bytes (bs @ drop (length bs) (raw_bytes Fr_rawZero))))"

definition Fr_fromMpz :: "gmp \<Rightarrow> int \<Rightarrow> cerr + FrElement" where
  "Fr_fromMpz g v =
     (if mpz_fits_sint_p g v then Inr (Fr_SHORT (word_of_int v))
      else bindR (export_raw g v) (\<lambda>l. Inr (Fr_LONG l)))"

text \<open>The arithmetic exception that GMP raises for a zero divisor.\<close>

definition div_zero :: cerr where
  "div_zero = SystemError ''division by zero''"

definition of_div :: "int option \<Rightarrow> cerr + int" where
  "of_div r = (case r of None \<Rightarrow> Inl div_zero | Some v \<Rightarrow> Inr v)"

definition Fr_str2element :: "gmp \<Rightarrow> string \<Rightarrow> nat \<Rightarrow> cerr + FrElement" where
  "Fr_str2element g s base =
     bindR (of_div (mpz_fdiv_r g (mpz_init_set_str g s base) (Fr_init_q g))) (Fr_fromMpz g)"

text \<open>\<open>%d\<close> of \<open>sprintf\<close>, for a value that is not negative.\<close>

fun digits10 :: "nat \<Rightarrow> string" where
  "digits10 n = (if n < 10 then [char_of (48 + n)] else digits10 (n div 10) @ [char_of (48 + n mod 10)])"

declare digits10.simps [simp del]

definition Fr_element2str :: "gmp \<Rightarrow> FrElement \<Rightarrow> string" where
  "Fr_element2str g pE =
     (case shortVal pE of
        Some s \<Rightarrow>
          if 0 \<le> sint s then digits10 (nat (sint s))
          else mpz_get_str g 10 (sint s + Fr_init_q g)
      | None \<Rightarrow>
          mpz_get_str g 10 (mpz_import g 4 (-1) 8 (-1) 0 (raw_bytes (longVal (Fr_toNormal pE)))))"

section \<open>Operations done in GMP\<close>

definition Fr_idiv :: "gmp \<Rightarrow> FrElement \<Rightarrow> FrElement \<Rightarrow> cerr + FrElement" where
  "Fr_idiv g a b = bindR (of_div (mpz_fdiv_q g (Fr_toMpz g a) (Fr_toMpz g b))) (Fr_fromMpz g)"

definition Fr_mod :: "gmp \<Rightarrow> FrElement \<Rightarrow> FrElement \<Rightarrow> cerr + FrElement" where
  "Fr_mod g a b = bindR (of_div (mpz_fdiv_r g (Fr_toMpz g a) (Fr_toMpz g b))) (Fr_fromMpz g)"

definition Fr_pow :: "gmp \<Rightarrow> FrElement \<Rightarrow> FrElement \<Rightarrow> cerr + FrElement" where
  "Fr_pow g a b = Fr_fromMpz g (mpz_powm g (Fr_toMpz g a) (Fr_toMpz g b) (Fr_init_q g))"

definition Fr_inv :: "gmp \<Rightarrow> FrElement \<Rightarrow> cerr + FrElement" where
  "Fr_inv g a = Fr_fromMpz g (mpz_invert g (Fr_toMpz g a) (Fr_init_q g))"

definition Fr_div :: "gmp \<Rightarrow> FrElement \<Rightarrow> FrElement \<Rightarrow> cerr + FrElement" where
  "Fr_div g a b = bindR (Fr_inv g b) (\<lambda>tmp. Inr (Fr_mul a tmp))"

section \<open>An implementation that satisfies the documentation\<close>

definition gmp_ref :: gmp where
  "gmp_ref =
     \<lparr>mpz_import = (\<lambda>n order size endian nails bs. le_val bs),
      mpz_export = (\<lambda>order size endian nails v.
        let bs = le_bytes (8 * words64 v) v in if order = 1 then rev bs else bs),
      mpz_fits_sint_p = fits32,
      mpz_fdiv_q = (\<lambda>a b. if b = 0 then None else Some (a div b)),
      mpz_fdiv_r = (\<lambda>a b. if b = 0 then None else Some (a mod b)),
      mpz_powm = (\<lambda>a e m. a ^ nat e mod m),
      mpz_invert = (\<lambda>a m. fst (bezw (nat (a mod m)) (nat m)) mod m),
      mpz_init_set_str = (\<lambda>s base. numeral_val base s),
      mpz_get_str = (\<lambda>base v. digits10 (nat v))\<rparr>"

lemma digit_of_char: "d < 10 \<Longrightarrow> digit_of (char_of (48 + d)) = Some d"
  by (simp add: digit_of_def)

lemma numeral_val_snoc:
  "numeral_val base (s @ [c]) =
     numeral_val base s * int base + (case digit_of c of None \<Rightarrow> 0 | Some d \<Rightarrow> int d)"
  by (simp add: numeral_val_def)

lemma digits10_numeral: "numeral_in 10 (digits10 n)" and digits10_val: "numeral_val 10 (digits10 n) = int n"
proof -
  have "numeral_in 10 (digits10 n) \<and> numeral_val 10 (digits10 n) = int n"
  proof (induction n rule: digits10.induct)
    case (1 n)
    show ?case
    proof (cases "n < 10")
      case True
      then have "digits10 n = [char_of (48 + n)]" by (simp add: digits10.simps [of n])
      then show ?thesis using True by (simp add: numeral_in_def numeral_val_def digit_of_char)
    next
      case False
      then have e: "digits10 n = digits10 (n div 10) @ [char_of (48 + n mod 10)]"
        by (simp add: digits10.simps [of n])
      have "int n = int (n div 10 * 10 + n mod 10)" by simp
      then have "int n = int (n div 10) * 10 + int (n mod 10)" by (simp only: of_nat_add of_nat_mult of_nat_numeral)
      moreover have "digit_of (char_of (48 + n mod 10)) = Some (n mod 10)" by (rule digit_of_char) simp
      ultimately show ?thesis
        using 1 [OF False] unfolding e numeral_val_snoc by (simp add: numeral_in_def)
    qed
  qed
  then show "numeral_in 10 (digits10 n)" "numeral_val 10 (digits10 n) = int n" by simp_all
qed

lemma bezw_inverse:
  assumes "1 < m" "coprime a m"
  shows "a * (fst (bezw (nat (a mod m)) (nat m)) mod m) mod m = (1 :: int)"
proof -
  let ?x = "nat (a mod m)" and ?y = "nat m"
  have x: "int ?x = a mod m" and y: "int ?y = m" using assms by simp_all
  have "gcd (a mod m) m = 1" using assms by (simp add: gcd.commute gcd_red_int [symmetric] coprime_iff_gcd_eq_1)
  then have "gcd ?x ?y = 1"
    using assms by (metis x y gcd_int_int_eq of_nat_1 of_nat_eq_iff)
  then have "fst (bezw ?x ?y) * (a mod m) + snd (bezw ?x ?y) * m = 1"
    using bezw_aux [of ?x ?y] x y by simp
  then have "(fst (bezw ?x ?y) * (a mod m) + snd (bezw ?x ?y) * m) mod m = 1"
    using assms by simp
  then show ?thesis by (simp add: mod_simps mult.commute)
qed

lemma gmp_ref_spec: "gmp_spec gmp_ref"
  unfolding gmp_spec_def
  by (auto simp: gmp_ref_def bezw_inverse digits10_numeral digits10_val Let_def)

section \<open>The conversions are right\<close>

lemma int_div_less: "v < n * k \<Longrightarrow> 0 < k \<Longrightarrow> v div k < n" for v k n :: int
  using mult_right_mono [of n "v div k" k] div_mult_mod_eq [of v k] pos_mod_sign [of k v]
  by linarith

lemma words64_bound: "0 \<le> v \<Longrightarrow> v < 2 ^ (64 * n) \<Longrightarrow> words64 v \<le> n"
proof (induction n arbitrary: v)
  case 0
  then show ?case by (simp add: words64.simps)
next
  case (Suc n)
  then have "v div 2 ^ 64 < 2 ^ (64 * n)"
    by (intro int_div_less) (simp_all add: power_add mult.commute)
  with Suc show ?case by (subst words64.simps) simp
qed

lemma words64_enough: "0 \<le> v \<Longrightarrow> v < 256 ^ (8 * words64 v)"
proof (induction v rule: words64.induct)
  case (1 v)
  show ?case
  proof (cases "v \<le> 0")
    case True
    with 1(2) show ?thesis by (simp add: words64.simps)
  next
    case False
    with 1 have "v div 2 ^ 64 < 256 ^ (8 * words64 (v div 2 ^ 64))" by simp
    then have "v div 2 ^ 64 + 1 \<le> 256 ^ (8 * words64 (v div 2 ^ 64))" by simp
    then have "2 ^ 64 * (v div 2 ^ 64 + 1) \<le> 2 ^ 64 * 256 ^ (8 * words64 (v div 2 ^ 64))" by simp
    moreover have "v < 2 ^ 64 * (v div 2 ^ 64 + 1)"
      using div_mult_mod_eq [of v "2 ^ 64"] pos_mod_bound [of "2 ^ 64" v] by simp
    ultimately show ?thesis using False by (subst words64.simps) (simp add: power_add)
  qed
qed

lemma gmp_init_q: "gmp_spec g \<Longrightarrow> Fr_init_q g = q_int"
  by (simp add: gmp_spec_def Fr_init_q_def le_val_raw_bytes rval_q)

lemma gmp_import: "gmp_spec g \<Longrightarrow> mpz_import g 4 (-1) 8 (-1) 0 (raw_bytes l) = rval l"
  by (simp add: gmp_spec_def le_val_raw_bytes)

lemma gmp_fdiv:
  "gmp_spec g \<Longrightarrow> mpz_fdiv_q g a b = (if b = 0 then None else Some (a div b))"
  "gmp_spec g \<Longrightarrow> mpz_fdiv_r g a b = (if b = 0 then None else Some (a mod b))"
  by (simp_all add: gmp_spec_def)

lemma gmp_export_raw:
  assumes "gmp_spec g" "0 \<le> v" "v < 2 ^ 256"
  shows "\<exists>l. export_raw g v = Inr l \<and> rval l = v"
proof -
  let ?bs = "le_bytes (8 * words64 v) v"
  have e: "mpz_export g (-1) 8 (-1) 0 v = ?bs" using assms by (simp add: gmp_spec_def)
  have w: "words64 v \<le> 4" using words64_bound [of v 4] assms by simp
  have v: "le_val ?bs = v" using words64_enough [OF assms(2)] assms(2) by (simp add: le_val_le_bytes)
  have z: "raw_bytes Fr_rawZero = replicate 32 0"
    by (simp add: Fr_rawZero_def numeral_eq_Suc)
  have "rval (raw_of_bytes (?bs @ drop (length ?bs) (raw_bytes Fr_rawZero))) = v"
    using w v by (subst rval_raw_of_bytes) (simp_all add: le_val_append z)
  then show ?thesis using w by (simp add: export_raw_def e)
qed

lemma fval_short_pos: "shortVal e = Some s \<Longrightarrow> fval e = (if sint s < 0 then sint s + q_int else sint s)"
  using sint32_bounds' [of s] q_int_bounds(4) by (auto simp: fval_short mod_add_once)

lemma Fr_toMpz_val:
  assumes "gmp_spec g" "fok a"
  shows "Fr_toMpz g a = fval a"
proof (cases a)
  case (Fr_LONG l)
  then show ?thesis using assms rval_bounds [of l] by (simp add: Fr_toMpz_def gmp_import)
next
  case (Fr_LONGMONTGOMERY l)
  then show ?thesis using assms by (simp add: Fr_toMpz_def gmp_import Fr_rawFromMontgomery_mod)
qed (use assms fval_short_pos [of a] in \<open>simp_all add: Fr_toMpz_def gmp_init_q\<close>)

lemma Fr_fromMpz_val:
  assumes "gmp_spec g" "0 \<le> v" "v < q_int"
  shows "\<exists>e. Fr_fromMpz g v = Inr e \<and> fok e \<and> fval e = v"
proof (cases "fits32 v")
  case True
  then have "mpz_fits_sint_p g v" using assms by (simp add: gmp_spec_def)
  then show ?thesis using assms True by (simp add: Fr_fromMpz_def sint_word_of_int_32)
next
  case False
  then have "\<not> mpz_fits_sint_p g v" using assms by (simp add: gmp_spec_def)
  moreover obtain l where "export_raw g v = Inr l" "rval l = v"
    using gmp_export_raw [OF assms(1,2)] assms q_int_bounds by fastforce
  ultimately show ?thesis using assms by (simp add: Fr_fromMpz_def)
qed

text \<open>The value an operation returns, if it returns one without an error.\<close>

definition returns :: "cerr + FrElement \<Rightarrow> int \<Rightarrow> bool" where
  "returns r v \<longleftrightarrow> (\<exists>e. r = Inr e \<and> fok e \<and> fval e = v)"

lemma Fr_fromMpz_returns: "gmp_spec g \<Longrightarrow> 0 \<le> v \<Longrightarrow> v < q_int \<Longrightarrow> returns (Fr_fromMpz g v) v"
  using Fr_fromMpz_val by (simp add: returns_def)

lemma Fr_fromMpz_mod: "gmp_spec g \<Longrightarrow> returns (Fr_fromMpz g (v mod q_int)) (v mod q_int)"
  by (simp add: Fr_fromMpz_returns)

lemma Fr_str2element_returns:
  assumes "gmp_spec g" "2 \<le> base" "base \<le> 16" "numeral_in base s"
  shows "returns (Fr_str2element g s base) (numeral_val base s mod q_int)"
proof -
  have "mpz_init_set_str g s base = numeral_val base s" using assms by (simp add: gmp_spec_def)
  then show ?thesis
    using assms Fr_fromMpz_mod q_int_bounds
    by (simp add: Fr_str2element_def gmp_init_q gmp_fdiv of_div_def)
qed

lemma Fr_element2str_val:
  assumes "gmp_spec g" "fok e"
  shows "numeral_in 10 (Fr_element2str g e)" "numeral_val 10 (Fr_element2str g e) = fval e"
proof -
  have str: "numeral_in 10 (mpz_get_str g 10 v) \<and> numeral_val 10 (mpz_get_str g 10 v) = v" if "0 \<le> v" for v
    using assms that by (simp add: gmp_spec_def)
  have "numeral_in 10 (Fr_element2str g e) \<and> numeral_val 10 (Fr_element2str g e) = fval e"
  proof (cases "shortVal e")
    case None
    then obtain l where "longVal (Fr_toNormal e) = l" "rval l = fval e"
      using assms(2) fval_bounds [of e] rval_bounds
      by (cases e) (auto simp: Fr_rawFromMontgomery_mod)
    then show ?thesis using None assms str [of "rval l"] rval_bounds [of l]
      by (simp add: Fr_element2str_def gmp_import)
  next
    case (Some s)
    have "0 \<le> sint s + q_int" using sint32_bounds' [of s] q_int_bounds by simp
    then show ?thesis
      using Some assms fval_short_pos [OF Some] str [of "sint s + q_int"]
      by (simp add: Fr_element2str_def gmp_init_q digits10_numeral digits10_val)
  qed
  then show "numeral_in 10 (Fr_element2str g e)" "numeral_val 10 (Fr_element2str g e) = fval e" by simp_all
qed

lemma Fr_idiv_returns:
  assumes "gmp_spec g" "fok a" "fok b"
  shows "fval b \<noteq> 0 \<Longrightarrow> returns (Fr_idiv g a b) (fval a div fval b)"
    and "fval b = 0 \<Longrightarrow> Fr_idiv g a b = Inl div_zero"
proof -
  show "Fr_idiv g a b = Inl div_zero" if "fval b = 0"
    using that assms by (simp add: Fr_idiv_def Fr_toMpz_val gmp_fdiv of_div_def)
  assume nz: "fval b \<noteq> 0"
  have "fval a div fval b \<le> fval a"
    using nz fval_bounds [of a] fval_bounds [of b] zdiv_mono2 [of "fval a" 1 "fval b"] by simp
  then show "returns (Fr_idiv g a b) (fval a div fval b)"
    using nz assms fval_bounds [of a] fval_bounds [of b]
      Fr_fromMpz_returns [of g "fval a div fval b"]
    by (simp add: Fr_idiv_def Fr_toMpz_val gmp_fdiv of_div_def pos_imp_zdiv_nonneg_iff)
qed

lemma Fr_mod_returns:
  assumes "gmp_spec g" "fok a" "fok b"
  shows "fval b \<noteq> 0 \<Longrightarrow> returns (Fr_mod g a b) (fval a mod fval b)"
    and "fval b = 0 \<Longrightarrow> Fr_mod g a b = Inl div_zero"
proof -
  show "Fr_mod g a b = Inl div_zero" if "fval b = 0"
    using that assms by (simp add: Fr_mod_def Fr_toMpz_val gmp_fdiv of_div_def)
  assume nz: "fval b \<noteq> 0"
  then have "0 < fval b" using fval_bounds [of b] by simp
  then have "0 \<le> fval a mod fval b" "fval a mod fval b < q_int"
    using fval_bounds [of b] pos_mod_bound [of "fval b" "fval a"] by (simp_all del: pos_mod_bound)
  then show "returns (Fr_mod g a b) (fval a mod fval b)"
    using nz assms Fr_fromMpz_returns [of g "fval a mod fval b"]
    by (simp add: Fr_mod_def Fr_toMpz_val gmp_fdiv of_div_def)
qed

lemma Fr_pow_returns:
  assumes "gmp_spec g" "fok a" "fok b"
  shows "returns (Fr_pow g a b) (fval a ^ nat (fval b) mod q_int)"
proof -
  have "mpz_powm g (fval a) (fval b) q_int = fval a ^ nat (fval b) mod q_int"
    using assms(1) fval_bounds [of b] q_int_bounds by (simp add: gmp_spec_def)
  then show ?thesis using assms by (simp add: Fr_pow_def Fr_toMpz_val gmp_init_q Fr_fromMpz_mod)
qed

lemma Fr_inv_returns:
  assumes "gmp_spec g" "fok a" "coprime (fval a) q_int"
  shows "\<exists>e. Fr_inv g a = Inr e \<and> fok e \<and> fval a * fval e mod q_int = 1"
proof -
  let ?v = "mpz_invert g (fval a) q_int"
  have v: "0 \<le> ?v" "?v < q_int" "fval a * ?v mod q_int = 1"
    using assms(1,3) q_int_bounds(2) unfolding gmp_spec_def by blast+
  show ?thesis using Fr_fromMpz_val [OF assms(1) v(1,2)] v(3) assms
    by (auto simp: Fr_inv_def Fr_toMpz_val gmp_init_q)
qed

lemma Fr_div_returns:
  assumes "gmp_spec g" "fok a" "fok b" "coprime (fval b) q_int"
  shows "\<exists>e. Fr_div g a b = Inr e \<and> fok e \<and> fval e * fval b mod q_int = fval a"
proof -
  obtain i where i: "Fr_inv g b = Inr i" "fok i" "fval b * fval i mod q_int = 1"
    using Fr_inv_returns [OF assms(1,3,4)] by blast
  have "fval a * fval i mod q_int * fval b mod q_int = fval a * (fval b * fval i mod q_int) mod q_int"
    by (simp add: mod_simps mult_ac)
  then have "fval (Fr_mul a i) * fval b mod q_int = fval a"
    using assms(2) i by (simp add: fr.mul_val fr.reduced)
  then show ?thesis using i assms(2) by (auto simp: Fr_div_def fr.mul_ok)
qed

end
