(* ===== verification/Calcwit.thy ===== *)
theory Calcwit
  imports Fr_Gmp
begin

text \<open>
  \<open>circuit_cpp/circom.hpp\<close>, \<open>calcwit.hpp\<close> and \<open>calcwit.cpp\<close>: the loaded circuit, the components,
  the calculator state, the input hash map with its linear probing, the assignment of input
  signals that starts the run when the last one arrives, the witness read-out and the names of
  components. The constants of \<open>circuit.cpp\<close> and \<open>release_memory_component\<close> stand here as well.
\<close>

section \<open>Constants of the circuit\<close>

definition get_main_input_signal_start :: u32 where "get_main_input_signal_start = 1"
definition get_main_input_signal_no :: u32 where "get_main_input_signal_no = 193"
definition get_total_signal_no :: u32 where "get_total_signal_no = 72906"
definition get_number_of_components :: u32 where "get_number_of_components = 14485"
definition get_size_of_input_hashmap :: u32 where "get_size_of_input_hashmap = 256"
definition get_size_of_witness :: u32 where "get_size_of_witness = 48610"
definition get_size_of_constants :: u32 where "get_size_of_constants = 25024"
definition get_size_of_io_map :: u32 where "get_size_of_io_map = 133"
definition get_size_of_bus_field_map :: u32 where "get_size_of_bus_field_map = 0"

lemmas circuit_sizes =
  get_main_input_signal_start_def get_main_input_signal_no_def get_total_signal_no_def
  get_number_of_components_def get_size_of_input_hashmap_def get_size_of_witness_def
  get_size_of_constants_def get_size_of_io_map_def get_size_of_bus_field_map_def

section \<open>Data\<close>

record HashSignalInfo =
  hash :: u64
  signalid :: u64
  signalsize :: u64

record IOFieldDef =
  io_offset :: u32
  io_len :: u32
  io_lengths :: "u32 list"
  io_size :: u32
  io_busId :: u32

record IOFieldDefPair =
  pair_len :: u32
  pair_defs :: "IOFieldDef list"

record Circom_Circuit =
  InputHashMap :: "HashSignalInfo list"
  witness2SignalList :: "u64 list"
  circuitConstants :: "FrElement list"
  templateInsId2IOSignalInfo :: "u32 \<rightharpoonup> IOFieldDefPair"
  busInsId2FieldInfo :: "IOFieldDefPair list option"

text \<open>
  A pointer member: null, to a live array, or to an array that was deleted. The arrays of the
  synchronisation members have no contents that the code reads.
\<close>

datatype 'a heap_ptr = Null | Live "'a list" | Freed

text \<open>
  The integer members of a component have no initialiser, so they are indeterminate until the
  template's \<open>_create\<close> function writes them.
\<close>

record Circom_Component =
  templateId :: "u32 option"
  signalStart :: "u64 option"
  inputCounter :: "u32 option"
  templateName :: string
  componentName :: string
  idFather :: "u64 option"
  subcomponents :: "u32 heap_ptr"
  subcomponentsParallel :: "bool heap_ptr"
  outputIsSet :: "bool heap_ptr"
  mutexes :: "unit heap_ptr"
  cvs :: "unit heap_ptr"
  sbct :: "unit heap_ptr"

definition Circom_Component_new :: Circom_Component where
  "Circom_Component_new =
     \<lparr>templateId = None, signalStart = None, inputCounter = None, templateName = '''',
      componentName = '''', idFather = None, subcomponents = Null, subcomponentsParallel = Null,
      outputIsSet = Null, mutexes = Null, cvs = Null, sbct = Null\<rparr>"

text \<open>
  The calculator. \<open>signalValues\<close> and \<open>componentMemory\<close> are arrays whose sizes are
  \<open>get_total_signal_no\<close> and \<open>get_number_of_components\<close>; a signal is indeterminate until
  it is written. \<open>circuitConstants\<close> and the two field maps are copies of the circuit's pointers.
\<close>

record Circom_CalcWit =
  inputSignalAssigned :: "bool list"
  inputSignalAssignedCounter :: u32
  circuit :: Circom_Circuit
  signalValues :: "nat \<rightharpoonup> FrElement"
  componentMemory :: "nat \<Rightarrow> Circom_Component"
  maxThread :: u32
  numThread :: u32

definition Circom_CalcWit_new :: "gmp \<Rightarrow> Circom_Circuit \<Rightarrow> u32 \<Rightarrow> cerr + Circom_CalcWit" where
  "Circom_CalcWit_new g aCircuit maxTh =
     bindR (Fr_str2element g ''1'' 10) (\<lambda>one.
       Inr \<lparr>inputSignalAssigned = replicate (unat get_main_input_signal_no) False,
            inputSignalAssignedCounter = get_main_input_signal_no,
            circuit = aCircuit,
            signalValues = Map.empty(0 \<mapsto> one),
            componentMemory = (\<lambda>_. Circom_Component_new),
            maxThread = maxTh, numThread = 0\<rparr>)"

section \<open>Checked accesses\<close>

definition of_member :: "'a option \<Rightarrow> cerr + 'a" where
  "of_member v = (case v of None \<Rightarrow> Inl Uninitialised | Some x \<Rightarrow> Inr x)"

definition comp_at :: "Circom_CalcWit \<Rightarrow> nat \<Rightarrow> cerr + Circom_Component" where
  "comp_at ctx i =
     (if i < unat get_number_of_components then Inr (componentMemory ctx i) else Inl OutOfBounds)"

definition comp_upd ::
    "nat \<Rightarrow> (Circom_Component \<Rightarrow> Circom_Component) \<Rightarrow> Circom_CalcWit \<Rightarrow> cerr + Circom_CalcWit" where
  "comp_upd i f ctx =
     (if i < unat get_number_of_components
      then Inr (ctx\<lparr>componentMemory := (componentMemory ctx)(i := f (componentMemory ctx i))\<rparr>)
      else Inl OutOfBounds)"

section \<open>Hashing and lookup of input names\<close>

text \<open>\<open>fnv1a\<close>. The type \<open>char\<close> is signed on the targets of the program, and \<open>u64(c)\<close> extends its sign.\<close>

definition fnv1a_step :: "u64 \<Rightarrow> char \<Rightarrow> u64" where
  "fnv1a_step acc c = xor acc (scast (of_char c :: u8)) * 0x100000001B3"

definition fnv1a :: "string \<Rightarrow> u64" where
  "fnv1a s = foldl fnv1a_step 0xCBF29CE484222325 s"

text \<open>The probing loop of \<open>getInputSignalHashPosition\<close>, from the position after the first one.\<close>

partial_function (option) probe ::
    "HashSignalInfo list \<Rightarrow> u64 \<Rightarrow> nat \<Rightarrow> nat \<Rightarrow> nat \<Rightarrow> (cerr + nat) option" where
  "probe tbl h n inipos pos =
     (if pos = inipos then Some (Inl (AssertFailed ''Signals not found''))
      else case read_list tbl pos of
             Inl e \<Rightarrow> Some (Inl e)
           | Inr x \<Rightarrow>
               if hash x = h then Some (Inr pos)
               else if signalid x = 0 then Some (Inl (AssertFailed ''Signal not found''))
               else probe tbl h n inipos ((pos + 1) mod n))"

definition getInputSignalHashPosition :: "Circom_CalcWit \<Rightarrow> u64 \<Rightarrow> (cerr + nat) option" where
  "getInputSignalHashPosition ctx h =
     (let n = unat get_size_of_input_hashmap;
          pos = unat (h mod ucast get_size_of_input_hashmap);
          tbl = InputHashMap (circuit ctx)
      in case read_list tbl pos of
           Inl e \<Rightarrow> Some (Inl e)
         | Inr x \<Rightarrow> if hash x \<noteq> h then probe tbl h n pos ((pos + 1) mod n) else Some (Inr pos))"

definition entry_at :: "Circom_CalcWit \<Rightarrow> nat \<Rightarrow> cerr + HashSignalInfo" where
  "entry_at ctx pos = read_list (InputHashMap (circuit ctx)) pos"

definition getInputSignalSize :: "Circom_CalcWit \<Rightarrow> u64 \<Rightarrow> (cerr + u64) option" where
  "getInputSignalSize ctx h =
     (case getInputSignalHashPosition ctx h of
        None \<Rightarrow> None
      | Some r \<Rightarrow> Some (bindR r (\<lambda>pos. bindR (entry_at ctx pos) (\<lambda>x. Inr (signalsize x)))))"

section \<open>Assigning inputs\<close>

text \<open>\<open>run\<close> is generated with the circuit; the calculator calls it, so it is an argument here.\<close>

definition tryRunCircuit :: "Circom_CalcWit stmt \<Rightarrow> Circom_CalcWit stmt" where
  "tryRunCircuit run ctx = (if inputSignalAssignedCounter ctx = 0 then run ctx else Some (Inr ctx))"

text \<open>The assignment proper, and the whole of \<open>setInputSignal\<close>.\<close>

definition assign_input :: "Circom_CalcWit \<Rightarrow> nat \<Rightarrow> u32 \<Rightarrow> FrElement \<Rightarrow> cerr + Circom_CalcWit" where
  "assign_input ctx pos i v =
     bindR (entry_at ctx pos) (\<lambda>x.
       if signalsize x \<le> ucast i then Inl (AssertFailed ''Input signal array access exceeds the size'')
       else let si = ucast (signalid x + ucast i) :: u32;
                k = unat (si - get_main_input_signal_start)
            in bindR (read_list (inputSignalAssigned ctx) k) (\<lambda>assigned.
                 if assigned then Inl (AssertFailed ''Signal assigned twice'')
                 else bindR (arr_write (unat get_total_signal_no) (signalValues ctx) (uint si) v) (\<lambda>sv.
                   Inr (ctx\<lparr>signalValues := sv,
                            inputSignalAssigned := (inputSignalAssigned ctx)[k := True],
                            inputSignalAssignedCounter := inputSignalAssignedCounter ctx - 1\<rparr>))))"

definition setInputSignal ::
    "Circom_CalcWit stmt \<Rightarrow> u64 \<Rightarrow> u32 \<Rightarrow> FrElement \<Rightarrow> Circom_CalcWit stmt" where
  "setInputSignal run h i v ctx =
     (if inputSignalAssignedCounter ctx = 0 then Some (Inl (AssertFailed ''No more signals to be assigned''))
      else case getInputSignalHashPosition ctx h of
             None \<Rightarrow> None
           | Some (Inl e) \<Rightarrow> Some (Inl e)
           | Some (Inr pos) \<Rightarrow>
               (case assign_input ctx pos i v of
                  Inl e \<Rightarrow> Some (Inl e)
                | Inr ctx' \<Rightarrow> tryRunCircuit run ctx'))"

definition getRemaingInputsToBeSet :: "Circom_CalcWit \<Rightarrow> u32" where
  "getRemaingInputsToBeSet ctx = inputSignalAssignedCounter ctx"

definition getWitness :: "Circom_CalcWit \<Rightarrow> nat \<Rightarrow> cerr + FrElement" where
  "getWitness ctx idx =
     bindR (read_list (witness2SignalList (circuit ctx)) idx) (\<lambda>w.
       bindR (arr_read (unat get_total_signal_no) (signalValues ctx) (uint w)) (\<lambda>v. Inr (Fr_copy v)))"

section \<open>Names\<close>

text \<open>Following the fathers up; a cycle among them would never reach component 0.\<close>

partial_function (option) getTrace :: "Circom_CalcWit \<Rightarrow> u64 \<Rightarrow> (cerr + string) option" where
  "getTrace ctx id_cmp =
     (case comp_at ctx (unat id_cmp) of
        Inl e \<Rightarrow> Some (Inl e)
      | Inr c \<Rightarrow>
          if id_cmp = 0 then Some (Inr (componentName c))
          else (case of_member (idFather c) of
                  Inl e \<Rightarrow> Some (Inl e)
                | Inr id_father \<Rightarrow>
                    Option.bind (getTrace ctx id_father) (\<lambda>r.
                      Some (bindR r (\<lambda>t. Inr (t @ ''.'' @ componentName c))))))"

fun position_loop :: "u32 list \<Rightarrow> u32 \<Rightarrow> string \<Rightarrow> cerr + string" where
  "position_loop [] index positions = Inr positions"
| "position_loop (d # ds) index positions =
     (if d = 0 then Inl (SystemError ''division by zero'')
      else position_loop ds (index div d) (''['' @ digits10 (unat (index mod d)) @ '']'' @ positions))"

text \<open>The loop goes through the dimensions from the last to the first.\<close>

definition generate_position_array :: "u32 list \<Rightarrow> u32 \<Rightarrow> cerr + string" where
  "generate_position_array dimensions index = position_loop (rev dimensions) index ''''"

section \<open>Releasing a component\<close>

text \<open>\<open>if (p) delete [] p\<close>: the pointer keeps its value, so a second call deletes again.\<close>

definition delete_ptr :: "'a heap_ptr \<Rightarrow> cerr + 'a heap_ptr" where
  "delete_ptr p = (case p of Null \<Rightarrow> Inr Null | Live xs \<Rightarrow> Inr Freed | Freed \<Rightarrow> Inl DoubleFree)"

definition release_memory_component :: "nat \<Rightarrow> Circom_CalcWit \<Rightarrow> cerr + Circom_CalcWit" where
  "release_memory_component pos ctx =
     (if pos \<noteq> 0 then
        bindR (comp_at ctx pos) (\<lambda>c.
        bindR (delete_ptr (subcomponents c)) (\<lambda>p1.
        bindR (delete_ptr (subcomponentsParallel c)) (\<lambda>p2.
        bindR (delete_ptr (outputIsSet c)) (\<lambda>p3.
        bindR (delete_ptr (mutexes c)) (\<lambda>p4.
        bindR (delete_ptr (cvs c)) (\<lambda>p5.
        bindR (delete_ptr (sbct c)) (\<lambda>p6.
          comp_upd pos (\<lambda>_. c\<lparr>subcomponents := p1, subcomponentsParallel := p2, outputIsSet := p3,
                              mutexes := p4, cvs := p5, sbct := p6\<rparr>) ctx)))))))
      else Inr ctx)"

section \<open>Lookup is linear probing\<close>

text \<open>
  The reference: the entries are tried in the order of the probe sequence. The first one ends the
  search only if it has the hash; a later one also if it is empty (\<open>signalid = 0\<close>).
\<close>

definition home :: "u64 \<Rightarrow> nat" where
  "home h = unat (h mod ucast get_size_of_input_hashmap)"

definition slot :: "HashSignalInfo list \<Rightarrow> u64 \<Rightarrow> nat \<Rightarrow> HashSignalInfo" where
  "slot tbl h j = tbl ! ((home h + j) mod length tbl)"

definition lookup_spec :: "HashSignalInfo list \<Rightarrow> u64 \<Rightarrow> cerr + nat" where
  "lookup_spec tbl h =
     (case find (\<lambda>j. hash (slot tbl h j) = h \<or> 0 < j \<and> signalid (slot tbl h j) = 0) [0..<length tbl] of
        None \<Rightarrow> Inl (AssertFailed ''Signals not found'')
      | Some j \<Rightarrow>
          if hash (slot tbl h j) = h then Inr ((home h + j) mod length tbl)
          else Inl (AssertFailed ''Signal not found''))"

definition table_size_ok :: "HashSignalInfo list \<Rightarrow> bool" where
  "table_size_ok tbl \<longleftrightarrow> length tbl = unat get_size_of_input_hashmap"

lemma table_length: "table_size_ok tbl \<Longrightarrow> length tbl = 256"
  by (simp add: table_size_ok_def circuit_sizes)

lemma home_less: "home h < 256"
proof -
  have "unat (h mod 256) = unat h mod 256" by (simp add: unat_mod)
  then show ?thesis by (simp add: home_def circuit_sizes)
qed

lemma hashmap_256: "unat get_size_of_input_hashmap = 256"
  by (simp add: circuit_sizes)

lemma find_upt_step:
  "j < n \<Longrightarrow> find P [j..<n] = (if P j then Some j else find P [Suc j..<n])"
  by (simp add: upt_conv_Cons)

lemma probe_find:
  assumes n: "length tbl = n" and ini: "home h < n" and j: "0 < j" "j \<le> n"
  shows "probe tbl h n (home h) ((home h + j) mod n) =
    Some (case find (\<lambda>j. hash (slot tbl h j) = h \<or> 0 < j \<and> signalid (slot tbl h j) = 0) [j..<n] of
        None \<Rightarrow> Inl (AssertFailed ''Signals not found'')
      | Some j \<Rightarrow>
          if hash (slot tbl h j) = h then Inr ((home h + j) mod n)
          else Inl (AssertFailed ''Signal not found''))"
  using j
proof (induction "n - j" arbitrary: j)
  case 0
  then show ?case using ini by (subst probe.simps) simp
next
  case (Suc k)
  then have lt: "j < n" by simp
  have ne: "(home h + j) mod n \<noteq> home h"
  proof
    assume "(home h + j) mod n = home h"
    moreover have "(home h + j) mod n = (if home h + j < n then home h + j else home h + j - n)"
      using ini lt by (simp add: mod_if [of "home h + j"])
    ultimately show False using Suc.prems lt by (simp split: if_splits)
  qed
  have nx: "Suc ((home h + j) mod n) mod n = Suc (home h + j) mod n"
    by (rule mod_Suc_eq)
  have rd: "read_list tbl ((home h + j) mod n) = Inr (slot tbl h j)"
    using n lt by (simp add: read_list_def slot_def)
  show ?case
    using Suc.hyps(1) [of "Suc j"] Suc.hyps(2) Suc.prems lt ne
    by (subst probe.simps) (simp add: rd nx find_upt_step)
qed

lemma lookup_eq_spec:
  assumes "table_size_ok (InputHashMap (circuit ctx))"
  shows "getInputSignalHashPosition ctx h = Some (lookup_spec (InputHashMap (circuit ctx)) h)"
proof -
  let ?t = "InputHashMap (circuit ctx)"
  have n: "length ?t = 256" using assms by (rule table_length)
  have r0: "read_list ?t (home h) = Inr (slot ?t h 0)"
    using n home_less [of h] by (simp add: read_list_def slot_def)
  have p: "probe ?t h 256 (home h) ((home h + 1) mod 256) =
    Some (case find (\<lambda>j. hash (slot ?t h j) = h \<or> 0 < j \<and> signalid (slot ?t h j) = 0) [1..<256] of
        None \<Rightarrow> Inl (AssertFailed ''Signals not found'')
      | Some j \<Rightarrow>
          if hash (slot ?t h j) = h then Inr ((home h + j) mod 256)
          else Inl (AssertFailed ''Signal not found''))"
    using probe_find [OF n home_less, of 1] by simp
  have "getInputSignalHashPosition ctx h =
    (case read_list ?t (home h) of
       Inl e \<Rightarrow> Some (Inl e)
     | Inr x \<Rightarrow> if hash x \<noteq> h then probe ?t h 256 (home h) ((home h + 1) mod 256) else Some (Inr (home h)))"
    unfolding getInputSignalHashPosition_def Let_def home_def [symmetric] hashmap_256 by (rule refl)
  then show ?thesis
    using home_less [of h] unfolding r0 p lookup_spec_def n
    by (simp add: find_upt_step [of 0])
qed

text \<open>The interface that \<open>setInputSignal\<close> and \<open>loadJson\<close> use, and what it guarantees.\<close>

locale input_directory =
  fixes position :: "'c \<Rightarrow> u64 \<Rightarrow> (cerr + nat) option"
    and entries :: "'c \<Rightarrow> HashSignalInfo list"
    and legal :: "'c \<Rightarrow> bool"
  assumes returns: "legal c \<Longrightarrow> position c h \<noteq> None"
    and sound: "legal c \<Longrightarrow> position c h = Some (Inr p) \<Longrightarrow> p < length (entries c) \<and> hash (entries c ! p) = h"
    and only_assert: "legal c \<Longrightarrow> position c h = Some (Inl e) \<Longrightarrow> \<exists>m. e = AssertFailed m"
begin

lemma position_cases:
  assumes "legal c"
  obtains (found) p where "position c h = Some (Inr p)" "p < length (entries c)" "hash (entries c ! p) = h"
  | (missing) m where "position c h = Some (Inl (AssertFailed m))"
proof (cases "position c h")
  case None
  then show ?thesis using returns [OF assms] by blast
next
  case (Some r)
  then show ?thesis
    using sound [OF assms] only_assert [OF assms] found missing by (cases r) blast+
qed

lemma position_injective:
  "legal c \<Longrightarrow> position c h = Some (Inr p) \<Longrightarrow> position c k = Some (Inr p) \<Longrightarrow> h = k"
  using sound by blast

end

lemma find_SomeD: "find P xs = Some x \<Longrightarrow> P x \<and> x \<in> set xs"
  by (induction xs) (auto split: if_splits)

interpretation dir: input_directory getInputSignalHashPosition "\<lambda>c. InputHashMap (circuit c)"
  "\<lambda>c. table_size_ok (InputHashMap (circuit c))"
  by unfold_locales
    (auto simp: lookup_eq_spec lookup_spec_def slot_def table_length dest!: find_SomeD
      split: option.splits if_splits)

section \<open>Assigning the inputs\<close>

text \<open>
  The counter is the number of inputs not assigned yet, and the signal of an assigned input
  holds a value.
\<close>

definition inputs_inv :: "Circom_CalcWit \<Rightarrow> bool" where
  "inputs_inv ctx \<longleftrightarrow>
     length (inputSignalAssigned ctx) = unat get_main_input_signal_no \<and>
     unat (inputSignalAssignedCounter ctx) = length (filter Not (inputSignalAssigned ctx)) \<and>
     (\<forall>k < length (inputSignalAssigned ctx).
        inputSignalAssigned ctx ! k \<longrightarrow> signalValues ctx (Suc k) \<noteq> None)"

lemma filter_Not_update:
  "k < length xs \<Longrightarrow> \<not> xs ! k \<Longrightarrow> Suc (length (filter Not (xs[k := True]))) = length (filter Not xs)"
proof (induction xs arbitrary: k)
  case (Cons x xs)
  then show ?case by (cases k) auto
qed simp

lemma unat_pred: "unat (si - 1) < n \<Longrightarrow> n < 2 ^ 32 - 1 \<Longrightarrow> unat si = Suc (unat (si - 1))" for si :: u32
proof -
  assume a: "unat (si - 1) < n" "n < 2 ^ 32 - 1"
  have "si \<noteq> 0"
  proof
    assume "si = 0"
    then have "unat (si - 1) = 2 ^ 32 - 1" by (simp add: unsigned_minus_1_eq_mask mask_eq_exp_minus_1)
    with a show False by simp
  qed
  then show ?thesis by (simp add: unat_minus_one unat_gt_0)
qed

lemma assign_input_Inr:
  assumes "assign_input ctx pos i v = Inr ctx'" "length (inputSignalAssigned ctx) < 2 ^ 32 - 1"
  obtains x k where
    "pos < length (InputHashMap (circuit ctx))" "x = InputHashMap (circuit ctx) ! pos"
    "ucast i < signalsize x" "k < length (inputSignalAssigned ctx)"
    "unat (ucast (signalid x + ucast i) :: u32) = Suc k"
    "\<not> inputSignalAssigned ctx ! k"
    "ctx' = ctx\<lparr>signalValues := (signalValues ctx)(Suc k \<mapsto> v),
                inputSignalAssigned := (inputSignalAssigned ctx)[k := True],
                inputSignalAssignedCounter := inputSignalAssignedCounter ctx - 1\<rparr>"
proof -
  define x where "x = InputHashMap (circuit ctx) ! pos"
  define si where "si = (ucast (signalid x + ucast i) :: u32)"
  define k where "k = unat (si - 1)"
  note defs = assign_input_def entry_at_def read_list_def Let_def circuit_sizes bindR_def arr_write_def
  have pos: "pos < length (InputHashMap (circuit ctx))"
    using assms(1) by (simp add: defs split: if_splits)
  have sz: "ucast i < signalsize x"
    using assms(1) pos by (simp add: defs x_def [symmetric] not_le split: if_splits)
  have k: "k < length (inputSignalAssigned ctx)"
    using assms(1) pos sz
    by (simp add: defs x_def [symmetric] si_def [symmetric] k_def [symmetric] split: if_splits)
  then have si: "unat si = Suc k"
    using assms(2) unat_pred [of si] by (simp add: k_def)
  have un: "\<not> inputSignalAssigned ctx ! k"
    using assms(1) pos sz k
    by (simp add: defs x_def [symmetric] si_def [symmetric] k_def [symmetric] split: if_splits)
  have "ctx' = ctx\<lparr>signalValues := (signalValues ctx)(Suc k \<mapsto> v),
                inputSignalAssigned := (inputSignalAssigned ctx)[k := True],
                inputSignalAssignedCounter := inputSignalAssignedCounter ctx - 1\<rparr>"
    using assms(1) pos sz k un si
    by (simp add: defs x_def [symmetric] si_def [symmetric] k_def [symmetric] split: if_splits)
  with pos sz k un si show ?thesis using that [of x k] by (simp add: x_def si_def)
qed

lemma assign_input_inv:
  assumes "inputs_inv ctx" "inputSignalAssignedCounter ctx \<noteq> 0" "assign_input ctx pos i v = Inr ctx'"
  shows "inputs_inv ctx'"
proof -
  have len: "length (inputSignalAssigned ctx) = 193"
    using assms(1) by (simp add: inputs_inv_def circuit_sizes)
  obtain k where k: "k < length (inputSignalAssigned ctx)" "\<not> inputSignalAssigned ctx ! k"
    and ctx': "ctx' = ctx\<lparr>signalValues := (signalValues ctx)(Suc k \<mapsto> v),
                inputSignalAssigned := (inputSignalAssigned ctx)[k := True],
                inputSignalAssignedCounter := inputSignalAssignedCounter ctx - 1\<rparr>"
    using assign_input_Inr [OF assms(3)] len by auto
  have "Suc (unat (inputSignalAssignedCounter ctx - 1)) = unat (inputSignalAssignedCounter ctx)"
    using assms(2) by (simp add: unat_minus_one unat_gt_0)
  then show ?thesis
    using assms(1) k filter_Not_update [OF k]
    by (auto simp: inputs_inv_def ctx' nth_list_update)
qed

lemma complete_inputs:
  assumes "inputs_inv ctx" "inputSignalAssignedCounter ctx = 0" "k < unat get_main_input_signal_no"
  shows "signalValues ctx (Suc k) \<noteq> None"
proof -
  have "filter Not (inputSignalAssigned ctx) = []" using assms(1,2) by (simp add: inputs_inv_def)
  then have "inputSignalAssigned ctx ! j" if "j < length (inputSignalAssigned ctx)" for j
    using that nth_mem by (fastforce simp: filter_empty_conv)
  moreover have "k < length (inputSignalAssigned ctx)"
    using assms(1,3) by (simp add: inputs_inv_def)
  ultimately show ?thesis using assms(1) unfolding inputs_inv_def by blast
qed

text \<open>A slot that was assigned stays assigned, and a second assignment of it is refused.\<close>

lemma assign_twice:
  assumes "assign_input ctx pos i v = Inr ctx'" "length (inputSignalAssigned ctx) < 2 ^ 32 - 1"
  shows "assign_input ctx' pos i w = Inl (AssertFailed ''Signal assigned twice'')"
  using assms(1)
proof (rule assign_input_Inr [OF _ assms(2)])
  fix x k
  assume x: "pos < length (InputHashMap (circuit ctx))" "x = InputHashMap (circuit ctx) ! pos"
    "ucast i < signalsize x" "k < length (inputSignalAssigned ctx)"
    "unat (ucast (signalid x + ucast i) :: u32) = Suc k" and
    ctx': "ctx' = ctx\<lparr>signalValues := (signalValues ctx)(Suc k \<mapsto> v),
                inputSignalAssigned := (inputSignalAssigned ctx)[k := True],
                inputSignalAssignedCounter := inputSignalAssignedCounter ctx - 1\<rparr>"
  define si where "si = (ucast (signalid x + ucast i) :: u32)"
  have si: "unat si = Suc k" using x(5) by (simp add: si_def)
  then have "si \<noteq> 0" by auto
  with si have "unat (si - 1) = k" by (simp add: unat_minus_one)
  then show ?thesis
    using x by (simp add: ctx' assign_input_def entry_at_def read_list_def x(2) [symmetric]
        si_def [symmetric] Let_def circuit_sizes)
qed

section \<open>Positions, traces and releases\<close>

text \<open>Row-major indices: the index of a position in an array with the given dimensions.\<close>

fun row_major :: "u32 list \<Rightarrow> u32 list \<Rightarrow> nat" where
  "row_major [] [] = 0"
| "row_major (d # ds) (i # is) = unat i + unat d * row_major ds is"
| "row_major _ _ = 0"

definition brackets :: "u32 \<Rightarrow> string" where
  "brackets i = ''['' @ digits10 (unat i) @ '']''"

lemma position_loop_row_major:
  assumes "list_all2 (\<lambda>i d. i < d) is ds" "row_major ds is < 2 ^ 32"
  shows "position_loop ds (of_nat (row_major ds is)) acc = Inr (concat (map brackets (rev is)) @ acc)"
  using assms
proof (induction "is" ds arbitrary: acc rule: list_all2_induct)
  case Nil
  then show ?case by simp
next
  case (Cons i "is" d ds)
  let ?r = "row_major ds is"
  let ?x = "of_nat (unat i + unat d * ?r) :: u32"
  have d: "0 < unat d" "unat i < unat d" "d \<noteq> 0"
    using Cons.hyps(1) by (auto simp: word_less_nat_alt)
  have lt: "unat i + unat d * ?r < 2 ^ 32" using Cons.prems by simp
  have "1 * ?r \<le> unat d * ?r" using d by (intro mult_le_mono1) simp
  with lt have r: "?r < 2 ^ 32" by linarith
  have x: "unat ?x = unat i + unat d * ?r" using lt by (simp only: unsigned_of_nat) (simp add: take_bit_nat_eq_self)
  have "unat (?x mod d) = unat i" using d by (simp only: unat_mod x) simp
  then have m: "?x mod d = i" by (simp only: word_unat_eq_iff)
  have "unat (?x div d) = ?r" using d by (simp only: unat_div x) simp
  moreover have "unat (of_nat ?r :: u32) = ?r" using r by (simp add: unsigned_of_nat take_bit_nat_eq_self)
  ultimately have q: "?x div d = of_nat ?r" by (simp only: word_unat_eq_iff)
  have "position_loop (d # ds) ?x acc = position_loop ds (of_nat ?r) (brackets i @ acc)"
    unfolding position_loop.simps m q using d by (simp add: brackets_def)
  also have "\<dots> = Inr (concat (map brackets (rev is)) @ brackets i @ acc)"
    using Cons.IH r by simp
  finally show ?case by simp
qed

lemma getTrace_root: "getTrace ctx 0 = Some (Inr (componentName (componentMemory ctx 0)))"
  by (subst getTrace.simps) (simp add: comp_at_def circuit_sizes)

text \<open>The path of names down to a component whose fathers all have smaller numbers.\<close>

definition fathers_ok :: "Circom_CalcWit \<Rightarrow> nat \<Rightarrow> bool" where
  "fathers_ok ctx n \<longleftrightarrow>
     n < unat get_number_of_components \<and>
     (\<forall>i \<le> n. 0 < i \<longrightarrow> (\<exists>f. idFather (componentMemory ctx i) = Some f \<and> unat f < i))"

lemma getTrace_step:
  assumes "unat c < unat get_number_of_components" "c \<noteq> 0"
    "idFather (componentMemory ctx (unat c)) = Some f" "getTrace ctx f = Some (Inr t)"
  shows "getTrace ctx c = Some (Inr (t @ ''.'' @ componentName (componentMemory ctx (unat c))))"
  using assms by (subst getTrace.simps) (simp add: comp_at_def of_member_def)

lemma getTrace_returns:
  "fathers_ok ctx (unat c) \<Longrightarrow> \<exists>t. getTrace ctx c = Some (Inr t)"
proof (induction "unat c" arbitrary: c rule: less_induct)
  case less
  show ?case
  proof (cases "c = 0")
    case True
    then show ?thesis by (simp add: getTrace_root)
  next
    case False
    then have "0 < unat c" by (simp add: unat_gt_0)
    then obtain f where f: "idFather (componentMemory ctx (unat c)) = Some f" "unat f < unat c"
      using less.prems by (auto simp: fathers_ok_def)
    then have "fathers_ok ctx (unat f)" using less.prems by (auto simp: fathers_ok_def)
    then obtain t where "getTrace ctx f = Some (Inr t)" using less.hyps f(2) by blast
    then show ?thesis using getTrace_step [OF _ False f(1)] less.prems by (auto simp: fathers_ok_def)
  qed
qed

lemma delete_ptr_twice: "delete_ptr p = Inr q \<Longrightarrow> p \<noteq> Null \<Longrightarrow> delete_ptr q = Inl DoubleFree"
  by (cases p) (auto simp: delete_ptr_def)

section \<open>Printing\<close>

text \<open>\<open>int_to_hex\<close>: two characters and sixteen digits in lower case, the highest first.\<close>

definition int_to_hex :: "u64 \<Rightarrow> string" where
  "int_to_hex i = ''0x'' @ map (\<lambda>k. ''0123456789abcdef'' ! unat (take_bit 4 (drop_bit (4 * k) i))) (rev [0..<16])"

lemma hex_digit_inject: "d < 16 \<Longrightarrow> e < 16 \<Longrightarrow> ''0123456789abcdef'' ! d = ''0123456789abcdef'' ! e \<longleftrightarrow> d = e"
  by (rule nth_eq_iff_index_eq) simp_all

lemma nibble_less: "unat (take_bit 4 x) < 16" for x :: u64
  using take_bit_nat_less_exp [of 4 "unat x"] by (simp add: unsigned_take_bit_eq)

lemma int_to_hex_inject: "int_to_hex i = int_to_hex j \<longleftrightarrow> i = j"
proof
  assume "int_to_hex i = int_to_hex j"
  then have d: "take_bit 4 (drop_bit (4 * k) i) = take_bit 4 (drop_bit (4 * k) j)" if "k < 16" for k
    using that hex_digit_inject [OF nibble_less nibble_less]
    by (intro unsigned_word_eqI [where 'a = nat]) (simp add: int_to_hex_def map_eq_conv del: upt_rec_numeral)
  show "i = j"
  proof (rule bit_word_eqI)
    fix n
    assume "n < LENGTH(64)"
    then have "n div 4 < 16" by simp
    from arg_cong [OF d [OF this], of "\<lambda>x. bit x (n mod 4)"] show "bit i n \<longleftrightarrow> bit j n"
      by (simp add: bit_take_bit_iff bit_drop_bit_eq)
  qed
qed simp

lemma int_to_hex_length: "length (int_to_hex i) = 18"
  by (simp add: int_to_hex_def)

end
