(* ===== verification/Frame.thy ===== *)
theory Frame
  imports Calcwit
begin

text \<open>
  The statements of the generated \<open>_run\<close> functions of \<open>circuit_cpp/circuit.cpp\<close>. A frame holds
  the calculator, the two local arrays of a function (\<open>expaux\<close> and \<open>lvar\<close>) with their declared
  sizes, and the local constants that the prologue reads from the component. Operands and
  destinations are the lvalues of the code, each access checked against the bounds of its array.
\<close>

section \<open>Frames\<close>

record frame =
  f_ctx :: Circom_CalcWit
  ctx_index :: nat
  mySignalStart :: u64
  expaux_size :: nat
  lvar_size :: nat
  expaux :: "nat \<rightharpoonup> FrElement"
  lvar :: "nat \<rightharpoonup> FrElement"

definition sigs :: "frame \<Rightarrow> nat \<rightharpoonup> FrElement" where
  "sigs s = signalValues (f_ctx s)"

definition consts_of :: "frame \<Rightarrow> FrElement list" where
  "consts_of s = circuitConstants (circuit (f_ctx s))"

section \<open>Operands\<close>

type_synonym operand = "frame \<Rightarrow> cerr + FrElement"
type_synonym index = "frame \<Rightarrow> cerr + int"

text \<open>
  Index expressions are sums of products \<open>c * Fr_toInt(&x)\<close> and a literal. The address of a
  signal is formed in unsigned 64-bit arithmetic.
\<close>

fun ixs :: "(nat \<times> operand) list \<Rightarrow> nat \<Rightarrow> index" where
  "ixs [] k s = Inr (int k)"
| "ixs ((c, r) # rs) k s =
     bindR (r s) (\<lambda>e. bindR (Fr_toInt e) (\<lambda>n. bindR (ixs rs k s) (\<lambda>m. Inr (int c * n + m))))"

definition sig_addr :: "frame \<Rightarrow> int \<Rightarrow> int" where
  "sig_addr s i = (uint (mySignalStart s) + i) mod 2 ^ 64"

definition exp_at :: "nat \<Rightarrow> operand" where
  "exp_at i s = arr_read (expaux_size s) (expaux s) (int i)"

definition lv_ix :: "index \<Rightarrow> operand" where
  "lv_ix ix s = bindR (ix s) (arr_read (lvar_size s) (lvar s))"

definition lv :: "nat \<Rightarrow> operand" where
  "lv i s = arr_read (lvar_size s) (lvar s) (int i)"

definition sig_ix :: "index \<Rightarrow> operand" where
  "sig_ix ix s =
     bindR (ix s) (\<lambda>i. arr_read (unat get_total_signal_no) (sigs s) (sig_addr s i))"

definition con :: "nat \<Rightarrow> operand" where
  "con i s = read_list (consts_of s) i"

section \<open>Destinations\<close>

datatype dest = D_expaux nat | D_lvar int | D_sig int

fun store :: "dest \<Rightarrow> FrElement \<Rightarrow> frame \<Rightarrow> cerr + frame" where
  "store (D_expaux i) v s = bindR (arr_write (expaux_size s) (expaux s) (int i) v) (\<lambda>m. Inr (s\<lparr>expaux := m\<rparr>))"
| "store (D_lvar i) v s = bindR (arr_write (lvar_size s) (lvar s) i v) (\<lambda>m. Inr (s\<lparr>lvar := m\<rparr>))"
| "store (D_sig a) v s =
     bindR (arr_write (unat get_total_signal_no) (sigs s) a v)
       (\<lambda>m. Inr (s\<lparr>f_ctx := (f_ctx s)\<lparr>signalValues := m\<rparr>\<rparr>))"

definition to_lvar :: "nat \<Rightarrow> frame \<Rightarrow> cerr + dest" where
  "to_lvar i s = Inr (D_lvar (int i))"

definition to_sig :: "index \<Rightarrow> frame \<Rightarrow> cerr + dest" where
  "to_sig ix s = bindR (ix s) (\<lambda>i. Inr (D_sig (sig_addr s i)))"

section \<open>Statements\<close>

text \<open>\<open>Fr_f(&expaux[i], a, b)\<close>.\<close>

definition op2 :: "(FrElement \<Rightarrow> FrElement \<Rightarrow> FrElement) \<Rightarrow> nat \<Rightarrow> operand \<Rightarrow> operand \<Rightarrow> frame stmt" where
  "op2 f i a b = liftM (\<lambda>s. bindR (a s) (\<lambda>x. bindR (b s) (\<lambda>y. store (D_expaux i) (f x y) s)))"

definition copyM :: "dest \<Rightarrow> operand \<Rightarrow> frame stmt" where
  "copyM d a = liftM (\<lambda>s. bindR (a s) (\<lambda>v. store d (Fr_copy v) s))"

text \<open>\<open>{ PFrElement aux_dest = d; cs; Fr_copy(aux_dest, a); }\<close>: the address comes first.\<close>

definition block :: "(frame \<Rightarrow> cerr + dest) \<Rightarrow> frame stmt list \<Rightarrow> operand \<Rightarrow> frame stmt" where
  "block d cs a s = (case d s of Inl e \<Rightarrow> Some (Inl e) | Inr t \<Rightarrow> seqM (cs @ [copyM t a]) s)"

definition isTrueE :: "nat \<Rightarrow> frame \<Rightarrow> cerr + bool" where
  "isTrueE i s = bindR (exp_at i s) (\<lambda>e. Inr (Fr_isTrue e))"

text \<open>A run of copies of circuit constants into \<open>lvar\<close>, and \<open>n\<close> consecutive ones.\<close>

definition load_const :: "nat \<times> nat \<Rightarrow> frame stmt" where
  "load_const lc = block (to_lvar (fst lc)) [] (con (snd lc))"

definition load_consts :: "(nat \<times> nat) list \<Rightarrow> frame stmt" where
  "load_consts ps = seqM (map load_const ps)"

definition span :: "nat \<Rightarrow> nat \<Rightarrow> nat \<Rightarrow> (nat \<times> nat) list" where
  "span l c n = map (\<lambda>k. (l + k, c + k)) [0..<n]"

text \<open>A table of constants, given by their numbers, into the first cells.\<close>

definition table :: "nat list \<Rightarrow> (nat \<times> nat) list" where
  "table ms = zip [0..<length ms] ms"

text \<open>
  The loops of the templates, on a counter in \<open>lvar[k]\<close>: the comparison with the constant \<open>cn\<close>,
  then \<open>while\<close> on its outcome; each round ends with the increment by the constant \<open>c1\<close> and the
  comparison.
\<close>

definition count_loop :: "nat \<Rightarrow> nat \<Rightarrow> nat \<Rightarrow> frame stmt list \<Rightarrow> frame stmt list" where
  "count_loop k c1 cn body =
     [op2 Fr_lt 0 (lv k) (con cn),
      whileM (isTrueE 0)
        (seqM (body @ [block (to_lvar k) [op2 Fr_add 0 (lv k) (con c1)] (exp_at 0),
                       op2 Fr_lt 0 (lv k) (con cn)]))]"

section \<open>Prologue and epilogue of a run\<close>

text \<open>
  The prologue reads the members of the component; an indeterminate one is an error. The epilogue
  releases the subcomponents, of which there are \<open>nsub\<close>.
\<close>

definition release_one :: "nat \<Rightarrow> nat \<Rightarrow> Circom_CalcWit stmt" where
  "release_one idx i = liftM (\<lambda>ctx.
     bindR (comp_at ctx idx) (\<lambda>c.
       case subcomponents c of
         Null \<Rightarrow> Inl NullPointer
       | Freed \<Rightarrow> Inl UseAfterFree
       | Live xs \<Rightarrow>
           bindR (read_list xs i) (\<lambda>j.
             if j \<noteq> 0 then
               bindR (comp_at ctx (unat j)) (\<lambda>d.
               bindR (of_member (inputCounter d)) (\<lambda>n.
                 if n \<noteq> 0 then Inl (AssertFailed ''!(ctx->componentMemory[index_subc].inputCounter)'')
                 else release_memory_component (unat j) ctx))
             else Inr ctx)))"

definition release_subcomponents :: "nat \<Rightarrow> nat \<Rightarrow> Circom_CalcWit stmt" where
  "release_subcomponents nsub idx = forM nsub (release_one idx)"

text \<open>A \<open>_run\<close> function: from the number of the component, a statement on the calculator.\<close>

type_synonym runner = "nat \<Rightarrow> Circom_CalcWit stmt"

definition run_template ::
    "nat \<Rightarrow> nat \<Rightarrow> nat \<Rightarrow> frame stmt list \<Rightarrow> nat \<Rightarrow> Circom_CalcWit stmt" where
  "run_template nexp nlvar nsub body idx ctx =
     (case bindR (comp_at ctx idx) (\<lambda>c.
             bindR (of_member (signalStart c)) (\<lambda>start.
             bindR (of_member (idFather c)) (\<lambda>_. Inr start))) of
        Inl e \<Rightarrow> Some (Inl e)
      | Inr start \<Rightarrow>
          (case seqM body \<lparr>f_ctx = ctx, ctx_index = idx, mySignalStart = start, expaux_size = nexp,
                          lvar_size = nlvar, expaux = Map.empty, lvar = Map.empty\<rparr> of
             None \<Rightarrow> None
           | Some (Inl e) \<Rightarrow> Some (Inl e)
           | Some (Inr s) \<Rightarrow> release_subcomponents nsub idx (f_ctx s)))"

text \<open>The \<open>_create\<close> functions all write the same members, in this order.\<close>

definition create_component ::
    "u32 \<Rightarrow> string \<Rightarrow> u32 \<Rightarrow> nat \<Rightarrow> u32 \<Rightarrow> u32 \<Rightarrow> string \<Rightarrow> u32 \<Rightarrow> Circom_CalcWit stmt" where
  "create_component tid tname ninputs nsub soffset coffset compName componentFather =
     liftM (comp_upd (unat coffset) (\<lambda>c.
       c\<lparr>templateId := Some tid, templateName := tname, signalStart := Some (ucast soffset),
         inputCounter := Some ninputs, componentName := compName,
         idFather := Some (ucast componentFather), subcomponents := Live (replicate nsub 0)\<rparr>))"

section \<open>How the statements run\<close>

lemma ixs_Nil: "ixs [] k s = Inr (int k)"
  by simp

lemma ixs_small:
  "r s = Inr e \<Longrightarrow> small e (int n) \<Longrightarrow> ixs rs k s = Inr (int m) \<Longrightarrow> ixs ((c, r) # rs) k s = Inr (int (c * n + m))"
  by (simp add: small_toInt)

lemma runs_op2 [wp]:
  "runs (op2 f i a b) s Q \<longleftrightarrow>
     (\<exists>x y. a s = Inr x \<and> b s = Inr y \<and> i < expaux_size s \<and> Q (s\<lparr>expaux := (expaux s)(i \<mapsto> f x y)\<rparr>))"
  by (auto simp: op2_def wp bindR_def split: sum.splits)

lemma runs_copy [wp]:
  "runs (copyM d a) s Q \<longleftrightarrow> (\<exists>v t. a s = Inr v \<and> store d v s = Inr t \<and> Q t)"
  by (auto simp: copyM_def wp bindR_def Fr_copy_def split: sum.splits)

lemma runs_block [wp]:
  "runs (block d cs a) s Q \<longleftrightarrow> (\<exists>t. d s = Inr t \<and> runs (seqM cs) s (\<lambda>u. runs (copyM t a) u Q))"
  by (auto simp: block_def runs_def seqM_append seqM.simps split: sum.splits option.splits)

lemma to_lvar_Inr [simp]: "to_lvar i s = Inr d \<longleftrightarrow> d = D_lvar (int i)"
  by (auto simp: to_lvar_def)

lemma store_lvar [simp]: "store (D_lvar (int i)) v s = (if i < lvar_size s then Inr (s\<lparr>lvar := (lvar s)(i \<mapsto> v)\<rparr>) else Inl OutOfBounds)"
  by simp

lemma lv_eq: "i < lvar_size s \<Longrightarrow> lvar s i = Some v \<Longrightarrow> lv i s = Inr v"
  by (simp add: lv_def)

lemma exp_at_eq: "i < expaux_size s \<Longrightarrow> expaux s i = Some v \<Longrightarrow> exp_at i s = Inr v"
  by (simp add: exp_at_def)

lemma con_eq: "i < length (consts_of s) \<Longrightarrow> con i s = Inr (consts_of s ! i)"
  by (simp add: con_def read_list_def)

lemma sig_addr_eq: "0 \<le> i \<Longrightarrow> uint (mySignalStart s) + i < 2 ^ 64 \<Longrightarrow> sig_addr s i = uint (mySignalStart s) + i"
  by (simp add: sig_addr_def)

text \<open>Loading constants: the last copy to a cell wins.\<close>

definition const_map :: "FrElement list \<Rightarrow> (nat \<times> nat) list \<Rightarrow> nat \<rightharpoonup> FrElement" where
  "const_map cs ps = map_of (rev (map (\<lambda>(l, c). (l, cs ! c)) ps))"

lemma const_map_Nil [simp]: "const_map cs [] = Map.empty"
  by (simp add: const_map_def)

lemma const_map_append: "const_map cs (ps @ qs) = const_map cs ps ++ const_map cs qs"
  by (simp add: const_map_def)

lemma const_map_single [simp]: "const_map cs [(l, c)] = [l \<mapsto> cs ! c]"
  by (simp add: const_map_def)

lemma const_map_Cons: "const_map cs ((l, c) # ps) = [l \<mapsto> cs ! c] ++ const_map cs ps"
  using const_map_append [of cs "[(l, c)]" ps] by simp

lemma const_map_span:
  "const_map cs (span l c n) i = (if l \<le> i \<and> i < l + n then Some (cs ! (c + (i - l))) else None)"
  by (induction n) (auto simp: span_def const_map_append)

lemma const_map_table: "i < length ms \<Longrightarrow> const_map cs (table ms) i = Some (cs ! (ms ! i))"
proof (induction ms rule: rev_induct)
  case (snoc m ms)
  have "table (ms @ [m]) = table ms @ [(length ms, m)]"
    by (simp add: table_def)
  then show ?case
    using snoc by (auto simp: const_map_append nth_append map_add_def less_Suc_eq)
qed simp

lemma set_table: "(l, c) \<in> set (table ms) \<Longrightarrow> l < length ms \<and> c \<in> set ms"
  by (auto simp: table_def dest: set_zip_leftD set_zip_rightD)

lemma runs_load_consts [wp]:
  "runs (load_consts ps) s Q \<longleftrightarrow>
     (\<forall>(l, c) \<in> set ps. l < lvar_size s \<and> c < length (consts_of s)) \<and>
     Q (s\<lparr>lvar := lvar s ++ const_map (consts_of s) ps\<rparr>)"
proof -
  have one: "runs (load_const lc) s Q \<longleftrightarrow>
     fst lc < lvar_size s \<and> snd lc < length (consts_of s) \<and>
     Q (s\<lparr>lvar := (lvar s)(fst lc \<mapsto> consts_of s ! snd lc)\<rparr>)" for lc s Q
    by (auto simp: load_const_def wp con_def read_list_def)
  show ?thesis
  proof (induction ps arbitrary: s)
    case Nil
    then show ?case by (simp add: load_consts_def wp)
  next
    case (Cons lc ps)
    obtain l c where [simp]: "lc = (l, c)" by fastforce
    have "lvar s ++ const_map (consts_of s) ((l, c) # ps) =
        (lvar s)(l \<mapsto> consts_of s ! c) ++ const_map (consts_of s) ps"
      using const_map_append [of "consts_of s" "[(l, c)]" ps] by (simp add: map_add_assoc)
    moreover have "consts_of (s\<lparr>lvar := m\<rparr>) = consts_of s" for m by (simp add: consts_of_def)
    ultimately show ?case using Cons [of "s\<lparr>lvar := (lvar s)(l \<mapsto> consts_of s ! c)\<rparr>"]
      by (simp add: load_consts_def wp one conj_ac del: fun_upd_apply)
  qed
qed

text \<open>
  The rule for the counting loops. The invariant may not depend on \<open>expaux\<close> or on the counter
  (\<open>stable\<close>); the body is proved with the counter at \<open>i\<close>.
\<close>

lemma outcome_count_loop:
  fixes J :: "nat \<Rightarrow> frame \<Rightarrow> bool"
  assumes start: "J i0 s" "lvar s k = Some v0" "small v0 (int i0)" "i0 \<le> n" "int n < 2 ^ 31 - 1"
    and stable: "\<And>i t e v. J i t \<Longrightarrow> J i (t\<lparr>expaux := e, lvar := (lvar t)(k := v)\<rparr>)"
    and env: "\<And>i t. J i t \<Longrightarrow> k < lvar_size t \<and> 0 < expaux_size t \<and>
      (\<exists>a. con cn t = Inr a \<and> small a (int n)) \<and> (\<exists>a. con c1 t = Inr a \<and> small a 1)"
    and body: "\<And>i t v. i0 \<le> i \<Longrightarrow> i < n \<Longrightarrow> J i t \<Longrightarrow> lvar t k = Some v \<Longrightarrow> small v (int i) \<Longrightarrow>
      outcome (seqM body) t (\<lambda>u. J (Suc i) u \<and> lvar u k = Some v) E"
    and exit: "\<And>t. J n t \<Longrightarrow> Q t"
  shows "outcome (seqM (count_loop k c1 cn body)) s Q E"
proof -
  define I where "I j t \<longleftrightarrow> J (i0 + j) t \<and> (\<exists>v. lvar t k = Some v \<and> small v (int (i0 + j))) \<and>
    expaux t 0 = Some (bool_elem (i0 + j < n))" for j t
  have cmp: "runs (op2 Fr_lt 0 (lv k) (con cn)) t (I j)"
    if J: "J (i0 + j) t" and v: "lvar t k = Some v" "small v (int (i0 + j))" for j t v
  proof -
    obtain a where a: "con cn t = Inr a" "small a (int n)" and k: "k < lvar_size t" "0 < expaux_size t"
      using env [OF J] by blast
    have "J (i0 + j) (t\<lparr>expaux := (expaux t)(0 \<mapsto> Fr_lt v a)\<rparr>)"
      using stable [OF J, where v = "lvar t k"] by simp
    moreover have "Fr_lt v a = bool_elem (i0 + j < n)"
      using small_lt [OF v(2) a(2)] by (simp only: of_nat_less_iff)
    ultimately show ?thesis
      using v a k by (simp add: wp lv_eq I_def)
  qed
  have incr: "runs (seqM [block (to_lvar k) [op2 Fr_add 0 (lv k) (con c1)] (exp_at 0),
                       op2 Fr_lt 0 (lv k) (con cn)]) t (I (Suc j))"
    if J: "J (i0 + Suc j) t" and v: "lvar t k = Some v" "small v (int (i0 + j))" and j: "i0 + j < n" for j t v
  proof -
    obtain a where a: "con c1 t = Inr a" "small a 1" and k: "k < lvar_size t" "0 < expaux_size t"
      using env [OF J] by blast
    let ?w = "Fr_add v a"
    have w: "small ?w (int (i0 + Suc j))"
      using small_add [OF v(2) a(2)] j start(5) by (simp add: fits32_def add.commute)
    let ?t = "t\<lparr>expaux := (expaux t)(0 \<mapsto> ?w), lvar := (lvar t)(k \<mapsto> ?w)\<rparr>"
    have "J (i0 + Suc j) ?t" using stable [OF J, where v = "Some ?w"] by simp
    then have "runs (op2 Fr_lt 0 (lv k) (con cn)) ?t (I (Suc j))"
      using cmp [of "Suc j" ?t ?w] w by simp
    then show ?thesis using v a k by (simp add: wp lv_eq exp_at_eq)
  qed
  have loop: "outcome (whileM (isTrueE 0)
        (seqM (body @ [block (to_lvar k) [op2 Fr_add 0 (lv k) (con c1)] (exp_at 0),
                       op2 Fr_lt 0 (lv k) (con cn)]))) t Q E" if "I 0 t" for t
    using that
  proof (rule outcome_while_count [where n = "n - i0"])
    fix j t assume "j < n - i0" "I j t"
    then show "isTrueE 0 t = Inr True"
      using env by (auto simp: I_def isTrueE_def exp_at_eq)
  next
    fix j t assume j: "j < n - i0" and I: "I j t"
    then obtain v where v: "J (i0 + j) t" "lvar t k = Some v" "small v (int (i0 + j))"
      by (auto simp: I_def)
    show "outcome (seqM (body @ [block (to_lvar k) [op2 Fr_add 0 (lv k) (con c1)] (exp_at 0),
                       op2 Fr_lt 0 (lv k) (con cn)])) t (I (Suc j)) E"
      unfolding outcome_seq_append
      by (rule outcome_mono [OF body [OF _ _ v]]) (use j v in \<open>auto intro!: outcome_runs [OF incr]\<close>)
  next
    fix t assume "I (n - i0) t"
    then show "isTrueE 0 t = Inr False \<and> Q t"
      using start(4) env exit by (auto simp: I_def isTrueE_def exp_at_eq)
  qed
  show ?thesis
    unfolding count_loop_def outcome_seq
    by (rule outcome_runs [OF cmp [of 0]]) (use start loop in auto)
qed

lemma runs_count_loop:
  fixes J :: "nat \<Rightarrow> frame \<Rightarrow> bool"
  assumes "J i0 s" "lvar s k = Some v0" "small v0 (int i0)" "i0 \<le> n" "int n < 2 ^ 31 - 1"
    and "\<And>i t e v. J i t \<Longrightarrow> J i (t\<lparr>expaux := e, lvar := (lvar t)(k := v)\<rparr>)"
    and "\<And>i t. J i t \<Longrightarrow> k < lvar_size t \<and> 0 < expaux_size t \<and>
      (\<exists>a. con cn t = Inr a \<and> small a (int n)) \<and> (\<exists>a. con c1 t = Inr a \<and> small a 1)"
    and "\<And>i t v. i0 \<le> i \<Longrightarrow> i < n \<Longrightarrow> J i t \<Longrightarrow> lvar t k = Some v \<Longrightarrow> small v (int i) \<Longrightarrow>
      runs (seqM body) t (\<lambda>u. J (Suc i) u \<and> lvar u k = Some v)"
    and "\<And>t. J n t \<Longrightarrow> Q t"
  shows "runs (seqM (count_loop k c1 cn body)) s Q"
  unfolding runs_outcome
  by (rule outcome_count_loop [where J = J, OF assms(1-7)]) (use assms(8,9) in \<open>simp_all add: runs_outcome\<close>)

text \<open>A whole run, from the body.\<close>

definition component_ready :: "Circom_CalcWit \<Rightarrow> nat \<Rightarrow> u64 \<Rightarrow> bool" where
  "component_ready ctx idx start \<longleftrightarrow>
     idx < unat get_number_of_components \<and>
     signalStart (componentMemory ctx idx) = Some start \<and>
     idFather (componentMemory ctx idx) \<noteq> None"

definition init_frame :: "nat \<Rightarrow> nat \<Rightarrow> nat \<Rightarrow> u64 \<Rightarrow> Circom_CalcWit \<Rightarrow> frame" where
  "init_frame nexp nlvar idx start ctx =
     \<lparr>f_ctx = ctx, ctx_index = idx, mySignalStart = start, expaux_size = nexp,
      lvar_size = nlvar, expaux = Map.empty, lvar = Map.empty\<rparr>"

lemma runs_release_none [wp]: "runs (release_subcomponents 0 idx) ctx Q \<longleftrightarrow> Q ctx"
  by (simp add: release_subcomponents_def wp)

lemma outcome_template:
  assumes "component_ready ctx idx start"
    "outcome (seqM body) (init_frame nexp nlvar idx start ctx)
       (\<lambda>s. runs (release_subcomponents nsub idx) (f_ctx s) Q) E"
  shows "outcome (run_template nexp nlvar nsub body idx) ctx Q E"
proof -
  from assms(1) obtain f where f: "idFather (componentMemory ctx idx) = Some f"
    by (auto simp: component_ready_def)
  have "run_template nexp nlvar nsub body idx ctx =
      (case seqM body (init_frame nexp nlvar idx start ctx) of
         None \<Rightarrow> None | Some (Inl e) \<Rightarrow> Some (Inl e)
       | Some (Inr s) \<Rightarrow> release_subcomponents nsub idx (f_ctx s))"
    using assms(1) f
    by (simp add: run_template_def comp_at_def of_member_def component_ready_def init_frame_def)
  then show ?thesis
    using assms(2) by (auto simp: outcome_def runs_def split: option.splits sum.splits)
qed

lemma runs_template:
  assumes "component_ready ctx idx start"
    "runs (seqM body) (init_frame nexp nlvar idx start ctx)
       (\<lambda>s. runs (release_subcomponents nsub idx) (f_ctx s) Q)"
  shows "runs (run_template nexp nlvar nsub body idx) ctx Q"
  using outcome_template [OF assms(1)] assms(2) unfolding runs_outcome by blast

end
