(* ===== verification/Templates.thy ===== *)
theory Templates
  imports Frame
begin

text \<open>
  The bodies of the leaf templates of the Poseidon permutation and of the Merkle path selector:
  \<open>Ark\<close> (round constants), \<open>Sigma\<close> (fifth power), \<open>Mix\<close>, \<open>MixS\<close> and \<open>MixLast\<close> (matrices), and
  \<open>MultiMux1\<close>. The generated functions of one template differ in array sizes, in constant
  numbers and in literal offsets; a body takes those as parameters, and the theory
  \<open>Circuit\<close> gives every generated function its own definition.

  Parameters: \<open>t\<close> is the width of the permutation and \<open>tc\<close> the constant that holds it; \<open>rc\<close> the
  constant with the template parameter \<open>r\<close>, which the code loads and never reads.
\<close>

section \<open>Bodies\<close>

definition sigma_body :: "frame stmt list" where
  "sigma_body =
     [block (to_sig (ixs [] 2)) [op2 Fr_mul 0 (sig_ix (ixs [] 1)) (sig_ix (ixs [] 1))] (exp_at 0),
      block (to_sig (ixs [] 3)) [op2 Fr_mul 0 (sig_ix (ixs [] 2)) (sig_ix (ixs [] 2))] (exp_at 0),
      block (to_sig (ixs [] 0)) [op2 Fr_mul 0 (sig_ix (ixs [] 3)) (sig_ix (ixs [] 1))] (exp_at 0)]"

definition ark_body :: "nat \<Rightarrow> nat \<Rightarrow> nat \<Rightarrow> nat \<Rightarrow> nat \<Rightarrow> nat \<Rightarrow> frame stmt list" where
  "ark_body t tc nc cc rc off =
     load_consts (span 0 cc nc @ [(nc, rc), (nc + 1, tc), (nc + 2, 88)]) #
     count_loop (nc + 2) 90 tc
       [block (to_sig (ixs [(1, lv (nc + 2))] 0))
          [op2 Fr_add 0 (sig_ix (ixs [(1, lv (nc + 2))] t)) (lv_ix (ixs [(1, lv (nc + 2))] off))]
          (exp_at 0)]"

text \<open>The accumulation \<open>lvar[acc] = lvar[acc] + A * B\<close> of the matrix templates.\<close>

definition dot_body :: "nat \<Rightarrow> operand \<Rightarrow> operand \<Rightarrow> frame stmt list" where
  "dot_body acc A B =
     [block (to_lvar acc) [op2 Fr_mul 1 A B, op2 Fr_add 0 (lv acc) (exp_at 1)] (exp_at 0)]"

definition mix_body :: "nat \<Rightarrow> nat \<Rightarrow> nat list \<Rightarrow> frame stmt list" where
  "mix_body t tc ms =
     load_consts (table ms @ [(t * t, tc), (t * t + 1, 88), (t * t + 2, 88)]) #
     count_loop (t * t + 2) 90 tc
       ([load_consts [(t * t + 1, 88), (t * t + 3, 88)]] @
        count_loop (t * t + 3) 90 tc
          (dot_body (t * t + 1) (lv_ix (ixs [(t, lv (t * t + 3)), (1, lv (t * t + 2))] 0))
             (sig_ix (ixs [(1, lv (t * t + 3))] t))) @
        [block (to_sig (ixs [(1, lv (t * t + 2))] 0)) [] (lv (t * t + 1))])"

definition mixlast_body :: "nat \<Rightarrow> nat \<Rightarrow> nat list \<Rightarrow> frame stmt list" where
  "mixlast_body t tc ms =
     load_consts (table ms @ [(t * t, 88), (t * t + 1, tc), (t * t + 2, 88), (t * t + 3, 88)]) #
     count_loop (t * t + 3) 90 tc
       (dot_body (t * t + 2) (lv_ix (ixs [(t, lv (t * t + 3))] 0)) (sig_ix (ixs [(1, lv (t * t + 3))] 1))) @
     [block (to_sig (ixs [] 0)) [] (lv (t * t + 2))]"

text \<open>
  \<open>MixS\<close>: \<open>ms\<close> is the table \<open>S\<close>, \<open>n\<close> its length; \<open>off\<close> is the offset of the row of the round
  and \<open>oc\<close> the constant with that offset plus \<open>t\<close>.
\<close>

definition mixs_body ::
    "nat \<Rightarrow> nat \<Rightarrow> nat list \<Rightarrow> nat \<Rightarrow> nat \<Rightarrow> nat \<Rightarrow> nat \<Rightarrow> frame stmt list" where
  "mixs_body t tc ms n rc off oc =
     load_consts (table ms @ [(n, rc), (n + 1, tc), (n + 2, 88), (n + 3, 88)]) #
     count_loop (n + 3) 90 tc
       (dot_body (n + 2) (lv_ix (ixs [(1, lv (n + 3))] off)) (sig_ix (ixs [(1, lv (n + 3))] t))) @
     [block (to_sig (ixs [] 0)) [] (lv (n + 2)),
      load_consts [(n + 3, 90)]] @
     count_loop (n + 3) 90 tc
       [block (to_sig (ixs [(1, lv (n + 3))] 0))
          [op2 Fr_add 3 (con oc) (lv (n + 3)),
           op2 Fr_sub 2 (exp_at 3) (con 90),
           op2 Fr_mul 1 (sig_ix (ixs [] t)) (lv_ix (ixs [(1, exp_at 2)] 0)),
           op2 Fr_add 0 (sig_ix (ixs [(1, lv (n + 3))] t)) (exp_at 1)]
          (exp_at 0)]"

definition multimux_body :: "frame stmt list" where
  "multimux_body =
     load_consts [(0, 457), (1, 88)] #
     count_loop 1 90 457
       [block (to_sig (ixs [(1, lv 1)] 0))
          [op2 Fr_sub 2 (sig_ix (ixs [(2, lv 1)] 3)) (sig_ix (ixs [(2, lv 1)] 2)),
           op2 Fr_mul 1 (exp_at 2) (sig_ix (ixs [] 6)),
           op2 Fr_add 0 (exp_at 1) (sig_ix (ixs [(2, lv 1)] 2))]
          (exp_at 0)]"

section \<open>Frames in the proofs\<close>

text \<open>The frames that a body goes through: the signals and the two local arrays change.\<close>

definition at :: "frame \<Rightarrow> (nat \<rightharpoonup> FrElement) \<Rightarrow> (nat \<rightharpoonup> FrElement) \<Rightarrow> (nat \<rightharpoonup> FrElement) \<Rightarrow> frame" where
  "at t0 sv e l = t0\<lparr>f_ctx := (f_ctx t0)\<lparr>signalValues := sv\<rparr>, expaux := e, lvar := l\<rparr>"

lemma at_simps [simp]:
  "sigs (at t0 sv e l) = sv" "expaux (at t0 sv e l) = e" "lvar (at t0 sv e l) = l"
  "consts_of (at t0 sv e l) = consts_of t0" "mySignalStart (at t0 sv e l) = mySignalStart t0"
  "expaux_size (at t0 sv e l) = expaux_size t0" "lvar_size (at t0 sv e l) = lvar_size t0"
  "f_ctx (at t0 sv e l) = (f_ctx t0)\<lparr>signalValues := sv\<rparr>"
  "(at t0 sv e l)\<lparr>expaux := e'\<rparr> = at t0 sv e' l"
  "(at t0 sv e l)\<lparr>lvar := l'\<rparr> = at t0 sv e l'"
  "(at t0 sv e l)\<lparr>f_ctx := (f_ctx t0)\<lparr>signalValues := sv'\<rparr>\<rparr> = at t0 sv' e l"
  by (simp_all add: at_def sigs_def consts_of_def)

lemma at_init: "init_frame nexp nlvar idx start ctx =
    at (init_frame nexp nlvar idx start ctx) (signalValues ctx) Map.empty Map.empty"
  by (simp add: at_def init_frame_def)

text \<open>The outcome of a body: the signals, whatever is left in the local arrays.\<close>

definition ends :: "frame \<Rightarrow> (nat \<rightharpoonup> FrElement) \<Rightarrow> frame \<Rightarrow> bool" where
  "ends t0 sv u \<longleftrightarrow> (\<exists>e l. u = at t0 sv e l)"

lemma ends_at [simp]: "ends t0 sv (at t0 sv e l)"
  by (auto simp: ends_def)

text \<open>The first \<open>n\<close> signals from \<open>a\<close> on overwritten.\<close>

definition out_write ::
    "(nat \<rightharpoonup> FrElement) \<Rightarrow> nat \<Rightarrow> nat \<Rightarrow> (nat \<Rightarrow> FrElement) \<Rightarrow> nat \<rightharpoonup> FrElement" where
  "out_write m a n f = (\<lambda>j. if a \<le> j \<and> j < a + n then Some (f (j - a)) else m j)"

lemma out_write_0 [simp]: "out_write m a 0 f = m"
  by (rule ext) (auto simp: out_write_def)

lemma out_write_Suc: "(out_write m a n f)(a + n \<mapsto> f n) = out_write m a (Suc n) f"
  by (rule ext) (auto simp: out_write_def)

lemma out_write_beyond [simp]: "a + n \<le> j \<Longrightarrow> out_write m a n f j = m j"
  by (simp add: out_write_def)

lemma out_write_at: "i < n \<Longrightarrow> out_write m a n f (a + i) = Some (f i)"
  by (simp add: out_write_def)

text \<open>Operands whose index is a small integer.\<close>

definition base :: "frame \<Rightarrow> nat" where
  "base s = unat (mySignalStart s)"

definition in_signals :: "frame \<Rightarrow> nat \<Rightarrow> bool" where
  "in_signals s i \<longleftrightarrow> base s + i < unat get_total_signal_no"

definition sig_dest :: "frame \<Rightarrow> nat \<Rightarrow> dest" where
  "sig_dest s i = D_sig (int (base s + i))"

lemma in_signals_le: "in_signals s j \<Longrightarrow> i \<le> j \<Longrightarrow> in_signals s i"
  by (simp add: in_signals_def)

lemma sig_addr_nat: "in_signals s i \<Longrightarrow> sig_addr s (int i) = int (base s + i)"
proof -
  assume "in_signals s i"
  then have "base s + i < 72906" by (simp add: in_signals_def circuit_sizes)
  then have "int (base s + i) mod 2 ^ 64 = int (base s + i)" by simp
  moreover have "sig_addr s (int i) = int (base s + i) mod 2 ^ 64"
    by (simp add: sig_addr_def base_def)
  ultimately show ?thesis by (simp only:)
qed

lemma at_consts [simp]: "base (at t0 sv e l) = base t0" "in_signals (at t0 sv e l) i = in_signals t0 i"
  by (simp_all add: base_def in_signals_def)

lemma sig_ix_eq:
  assumes "ix (at t0 sv e l) = Inr (int i)" "in_signals t0 i" "sv (base t0 + i) = Some v"
  shows "sig_ix ix (at t0 sv e l) = Inr v"
  using assms sig_addr_nat [of "at t0 sv e l" i]
  by (simp add: sig_ix_def in_signals_def del: of_nat_add)

lemma to_sig_eq:
  assumes "ix (at t0 sv e l) = Inr (int i)" "in_signals t0 i"
  shows "to_sig ix (at t0 sv e l) = Inr (sig_dest t0 i)"
  using assms sig_addr_nat [of "at t0 sv e l" i]
  by (simp add: to_sig_def sig_dest_def del: of_nat_add)

lemma store_sig_dest [simp]:
  "in_signals t0 i \<Longrightarrow> store (sig_dest t0 i) v (at t0 sv e l) = Inr (at t0 (sv(base t0 + i \<mapsto> v)) e l)"
  by (simp add: sig_dest_def in_signals_def del: of_nat_add)

lemma lv_ix_eq:
  "ix (at t0 sv e l) = Inr (int i) \<Longrightarrow> i < lvar_size t0 \<Longrightarrow> l i = Some v \<Longrightarrow>
    lv_ix ix (at t0 sv e l) = Inr v"
  by (simp add: lv_ix_def)

lemma operand_at [simp]:
  "i < lvar_size t0 \<Longrightarrow> l i = Some v \<Longrightarrow> lv i (at t0 sv e l) = Inr v"
  "i < expaux_size t0 \<Longrightarrow> e i = Some v \<Longrightarrow> exp_at i (at t0 sv e l) = Inr v"
  "i < length (consts_of t0) \<Longrightarrow> con i (at t0 sv e l) = Inr (consts_of t0 ! i)"
  by (simp_all add: lv_eq exp_at_eq con_eq)

text \<open>Literal indices, and the counter of a loop plus a literal.\<close>

lemmas sig_lit [simp] = sig_ix_eq [OF ixs_Nil] and to_sig_lit [simp] = to_sig_eq [OF ixs_Nil]

lemma ixs_counter:
  assumes "k < lvar_size t0" "l k = Some v" "small v (int i)"
  shows "ixs [(c, lv k)] off (at t0 sv e l) = Inr (int (c * i + off))"
  using ixs_small [of "lv k" "at t0 sv e l" v i "[]" off off c] assms by (simp add: ixs_Nil)

declare ixs.simps [simp del] store.simps [simp del] fun_upd_apply [simp]

lemma store_lvar_at [simp]:
  "i < lvar_size t0 \<Longrightarrow> store (D_lvar (int i)) v (at t0 sv e l) = Inr (at t0 sv e (l(i \<mapsto> v)))"
  by (simp add: store.simps)

section \<open>Sigma\<close>

lemma runs_sigma:
  assumes size: "0 < expaux_size t0" "in_signals t0 3" and x: "sv (base t0 + 1) = Some x"
  shows "runs (seqM sigma_body) (at t0 sv e l) (ends t0
    (sv(base t0 + 2 \<mapsto> Fr_mul x x,
        base t0 + 3 \<mapsto> Fr_mul (Fr_mul x x) (Fr_mul x x),
        base t0 + 0 \<mapsto> Fr_mul (Fr_mul (Fr_mul x x) (Fr_mul x x)) x)))"
  unfolding sigma_body_def
  using size x in_signals_le [OF size(2)] by (simp add: wp)

section \<open>Loops over at frames\<close>

text \<open>The constants that control the loops: the width, zero and one.\<close>

definition loop_consts :: "frame \<Rightarrow> nat \<Rightarrow> nat \<Rightarrow> bool" where
  "loop_consts t0 tc t \<longleftrightarrow>
     tc < length (consts_of t0) \<and> 90 < length (consts_of t0) \<and> 0 < expaux_size t0 \<and>
     small (consts_of t0 ! tc) (int t) \<and> small (consts_of t0 ! 88) 0 \<and> small (consts_of t0 ! 90) 1 \<and>
     int t < 2 ^ 31 - 1"

lemma loop_constsD:
  assumes "loop_consts t0 tc t"
  shows "tc < length (consts_of t0)" "88 < length (consts_of t0)" "90 < length (consts_of t0)"
    "0 < expaux_size t0" "small (consts_of t0 ! tc) (int t)" "small (consts_of t0 ! 88) 0"
    "small (consts_of t0 ! 90) 1" "int t < 2 ^ 31 - 1"
  using assms by (simp_all add: loop_consts_def)

text \<open>The local variables of \<open>D\<close> have the values they have in \<open>L\<close>.\<close>

definition agree :: "nat set \<Rightarrow> (nat \<rightharpoonup> FrElement) \<Rightarrow> (nat \<rightharpoonup> FrElement) \<Rightarrow> bool" where
  "agree D L l \<longleftrightarrow> (\<forall>j \<in> D. l j = L j)"

lemma agree_refl [simp]: "agree D L L"
  by (simp add: agree_def)

lemma agree_upd [simp]: "k \<notin> D \<Longrightarrow> agree D L (l(k := v)) = agree D L l"
  by (auto simp: agree_def)

lemma agreeD: "agree D L l \<Longrightarrow> j \<in> D \<Longrightarrow> l j = L j"
  by (simp add: agree_def)

text \<open>
  The loop rule for these frames: \<open>sv i\<close> are the signals before round \<open>i\<close>, and \<open>P i\<close> what is
  known of the local variables apart from the counter.
\<close>

lemma runs_at_loop:
  assumes c: "loop_consts t0 tc n" and k: "k < lvar_size t0" "i0 \<le> n"
    and start: "P i0 l0" "l0 k = Some v0" "small v0 (int i0)"
    and stable: "\<And>i l v. P i l \<Longrightarrow> P i (l(k := v))"
    and body: "\<And>i e l v. i0 \<le> i \<Longrightarrow> i < n \<Longrightarrow> P i l \<Longrightarrow> l k = Some v \<Longrightarrow> small v (int i) \<Longrightarrow>
      runs (seqM body) (at t0 (sv i) e l)
        (\<lambda>u. \<exists>e' l'. u = at t0 (sv (Suc i)) e' l' \<and> P (Suc i) l' \<and> l' k = Some v)"
  shows "runs (seqM (count_loop k 90 tc body)) (at t0 (sv i0) e l0)
    (\<lambda>u. \<exists>e' l'. u = at t0 (sv n) e' l' \<and> P n l')"
proof (rule runs_count_loop [where J = "\<lambda>i u. \<exists>e l. u = at t0 (sv i) e l \<and> P i l" and ?i0.0 = i0
      and n = n and ?v0.0 = v0])
  show "\<exists>e' l'. at t0 (sv i0) e l0 = at t0 (sv i0) e' l' \<and> P i0 l'" using start by blast
  fix i t v
  assume i: "i0 \<le> i" "i < n" and J: "\<exists>e l. t = at t0 (sv i) e l \<and> P i l"
    and v: "lvar t k = Some v" "small v (int i)"
  from J v(1) obtain e l where t: "t = at t0 (sv i) e l" "P i l" "l k = Some v" by auto
  show "runs (seqM body) t (\<lambda>u. (\<exists>e l. u = at t0 (sv (Suc i)) e l \<and> P (Suc i) l) \<and> lvar u k = Some v)"
    unfolding t(1) by (rule runs_mono [OF body [OF i t(2,3) v(2)]]) auto
next
  fix i t e v
  assume "\<exists>e l. t = at t0 (sv i) e l \<and> P i l"
  then obtain l where "t\<lparr>expaux := e, lvar := (lvar t)(k := v)\<rparr> = at t0 (sv i) e (l(k := v))" "P i l"
    by auto
  then show "\<exists>e' l'. t\<lparr>expaux := e, lvar := (lvar t)(k := v)\<rparr> = at t0 (sv i) e' l' \<and> P i l'"
    using stable by blast
qed (use start k loop_constsD [OF c] in auto)

text \<open>
  The accumulation \<open>lvar[acc] = lvar[acc] + A * B\<close> over the rounds of a loop. \<open>D\<close> are the local
  variables that the operands may read, apart from the counter.
\<close>

definition dot :: "FrElement \<Rightarrow> nat \<Rightarrow> (nat \<Rightarrow> FrElement) \<Rightarrow> (nat \<Rightarrow> FrElement) \<Rightarrow> FrElement" where
  "dot z n a b = lincomb Fr_add Fr_mul z (map (\<lambda>j. (a j, b j)) [0..<n])"

lemma dot_0 [simp]: "dot z 0 a b = z"
  by (simp add: dot_def)

lemma dot_Suc: "dot z (Suc n) a b = Fr_add (dot z n a b) (Fr_mul (a n) (b n))"
  by (simp add: dot_def lincomb_snoc)

lemma runs_dot:
  assumes c: "loop_consts t0 tc n" and size: "1 < expaux_size t0" "k < lvar_size t0" "acc < lvar_size t0"
    and D: "acc \<noteq> k" "acc \<notin> D" "k \<notin> D"
    and start: "l0 acc = Some z" "l0 k = Some v0" "small v0 0"
    and A: "\<And>j e l v. j < n \<Longrightarrow> agree D l0 l \<Longrightarrow> l k = Some v \<Longrightarrow> small v (int j) \<Longrightarrow> A (at t0 sv e l) = Inr (a j)"
    and B: "\<And>j e l v. j < n \<Longrightarrow> agree D l0 l \<Longrightarrow> l k = Some v \<Longrightarrow> small v (int j) \<Longrightarrow> B (at t0 sv e l) = Inr (b j)"
  shows "runs (seqM (count_loop k 90 tc (dot_body acc A B))) (at t0 sv e l0)
    (\<lambda>u. \<exists>e' l'. u = at t0 sv e' l' \<and> agree D l0 l' \<and> l' acc = Some (dot z n a b))"
proof (rule runs_at_loop [where sv = "\<lambda>_. sv" and P = "\<lambda>i l. agree D l0 l \<and> l acc = Some (dot z i a b)"
      and ?i0.0 = 0 and ?v0.0 = v0, OF c])
  fix i e l v
  assume i: "i < n" and P: "agree D l0 l \<and> l acc = Some (dot z i a b)" and v: "l k = Some v" "small v (int i)"
  have AB: "A (at t0 sv e l) = Inr (a i)" "B (at t0 sv e l) = Inr (b i)"
    using A [of i l v e] B [of i l v e] i v P by simp_all
  show "runs (seqM (dot_body acc A B)) (at t0 sv e l) (\<lambda>u. \<exists>e' l'. u = at t0 sv e' l' \<and>
      (agree D l0 l' \<and> l' acc = Some (dot z (Suc i) a b)) \<and> l' k = Some v)"
    using size D P v AB
    by (auto simp: dot_body_def wp dot_Suc intro!: exI)
qed (use size D start in auto)

section \<open>Ark\<close>

lemma runs_ark:
  assumes c: "loop_consts t0 tc t" "rc < length (consts_of t0)" "cc + nc \<le> length (consts_of t0)"
    and size: "lvar_size t0 = nc + 3" "\<And>i. i < 2 * t \<Longrightarrow> in_signals t0 i" "off + t \<le> nc"
    and x: "\<And>i. i < t \<Longrightarrow> sv (base t0 + (t + i)) = Some (x i)"
  shows "runs (seqM (ark_body t tc nc cc rc off)) (at t0 sv e l) (ends t0
    (out_write sv (base t0) t (\<lambda>i. Fr_add (x i) (consts_of t0 ! (cc + (off + i))))))"
proof -
  let ?cs = "consts_of t0"
  define k where "k = nc + 2"
  have k: "k < lvar_size t0" "nc \<le> k" "nc + 1 < k" using size(1) by (simp_all add: k_def)
  note [simp] = loop_constsD [OF c(1)]
  define f where "f i = Fr_add (x i) (?cs ! (cc + (off + i)))" for i
  define L where "L = l ++ const_map ?cs (span 0 cc nc @ [(nc, rc), (nc + 1, tc), (k, 88)])"
  have L: "L i = Some (?cs ! (cc + i))" if "i < nc" for i
    using that k by (simp add: L_def const_map_append const_map_span const_map_Cons map_add_def)
  have Lk: "L k = Some (?cs ! 88)"
    using k by (simp add: L_def const_map_append const_map_Cons map_add_def)
  define body where "body = [block (to_sig (ixs [(1, lv k)] 0))
          [op2 Fr_add 0 (sig_ix (ixs [(1, lv k)] t)) (lv_ix (ixs [(1, lv k)] off))] (exp_at 0)]"
  have "runs (seqM (count_loop k 90 tc body)) (at t0 (out_write sv (base t0) 0 f) e L)
     (\<lambda>u. \<exists>e' l'. u = at t0 (out_write sv (base t0) t f) e' l' \<and> agree {..<nc} L l')"
  proof (rule runs_at_loop [OF c(1), where ?i0.0 = 0 and P = "\<lambda>_. agree {..<nc} L" and ?v0.0 = "?cs ! 88"])
    fix i e l v
    assume i: "i < t" and P: "agree {..<nc} L l" and v: "l k = Some v" "small v (int i)"
    let ?sv = "out_write sv (base t0) i f"
    have ix: "ixs [(1, lv k)] o' (at t0 sv' e l) = Inr (int (i + o'))" for o' sv'
      using ixs_counter [of k t0 l v i 1] k v by simp
    have d: "to_sig (ixs [(1, lv k)] 0) (at t0 ?sv e l) = Inr (sig_dest t0 i)"
      by (rule to_sig_eq) (use ix [of 0] size i in auto)
    have s: "sig_ix (ixs [(1, lv k)] t) (at t0 ?sv e l) = Inr (x i)"
      by (rule sig_ix_eq [where i = "i + t"]) (use ix [of t] size i x in \<open>auto simp: add.commute\<close>)
    have a: "lv_ix (ixs [(1, lv k)] off) (at t0 ?sv e l) = Inr (?cs ! (cc + (off + i)))"
      by (rule lv_ix_eq [where i = "i + off"])
        (use ix [of off] size i L agreeD [OF P] in \<open>auto simp: add.commute\<close>)
    show "runs (seqM body) (at t0 ?sv e l) (\<lambda>u. \<exists>e' l'. u = at t0 (out_write sv (base t0) (Suc i) f) e' l' \<and>
       agree {..<nc} L l' \<and> l' k = Some v)"
      using size i P v
      by (auto simp: body_def wp d s a out_write_Suc f_def [symmetric] simp del: One_nat_def)
  qed (use k Lk in auto)
  then have "runs (seqM (count_loop k 90 tc body)) (at t0 sv e L)
     (ends t0 (out_write sv (base t0) t f))"
    by (auto elim!: runs_mono)
  then show ?thesis
    using c size(1) k unfolding ark_body_def runs_seq_Cons runs_load_consts at_simps
      f_def [symmetric] k_def [symmetric] L_def [symmetric] body_def [symmetric]
    by (auto simp: span_def)
qed

section \<open>MixLast\<close>

lemma runs_mixlast:
  assumes c: "loop_consts t0 tc t" "length ms = t * t" "\<forall>m \<in> set ms. m < length (consts_of t0)"
    and size: "lvar_size t0 = t * t + 4" "1 < expaux_size t0" "in_signals t0 t"
    and x: "\<And>i. i < t \<Longrightarrow> sv (base t0 + (1 + i)) = Some (x i)"
  shows "runs (seqM (mixlast_body t tc ms)) (at t0 sv e l) (ends t0
    (sv(base t0 + 0 \<mapsto> dot (consts_of t0 ! 88) t (\<lambda>j. consts_of t0 ! (ms ! (t * j))) x)))"
proof -
  let ?cs = "consts_of t0" and ?n = "t * t"
  define k acc where "k = t * t + 3" and "acc = t * t + 2"
  note [simp] = loop_constsD [OF c(1)]
  have k: "k < lvar_size t0" "acc < lvar_size t0" "acc \<noteq> k" "k \<notin> {..<?n}" "acc \<notin> {..<?n}"
    using size(1) by (simp_all add: k_def acc_def)
  define L where "L = l ++ const_map ?cs (table ms @ [(?n, 88), (?n + 1, tc), (acc, 88), (k, 88)])"
  have L: "L i = Some (?cs ! (ms ! i))" if "i < ?n" for i
    using that c(2) by (simp add: k_def acc_def L_def const_map_append const_map_table const_map_Cons map_add_def)
  have Lk: "L k = Some (?cs ! 88)" "L acc = Some (?cs ! 88)"
    by (simp_all add: k_def acc_def L_def const_map_append const_map_Cons map_add_def)
  let ?A = "lv_ix (ixs [(t, lv k)] 0)" and ?B = "sig_ix (ixs [(1, lv k)] 1)"
  have loop: "runs (seqM (count_loop k 90 tc (dot_body acc ?A ?B))) (at t0 sv e L)
    (\<lambda>u. \<exists>e' l'. u = at t0 sv e' l' \<and> agree {..<?n} L l' \<and>
       l' acc = Some (dot (?cs ! 88) t (\<lambda>j. ?cs ! (ms ! (t * j))) x))"
  proof (rule runs_dot [OF c(1) size(2) k(1,2,3,5,4) Lk(2,1)])
    fix j e l v
    assume j: "j < t" and P: "agree {..<?n} L l" and v: "l k = Some v" "small v (int j)"
    have ix: "ixs [(c, lv k)] o' (at t0 sv e l) = Inr (int (c * j + o'))" for c o'
      using ixs_counter [of k t0 l v j] k v by simp
    have tj: "t * j < ?n" using j by simp
    then have tj4: "t * j < lvar_size t0" using size(1) by linarith
    show "?A (at t0 sv e l) = Inr (?cs ! (ms ! (t * j)))"
      by (rule lv_ix_eq [where i = "t * j"]) (use ix [of t 0] tj tj4 size L agreeD [OF P] in auto)
    show "?B (at t0 sv e l) = Inr (x j)"
      by (rule sig_ix_eq [where i = "j + 1"])
        (use ix [of 1 1] j x in_signals_le [OF size(3)] in \<open>auto simp: add.commute\<close>)
  qed simp
  have post: "runs (seqM (count_loop k 90 tc (dot_body acc ?A ?B) @ [block (to_sig (ixs [] 0)) [] (lv acc)]))
    (at t0 sv e L) (ends t0
      (sv(base t0 + 0 \<mapsto> dot (?cs ! 88) t (\<lambda>j. ?cs ! (ms ! (t * j))) x)))"
    unfolding runs_seq_append
    by (rule runs_mono [OF loop]) (use in_signals_le [OF size(3)] k in \<open>auto simp: wp\<close>)
  show ?thesis
    using c size(1) k post unfolding mixlast_body_def runs_seq_Cons runs_load_consts at_simps append_Cons
      k_def [symmetric] acc_def [symmetric] L_def [symmetric]
    by (auto dest: set_table)
qed

section \<open>Mix\<close>

text \<open>The inner loop, which sums row \<open>j\<close> of column \<open>i\<close> of the matrix: the element \<open>t * j + i\<close> of the
  local array.\<close>

lemma runs_mix_column:
  assumes c: "loop_consts t0 tc t"
    and size: "lvar_size t0 = t * t + 4" "1 < expaux_size t0" "\<And>i. i < 2 * t \<Longrightarrow> in_signals t0 i"
    and k: "k2 < lvar_size t0" "k < lvar_size t0" "acc < lvar_size t0" "acc \<noteq> k" "acc \<noteq> k2" "k \<noteq> k2"
      "k \<notin> {..<t * t}" "acc \<notin> {..<t * t}" "k2 \<notin> {..<t * t}"
    and i: "i < t" and x: "\<And>i. i < t \<Longrightarrow> sv (base t0 + (t + i)) = Some (x i)"
    and l: "l acc = Some z" "l k2 = Some v0" "small v0 0" "l k = Some v" "small v (int i)"
      "\<And>m. m < t * t \<Longrightarrow> l m = Some (S m)"
  shows "runs (seqM (count_loop k2 90 tc (dot_body acc (lv_ix (ixs [(t, lv k2), (1, lv k)] 0))
      (sig_ix (ixs [(1, lv k2)] t))))) (at t0 sv e l)
    (\<lambda>u. \<exists>e' l'. u = at t0 sv e' l' \<and> agree (insert k {..<t * t}) l l' \<and>
       l' acc = Some (dot z t (\<lambda>j. S (t * j + i)) x))"
proof (rule runs_dot [OF c size(2) k(1,3,5) _ _ l(1-3)])
  fix j e l' w
  assume j: "j < t" and P: "agree (insert k {..<t * t}) l l'" and w: "l' k2 = Some w" "small w (int j)"
  have lk: "l' k = Some v" using agreeD [OF P] l(4) by simp
  have ix: "ixs [(1, lv k2)] t (at t0 sv e l') = Inr (int (j + t))"
    using ixs_counter [of k2 t0 l' w j 1] k w by simp
  have "ixs [(t, lv k2), (1, lv k)] 0 (at t0 sv e l') = Inr (int (t * j + (1 * i + 0)))"
    by (rule ixs_small [OF _ w(2)]) (use ixs_counter [of k t0 l' v i 1] k w lk l in auto)
  then have ix2: "ixs [(t, lv k2), (1, lv k)] 0 (at t0 sv e l') = Inr (int (t * j + i))" by simp
  have "t * j + i < t * (j + 1)" using i by simp
  also have "\<dots> \<le> t * t" using j by (intro mult_le_mono2) simp
  finally have lt: "t * j + i < t * t" .
  have "l' (t * j + i) = Some (S (t * j + i))" using agreeD [OF P] l(6) [OF lt] lt by simp
  then show "lv_ix (ixs [(t, lv k2), (1, lv k)] 0) (at t0 sv e l') = Inr (S (t * j + i))"
    by (intro lv_ix_eq [where i = "t * j + i"]) (use ix2 lt size in auto)
  show "sig_ix (ixs [(1, lv k2)] t) (at t0 sv e l') = Inr (x j)"
    by (rule sig_ix_eq [where i = "j + t"]) (use ix j x size(3) in \<open>auto simp: add.commute [of j]\<close>)
qed (use k in auto)

lemma runs_mix:
  assumes c: "loop_consts t0 tc t" "length ms = t * t" "\<forall>m \<in> set ms. m < length (consts_of t0)"
    and size: "lvar_size t0 = t * t + 4" "1 < expaux_size t0" "\<And>i. i < 2 * t \<Longrightarrow> in_signals t0 i"
    and x: "\<And>i. i < t \<Longrightarrow> sv (base t0 + (t + i)) = Some (x i)"
  shows "runs (seqM (mix_body t tc ms)) (at t0 sv e l) (ends t0
    (out_write sv (base t0) t (\<lambda>i. dot (consts_of t0 ! 88) t (\<lambda>j. consts_of t0 ! (ms ! (t * j + i))) x)))"
proof -
  let ?cs = "consts_of t0" and ?n = "t * t"
  define k2 k acc where "k2 = t * t + 3" and "k = t * t + 2" and "acc = t * t + 1"
  note [simp] = loop_constsD [OF c(1)]
  have k: "k2 < lvar_size t0" "k < lvar_size t0" "acc < lvar_size t0" "acc \<noteq> k" "acc \<noteq> k2" "k \<noteq> k2"
    "k \<notin> {..<?n}" "acc \<notin> {..<?n}" "k2 \<notin> {..<?n}"
    using size(1) by (simp_all add: k_def acc_def k2_def)
  define S where "S m = ?cs ! (ms ! m)" for m
  define f where "f i = dot (?cs ! 88) t (\<lambda>j. S (t * j + i)) x" for i
  define L where "L = l ++ const_map ?cs (table ms @ [(?n, tc), (acc, 88), (k, 88)])"
  have L: "L i = Some (S i)" if "i < ?n" for i
    using that c(2) by (simp add: S_def k_def acc_def L_def const_map_append const_map_table const_map_Cons map_add_def)
  have Lk: "L k = Some (?cs ! 88)"
    by (simp add: k_def acc_def L_def const_map_append const_map_Cons map_add_def)
  let ?dots = "count_loop k2 90 tc (dot_body acc (lv_ix (ixs [(t, lv k2), (1, lv k)] 0)) (sig_ix (ixs [(1, lv k2)] t)))"
  define body where "body = [load_consts [(acc, 88), (k2, 88)]] @ ?dots @
    [block (to_sig (ixs [(1, lv k)] 0)) [] (lv acc)]"
  have "runs (seqM (count_loop k 90 tc body)) (at t0 (out_write sv (base t0) 0 f) e L)
     (\<lambda>u. \<exists>e' l'. u = at t0 (out_write sv (base t0) t f) e' l' \<and> agree {..<?n} L l')"
  proof (rule runs_at_loop [OF c(1), where ?i0.0 = 0 and P = "\<lambda>_. agree {..<?n} L" and ?v0.0 = "?cs ! 88"])
    fix i e l v
    assume i: "i < t" and P: "agree {..<?n} L l" and v: "l k = Some v" "small v (int i)"
    let ?sv = "out_write sv (base t0) i f"
    define l1 where "l1 = l(acc \<mapsto> ?cs ! 88, k2 \<mapsto> ?cs ! 88)"
    have l1: "l1 acc = Some (?cs ! 88)" "l1 k2 = Some (?cs ! 88)" "l1 k = Some v" "agree {..<?n} L l1"
      using k P v by (simp_all add: l1_def)
    have st: "runs (seqM [block (to_sig (ixs [(1, lv k)] 0)) [] (lv acc)]) (at t0 ?sv e' l')
        (\<lambda>u. \<exists>e' l'. u = at t0 (out_write sv (base t0) (Suc i) f) e' l' \<and> agree {..<?n} L l' \<and> l' k = Some v)"
      if "agree (insert k {..<?n}) l1 l'" "l' acc = Some (f i)" for e' l'
    proof -
      have l': "l' k = Some v" "agree {..<?n} L l'" using that(1) l1(3,4) by (auto simp: agree_def)
      have "to_sig (ixs [(1, lv k)] 0) (at t0 sv' e' l') = Inr (sig_dest t0 i)" for sv' e'
        by (rule to_sig_eq) (use ixs_counter [of k t0 l' v i 1] k l' v i size(3) in auto)
      then show ?thesis
        using l' that size(3) i k by (auto simp: wp out_write_Suc simp del: One_nat_def)
    qed
    have "runs (seqM (?dots @ [block (to_sig (ixs [(1, lv k)] 0)) [] (lv acc)])) (at t0 ?sv e l1)
      (\<lambda>u. \<exists>e' l'. u = at t0 (out_write sv (base t0) (Suc i) f) e' l' \<and> agree {..<?n} L l' \<and> l' k = Some v)"
      unfolding runs_seq_append
      by (rule runs_mono [OF runs_mix_column [where S = S and x = x, OF c(1) size k i _ l1(1,2) _ l1(3) v(2)]])
        (use st x i L agreeD [OF l1(4)] in \<open>auto simp: f_def\<close>)
    moreover have "l ++ const_map ?cs [(acc, 88), (k2, 88)] = l1"
      using k by (auto simp: l1_def const_map_Cons map_add_def)
    ultimately show "runs (seqM body) (at t0 ?sv e l) (\<lambda>u. \<exists>e' l'. u = at t0 (out_write sv (base t0) (Suc i) f) e' l' \<and>
       agree {..<?n} L l' \<and> l' k = Some v)"
      using k unfolding body_def append_Cons append_Nil runs_seq_Cons runs_load_consts by simp
  qed (use k Lk in auto)
  then have "runs (seqM (count_loop k 90 tc body)) (at t0 sv e L)
     (ends t0 (out_write sv (base t0) t f))"
    by (auto elim!: runs_mono)
  then show ?thesis
    using c size(1) k unfolding mix_body_def runs_seq_Cons runs_load_consts at_simps
      S_def [symmetric] f_def [symmetric] k_def [symmetric] acc_def [symmetric] k2_def [symmetric]
      L_def [symmetric] body_def [symmetric]
    by (auto dest: set_table)
qed

section \<open>MixS\<close>

text \<open>
  The table \<open>S\<close> is loaded into the first \<open>n\<close> local variables; \<open>S i\<close> is its entry \<open>i\<close>. The first
  output is the product of the row with the inputs, the others add a multiple of the first input.
\<close>

definition mixs_out ::
    "(nat \<Rightarrow> FrElement) \<Rightarrow> FrElement \<Rightarrow> nat \<Rightarrow> nat \<Rightarrow> (nat \<Rightarrow> FrElement) \<Rightarrow> nat \<Rightarrow> FrElement" where
  "mixs_out S z t off x i =
     (if i = 0 then dot z t (\<lambda>j. S (off + j)) x
      else Fr_add (x i) (Fr_mul (x 0) (S (off + t + i - 1))))"

text \<open>
  One step of the second loop, which writes element \<open>i\<close>: the index of the factor is computed in the
  field, from the counter and the constant that holds \<open>off + t\<close>.
\<close>

lemma runs_mixs_step:
  assumes c: "loop_consts t0 tc t" "oc < length (consts_of t0)" "small (consts_of t0 ! oc) (int (off + t))"
      "int (off + 2 * t) < 2 ^ 31"
    and size: "k < lvar_size t0" "n \<le> lvar_size t0" "3 < expaux_size t0" "\<And>i. i < 2 * t \<Longrightarrow> in_signals t0 i"
      "off + 2 * t - 1 \<le> n"
    and i: "1 \<le> i" "i < t"
    and x: "sv (base t0 + (t + 0)) = Some (x 0)" "sv (base t0 + (t + i)) = Some (x i)"
    and l: "\<And>m. m < n \<Longrightarrow> l m = Some (S m)" "l k = Some v" "small v (int i)"
  shows "runs (seqM [block (to_sig (ixs [(1, lv k)] 0))
      [op2 Fr_add 3 (con oc) (lv k), op2 Fr_sub 2 (exp_at 3) (con 90),
       op2 Fr_mul 1 (sig_ix (ixs [] t)) (lv_ix (ixs [(1, exp_at 2)] 0)),
       op2 Fr_add 0 (sig_ix (ixs [(1, lv k)] t)) (exp_at 1)] (exp_at 0)]) (at t0 sv e l)
    (\<lambda>u. \<exists>e'. u = at t0 (sv(base t0 + i \<mapsto> Fr_add (x i) (Fr_mul (x 0) (S (off + t + i - 1))))) e' l)"
proof -
  let ?cs = "consts_of t0" and ?m = "off + t + i - 1"
  note [simp] = loop_constsD [OF c(1)]
  have ix: "ixs [(1, lv k)] o' (at t0 sv' e' l) = Inr (int (i + o'))" for o' sv' e'
    using ixs_counter [of k t0 l v i 1] size(1) l by simp
  let ?w3 = "Fr_add (?cs ! oc) v" and ?w2 = "Fr_sub (Fr_add (?cs ! oc) v) (?cs ! 90)"
  have w3: "small ?w3 (int (off + t) + int i)"
    using c(4) i by (intro small_add [OF c(3) l(3)]) (simp add: fits32_def)
  have "small ?w2 (int (off + t) + int i - 1)"
    using c(4) i by (intro small_sub [OF w3]) (simp_all add: fits32_def)
  then have w2: "small ?w2 (int ?m)" using i by (simp add: of_nat_diff)
  have d: "to_sig (ixs [(1, lv k)] 0) (at t0 sv e l) = Inr (sig_dest t0 i)"
    by (rule to_sig_eq) (use ix [of 0] size i in auto)
  have s: "sig_ix (ixs [(1, lv k)] t) (at t0 sv e' l) = Inr (x i)" for e'
    by (rule sig_ix_eq [where i = "i + t"]) (use ix [of t] size i x(2) in \<open>auto simp: add.commute\<close>)
  have s0: "sig_ix (ixs [] t) (at t0 sv e' l) = Inr (x 0)" for e'
    by (rule sig_lit) (use size(4) i x(1) in auto)
  have a: "lv_ix (ixs [(1, exp_at 2)] 0) (at t0 sv e' l) = Inr (S ?m)" if "e' 2 = Some ?w2" for e'
  proof (rule lv_ix_eq [where i = ?m])
    have "exp_at 2 (at t0 sv e' l) = Inr ?w2" using that size(3) by simp
    from ixs_small [of "exp_at 2", OF this w2, of "[]" 0 0 1]
    show "ixs [(1, exp_at 2)] 0 (at t0 sv e' l) = Inr (int ?m)" by (simp add: ixs_Nil)
    show "?m < lvar_size t0" "l ?m = Some (S ?m)" using l(1) size i by auto
  qed
  show ?thesis
    using size i l c(2) by (auto simp: wp d s s0 a simp del: One_nat_def)
qed

lemma runs_mixs:
  assumes c: "loop_consts t0 tc t" "rc < length (consts_of t0)" "oc < length (consts_of t0)"
      "small (consts_of t0 ! oc) (int (off + t))" "int (off + 2 * t) < 2 ^ 31" "0 < t"
    and ms: "length ms = n" "\<forall>m \<in> set ms. m < length (consts_of t0)"
    and size: "lvar_size t0 = n + 4" "3 < expaux_size t0" "\<And>i. i < 2 * t \<Longrightarrow> in_signals t0 i"
      "off + 2 * t - 1 \<le> n"
    and x: "\<And>i. i < t \<Longrightarrow> sv (base t0 + (t + i)) = Some (x i)"
  shows "runs (seqM (mixs_body t tc ms n rc off oc)) (at t0 sv e l)
    (ends t0 (out_write sv (base t0) t (mixs_out (\<lambda>i. consts_of t0 ! (ms ! i)) (consts_of t0 ! 88) t off x)))"
proof -
  let ?cs = "consts_of t0"
  define k acc where "k = n + 3" and "acc = n + 2"
  define S where "S i = ?cs ! (ms ! i)" for i
  define f where "f = mixs_out S (?cs ! 88) t off x"
  note [simp] = loop_constsD [OF c(1)]
  have k: "k < lvar_size t0" "acc < lvar_size t0" "acc \<noteq> k" "k \<notin> {..<n}" "acc \<notin> {..<n}" "n + 1 < acc" "acc < k"
    using size(1) by (simp_all add: k_def acc_def)
  define L where "L = l ++ const_map ?cs (table ms @ [(n, rc), (n + 1, tc), (acc, 88), (k, 88)])"
  have L: "L i = Some (S i)" if "i < n" for i
    using that k ms(1) by (simp add: L_def S_def const_map_table const_map_append const_map_Cons map_add_def)
  have Lk: "L k = Some (?cs ! 88)" "L acc = Some (?cs ! 88)"
    using k by (simp_all add: L_def const_map_append const_map_Cons map_add_def)
  let ?A = "lv_ix (ixs [(1, lv k)] off)" and ?B = "sig_ix (ixs [(1, lv k)] t)"
  have loop1: "runs (seqM (count_loop k 90 tc (dot_body acc ?A ?B))) (at t0 sv e L)
    (\<lambda>u. \<exists>e' l'. u = at t0 sv e' l' \<and> agree {..<n} L l' \<and>
       l' acc = Some (dot (?cs ! 88) t (\<lambda>j. S (off + j)) x))"
  proof (rule runs_dot [OF c(1) _ k(1,2,3,5,4) Lk(2,1)])
    fix j e l v
    assume j: "j < t" and P: "agree {..<n} L l" and v: "l k = Some v" "small v (int j)"
    have ix: "ixs [(1, lv k)] o' (at t0 sv' e' l) = Inr (int (j + o'))" for o' sv' e'
      using ixs_counter [of k t0 l v j 1] k v by simp
    show "?A (at t0 sv e l) = Inr (S (off + j))"
      by (rule lv_ix_eq [where i = "j + off"])
        (use ix [of off] j size L agreeD [OF P] in \<open>auto simp: add.commute\<close>)
    show "?B (at t0 sv e l) = Inr (x j)"
      by (rule sig_ix_eq [where i = "j + t"]) (use ix [of t] j x size(3) in \<open>auto simp: add.commute\<close>)
  qed (use size in auto)
  define body where "body = [block (to_sig (ixs [(1, lv k)] 0))
          [op2 Fr_add 3 (con oc) (lv k), op2 Fr_sub 2 (exp_at 3) (con 90),
           op2 Fr_mul 1 (sig_ix (ixs [] t)) (lv_ix (ixs [(1, exp_at 2)] 0)),
           op2 Fr_add 0 (sig_ix (ixs [(1, lv k)] t)) (exp_at 1)] (exp_at 0)]"
  have loop2: "runs (seqM (count_loop k 90 tc body)) (at t0 (out_write sv (base t0) 1 f) e l0)
     (\<lambda>u. \<exists>e' l'. u = at t0 (out_write sv (base t0) t f) e' l' \<and> agree {..<n} L l')"
    if l0: "agree {..<n} L l0" "l0 k = Some (?cs ! 90)" for e l0
  proof (rule runs_at_loop [OF c(1), where ?i0.0 = 1 and P = "\<lambda>_. agree {..<n} L" and ?v0.0 = "?cs ! 90"])
    fix i e l v
    assume i: "1 \<le> i" "i < t" and P: "agree {..<n} L l" and v: "l k = Some v" "small v (int i)"
    have fi: "f i = Fr_add (x i) (Fr_mul (x 0) (S (off + t + i - 1)))" using i by (simp add: f_def mixs_out_def)
    show "runs (seqM body) (at t0 (out_write sv (base t0) i f) e l)
       (\<lambda>u. \<exists>e' l'. u = at t0 (out_write sv (base t0) (Suc i) f) e' l' \<and> agree {..<n} L l' \<and> l' k = Some v)"
      unfolding body_def out_write_Suc [symmetric] fi
      by (rule runs_mono [OF runs_mixs_step [where S = S and n = n and x = x and v = v, OF c(1,3-5) k(1)]])
        (use size i x x [of 0] L agreeD [OF P] P v in auto)
  qed (use k c(6) l0 in auto)
  have f0: "out_write sv (base t0) 1 f = sv(base t0 + 0 \<mapsto> dot (?cs ! 88) t (\<lambda>j. S (off + j)) x)"
    using out_write_Suc [of sv "base t0" 0 f] by (simp add: f_def mixs_out_def)
  have tail: "runs (seqM ([block (to_sig (ixs [] 0)) [] (lv acc), load_consts [(k, 90)]] @ count_loop k 90 tc body))
    (at t0 sv e' l') (ends t0 (out_write sv (base t0) t f))"
    if P: "agree {..<n} L l'" "l' acc = Some (dot (?cs ! 88) t (\<lambda>j. S (off + j)) x)" for e' l'
  proof -
    have "runs (seqM (count_loop k 90 tc body)) (at t0 (out_write sv (base t0) 1 f) e' (l'(k \<mapsto> ?cs ! 90)))
      (ends t0 (out_write sv (base t0) t f))"
      by (rule runs_mono [OF loop2]) (use P k in auto)
    moreover have "l' ++ const_map ?cs [(k, 90)] = l'(k \<mapsto> ?cs ! 90)" by simp
    ultimately show ?thesis
      using P k size(3) c(6) unfolding f0 append_Cons append_Nil runs_seq_Cons runs_load_consts
      by (auto simp: wp simp del: const_map_single)
  qed
  have "runs (seqM (count_loop k 90 tc (dot_body acc ?A ?B) @
      ([block (to_sig (ixs [] 0)) [] (lv acc), load_consts [(k, 90)]] @ count_loop k 90 tc body)))
    (at t0 sv e L) (ends t0 (out_write sv (base t0) t f))"
    by (subst runs_seq_append, rule runs_mono [OF loop1]) (use tail in auto)
  moreover have "\<forall>(l, c) \<in> set (table ms @ [(n, rc), (n + 1, tc), (acc, 88), (k, 88)]).
      l < lvar_size t0 \<and> c < length ?cs"
    using ms c k size(1) by (auto dest: set_table)
  ultimately show ?thesis
    unfolding mixs_body_def runs_seq_Cons runs_load_consts at_simps append_Cons
      k_def [symmetric] acc_def [symmetric] L_def [symmetric] body_def [symmetric] S_def [symmetric] f_def [symmetric]
    by simp
qed

section \<open>MultiMux1\<close>

lemma runs_multimux:
  assumes c: "loop_consts t0 457 2"
    and size: "lvar_size t0 = 2" "2 < expaux_size t0" "\<And>i. i < 7 \<Longrightarrow> in_signals t0 i"
    and x: "\<And>i. i < 2 \<Longrightarrow> sv (base t0 + (2 * i + 2)) = Some (c0 i)"
      "\<And>i. i < 2 \<Longrightarrow> sv (base t0 + (2 * i + 3)) = Some (c1 i)" "sv (base t0 + 6) = Some s"
  shows "runs (seqM multimux_body) (at t0 sv e l) (ends t0
    (out_write sv (base t0) 2 (\<lambda>i. Fr_add (Fr_mul (Fr_sub (c1 i) (c0 i)) s) (c0 i))))"
proof -
  let ?cs = "consts_of t0"
  define f where "f i = Fr_add (Fr_mul (Fr_sub (c1 i) (c0 i)) s) (c0 i)" for i
  note [simp] = loop_constsD [OF c(1)]
  define L where "L = l ++ const_map ?cs [(0, 457), (1, 88)]"
  have Lk: "L 1 = Some (?cs ! 88)" by (simp add: L_def const_map_Cons map_add_def)
  define body where "body = [block (to_sig (ixs [(1, lv 1)] 0))
          [op2 Fr_sub 2 (sig_ix (ixs [(2, lv 1)] 3)) (sig_ix (ixs [(2, lv 1)] 2)),
           op2 Fr_mul 1 (exp_at 2) (sig_ix (ixs [] 6)),
           op2 Fr_add 0 (exp_at 1) (sig_ix (ixs [(2, lv 1)] 2))] (exp_at 0)]"
  have "runs (seqM (count_loop 1 90 457 body)) (at t0 (out_write sv (base t0) 0 f) e L)
     (\<lambda>u. \<exists>e' l'. u = at t0 (out_write sv (base t0) 2 f) e' l' \<and> True)"
  proof (rule runs_at_loop [OF c(1), where ?i0.0 = 0 and P = "\<lambda>_ _. True" and ?v0.0 = "?cs ! 88"])
    fix i :: nat and e l :: "nat \<rightharpoonup> FrElement" and v
    assume i: "i < 2" and v: "l 1 = Some v" "small v (int i)"
    let ?sv = "out_write sv (base t0) i f"
    have ix: "ixs [(c, lv 1)] o' (at t0 ?sv e l) = Inr (int (c * i + o'))" for c o' e
      using ixs_counter [of 1 t0 l v i c] v size(1) by simp
    have d: "to_sig (ixs [(1, lv 1)] 0) (at t0 ?sv e l) = Inr (sig_dest t0 i)"
      by (rule to_sig_eq) (use ix [of 1 0] size i in auto)
    have s0: "sig_ix (ixs [(2, lv 1)] 2) (at t0 ?sv e' l) = Inr (c0 i)" for e'
      by (rule sig_ix_eq [where i = "2 * i + 2"]) (use ix [of 2 2] size i x(1) in auto)
    have s1: "sig_ix (ixs [(2, lv 1)] 3) (at t0 ?sv e' l) = Inr (c1 i)" for e'
      by (rule sig_ix_eq [where i = "2 * i + 3"]) (use ix [of 2 3] size i x(2) in auto)
    have s6: "sig_ix (ixs [] 6) (at t0 ?sv e' l) = Inr s" for e'
      by (rule sig_lit) (use size(3) i x(3) in auto)
    show "runs (seqM body) (at t0 ?sv e l) (\<lambda>u. \<exists>e' l'. u = at t0 (out_write sv (base t0) (Suc i) f) e' l' \<and>
       True \<and> l' 1 = Some v)"
      using size i v
      by (auto simp: body_def wp d s0 s1 s6 out_write_Suc f_def [symmetric] simp del: One_nat_def)
  qed (use size Lk in auto)
  then have "runs (seqM (count_loop 1 90 457 body)) (at t0 sv e L) (ends t0 (out_write sv (base t0) 2 f))"
    by (auto elim!: runs_mono)
  then show ?thesis
    using size(1) unfolding multimux_body_def runs_seq_Cons runs_load_consts at_simps
      f_def [symmetric] L_def [symmetric] body_def [symmetric]
    by auto
qed

section \<open>Whole runs, in terms of field values\<close>

text \<open>
  \<open>carries ctx a n x\<close>: the \<open>n\<close> signals from \<open>a\<close> on are written, legal, and have the values \<open>x\<close>.
  \<open>only_signals\<close>: nothing but the \<open>n\<close> signals from \<open>a\<close> on was changed.
\<close>

definition carries :: "Circom_CalcWit \<Rightarrow> nat \<Rightarrow> nat \<Rightarrow> (nat \<Rightarrow> int) \<Rightarrow> bool" where
  "carries ctx a n x \<longleftrightarrow> (\<forall>i < n. \<exists>e. signalValues ctx (a + i) = Some e \<and> fok e \<and> fval e = x i)"

text \<open>Signals that have been written, whatever their values.\<close>

definition filled :: "Circom_CalcWit \<Rightarrow> nat \<Rightarrow> nat \<Rightarrow> bool" where
  "filled ctx a n \<longleftrightarrow> (\<forall>i < n. \<exists>e. signalValues ctx (a + i) = Some e \<and> fok e)"

definition only_signals :: "Circom_CalcWit \<Rightarrow> Circom_CalcWit \<Rightarrow> nat \<Rightarrow> nat \<Rightarrow> bool" where
  "only_signals ctx ctx' a n \<longleftrightarrow>
     (\<exists>sv. ctx' = ctx\<lparr>signalValues := sv\<rparr> \<and> (\<forall>j. j < a \<or> a + n \<le> j \<longrightarrow> sv j = signalValues ctx j))"

definition cst :: "Circom_CalcWit \<Rightarrow> nat \<Rightarrow> int" where
  "cst ctx i = fval (circuitConstants (circuit ctx) ! i)"

lemma carries_elems:
  "carries ctx a n x \<Longrightarrow> \<exists>e. \<forall>i < n. signalValues ctx (a + i) = Some (e i) \<and> fok (e i) \<and> fval (e i) = x i"
  unfolding carries_def by metis

lemma carries_out_write:
  assumes "\<And>i. i < n \<Longrightarrow> fok (f i) \<and> fval (f i) = x i"
  shows "carries (ctx\<lparr>signalValues := out_write sv a n f\<rparr>) a n x"
  using assms by (simp add: carries_def out_write_at)

lemma only_signals_out_write:
  "only_signals ctx (ctx\<lparr>signalValues := out_write (signalValues ctx) a n f\<rparr>) a n"
  by (auto simp: only_signals_def out_write_def)

lemma fval_dot:
  assumes "fok z" "\<And>j. j < n \<Longrightarrow> fok (a j) \<and> fok (b j)"
  shows "fok (dot z n a b)" "fval (dot z n a b) = (fval z + (\<Sum>j<n. fval (a j) * fval (b j))) mod q_int"
proof -
  have *: "\<forall>(u, v) \<in> set (map (\<lambda>j. (a j, b j)) [0..<n]). fok u \<and> fok v"
    using assms(2) by auto
  show "fok (dot z n a b)" unfolding dot_def by (rule fr.lincomb_correct [OF assms(1) *])
  have "(\<Sum>(u, v) \<leftarrow> map (\<lambda>j. (a j, b j)) [0..<n]. fval u * fval v) = (\<Sum>j<n. fval (a j) * fval (b j))"
    by (simp add: comp_def interv_sum_list_conv_sum_set_nat atLeast0LessThan)
  then show "fval (dot z n a b) = (fval z + (\<Sum>j<n. fval (a j) * fval (b j))) mod q_int"
    unfolding dot_def by (simp only: fr.lincomb_correct [OF assms(1) *])
qed

lemma init_frame_simps [simp]:
  "consts_of (init_frame ne nl idx start ctx) = circuitConstants (circuit ctx)"
  "expaux_size (init_frame ne nl idx start ctx) = ne" "lvar_size (init_frame ne nl idx start ctx) = nl"
  "base (init_frame ne nl idx start ctx) = unat start"
  "in_signals (init_frame ne nl idx start ctx) i = (unat start + i < unat get_total_signal_no)"
  "f_ctx (init_frame ne nl idx start ctx) = ctx"
  by (simp_all add: init_frame_def consts_of_def base_def in_signals_def)

lemma runs_leaf:
  assumes "component_ready ctx idx start"
    "runs (seqM body) (at (init_frame ne nl idx start ctx) (signalValues ctx) Map.empty Map.empty)
       (ends (init_frame ne nl idx start ctx) sv)"
    "Q (ctx\<lparr>signalValues := sv\<rparr>)"
  shows "runs (run_template ne nl 0 body idx) ctx Q"
  by (rule runs_template [OF assms(1)], subst at_init, rule runs_mono [OF assms(2)])
    (use assms(3) in \<open>auto simp: ends_def wp\<close>)

text \<open>What the proofs need of the circuit's constants.\<close>

definition width_consts :: "Circom_CalcWit \<Rightarrow> nat \<Rightarrow> nat \<Rightarrow> bool" where
  "width_consts ctx tc t \<longleftrightarrow>
     tc < length (circuitConstants (circuit ctx)) \<and> 90 < length (circuitConstants (circuit ctx)) \<and>
     small (circuitConstants (circuit ctx) ! tc) (int t) \<and>
     small (circuitConstants (circuit ctx) ! 88) 0 \<and> small (circuitConstants (circuit ctx) ! 90) 1 \<and>
     int t < 2 ^ 31 - 1 \<and> (\<forall>c \<in> set (circuitConstants (circuit ctx)). fok c)"

lemma width_loop_consts:
  "width_consts ctx tc t \<Longrightarrow> 0 < ne \<Longrightarrow> loop_consts (init_frame ne nl idx start ctx) tc t"
  by (simp add: width_consts_def loop_consts_def)

lemma width_fok: "width_consts ctx tc t \<Longrightarrow> i < length (circuitConstants (circuit ctx)) \<Longrightarrow>
    fok (circuitConstants (circuit ctx) ! i)"
  by (simp add: width_consts_def)

lemma width_zero: "width_consts ctx tc t \<Longrightarrow> fval (circuitConstants (circuit ctx) ! 88) = 0"
  using small_fval [of "circuitConstants (circuit ctx) ! 88" 0] by (simp add: width_consts_def)

lemma ark_run:
  assumes w: "width_consts ctx tc t" "rc < length (circuitConstants (circuit ctx))"
      "cc + nc \<le> length (circuitConstants (circuit ctx))" "off + t \<le> nc"
    and r: "component_ready ctx idx start" "unat start + 2 * t \<le> unat get_total_signal_no"
      "carries ctx (unat start + t) t x"
  shows "runs (run_template 2 (nc + 3) 0 (ark_body t tc nc cc rc off) idx) ctx (\<lambda>ctx'.
    carries ctx' (unat start) t (\<lambda>i. (x i + cst ctx (cc + (off + i))) mod q_int) \<and>
    only_signals ctx ctx' (unat start) t)"
proof -
  obtain e where e: "\<And>i. i < t \<Longrightarrow> signalValues ctx (unat start + t + i) = Some (e i)"
      "\<And>i. i < t \<Longrightarrow> fok (e i)" "\<And>i. i < t \<Longrightarrow> fval (e i) = x i"
    using carries_elems [OF r(3)] by blast
  have run: "runs (seqM (ark_body t tc nc cc rc off))
     (at (init_frame 2 (nc + 3) idx start ctx) (signalValues ctx) Map.empty Map.empty)
     (ends (init_frame 2 (nc + 3) idx start ctx) (out_write (signalValues ctx) (unat start) t
        (\<lambda>i. Fr_add (e i) (circuitConstants (circuit ctx) ! (cc + (off + i))))))"
    using runs_ark [OF width_loop_consts [OF w(1)], of 2 rc "nc + 3" idx start cc nc off "signalValues ctx" e]
      w r(2) e(1) by (simp add: add.assoc)
  show ?thesis
    by (rule runs_leaf [OF r(1) run])
      (use e w in \<open>auto intro!: carries_out_write only_signals_out_write
        simp: cst_def fr.add_ok fr.add_val width_fok\<close>)
qed

lemma mix_run:
  assumes w: "width_consts ctx tc t" "length ms = t * t" "\<forall>m \<in> set ms. m < length (circuitConstants (circuit ctx))"
    and r: "component_ready ctx idx start" "unat start + 2 * t \<le> unat get_total_signal_no"
      "carries ctx (unat start + t) t x"
  shows "runs (run_template 2 (t * t + 4) 0 (mix_body t tc ms) idx) ctx (\<lambda>ctx'.
    carries ctx' (unat start) t (\<lambda>i. (\<Sum>j<t. cst ctx (ms ! (t * j + i)) * x j) mod q_int) \<and>
    only_signals ctx ctx' (unat start) t)"
proof -
  let ?cs = "circuitConstants (circuit ctx)"
  obtain e where e: "\<And>i. i < t \<Longrightarrow> signalValues ctx (unat start + t + i) = Some (e i)"
      "\<And>i. i < t \<Longrightarrow> fok (e i)" "\<And>i. i < t \<Longrightarrow> fval (e i) = x i"
    using carries_elems [OF r(3)] by blast
  define f where "f i = dot (?cs ! 88) t (\<lambda>j. ?cs ! (ms ! (t * j + i))) e" for i
  have run: "runs (seqM (mix_body t tc ms))
     (at (init_frame 2 (t * t + 4) idx start ctx) (signalValues ctx) Map.empty Map.empty)
     (ends (init_frame 2 (t * t + 4) idx start ctx) (out_write (signalValues ctx) (unat start) t f))"
    using runs_mix [OF width_loop_consts [OF w(1)], of 2 ms "t * t + 4" idx start "signalValues ctx" e]
      w(2,3) r(2) e(1) by (simp add: add.assoc f_def [abs_def])
  have f: "fok (f i) \<and> fval (f i) = (\<Sum>j<t. cst ctx (ms ! (t * j + i)) * x j) mod q_int" if "i < t" for i
  proof -
    have "ms ! (t * j + i) \<in> set ms" if "j < t" for j
    proof -
      have "t * j + i < t * (j + 1)" using \<open>i < t\<close> by simp
      also have "\<dots> \<le> t * t" using \<open>j < t\<close> by (intro mult_le_mono2) simp
      finally show ?thesis using w(2) by simp
    qed
    then have ok: "fok (?cs ! (ms ! (t * j + i))) \<and> fok (e j)" if "j < t" for j
      using that e(2) w(3) width_fok [OF w(1)] by blast
    have z: "fok (?cs ! 88)" using w(1) width_fok [OF w(1), of 88] by (simp add: width_consts_def)
    show ?thesis
      unfolding f_def using fval_dot [OF z, of t "\<lambda>j. ?cs ! (ms ! (t * j + i))" e] ok width_zero [OF w(1)]
      by (simp add: cst_def e(3))
  qed
  show ?thesis
    by (rule runs_leaf [OF r(1) run]) (use f in \<open>auto intro!: carries_out_write only_signals_out_write\<close>)
qed

lemma mixlast_run:
  assumes w: "width_consts ctx tc t" "length ms = t * t" "\<forall>m \<in> set ms. m < length (circuitConstants (circuit ctx))"
    and r: "component_ready ctx idx start" "unat start + 1 + t \<le> unat get_total_signal_no"
      "carries ctx (unat start + 1) t x"
  shows "runs (run_template 2 (t * t + 4) 0 (mixlast_body t tc ms) idx) ctx (\<lambda>ctx'.
    carries ctx' (unat start) 1 (\<lambda>_. (\<Sum>j<t. cst ctx (ms ! (t * j)) * x j) mod q_int) \<and>
    only_signals ctx ctx' (unat start) 1)"
proof -
  let ?cs = "circuitConstants (circuit ctx)"
  obtain e where e: "\<And>i. i < t \<Longrightarrow> signalValues ctx (unat start + 1 + i) = Some (e i)"
      "\<And>i. i < t \<Longrightarrow> fok (e i)" "\<And>i. i < t \<Longrightarrow> fval (e i) = x i"
    using carries_elems [OF r(3)] by blast
  define f where "f = (\<lambda>_ :: nat. dot (?cs ! 88) t (\<lambda>j. ?cs ! (ms ! (t * j))) e)"
  have "(signalValues ctx)(unat start + 0 \<mapsto> f 0) = out_write (signalValues ctx) (unat start) 1 f"
    using out_write_Suc [of "signalValues ctx" "unat start" 0 f] by simp
  then have run: "runs (seqM (mixlast_body t tc ms))
     (at (init_frame 2 (t * t + 4) idx start ctx) (signalValues ctx) Map.empty Map.empty)
     (ends (init_frame 2 (t * t + 4) idx start ctx) (out_write (signalValues ctx) (unat start) 1 f))"
    using runs_mixlast [OF width_loop_consts [OF w(1)], of 2 ms "t * t + 4" idx start "signalValues ctx" e]
      w(2,3) r(2) e(1) by (simp add: add.assoc f_def)
  have f: "fok (f i) \<and> fval (f i) = (\<Sum>j<t. cst ctx (ms ! (t * j)) * x j) mod q_int" for i
  proof -
    have "ms ! (t * j) \<in> set ms" if "j < t" for j using w(2) that by simp
    then have ok: "fok (?cs ! (ms ! (t * j))) \<and> fok (e j)" if "j < t" for j
      using that e(2) w(3) width_fok [OF w(1)] by blast
    have z: "fok (?cs ! 88)" using w(1) width_fok [OF w(1), of 88] by (simp add: width_consts_def)
    show ?thesis
      unfolding f_def using fval_dot [OF z, of t "\<lambda>j. ?cs ! (ms ! (t * j))" e] ok width_zero [OF w(1)]
      by (simp add: cst_def e(3))
  qed
  show ?thesis
    by (rule runs_leaf [OF r(1) run]) (use f in \<open>auto intro!: carries_out_write only_signals_out_write\<close>)
qed

text \<open>The partial round: the first output is a product with a sparse row, the others add a multiple.\<close>

definition sparse_round :: "(nat \<Rightarrow> int) \<Rightarrow> nat \<Rightarrow> nat \<Rightarrow> (nat \<Rightarrow> int) \<Rightarrow> nat \<Rightarrow> int" where
  "sparse_round S t off x i =
     (if i = 0 then (\<Sum>j<t. S (off + j) * x j) mod q_int
      else (x i + x 0 * S (off + t + i - 1)) mod q_int)"

lemma mixs_run:
  assumes w: "width_consts ctx tc t" "rc < length (circuitConstants (circuit ctx))"
      "oc < length (circuitConstants (circuit ctx))" "small (circuitConstants (circuit ctx) ! oc) (int (off + t))"
      "int (off + 2 * t) < 2 ^ 31" "0 < t" "off + 2 * t - 1 \<le> n" "length ms = n"
      "\<forall>m \<in> set ms. m < length (circuitConstants (circuit ctx))"
    and r: "component_ready ctx idx start" "unat start + 2 * t \<le> unat get_total_signal_no"
      "carries ctx (unat start + t) t x"
  shows "runs (run_template 5 (n + 4) 0 (mixs_body t tc ms n rc off oc) idx) ctx (\<lambda>ctx'.
    carries ctx' (unat start) t (sparse_round (\<lambda>i. cst ctx (ms ! i)) t off x) \<and>
    only_signals ctx ctx' (unat start) t)"
proof -
  let ?cs = "circuitConstants (circuit ctx)"
  obtain e where e: "\<And>i. i < t \<Longrightarrow> signalValues ctx (unat start + t + i) = Some (e i)"
      "\<And>i. i < t \<Longrightarrow> fok (e i)" "\<And>i. i < t \<Longrightarrow> fval (e i) = x i"
    using carries_elems [OF r(3)] by blast
  define f where "f = mixs_out (\<lambda>i. ?cs ! (ms ! i)) (?cs ! 88) t off e"
  have run: "runs (seqM (mixs_body t tc ms n rc off oc))
     (at (init_frame 5 (n + 4) idx start ctx) (signalValues ctx) Map.empty Map.empty)
     (ends (init_frame 5 (n + 4) idx start ctx) (out_write (signalValues ctx) (unat start) t f))"
    using runs_mixs [OF width_loop_consts [OF w(1)], of 5 rc "n + 4" idx start oc off ms n "signalValues ctx" e]
      w(2-) r(2) e(1) by (simp add: add.assoc f_def)
  have ok: "fok (?cs ! (ms ! i))" if "i < n" for i
    using that w(8,9) width_fok [OF w(1)] nth_mem by blast
  have z: "fok (?cs ! 88)" using w(1) width_fok [OF w(1), of 88] by (simp add: width_consts_def)
  have f: "fok (f i) \<and> fval (f i) = sparse_round (\<lambda>i. cst ctx (ms ! i)) t off x i" if i: "i < t" for i
  proof (cases "i = 0")
    case True
    have "fok (?cs ! (ms ! (off + j))) \<and> fok (e j)" if "j < t" for j
      using that ok [of "off + j"] e(2) w(7) by simp
    then show ?thesis
      using fval_dot [OF z, of t "\<lambda>j. ?cs ! (ms ! (off + j))" e] width_zero [OF w(1)] True
      by (simp add: f_def mixs_out_def sparse_round_def cst_def e(3))
  next
    case False
    have "fok (?cs ! (ms ! (off + t + i - 1)))" using i w(7) False by (intro ok) simp
    then show ?thesis
      using False i e w(6) by (simp add: f_def mixs_out_def sparse_round_def cst_def fr.ops_ok fr.ops_val mod_simps)
  qed
  show ?thesis
    by (rule runs_leaf [OF r(1) run]) (use f in \<open>auto intro!: carries_out_write only_signals_out_write\<close>)
qed

lemma sigma_run_filled:
  assumes r: "component_ready ctx idx start" "unat start + 4 \<le> unat get_total_signal_no"
      "carries ctx (unat start + 1) 1 x"
  shows "runs (run_template 1 0 0 sigma_body idx) ctx (\<lambda>ctx'.
    carries ctx' (unat start) 1 (\<lambda>_. x 0 ^ 5 mod q_int) \<and> only_signals ctx ctx' (unat start) 4 \<and>
    filled ctx' (unat start) 4)"
proof -
  obtain e where e: "\<And>i. i < 1 \<Longrightarrow> signalValues ctx (unat start + 1 + i) = Some (e i)"
      "\<And>i. i < 1 \<Longrightarrow> fok (e i)" "\<And>i. i < 1 \<Longrightarrow> fval (e i) = x i"
    using carries_elems [OF r(3)] by blast
  let ?e = "e 0"
  have e0: "signalValues ctx (unat start + 1) = Some ?e" "fok ?e" "fval ?e = x 0"
    using e(1) [of 0] e(2) [of 0] e(3) [of 0] by simp_all
  show ?thesis
    by (rule runs_leaf [OF r(1) runs_sigma [of _ _ ?e]])
      (use r(2) e0 fr.fifth_power [OF e0(2)] in \<open>auto simp: carries_def only_signals_def filled_def less_Suc_eq numeral_eq_Suc
          intro!: exI fr.mul_ok\<close>)
qed

lemma sigma_run:
  assumes "component_ready ctx idx start" "unat start + 4 \<le> unat get_total_signal_no" "carries ctx (unat start + 1) 1 x"
  shows "runs (run_template 1 0 0 sigma_body idx) ctx (\<lambda>ctx'.
    carries ctx' (unat start) 1 (\<lambda>_. x 0 ^ 5 mod q_int) \<and> only_signals ctx ctx' (unat start) 4)"
  by (rule runs_mono [OF sigma_run_filled [OF assms]]) simp

lemma multimux_run:
  assumes w: "width_consts ctx 457 2"
    and r: "component_ready ctx idx start" "unat start + 7 \<le> unat get_total_signal_no"
      "carries ctx (unat start + 2) 5 x"
  shows "runs (run_template 3 2 0 multimux_body idx) ctx (\<lambda>ctx'.
    carries ctx' (unat start) 2 (\<lambda>i. ((x (2 * i + 1) - x (2 * i)) * x 4 + x (2 * i)) mod q_int) \<and>
    only_signals ctx ctx' (unat start) 2)"
proof -
  obtain e where e: "\<And>i. i < 5 \<Longrightarrow> signalValues ctx (unat start + 2 + i) = Some (e i)"
      "\<And>i. i < 5 \<Longrightarrow> fok (e i)" "\<And>i. i < 5 \<Longrightarrow> fval (e i) = x i"
    using carries_elems [OF r(3)] by blast
  define f where "f i = Fr_add (Fr_mul (Fr_sub (e (2 * i + 1)) (e (2 * i))) (e 4)) (e (2 * i))" for i
  have sv: "signalValues ctx (unat start + j) = Some (e (j - 2))" if "2 \<le> j" "j < 7" for j
  proof -
    have "unat start + j = unat start + 2 + (j - 2)" using that by simp
    then show ?thesis using that e(1) [of "j - 2"] by simp
  qed
  have run: "runs (seqM multimux_body)
     (at (init_frame 3 2 idx start ctx) (signalValues ctx) Map.empty Map.empty)
     (ends (init_frame 3 2 idx start ctx)
        (out_write (signalValues ctx) (base (init_frame 3 2 idx start ctx)) 2 f))"
    unfolding f_def [abs_def]
  proof (rule runs_multimux [OF width_loop_consts [OF w], of 3])
    fix i :: nat assume "i < 2"
    then show "signalValues ctx (base (init_frame 3 2 idx start ctx) + (2 * i + 2)) = Some (e (2 * i))"
      "signalValues ctx (base (init_frame 3 2 idx start ctx) + (2 * i + 3)) = Some (e (2 * i + 1))"
      using sv [of "2 * i + 2"] sv [of "2 * i + 3"] by simp_all
  next
    show "signalValues ctx (base (init_frame 3 2 idx start ctx) + 6) = Some (e 4)"
      using sv [of 6] by simp
  qed (use r(2) in auto)
  note run = run [unfolded init_frame_simps]
  have "fok (f i) \<and> fval (f i) = ((x (2 * i + 1) - x (2 * i)) * x 4 + x (2 * i)) mod q_int" if "i < 2" for i
    using that e by (simp add: f_def fr.ops_ok fr.ops_val mod_simps)
  then show ?thesis
    by (intro runs_leaf [OF r(1) run]) (auto intro!: carries_out_write only_signals_out_write)
qed

text \<open>
  A path element and a selector that turn an arbitrary running value \<open>cur\<close> into given children:
  the sum of the outputs of the multiplexer is the sum of its inputs, and the selector solves a
  linear equation.
\<close>

lemma selector_for_children:
  assumes "0 \<le> l" "l < q_int" "0 \<le> r" "r < q_int" "coprime (l + r - 2 * cur) q_int"
  obtains sib s where "0 \<le> sib" "sib < q_int" "0 \<le> s" "s < q_int"
    "((sib - cur) * s + cur) mod q_int = l" "((cur - sib) * s + sib) mod q_int = r"
proof -
  obtain u v where uv: "u * (l + r - 2 * cur) + v * q_int = 1"
    using bezout_int [of "l + r - 2 * cur" q_int] assms(5) by auto
  define sib where "sib = (l + r - cur) mod q_int"
  define s where "s = (l - cur) * u mod q_int"
  have sib: "sib - (l + r - cur) = q_int * (- ((l + r - cur) div q_int))"
    by (simp add: sib_def minus_mod_eq_mult_div [symmetric] minus_mult_right [symmetric])
  have s: "s - (l - cur) * u = q_int * (- ((l - cur) * u div q_int))"
    by (simp add: s_def minus_mod_eq_mult_div [symmetric] minus_mult_right [symmetric])
  let ?k = "- ((l + r - cur) div q_int)" and ?m = "- ((l - cur) * u div q_int)"
  have e1: "sib = l + r - cur + q_int * ?k" and e2: "s = (l - cur) * u + q_int * ?m"
    using sib s by simp_all
  have e3: "(l + r - 2 * cur) * ((l - cur) * u) = (l - cur) - q_int * (v * (l - cur))"
  proof -
    have "(l + r - 2 * cur) * ((l - cur) * u) = (u * (l + r - 2 * cur)) * (l - cur)" by simp
    also have "u * (l + r - 2 * cur) = 1 - v * q_int" using uv by simp
    finally show ?thesis by (simp add: algebra_simps)
  qed
  have d: "(sib - cur) * s = (l - cur) + q_int * (?k * s + (l + r - 2 * cur) * ?m - v * (l - cur))"
  proof -
    have "(sib - cur) * s = (l + r - 2 * cur) * s + q_int * ?k * s"
      by (simp add: e1 algebra_simps)
    also have "(l + r - 2 * cur) * s = (l + r - 2 * cur) * ((l - cur) * u) + (l + r - 2 * cur) * (q_int * ?m)"
      by (subst e2) (simp only: distrib_left)
    finally show ?thesis unfolding e3 by (simp add: algebra_simps)
  qed
  obtain z where z: "(sib - cur) * s = (l - cur) + q_int * z" using d by blast
  have "(sib - cur) * s + cur = l + q_int * z" using z by simp
  then have o1: "((sib - cur) * s + cur) mod q_int = l" using assms(1,2) by simp
  have "(cur - sib) * s + sib = sib - (sib - cur) * s" by (simp add: left_diff_distrib)
  also have "\<dots> = r + q_int * (?k - z)" using z e1 by (simp add: right_diff_distrib)
  finally have o2: "((cur - sib) * s + sib) mod q_int = r"
    using assms(3,4) by (simp only: mod_mult_self2) simp
  show ?thesis
    by (rule that [OF _ _ _ _ o1 o2]) (simp_all add: sib_def s_def q_int_bounds)
qed

end
