(* ===== verification/Circuit_Create.thy ===== *)
theory Circuit_Create
  imports Frame
begin

text \<open>
  The 143 \<open>_create\<close> functions of \<open>circuit_cpp/circuit.cpp\<close>, one per template instance. They write
  the members of the component at \<open>coffset\<close>; the instances differ in number, name, number of
  inputs and number of subcomponents.
\<close>

type_synonym creator = "u32 \<Rightarrow> u32 \<Rightarrow> string \<Rightarrow> u32 \<Rightarrow> Circom_CalcWit stmt"

definition Ark_0_create :: creator where
  "Ark_0_create = create_component 0 ''Ark'' 4 0"

definition Sigma_1_create :: creator where
  "Sigma_1_create = create_component 1 ''Sigma'' 1 0"

definition Ark_2_create :: creator where
  "Ark_2_create = create_component 2 ''Ark'' 4 0"

definition Mix_3_create :: creator where
  "Mix_3_create = create_component 3 ''Mix'' 4 0"

definition Ark_4_create :: creator where
  "Ark_4_create = create_component 4 ''Ark'' 4 0"

definition Ark_5_create :: creator where
  "Ark_5_create = create_component 5 ''Ark'' 4 0"

definition Ark_6_create :: creator where
  "Ark_6_create = create_component 6 ''Ark'' 4 0"

definition Mix_7_create :: creator where
  "Mix_7_create = create_component 7 ''Mix'' 4 0"

definition MixS_8_create :: creator where
  "MixS_8_create = create_component 8 ''MixS'' 4 0"

definition MixS_9_create :: creator where
  "MixS_9_create = create_component 9 ''MixS'' 4 0"

definition MixS_10_create :: creator where
  "MixS_10_create = create_component 10 ''MixS'' 4 0"

definition MixS_11_create :: creator where
  "MixS_11_create = create_component 11 ''MixS'' 4 0"

definition MixS_12_create :: creator where
  "MixS_12_create = create_component 12 ''MixS'' 4 0"

definition MixS_13_create :: creator where
  "MixS_13_create = create_component 13 ''MixS'' 4 0"

definition MixS_14_create :: creator where
  "MixS_14_create = create_component 14 ''MixS'' 4 0"

definition MixS_15_create :: creator where
  "MixS_15_create = create_component 15 ''MixS'' 4 0"

definition MixS_16_create :: creator where
  "MixS_16_create = create_component 16 ''MixS'' 4 0"

definition MixS_17_create :: creator where
  "MixS_17_create = create_component 17 ''MixS'' 4 0"

definition MixS_18_create :: creator where
  "MixS_18_create = create_component 18 ''MixS'' 4 0"

definition MixS_19_create :: creator where
  "MixS_19_create = create_component 19 ''MixS'' 4 0"

definition MixS_20_create :: creator where
  "MixS_20_create = create_component 20 ''MixS'' 4 0"

definition MixS_21_create :: creator where
  "MixS_21_create = create_component 21 ''MixS'' 4 0"

definition MixS_22_create :: creator where
  "MixS_22_create = create_component 22 ''MixS'' 4 0"

definition MixS_23_create :: creator where
  "MixS_23_create = create_component 23 ''MixS'' 4 0"

definition MixS_24_create :: creator where
  "MixS_24_create = create_component 24 ''MixS'' 4 0"

definition MixS_25_create :: creator where
  "MixS_25_create = create_component 25 ''MixS'' 4 0"

definition MixS_26_create :: creator where
  "MixS_26_create = create_component 26 ''MixS'' 4 0"

definition MixS_27_create :: creator where
  "MixS_27_create = create_component 27 ''MixS'' 4 0"

definition MixS_28_create :: creator where
  "MixS_28_create = create_component 28 ''MixS'' 4 0"

definition MixS_29_create :: creator where
  "MixS_29_create = create_component 29 ''MixS'' 4 0"

definition MixS_30_create :: creator where
  "MixS_30_create = create_component 30 ''MixS'' 4 0"

definition MixS_31_create :: creator where
  "MixS_31_create = create_component 31 ''MixS'' 4 0"

definition MixS_32_create :: creator where
  "MixS_32_create = create_component 32 ''MixS'' 4 0"

definition MixS_33_create :: creator where
  "MixS_33_create = create_component 33 ''MixS'' 4 0"

definition MixS_34_create :: creator where
  "MixS_34_create = create_component 34 ''MixS'' 4 0"

definition MixS_35_create :: creator where
  "MixS_35_create = create_component 35 ''MixS'' 4 0"

definition MixS_36_create :: creator where
  "MixS_36_create = create_component 36 ''MixS'' 4 0"

definition MixS_37_create :: creator where
  "MixS_37_create = create_component 37 ''MixS'' 4 0"

definition MixS_38_create :: creator where
  "MixS_38_create = create_component 38 ''MixS'' 4 0"

definition MixS_39_create :: creator where
  "MixS_39_create = create_component 39 ''MixS'' 4 0"

definition MixS_40_create :: creator where
  "MixS_40_create = create_component 40 ''MixS'' 4 0"

definition MixS_41_create :: creator where
  "MixS_41_create = create_component 41 ''MixS'' 4 0"

definition MixS_42_create :: creator where
  "MixS_42_create = create_component 42 ''MixS'' 4 0"

definition MixS_43_create :: creator where
  "MixS_43_create = create_component 43 ''MixS'' 4 0"

definition MixS_44_create :: creator where
  "MixS_44_create = create_component 44 ''MixS'' 4 0"

definition MixS_45_create :: creator where
  "MixS_45_create = create_component 45 ''MixS'' 4 0"

definition MixS_46_create :: creator where
  "MixS_46_create = create_component 46 ''MixS'' 4 0"

definition MixS_47_create :: creator where
  "MixS_47_create = create_component 47 ''MixS'' 4 0"

definition MixS_48_create :: creator where
  "MixS_48_create = create_component 48 ''MixS'' 4 0"

definition MixS_49_create :: creator where
  "MixS_49_create = create_component 49 ''MixS'' 4 0"

definition MixS_50_create :: creator where
  "MixS_50_create = create_component 50 ''MixS'' 4 0"

definition MixS_51_create :: creator where
  "MixS_51_create = create_component 51 ''MixS'' 4 0"

definition MixS_52_create :: creator where
  "MixS_52_create = create_component 52 ''MixS'' 4 0"

definition MixS_53_create :: creator where
  "MixS_53_create = create_component 53 ''MixS'' 4 0"

definition MixS_54_create :: creator where
  "MixS_54_create = create_component 54 ''MixS'' 4 0"

definition MixS_55_create :: creator where
  "MixS_55_create = create_component 55 ''MixS'' 4 0"

definition MixS_56_create :: creator where
  "MixS_56_create = create_component 56 ''MixS'' 4 0"

definition MixS_57_create :: creator where
  "MixS_57_create = create_component 57 ''MixS'' 4 0"

definition MixS_58_create :: creator where
  "MixS_58_create = create_component 58 ''MixS'' 4 0"

definition MixS_59_create :: creator where
  "MixS_59_create = create_component 59 ''MixS'' 4 0"

definition MixS_60_create :: creator where
  "MixS_60_create = create_component 60 ''MixS'' 4 0"

definition MixS_61_create :: creator where
  "MixS_61_create = create_component 61 ''MixS'' 4 0"

definition MixS_62_create :: creator where
  "MixS_62_create = create_component 62 ''MixS'' 4 0"

definition MixS_63_create :: creator where
  "MixS_63_create = create_component 63 ''MixS'' 4 0"

definition Ark_64_create :: creator where
  "Ark_64_create = create_component 64 ''Ark'' 4 0"

definition Ark_65_create :: creator where
  "Ark_65_create = create_component 65 ''Ark'' 4 0"

definition Ark_66_create :: creator where
  "Ark_66_create = create_component 66 ''Ark'' 4 0"

definition MixLast_67_create :: creator where
  "MixLast_67_create = create_component 67 ''MixLast'' 4 0"

definition PoseidonEx_68_create :: creator where
  "PoseidonEx_68_create = create_component 68 ''PoseidonEx'' 4 160"

definition Poseidon_69_create :: creator where
  "Poseidon_69_create = create_component 69 ''Poseidon'' 3 1"

definition Ark_70_create :: creator where
  "Ark_70_create = create_component 70 ''Ark'' 3 0"

definition Ark_71_create :: creator where
  "Ark_71_create = create_component 71 ''Ark'' 3 0"

definition Mix_72_create :: creator where
  "Mix_72_create = create_component 72 ''Mix'' 3 0"

definition Ark_73_create :: creator where
  "Ark_73_create = create_component 73 ''Ark'' 3 0"

definition Ark_74_create :: creator where
  "Ark_74_create = create_component 74 ''Ark'' 3 0"

definition Ark_75_create :: creator where
  "Ark_75_create = create_component 75 ''Ark'' 3 0"

definition Mix_76_create :: creator where
  "Mix_76_create = create_component 76 ''Mix'' 3 0"

definition MixS_77_create :: creator where
  "MixS_77_create = create_component 77 ''MixS'' 3 0"

definition MixS_78_create :: creator where
  "MixS_78_create = create_component 78 ''MixS'' 3 0"

definition MixS_79_create :: creator where
  "MixS_79_create = create_component 79 ''MixS'' 3 0"

definition MixS_80_create :: creator where
  "MixS_80_create = create_component 80 ''MixS'' 3 0"

definition MixS_81_create :: creator where
  "MixS_81_create = create_component 81 ''MixS'' 3 0"

definition MixS_82_create :: creator where
  "MixS_82_create = create_component 82 ''MixS'' 3 0"

definition MixS_83_create :: creator where
  "MixS_83_create = create_component 83 ''MixS'' 3 0"

definition MixS_84_create :: creator where
  "MixS_84_create = create_component 84 ''MixS'' 3 0"

definition MixS_85_create :: creator where
  "MixS_85_create = create_component 85 ''MixS'' 3 0"

definition MixS_86_create :: creator where
  "MixS_86_create = create_component 86 ''MixS'' 3 0"

definition MixS_87_create :: creator where
  "MixS_87_create = create_component 87 ''MixS'' 3 0"

definition MixS_88_create :: creator where
  "MixS_88_create = create_component 88 ''MixS'' 3 0"

definition MixS_89_create :: creator where
  "MixS_89_create = create_component 89 ''MixS'' 3 0"

definition MixS_90_create :: creator where
  "MixS_90_create = create_component 90 ''MixS'' 3 0"

definition MixS_91_create :: creator where
  "MixS_91_create = create_component 91 ''MixS'' 3 0"

definition MixS_92_create :: creator where
  "MixS_92_create = create_component 92 ''MixS'' 3 0"

definition MixS_93_create :: creator where
  "MixS_93_create = create_component 93 ''MixS'' 3 0"

definition MixS_94_create :: creator where
  "MixS_94_create = create_component 94 ''MixS'' 3 0"

definition MixS_95_create :: creator where
  "MixS_95_create = create_component 95 ''MixS'' 3 0"

definition MixS_96_create :: creator where
  "MixS_96_create = create_component 96 ''MixS'' 3 0"

definition MixS_97_create :: creator where
  "MixS_97_create = create_component 97 ''MixS'' 3 0"

definition MixS_98_create :: creator where
  "MixS_98_create = create_component 98 ''MixS'' 3 0"

definition MixS_99_create :: creator where
  "MixS_99_create = create_component 99 ''MixS'' 3 0"

definition MixS_100_create :: creator where
  "MixS_100_create = create_component 100 ''MixS'' 3 0"

definition MixS_101_create :: creator where
  "MixS_101_create = create_component 101 ''MixS'' 3 0"

definition MixS_102_create :: creator where
  "MixS_102_create = create_component 102 ''MixS'' 3 0"

definition MixS_103_create :: creator where
  "MixS_103_create = create_component 103 ''MixS'' 3 0"

definition MixS_104_create :: creator where
  "MixS_104_create = create_component 104 ''MixS'' 3 0"

definition MixS_105_create :: creator where
  "MixS_105_create = create_component 105 ''MixS'' 3 0"

definition MixS_106_create :: creator where
  "MixS_106_create = create_component 106 ''MixS'' 3 0"

definition MixS_107_create :: creator where
  "MixS_107_create = create_component 107 ''MixS'' 3 0"

definition MixS_108_create :: creator where
  "MixS_108_create = create_component 108 ''MixS'' 3 0"

definition MixS_109_create :: creator where
  "MixS_109_create = create_component 109 ''MixS'' 3 0"

definition MixS_110_create :: creator where
  "MixS_110_create = create_component 110 ''MixS'' 3 0"

definition MixS_111_create :: creator where
  "MixS_111_create = create_component 111 ''MixS'' 3 0"

definition MixS_112_create :: creator where
  "MixS_112_create = create_component 112 ''MixS'' 3 0"

definition MixS_113_create :: creator where
  "MixS_113_create = create_component 113 ''MixS'' 3 0"

definition MixS_114_create :: creator where
  "MixS_114_create = create_component 114 ''MixS'' 3 0"

definition MixS_115_create :: creator where
  "MixS_115_create = create_component 115 ''MixS'' 3 0"

definition MixS_116_create :: creator where
  "MixS_116_create = create_component 116 ''MixS'' 3 0"

definition MixS_117_create :: creator where
  "MixS_117_create = create_component 117 ''MixS'' 3 0"

definition MixS_118_create :: creator where
  "MixS_118_create = create_component 118 ''MixS'' 3 0"

definition MixS_119_create :: creator where
  "MixS_119_create = create_component 119 ''MixS'' 3 0"

definition MixS_120_create :: creator where
  "MixS_120_create = create_component 120 ''MixS'' 3 0"

definition MixS_121_create :: creator where
  "MixS_121_create = create_component 121 ''MixS'' 3 0"

definition MixS_122_create :: creator where
  "MixS_122_create = create_component 122 ''MixS'' 3 0"

definition MixS_123_create :: creator where
  "MixS_123_create = create_component 123 ''MixS'' 3 0"

definition MixS_124_create :: creator where
  "MixS_124_create = create_component 124 ''MixS'' 3 0"

definition MixS_125_create :: creator where
  "MixS_125_create = create_component 125 ''MixS'' 3 0"

definition MixS_126_create :: creator where
  "MixS_126_create = create_component 126 ''MixS'' 3 0"

definition MixS_127_create :: creator where
  "MixS_127_create = create_component 127 ''MixS'' 3 0"

definition MixS_128_create :: creator where
  "MixS_128_create = create_component 128 ''MixS'' 3 0"

definition MixS_129_create :: creator where
  "MixS_129_create = create_component 129 ''MixS'' 3 0"

definition MixS_130_create :: creator where
  "MixS_130_create = create_component 130 ''MixS'' 3 0"

definition MixS_131_create :: creator where
  "MixS_131_create = create_component 131 ''MixS'' 3 0"

definition MixS_132_create :: creator where
  "MixS_132_create = create_component 132 ''MixS'' 3 0"

definition MixS_133_create :: creator where
  "MixS_133_create = create_component 133 ''MixS'' 3 0"

definition Ark_134_create :: creator where
  "Ark_134_create = create_component 134 ''Ark'' 3 0"

definition Ark_135_create :: creator where
  "Ark_135_create = create_component 135 ''Ark'' 3 0"

definition Ark_136_create :: creator where
  "Ark_136_create = create_component 136 ''Ark'' 3 0"

definition MixLast_137_create :: creator where
  "MixLast_137_create = create_component 137 ''MixLast'' 3 0"

definition PoseidonEx_138_create :: creator where
  "PoseidonEx_138_create = create_component 138 ''PoseidonEx'' 3 154"

definition Poseidon_139_create :: creator where
  "Poseidon_139_create = create_component 139 ''Poseidon'' 2 1"

definition MultiMux1_140_create :: creator where
  "MultiMux1_140_create = create_component 140 ''MultiMux1'' 5 0"

definition MerkleProof_141_create :: creator where
  "MerkleProof_141_create = create_component 141 ''MerkleProof'' 41 40"

definition Transaction_142_create :: creator where
  "Transaction_142_create = create_component 142 ''Transaction'' 193 16"

text \<open>All of them, in the order of their numbers.\<close>

definition template_creates :: "creator list" where
  "template_creates =
    [Ark_0_create, Sigma_1_create, Ark_2_create, Mix_3_create, Ark_4_create, Ark_5_create,
     Ark_6_create, Mix_7_create, MixS_8_create, MixS_9_create, MixS_10_create,
     MixS_11_create, MixS_12_create, MixS_13_create, MixS_14_create, MixS_15_create,
     MixS_16_create, MixS_17_create, MixS_18_create, MixS_19_create, MixS_20_create,
     MixS_21_create, MixS_22_create, MixS_23_create, MixS_24_create, MixS_25_create,
     MixS_26_create, MixS_27_create, MixS_28_create, MixS_29_create, MixS_30_create,
     MixS_31_create, MixS_32_create, MixS_33_create, MixS_34_create, MixS_35_create,
     MixS_36_create, MixS_37_create, MixS_38_create, MixS_39_create, MixS_40_create,
     MixS_41_create, MixS_42_create, MixS_43_create, MixS_44_create, MixS_45_create,
     MixS_46_create, MixS_47_create, MixS_48_create, MixS_49_create, MixS_50_create,
     MixS_51_create, MixS_52_create, MixS_53_create, MixS_54_create, MixS_55_create,
     MixS_56_create, MixS_57_create, MixS_58_create, MixS_59_create, MixS_60_create,
     MixS_61_create, MixS_62_create, MixS_63_create, Ark_64_create, Ark_65_create,
     Ark_66_create, MixLast_67_create, PoseidonEx_68_create, Poseidon_69_create,
     Ark_70_create, Ark_71_create, Mix_72_create, Ark_73_create, Ark_74_create,
     Ark_75_create, Mix_76_create, MixS_77_create, MixS_78_create, MixS_79_create,
     MixS_80_create, MixS_81_create, MixS_82_create, MixS_83_create, MixS_84_create,
     MixS_85_create, MixS_86_create, MixS_87_create, MixS_88_create, MixS_89_create,
     MixS_90_create, MixS_91_create, MixS_92_create, MixS_93_create, MixS_94_create,
     MixS_95_create, MixS_96_create, MixS_97_create, MixS_98_create, MixS_99_create,
     MixS_100_create, MixS_101_create, MixS_102_create, MixS_103_create, MixS_104_create,
     MixS_105_create, MixS_106_create, MixS_107_create, MixS_108_create, MixS_109_create,
     MixS_110_create, MixS_111_create, MixS_112_create, MixS_113_create, MixS_114_create,
     MixS_115_create, MixS_116_create, MixS_117_create, MixS_118_create, MixS_119_create,
     MixS_120_create, MixS_121_create, MixS_122_create, MixS_123_create, MixS_124_create,
     MixS_125_create, MixS_126_create, MixS_127_create, MixS_128_create, MixS_129_create,
     MixS_130_create, MixS_131_create, MixS_132_create, MixS_133_create, Ark_134_create,
     Ark_135_create, Ark_136_create, MixLast_137_create, PoseidonEx_138_create,
     Poseidon_139_create, MultiMux1_140_create, MerkleProof_141_create,
     Transaction_142_create]"

definition template_rows :: "(string \<times> u32 \<times> nat) list" where
  "template_rows =
    [(''Ark'', 4, 0), (''Sigma'', 1, 0), (''Ark'', 4, 0), (''Mix'', 4, 0), (''Ark'', 4, 0),
     (''Ark'', 4, 0), (''Ark'', 4, 0), (''Mix'', 4, 0), (''MixS'', 4, 0), (''MixS'', 4, 0),
     (''MixS'', 4, 0), (''MixS'', 4, 0), (''MixS'', 4, 0), (''MixS'', 4, 0), (''MixS'', 4,
     0), (''MixS'', 4, 0), (''MixS'', 4, 0), (''MixS'', 4, 0), (''MixS'', 4, 0), (''MixS'',
     4, 0), (''MixS'', 4, 0), (''MixS'', 4, 0), (''MixS'', 4, 0), (''MixS'', 4, 0),
     (''MixS'', 4, 0), (''MixS'', 4, 0), (''MixS'', 4, 0), (''MixS'', 4, 0), (''MixS'', 4,
     0), (''MixS'', 4, 0), (''MixS'', 4, 0), (''MixS'', 4, 0), (''MixS'', 4, 0), (''MixS'',
     4, 0), (''MixS'', 4, 0), (''MixS'', 4, 0), (''MixS'', 4, 0), (''MixS'', 4, 0),
     (''MixS'', 4, 0), (''MixS'', 4, 0), (''MixS'', 4, 0), (''MixS'', 4, 0), (''MixS'', 4,
     0), (''MixS'', 4, 0), (''MixS'', 4, 0), (''MixS'', 4, 0), (''MixS'', 4, 0), (''MixS'',
     4, 0), (''MixS'', 4, 0), (''MixS'', 4, 0), (''MixS'', 4, 0), (''MixS'', 4, 0),
     (''MixS'', 4, 0), (''MixS'', 4, 0), (''MixS'', 4, 0), (''MixS'', 4, 0), (''MixS'', 4,
     0), (''MixS'', 4, 0), (''MixS'', 4, 0), (''MixS'', 4, 0), (''MixS'', 4, 0), (''MixS'',
     4, 0), (''MixS'', 4, 0), (''MixS'', 4, 0), (''Ark'', 4, 0), (''Ark'', 4, 0), (''Ark'',
     4, 0), (''MixLast'', 4, 0), (''PoseidonEx'', 4, 160), (''Poseidon'', 3, 1), (''Ark'',
     3, 0), (''Ark'', 3, 0), (''Mix'', 3, 0), (''Ark'', 3, 0), (''Ark'', 3, 0), (''Ark'', 3,
     0), (''Mix'', 3, 0), (''MixS'', 3, 0), (''MixS'', 3, 0), (''MixS'', 3, 0), (''MixS'',
     3, 0), (''MixS'', 3, 0), (''MixS'', 3, 0), (''MixS'', 3, 0), (''MixS'', 3, 0),
     (''MixS'', 3, 0), (''MixS'', 3, 0), (''MixS'', 3, 0), (''MixS'', 3, 0), (''MixS'', 3,
     0), (''MixS'', 3, 0), (''MixS'', 3, 0), (''MixS'', 3, 0), (''MixS'', 3, 0), (''MixS'',
     3, 0), (''MixS'', 3, 0), (''MixS'', 3, 0), (''MixS'', 3, 0), (''MixS'', 3, 0),
     (''MixS'', 3, 0), (''MixS'', 3, 0), (''MixS'', 3, 0), (''MixS'', 3, 0), (''MixS'', 3,
     0), (''MixS'', 3, 0), (''MixS'', 3, 0), (''MixS'', 3, 0), (''MixS'', 3, 0), (''MixS'',
     3, 0), (''MixS'', 3, 0), (''MixS'', 3, 0), (''MixS'', 3, 0), (''MixS'', 3, 0),
     (''MixS'', 3, 0), (''MixS'', 3, 0), (''MixS'', 3, 0), (''MixS'', 3, 0), (''MixS'', 3,
     0), (''MixS'', 3, 0), (''MixS'', 3, 0), (''MixS'', 3, 0), (''MixS'', 3, 0), (''MixS'',
     3, 0), (''MixS'', 3, 0), (''MixS'', 3, 0), (''MixS'', 3, 0), (''MixS'', 3, 0),
     (''MixS'', 3, 0), (''MixS'', 3, 0), (''MixS'', 3, 0), (''MixS'', 3, 0), (''MixS'', 3,
     0), (''MixS'', 3, 0), (''MixS'', 3, 0), (''Ark'', 3, 0), (''Ark'', 3, 0), (''Ark'', 3,
     0), (''MixLast'', 3, 0), (''PoseidonEx'', 3, 154), (''Poseidon'', 2, 1),
     (''MultiMux1'', 5, 0), (''MerkleProof'', 41, 40), (''Transaction'', 193, 16)]"

lemmas create_defs =
  Ark_0_create_def Sigma_1_create_def Ark_2_create_def Mix_3_create_def Ark_4_create_def
  Ark_5_create_def Ark_6_create_def Mix_7_create_def MixS_8_create_def MixS_9_create_def
  MixS_10_create_def MixS_11_create_def MixS_12_create_def MixS_13_create_def
  MixS_14_create_def MixS_15_create_def MixS_16_create_def MixS_17_create_def
  MixS_18_create_def MixS_19_create_def MixS_20_create_def MixS_21_create_def
  MixS_22_create_def MixS_23_create_def MixS_24_create_def MixS_25_create_def
  MixS_26_create_def MixS_27_create_def MixS_28_create_def MixS_29_create_def
  MixS_30_create_def MixS_31_create_def MixS_32_create_def MixS_33_create_def
  MixS_34_create_def MixS_35_create_def MixS_36_create_def MixS_37_create_def
  MixS_38_create_def MixS_39_create_def MixS_40_create_def MixS_41_create_def
  MixS_42_create_def MixS_43_create_def MixS_44_create_def MixS_45_create_def
  MixS_46_create_def MixS_47_create_def MixS_48_create_def MixS_49_create_def
  MixS_50_create_def MixS_51_create_def MixS_52_create_def MixS_53_create_def
  MixS_54_create_def MixS_55_create_def MixS_56_create_def MixS_57_create_def
  MixS_58_create_def MixS_59_create_def MixS_60_create_def MixS_61_create_def
  MixS_62_create_def MixS_63_create_def Ark_64_create_def Ark_65_create_def Ark_66_create_def
  MixLast_67_create_def PoseidonEx_68_create_def Poseidon_69_create_def Ark_70_create_def
  Ark_71_create_def Mix_72_create_def Ark_73_create_def Ark_74_create_def Ark_75_create_def
  Mix_76_create_def MixS_77_create_def MixS_78_create_def MixS_79_create_def
  MixS_80_create_def MixS_81_create_def MixS_82_create_def MixS_83_create_def
  MixS_84_create_def MixS_85_create_def MixS_86_create_def MixS_87_create_def
  MixS_88_create_def MixS_89_create_def MixS_90_create_def MixS_91_create_def
  MixS_92_create_def MixS_93_create_def MixS_94_create_def MixS_95_create_def
  MixS_96_create_def MixS_97_create_def MixS_98_create_def MixS_99_create_def
  MixS_100_create_def MixS_101_create_def MixS_102_create_def MixS_103_create_def
  MixS_104_create_def MixS_105_create_def MixS_106_create_def MixS_107_create_def
  MixS_108_create_def MixS_109_create_def MixS_110_create_def MixS_111_create_def
  MixS_112_create_def MixS_113_create_def MixS_114_create_def MixS_115_create_def
  MixS_116_create_def MixS_117_create_def MixS_118_create_def MixS_119_create_def
  MixS_120_create_def MixS_121_create_def MixS_122_create_def MixS_123_create_def
  MixS_124_create_def MixS_125_create_def MixS_126_create_def MixS_127_create_def
  MixS_128_create_def MixS_129_create_def MixS_130_create_def MixS_131_create_def
  MixS_132_create_def MixS_133_create_def Ark_134_create_def Ark_135_create_def
  Ark_136_create_def MixLast_137_create_def PoseidonEx_138_create_def Poseidon_139_create_def
  MultiMux1_140_create_def MerkleProof_141_create_def Transaction_142_create_def

section \<open>What they do\<close>

definition row_create :: "nat \<Rightarrow> string \<times> u32 \<times> nat \<Rightarrow> creator" where
  "row_create i row = (case row of (nm, ninputs, nsub) \<Rightarrow> create_component (of_nat i) nm ninputs nsub)"

lemma template_rows_length: "length template_rows = 143"
  by (simp add: template_rows_def)

lemma template_creates_map: "template_creates = map2 row_create [0..<143] template_rows"
  by (simp add: template_creates_def template_rows_def create_defs row_create_def upt_rec)

lemma template_creates_nth:
  "i < 143 \<Longrightarrow> template_creates ! i = row_create i (template_rows ! i)"
  by (simp add: template_creates_map template_rows_length)

text \<open>A created component is ready to run, and its subcomponent array is released exactly once.\<close>

lemma create_ready:
  assumes "unat coffset < unat get_number_of_components"
  shows "runs (create_component tid tname ninputs nsub soffset coffset nm father) ctx (\<lambda>ctx'.
    component_ready ctx' (unat coffset) (ucast soffset) \<and>
    inputCounter (componentMemory ctx' (unat coffset)) = Some ninputs \<and>
    subcomponents (componentMemory ctx' (unat coffset)) = Live (replicate nsub 0) \<and>
    (\<forall>j. j \<noteq> unat coffset \<longrightarrow> componentMemory ctx' j = componentMemory ctx j) \<and>
    signalValues ctx' = signalValues ctx)"
  using assms by (simp add: create_component_def wp comp_upd_def component_ready_def)

lemma release_once:
  assumes "0 < i" "i < unat get_number_of_components"
    "componentMemory ctx i = c" "subcomponents c = Live xs"
    "subcomponentsParallel c = Null" "outputIsSet c = Null" "mutexes c = Null" "cvs c = Null" "sbct c = Null"
  shows "\<exists>ctx'. release_memory_component i ctx = Inr ctx' \<and>
    subcomponents (componentMemory ctx' i) = Freed \<and>
    release_memory_component i ctx' = Inl DoubleFree"
  using assms by (simp add: release_memory_component_def comp_at_def comp_upd_def delete_ptr_def)


end
