(* ===== verification/Circuit_Leaf.thy ===== *)
theory Circuit_Leaf
  imports Templates Circuit_Create
begin

text \<open>
  The 137 generated \<open>_run\<close> functions of \<open>circuit_cpp/circuit.cpp\<close> for the leaf templates, as
  instances of the bodies of \<open>Templates\<close>, and what they compute. Width 4 is the Poseidon
  permutation with three inputs (numbers 0 to 67), width 3 the one with two (numbers 70 to 137).
\<close>

section \<open>Constant tables\<close>

text \<open>
  The numbers of the circuit constants that the functions load: the mixing matrices \<open>M\<close> and \<open>P\<close>
  and the sparse tables \<open>S\<close>, entry by entry.
\<close>

definition mat_M4 :: "nat list" where
  "mat_M4 = [91, 92, 93, 94, 95, 96, 97, 98, 99, 100, 101, 102, 103, 104, 105, 106]"

definition mat_P4 :: "nat list" where
  "mat_P4 = [91, 110, 111, 112, 95, 113, 114, 115, 99, 116, 117, 118, 103, 119, 120, 121]"

definition mat_M3 :: "nat list" where
  "mat_M3 = [922, 923, 924, 925, 926, 927, 928, 929, 930]"

definition mat_P3 :: "nat list" where
  "mat_P3 = [922, 931, 932, 925, 933, 934, 928, 935, 936]"

definition mixs4_table :: "nat list" where
  "mixs4_table =
     map (\<lambda>i. if i mod 7 = 0 then 91 else if i < 385 then 122 + 6 * (i div 7) + (i mod 7 - 1)
               else if i < 389 then 452 + (i - 386) else 92 + (i - 389)) [0..<392]"

definition mixs3_table :: "nat list" where
  "mixs3_table =
     map (\<lambda>i. if i mod 5 = 0 then 922 else if i < 280 then 937 + 4 * (i div 5) + (i mod 5 - 1)
               else if i < 283 then 1161 + (i - 281) else 923 + (i - 283)) [0..<285]"

section \<open>The run functions\<close>

definition Ark_0_run :: runner where
  "Ark_0_run = run_template 2 91 0 (ark_body 4 89 88 0 88 0)"

definition Sigma_1_run :: runner where
  "Sigma_1_run = run_template 1 0 0 sigma_body"

definition Ark_2_run :: runner where
  "Ark_2_run = run_template 2 91 0 (ark_body 4 89 88 0 89 4)"

definition Mix_3_run :: runner where
  "Mix_3_run = run_template 2 20 0 (mix_body 4 89 mat_M4)"

definition Ark_4_run :: runner where
  "Ark_4_run = run_template 2 91 0 (ark_body 4 89 88 0 107 8)"

definition Ark_5_run :: runner where
  "Ark_5_run = run_template 2 91 0 (ark_body 4 89 88 0 108 12)"

definition Ark_6_run :: runner where
  "Ark_6_run = run_template 2 91 0 (ark_body 4 89 88 0 109 16)"

definition Mix_7_run :: runner where
  "Mix_7_run = run_template 2 20 0 (mix_body 4 89 mat_P4)"

definition MixS_8_run :: runner where
  "MixS_8_run = run_template 5 396 0 (mixs_body 4 89 mixs4_table 392 88 0 89)"

definition MixS_9_run :: runner where
  "MixS_9_run = run_template 5 396 0 (mixs_body 4 89 mixs4_table 392 90 7 456)"

definition MixS_10_run :: runner where
  "MixS_10_run = run_template 5 396 0 (mixs_body 4 89 mixs4_table 392 457 14 459)"

definition MixS_11_run :: runner where
  "MixS_11_run = run_template 5 396 0 (mixs_body 4 89 mixs4_table 392 460 21 462)"

definition MixS_12_run :: runner where
  "MixS_12_run = run_template 5 396 0 (mixs_body 4 89 mixs4_table 392 89 28 464)"

definition MixS_13_run :: runner where
  "MixS_13_run = run_template 5 396 0 (mixs_body 4 89 mixs4_table 392 465 35 467)"

definition MixS_14_run :: runner where
  "MixS_14_run = run_template 5 396 0 (mixs_body 4 89 mixs4_table 392 468 42 470)"

definition MixS_15_run :: runner where
  "MixS_15_run = run_template 5 396 0 (mixs_body 4 89 mixs4_table 392 455 49 472)"

definition MixS_16_run :: runner where
  "MixS_16_run = run_template 5 396 0 (mixs_body 4 89 mixs4_table 392 107 56 474)"

definition MixS_17_run :: runner where
  "MixS_17_run = run_template 5 396 0 (mixs_body 4 89 mixs4_table 392 475 63 477)"

definition MixS_18_run :: runner where
  "MixS_18_run = run_template 5 396 0 (mixs_body 4 89 mixs4_table 392 478 70 480)"

definition MixS_19_run :: runner where
  "MixS_19_run = run_template 5 396 0 (mixs_body 4 89 mixs4_table 392 456 77 482)"

definition MixS_20_run :: runner where
  "MixS_20_run = run_template 5 396 0 (mixs_body 4 89 mixs4_table 392 108 84 484)"

definition MixS_21_run :: runner where
  "MixS_21_run = run_template 5 396 0 (mixs_body 4 89 mixs4_table 392 485 91 487)"

definition MixS_22_run :: runner where
  "MixS_22_run = run_template 5 396 0 (mixs_body 4 89 mixs4_table 392 458 98 489)"

definition MixS_23_run :: runner where
  "MixS_23_run = run_template 5 396 0 (mixs_body 4 89 mixs4_table 392 490 105 492)"

definition MixS_24_run :: runner where
  "MixS_24_run = run_template 5 396 0 (mixs_body 4 89 mixs4_table 392 109 112 494)"

definition MixS_25_run :: runner where
  "MixS_25_run = run_template 5 396 0 (mixs_body 4 89 mixs4_table 392 495 119 497)"

definition MixS_26_run :: runner where
  "MixS_26_run = run_template 5 396 0 (mixs_body 4 89 mixs4_table 392 459 126 499)"

definition MixS_27_run :: runner where
  "MixS_27_run = run_template 5 396 0 (mixs_body 4 89 mixs4_table 392 500 133 502)"

definition MixS_28_run :: runner where
  "MixS_28_run = run_template 5 396 0 (mixs_body 4 89 mixs4_table 392 503 140 505)"

definition MixS_29_run :: runner where
  "MixS_29_run = run_template 5 396 0 (mixs_body 4 89 mixs4_table 392 461 147 507)"

definition MixS_30_run :: runner where
  "MixS_30_run = run_template 5 396 0 (mixs_body 4 89 mixs4_table 392 508 154 510)"

definition MixS_31_run :: runner where
  "MixS_31_run = run_template 5 396 0 (mixs_body 4 89 mixs4_table 392 511 161 513)"

definition MixS_32_run :: runner where
  "MixS_32_run = run_template 5 396 0 (mixs_body 4 89 mixs4_table 392 514 168 516)"

definition MixS_33_run :: runner where
  "MixS_33_run = run_template 5 396 0 (mixs_body 4 89 mixs4_table 392 462 175 518)"

definition MixS_34_run :: runner where
  "MixS_34_run = run_template 5 396 0 (mixs_body 4 89 mixs4_table 392 519 182 521)"

definition MixS_35_run :: runner where
  "MixS_35_run = run_template 5 396 0 (mixs_body 4 89 mixs4_table 392 522 189 524)"

definition MixS_36_run :: runner where
  "MixS_36_run = run_template 5 396 0 (mixs_body 4 89 mixs4_table 392 463 196 526)"

definition MixS_37_run :: runner where
  "MixS_37_run = run_template 5 396 0 (mixs_body 4 89 mixs4_table 392 527 203 529)"

definition MixS_38_run :: runner where
  "MixS_38_run = run_template 5 396 0 (mixs_body 4 89 mixs4_table 392 530 210 532)"

definition MixS_39_run :: runner where
  "MixS_39_run = run_template 5 396 0 (mixs_body 4 89 mixs4_table 392 533 217 535)"

definition MixS_40_run :: runner where
  "MixS_40_run = run_template 5 396 0 (mixs_body 4 89 mixs4_table 392 464 224 537)"

definition MixS_41_run :: runner where
  "MixS_41_run = run_template 5 396 0 (mixs_body 4 89 mixs4_table 392 538 231 540)"

definition MixS_42_run :: runner where
  "MixS_42_run = run_template 5 396 0 (mixs_body 4 89 mixs4_table 392 541 238 543)"

definition MixS_43_run :: runner where
  "MixS_43_run = run_template 5 396 0 (mixs_body 4 89 mixs4_table 392 466 245 545)"

definition MixS_44_run :: runner where
  "MixS_44_run = run_template 5 396 0 (mixs_body 4 89 mixs4_table 392 546 252 548)"

definition MixS_45_run :: runner where
  "MixS_45_run = run_template 5 396 0 (mixs_body 4 89 mixs4_table 392 549 259 551)"

definition MixS_46_run :: runner where
  "MixS_46_run = run_template 5 396 0 (mixs_body 4 89 mixs4_table 392 552 266 554)"

definition MixS_47_run :: runner where
  "MixS_47_run = run_template 5 396 0 (mixs_body 4 89 mixs4_table 392 467 273 556)"

definition MixS_48_run :: runner where
  "MixS_48_run = run_template 5 396 0 (mixs_body 4 89 mixs4_table 392 557 280 559)"

definition MixS_49_run :: runner where
  "MixS_49_run = run_template 5 396 0 (mixs_body 4 89 mixs4_table 392 560 287 562)"

definition MixS_50_run :: runner where
  "MixS_50_run = run_template 5 396 0 (mixs_body 4 89 mixs4_table 392 469 294 564)"

definition MixS_51_run :: runner where
  "MixS_51_run = run_template 5 396 0 (mixs_body 4 89 mixs4_table 392 565 301 567)"

definition MixS_52_run :: runner where
  "MixS_52_run = run_template 5 396 0 (mixs_body 4 89 mixs4_table 392 568 308 570)"

definition MixS_53_run :: runner where
  "MixS_53_run = run_template 5 396 0 (mixs_body 4 89 mixs4_table 392 571 315 573)"

definition MixS_54_run :: runner where
  "MixS_54_run = run_template 5 396 0 (mixs_body 4 89 mixs4_table 392 470 322 575)"

definition MixS_55_run :: runner where
  "MixS_55_run = run_template 5 396 0 (mixs_body 4 89 mixs4_table 392 576 329 578)"

definition MixS_56_run :: runner where
  "MixS_56_run = run_template 5 396 0 (mixs_body 4 89 mixs4_table 392 579 336 581)"

definition MixS_57_run :: runner where
  "MixS_57_run = run_template 5 396 0 (mixs_body 4 89 mixs4_table 392 471 343 583)"

definition MixS_58_run :: runner where
  "MixS_58_run = run_template 5 396 0 (mixs_body 4 89 mixs4_table 392 584 350 586)"

definition MixS_59_run :: runner where
  "MixS_59_run = run_template 5 396 0 (mixs_body 4 89 mixs4_table 392 587 357 589)"

definition MixS_60_run :: runner where
  "MixS_60_run = run_template 5 396 0 (mixs_body 4 89 mixs4_table 392 590 364 592)"

definition MixS_61_run :: runner where
  "MixS_61_run = run_template 5 396 0 (mixs_body 4 89 mixs4_table 392 472 371 594)"

definition MixS_62_run :: runner where
  "MixS_62_run = run_template 5 396 0 (mixs_body 4 89 mixs4_table 392 595 378 597)"

definition MixS_63_run :: runner where
  "MixS_63_run = run_template 5 396 0 (mixs_body 4 89 mixs4_table 392 598 385 600)"

definition Ark_64_run :: runner where
  "Ark_64_run = run_template 2 91 0 (ark_body 4 89 88 0 601 76)"

definition Ark_65_run :: runner where
  "Ark_65_run = run_template 2 91 0 (ark_body 4 89 88 0 602 80)"

definition Ark_66_run :: runner where
  "Ark_66_run = run_template 2 91 0 (ark_body 4 89 88 0 483 84)"

definition MixLast_67_run :: runner where
  "MixLast_67_run = run_template 2 20 0 (mixlast_body 4 89 mat_M4)"

definition Ark_70_run :: runner where
  "Ark_70_run = run_template 2 84 0 (ark_body 3 460 81 841 88 0)"

definition Ark_71_run :: runner where
  "Ark_71_run = run_template 2 84 0 (ark_body 3 460 81 841 460 3)"

definition Mix_72_run :: runner where
  "Mix_72_run = run_template 2 13 0 (mix_body 3 460 mat_M3)"

definition Ark_73_run :: runner where
  "Ark_73_run = run_template 2 84 0 (ark_body 3 460 81 841 468 6)"

definition Ark_74_run :: runner where
  "Ark_74_run = run_template 2 84 0 (ark_body 3 460 81 841 475 9)"

definition Ark_75_run :: runner where
  "Ark_75_run = run_template 2 84 0 (ark_body 3 460 81 841 108 12)"

definition Mix_76_run :: runner where
  "Mix_76_run = run_template 2 13 0 (mix_body 3 460 mat_P3)"

definition MixS_77_run :: runner where
  "MixS_77_run = run_template 5 289 0 (mixs_body 3 460 mixs3_table 285 88 0 460)"

definition MixS_78_run :: runner where
  "MixS_78_run = run_template 5 289 0 (mixs_body 3 460 mixs3_table 285 90 5 107)"

definition MixS_79_run :: runner where
  "MixS_79_run = run_template 5 289 0 (mixs_body 3 460 mixs3_table 285 457 10 485)"

definition MixS_80_run :: runner where
  "MixS_80_run = run_template 5 289 0 (mixs_body 3 460 mixs3_table 285 460 15 459)"

definition MixS_81_run :: runner where
  "MixS_81_run = run_template 5 289 0 (mixs_body 3 460 mixs3_table 285 89 20 511)"

definition MixS_82_run :: runner where
  "MixS_82_run = run_template 5 289 0 (mixs_body 3 460 mixs3_table 285 465 25 463)"

definition MixS_83_run :: runner where
  "MixS_83_run = run_template 5 289 0 (mixs_body 3 460 mixs3_table 285 468 30 538)"

definition MixS_84_run :: runner where
  "MixS_84_run = run_template 5 289 0 (mixs_body 3 460 mixs3_table 285 455 35 552)"

definition MixS_85_run :: runner where
  "MixS_85_run = run_template 5 289 0 (mixs_body 3 460 mixs3_table 285 107 40 565)"

definition MixS_86_run :: runner where
  "MixS_86_run = run_template 5 289 0 (mixs_body 3 460 mixs3_table 285 475 45 579)"

definition MixS_87_run :: runner where
  "MixS_87_run = run_template 5 289 0 (mixs_body 3 460 mixs3_table 285 478 50 472)"

definition MixS_88_run :: runner where
  "MixS_88_run = run_template 5 289 0 (mixs_body 3 460 mixs3_table 285 456 55 608)"

definition MixS_89_run :: runner where
  "MixS_89_run = run_template 5 289 0 (mixs_body 3 460 mixs3_table 285 108 60 476)"

definition MixS_90_run :: runner where
  "MixS_90_run = run_template 5 289 0 (mixs_body 3 460 mixs3_table 285 485 65 607)"

definition MixS_91_run :: runner where
  "MixS_91_run = run_template 5 289 0 (mixs_body 3 460 mixs3_table 285 458 70 615)"

definition MixS_92_run :: runner where
  "MixS_92_run = run_template 5 289 0 (mixs_body 3 460 mixs3_table 285 490 75 617)"

definition MixS_93_run :: runner where
  "MixS_93_run = run_template 5 289 0 (mixs_body 3 460 mixs3_table 285 109 80 620)"

definition MixS_94_run :: runner where
  "MixS_94_run = run_template 5 289 0 (mixs_body 3 460 mixs3_table 285 495 85 484)"

definition MixS_95_run :: runner where
  "MixS_95_run = run_template 5 289 0 (mixs_body 3 460 mixs3_table 285 459 90 627)"

definition MixS_96_run :: runner where
  "MixS_96_run = run_template 5 289 0 (mixs_body 3 460 mixs3_table 285 500 95 488)"

definition MixS_97_run :: runner where
  "MixS_97_run = run_template 5 289 0 (mixs_body 3 460 mixs3_table 285 503 100 634)"

definition MixS_98_run :: runner where
  "MixS_98_run = run_template 5 289 0 (mixs_body 3 460 mixs3_table 285 461 105 638)"

definition MixS_99_run :: runner where
  "MixS_99_run = run_template 5 289 0 (mixs_body 3 460 mixs3_table 285 508 110 641)"

definition MixS_100_run :: runner where
  "MixS_100_run = run_template 5 289 0 (mixs_body 3 460 mixs3_table 285 511 115 645)"

definition MixS_101_run :: runner where
  "MixS_101_run = run_template 5 289 0 (mixs_body 3 460 mixs3_table 285 514 120 497)"

definition MixS_102_run :: runner where
  "MixS_102_run = run_template 5 289 0 (mixs_body 3 460 mixs3_table 285 462 125 652)"

definition MixS_103_run :: runner where
  "MixS_103_run = run_template 5 289 0 (mixs_body 3 460 mixs3_table 285 519 130 501)"

definition MixS_104_run :: runner where
  "MixS_104_run = run_template 5 289 0 (mixs_body 3 460 mixs3_table 285 522 135 659)"

definition MixS_105_run :: runner where
  "MixS_105_run = run_template 5 289 0 (mixs_body 3 460 mixs3_table 285 463 140 663)"

definition MixS_106_run :: runner where
  "MixS_106_run = run_template 5 289 0 (mixs_body 3 460 mixs3_table 285 527 145 666)"

definition MixS_107_run :: runner where
  "MixS_107_run = run_template 5 289 0 (mixs_body 3 460 mixs3_table 285 530 150 670)"

definition MixS_108_run :: runner where
  "MixS_108_run = run_template 5 289 0 (mixs_body 3 460 mixs3_table 285 533 155 510)"

definition MixS_109_run :: runner where
  "MixS_109_run = run_template 5 289 0 (mixs_body 3 460 mixs3_table 285 464 160 677)"

definition MixS_110_run :: runner where
  "MixS_110_run = run_template 5 289 0 (mixs_body 3 460 mixs3_table 285 538 165 515)"

definition MixS_111_run :: runner where
  "MixS_111_run = run_template 5 289 0 (mixs_body 3 460 mixs3_table 285 541 170 684)"

definition MixS_112_run :: runner where
  "MixS_112_run = run_template 5 289 0 (mixs_body 3 460 mixs3_table 285 466 175 688)"

definition MixS_113_run :: runner where
  "MixS_113_run = run_template 5 289 0 (mixs_body 3 460 mixs3_table 285 546 180 691)"

definition MixS_114_run :: runner where
  "MixS_114_run = run_template 5 289 0 (mixs_body 3 460 mixs3_table 285 549 185 695)"

definition MixS_115_run :: runner where
  "MixS_115_run = run_template 5 289 0 (mixs_body 3 460 mixs3_table 285 552 190 524)"

definition MixS_116_run :: runner where
  "MixS_116_run = run_template 5 289 0 (mixs_body 3 460 mixs3_table 285 467 195 702)"

definition MixS_117_run :: runner where
  "MixS_117_run = run_template 5 289 0 (mixs_body 3 460 mixs3_table 285 557 200 528)"

definition MixS_118_run :: runner where
  "MixS_118_run = run_template 5 289 0 (mixs_body 3 460 mixs3_table 285 560 205 709)"

definition MixS_119_run :: runner where
  "MixS_119_run = run_template 5 289 0 (mixs_body 3 460 mixs3_table 285 469 210 713)"

definition MixS_120_run :: runner where
  "MixS_120_run = run_template 5 289 0 (mixs_body 3 460 mixs3_table 285 565 215 716)"

definition MixS_121_run :: runner where
  "MixS_121_run = run_template 5 289 0 (mixs_body 3 460 mixs3_table 285 568 220 720)"

definition MixS_122_run :: runner where
  "MixS_122_run = run_template 5 289 0 (mixs_body 3 460 mixs3_table 285 571 225 537)"

definition MixS_123_run :: runner where
  "MixS_123_run = run_template 5 289 0 (mixs_body 3 460 mixs3_table 285 470 230 727)"

definition MixS_124_run :: runner where
  "MixS_124_run = run_template 5 289 0 (mixs_body 3 460 mixs3_table 285 576 235 542)"

definition MixS_125_run :: runner where
  "MixS_125_run = run_template 5 289 0 (mixs_body 3 460 mixs3_table 285 579 240 734)"

definition MixS_126_run :: runner where
  "MixS_126_run = run_template 5 289 0 (mixs_body 3 460 mixs3_table 285 471 245 738)"

definition MixS_127_run :: runner where
  "MixS_127_run = run_template 5 289 0 (mixs_body 3 460 mixs3_table 285 584 250 741)"

definition MixS_128_run :: runner where
  "MixS_128_run = run_template 5 289 0 (mixs_body 3 460 mixs3_table 285 587 255 745)"

definition MixS_129_run :: runner where
  "MixS_129_run = run_template 5 289 0 (mixs_body 3 460 mixs3_table 285 590 260 551)"

definition MixS_130_run :: runner where
  "MixS_130_run = run_template 5 289 0 (mixs_body 3 460 mixs3_table 285 472 265 752)"

definition MixS_131_run :: runner where
  "MixS_131_run = run_template 5 289 0 (mixs_body 3 460 mixs3_table 285 595 270 555)"

definition MixS_132_run :: runner where
  "MixS_132_run = run_template 5 289 0 (mixs_body 3 460 mixs3_table 285 598 275 759)"

definition MixS_133_run :: runner where
  "MixS_133_run = run_template 5 289 0 (mixs_body 3 460 mixs3_table 285 473 280 763)"

definition Ark_134_run :: runner where
  "Ark_134_run = run_template 2 84 0 (ark_body 3 460 81 841 614 72)"

definition Ark_135_run :: runner where
  "Ark_135_run = run_template 2 84 0 (ark_body 3 460 81 841 616 75)"

definition Ark_136_run :: runner where
  "Ark_136_run = run_template 2 84 0 (ark_body 3 460 81 841 617 78)"

definition MixLast_137_run :: runner where
  "MixLast_137_run = run_template 2 13 0 (mixlast_body 3 460 mat_M3)"

definition MultiMux1_140_run :: runner where
  "MultiMux1_140_run = run_template 3 2 0 multimux_body"

section \<open>Families\<close>

definition ark4_runs :: "runner list" where
  "ark4_runs =
    [Ark_0_run, Ark_2_run, Ark_4_run, Ark_5_run, Ark_6_run, Ark_64_run, Ark_65_run,
     Ark_66_run]"

definition ark3_runs :: "runner list" where
  "ark3_runs =
    [Ark_70_run, Ark_71_run, Ark_73_run, Ark_74_run, Ark_75_run, Ark_134_run, Ark_135_run,
     Ark_136_run]"

definition mixs4_runs :: "runner list" where
  "mixs4_runs =
    [MixS_8_run, MixS_9_run, MixS_10_run, MixS_11_run, MixS_12_run, MixS_13_run,
     MixS_14_run, MixS_15_run, MixS_16_run, MixS_17_run, MixS_18_run, MixS_19_run,
     MixS_20_run, MixS_21_run, MixS_22_run, MixS_23_run, MixS_24_run, MixS_25_run,
     MixS_26_run, MixS_27_run, MixS_28_run, MixS_29_run, MixS_30_run, MixS_31_run,
     MixS_32_run, MixS_33_run, MixS_34_run, MixS_35_run, MixS_36_run, MixS_37_run,
     MixS_38_run, MixS_39_run, MixS_40_run, MixS_41_run, MixS_42_run, MixS_43_run,
     MixS_44_run, MixS_45_run, MixS_46_run, MixS_47_run, MixS_48_run, MixS_49_run,
     MixS_50_run, MixS_51_run, MixS_52_run, MixS_53_run, MixS_54_run, MixS_55_run,
     MixS_56_run, MixS_57_run, MixS_58_run, MixS_59_run, MixS_60_run, MixS_61_run,
     MixS_62_run, MixS_63_run]"

definition mixs3_runs :: "runner list" where
  "mixs3_runs =
    [MixS_77_run, MixS_78_run, MixS_79_run, MixS_80_run, MixS_81_run, MixS_82_run,
     MixS_83_run, MixS_84_run, MixS_85_run, MixS_86_run, MixS_87_run, MixS_88_run,
     MixS_89_run, MixS_90_run, MixS_91_run, MixS_92_run, MixS_93_run, MixS_94_run,
     MixS_95_run, MixS_96_run, MixS_97_run, MixS_98_run, MixS_99_run, MixS_100_run,
     MixS_101_run, MixS_102_run, MixS_103_run, MixS_104_run, MixS_105_run, MixS_106_run,
     MixS_107_run, MixS_108_run, MixS_109_run, MixS_110_run, MixS_111_run, MixS_112_run,
     MixS_113_run, MixS_114_run, MixS_115_run, MixS_116_run, MixS_117_run, MixS_118_run,
     MixS_119_run, MixS_120_run, MixS_121_run, MixS_122_run, MixS_123_run, MixS_124_run,
     MixS_125_run, MixS_126_run, MixS_127_run, MixS_128_run, MixS_129_run, MixS_130_run,
     MixS_131_run, MixS_132_run, MixS_133_run]"

definition ark4_rc :: "nat list" where
  "ark4_rc = [88, 89, 107, 108, 109, 601, 602, 483]"

definition ark3_rc :: "nat list" where
  "ark3_rc = [88, 460, 468, 475, 108, 614, 616, 617]"

definition mixs4_rc :: "nat list" where
  "mixs4_rc =
    [88, 90, 457, 460, 89, 465, 468, 455, 107, 475, 478, 456, 108, 485, 458, 490, 109, 495,
     459, 500, 503, 461, 508, 511, 514, 462, 519, 522, 463, 527, 530, 533, 464, 538, 541,
     466, 546, 549, 552, 467, 557, 560, 469, 565, 568, 571, 470, 576, 579, 471, 584, 587,
     590, 472, 595, 598]"

definition mixs4_oc :: "nat list" where
  "mixs4_oc =
    [89, 456, 459, 462, 464, 467, 470, 472, 474, 477, 480, 482, 484, 487, 489, 492, 494,
     497, 499, 502, 505, 507, 510, 513, 516, 518, 521, 524, 526, 529, 532, 535, 537, 540,
     543, 545, 548, 551, 554, 556, 559, 562, 564, 567, 570, 573, 575, 578, 581, 583, 586,
     589, 592, 594, 597, 600]"

definition mixs3_rc :: "nat list" where
  "mixs3_rc =
    [88, 90, 457, 460, 89, 465, 468, 455, 107, 475, 478, 456, 108, 485, 458, 490, 109, 495,
     459, 500, 503, 461, 508, 511, 514, 462, 519, 522, 463, 527, 530, 533, 464, 538, 541,
     466, 546, 549, 552, 467, 557, 560, 469, 565, 568, 571, 470, 576, 579, 471, 584, 587,
     590, 472, 595, 598, 473]"

definition mixs3_oc :: "nat list" where
  "mixs3_oc =
    [460, 107, 485, 459, 511, 463, 538, 552, 565, 579, 472, 608, 476, 607, 615, 617, 620,
     484, 627, 488, 634, 638, 641, 645, 497, 652, 501, 659, 663, 666, 670, 510, 677, 515,
     684, 688, 691, 695, 524, 702, 528, 709, 713, 716, 720, 537, 727, 542, 734, 738, 741,
     745, 551, 752, 555, 759, 763]"

lemmas ark4_defs =
  Ark_0_run_def Ark_2_run_def Ark_4_run_def Ark_5_run_def Ark_6_run_def Ark_64_run_def
  Ark_65_run_def Ark_66_run_def

lemmas ark3_defs =
  Ark_70_run_def Ark_71_run_def Ark_73_run_def Ark_74_run_def Ark_75_run_def Ark_134_run_def
  Ark_135_run_def Ark_136_run_def

lemmas mixs4_defs =
  MixS_8_run_def MixS_9_run_def MixS_10_run_def MixS_11_run_def MixS_12_run_def
  MixS_13_run_def MixS_14_run_def MixS_15_run_def MixS_16_run_def MixS_17_run_def
  MixS_18_run_def MixS_19_run_def MixS_20_run_def MixS_21_run_def MixS_22_run_def
  MixS_23_run_def MixS_24_run_def MixS_25_run_def MixS_26_run_def MixS_27_run_def
  MixS_28_run_def MixS_29_run_def MixS_30_run_def MixS_31_run_def MixS_32_run_def
  MixS_33_run_def MixS_34_run_def MixS_35_run_def MixS_36_run_def MixS_37_run_def
  MixS_38_run_def MixS_39_run_def MixS_40_run_def MixS_41_run_def MixS_42_run_def
  MixS_43_run_def MixS_44_run_def MixS_45_run_def MixS_46_run_def MixS_47_run_def
  MixS_48_run_def MixS_49_run_def MixS_50_run_def MixS_51_run_def MixS_52_run_def
  MixS_53_run_def MixS_54_run_def MixS_55_run_def MixS_56_run_def MixS_57_run_def
  MixS_58_run_def MixS_59_run_def MixS_60_run_def MixS_61_run_def MixS_62_run_def
  MixS_63_run_def

lemmas mixs3_defs =
  MixS_77_run_def MixS_78_run_def MixS_79_run_def MixS_80_run_def MixS_81_run_def
  MixS_82_run_def MixS_83_run_def MixS_84_run_def MixS_85_run_def MixS_86_run_def
  MixS_87_run_def MixS_88_run_def MixS_89_run_def MixS_90_run_def MixS_91_run_def
  MixS_92_run_def MixS_93_run_def MixS_94_run_def MixS_95_run_def MixS_96_run_def
  MixS_97_run_def MixS_98_run_def MixS_99_run_def MixS_100_run_def MixS_101_run_def
  MixS_102_run_def MixS_103_run_def MixS_104_run_def MixS_105_run_def MixS_106_run_def
  MixS_107_run_def MixS_108_run_def MixS_109_run_def MixS_110_run_def MixS_111_run_def
  MixS_112_run_def MixS_113_run_def MixS_114_run_def MixS_115_run_def MixS_116_run_def
  MixS_117_run_def MixS_118_run_def MixS_119_run_def MixS_120_run_def MixS_121_run_def
  MixS_122_run_def MixS_123_run_def MixS_124_run_def MixS_125_run_def MixS_126_run_def
  MixS_127_run_def MixS_128_run_def MixS_129_run_def MixS_130_run_def MixS_131_run_def
  MixS_132_run_def MixS_133_run_def

section \<open>The constants of the circuit\<close>

text \<open>
  The small constants that the functions use as widths, counters and offsets, with the values
  they have in \<open>circuit.dat\<close>.
\<close>

definition small_constants :: "(nat \<times> int) list" where
  "small_constants =
     [(88, 0), (89, 4), (90, 1), (457, 2), (460, 3)] @
     zip mixs4_oc (map (\<lambda>r. int (7 * r + 4)) [0..<56]) @ zip mixs3_oc (map (\<lambda>r. int (5 * r + 3)) [0..<57])"

definition circuit_consts_ok :: "Circom_CalcWit \<Rightarrow> bool" where
  "circuit_consts_ok ctx \<longleftrightarrow>
     length (circuitConstants (circuit ctx)) = unat get_size_of_constants \<and>
     (\<forall>c \<in> set (circuitConstants (circuit ctx)). fok c) \<and>
     (\<forall>(i, v) \<in> set small_constants. small (circuitConstants (circuit ctx) ! i) v)"

lemma consts_length: "circuit_consts_ok ctx \<Longrightarrow> length (circuitConstants (circuit ctx)) = 25024"
  by (simp add: circuit_consts_ok_def circuit_sizes)

lemma consts_width:
  assumes "circuit_consts_ok ctx"
  shows "width_consts ctx 89 4" "width_consts ctx 460 3" "width_consts ctx 457 2"
proof -
  have "small (circuitConstants (circuit ctx) ! i) v"
    if "(i, v) \<in> set [(88, 0), (89, 4), (90, 1), (457, 2), (460, 3)]" for i v
    using assms that unfolding circuit_consts_ok_def small_constants_def set_append by blast
  then have "small (circuitConstants (circuit ctx) ! 88) 0" "small (circuitConstants (circuit ctx) ! 89) 4"
    "small (circuitConstants (circuit ctx) ! 90) 1" "small (circuitConstants (circuit ctx) ! 457) 2"
    "small (circuitConstants (circuit ctx) ! 460) 3"
    by simp_all
  moreover have "\<forall>c \<in> set (circuitConstants (circuit ctx)). fok c"
    using assms by (simp add: circuit_consts_ok_def)
  ultimately show "width_consts ctx 89 4" "width_consts ctx 460 3" "width_consts ctx 457 2"
    using consts_length [OF assms] by (simp_all add: width_consts_def)
qed

lemma oc_lengths:
  "length mixs4_oc = 56" "length mixs3_oc = 57" "length mixs4_rc = 56" "length mixs3_rc = 57"
  "length ark4_rc = 8" "length ark3_rc = 8"
  by (simp_all add: mixs4_oc_def mixs3_oc_def mixs4_rc_def mixs3_rc_def ark4_rc_def ark3_rc_def)

lemma zip_row_mem: "r < n \<Longrightarrow> length xs = n \<Longrightarrow> (xs ! r, f r) \<in> set (zip xs (map f [0..<n]))"
  by (auto simp: in_set_zip intro!: exI [of _ r])

lemma oc_small:
  assumes "circuit_consts_ok ctx"
  shows "r < 56 \<Longrightarrow> small (circuitConstants (circuit ctx) ! (mixs4_oc ! r)) (int (7 * r + 4))"
    and "r < 57 \<Longrightarrow> small (circuitConstants (circuit ctx) ! (mixs3_oc ! r)) (int (5 * r + 3))"
proof -
  have s: "small (circuitConstants (circuit ctx) ! i) v" if "(i, v) \<in> set small_constants" for i v
    using assms that by (auto simp: circuit_consts_ok_def)
  show "small (circuitConstants (circuit ctx) ! (mixs4_oc ! r)) (int (7 * r + 4))" if "r < 56"
    using zip_row_mem [OF that oc_lengths(1), of "\<lambda>r. int (7 * r + 4)"]
    by (intro s) (simp only: small_constants_def set_append Un_iff simp_thms)
  show "small (circuitConstants (circuit ctx) ! (mixs3_oc ! r)) (int (5 * r + 3))" if "r < 57"
    using zip_row_mem [OF that oc_lengths(2), of "\<lambda>r. int (5 * r + 3)"]
    by (intro s) (simp only: small_constants_def set_append Un_iff simp_thms)
qed

lemma table_bounds:
  "list_all (\<lambda>m. m < 25024) mixs4_rc" "list_all (\<lambda>m. m < 25024) mixs4_oc"
  "list_all (\<lambda>m. m < 25024) mixs3_rc" "list_all (\<lambda>m. m < 25024) mixs3_oc"
  "list_all (\<lambda>m. m < 25024) ark4_rc" "list_all (\<lambda>m. m < 25024) ark3_rc"
  "list_all (\<lambda>m. m < 25024) mat_M4" "list_all (\<lambda>m. m < 25024) mat_P4"
  "list_all (\<lambda>m. m < 25024) mat_M3" "list_all (\<lambda>m. m < 25024) mat_P3"
  by (simp_all add: mixs4_rc_def mixs4_oc_def mixs3_rc_def mixs3_oc_def ark4_rc_def ark3_rc_def
      mat_M4_def mat_P4_def mat_M3_def mat_P3_def)

lemma div_bound: "i < 392 \<Longrightarrow> i div 7 < 56" "i < 285 \<Longrightarrow> i div 5 < 57" for i :: nat
  by (simp_all add: less_mult_imp_div_less)

lemma mixs_table_bounds:
  "list_all (\<lambda>m. m < 25024) mixs4_table" "list_all (\<lambda>m. m < 25024) mixs3_table"
proof -
  have "122 + 6 * (i div 7) + (i mod 7 - 1) < 25024 \<and> 937 + 4 * (j div 5) + (j mod 5 - 1) < 25024"
    if "i < 392" "j < 285" for i j :: nat
    using div_bound(1) [OF that(1)] div_bound(2) [OF that(2)] mod_less_divisor [of 7 i] mod_less_divisor [of 5 j]
    by linarith
  then show "list_all (\<lambda>m. m < 25024) mixs4_table" "list_all (\<lambda>m. m < 25024) mixs3_table"
    by (auto simp: mixs4_table_def mixs3_table_def list_all_iff)
qed

lemma bound_mem: "list_all (\<lambda>m. m < b) xs \<Longrightarrow> m \<in> set xs \<Longrightarrow> m < b" for b :: nat
  by (simp add: list_all_iff)

lemma bound_nth: "list_all (\<lambda>m. m < b) xs \<Longrightarrow> length xs = n \<Longrightarrow> r < n \<Longrightarrow> xs ! r < b" for b :: nat
  by (simp add: list_all_length)

lemmas rc_bound =
  table_bounds(1) [THEN bound_nth, OF oc_lengths(3)] table_bounds(2) [THEN bound_nth, OF oc_lengths(1)]
  table_bounds(3) [THEN bound_nth, OF oc_lengths(4)] table_bounds(4) [THEN bound_nth, OF oc_lengths(2)]
  table_bounds(5) [THEN bound_nth, OF oc_lengths(5)] table_bounds(6) [THEN bound_nth, OF oc_lengths(6)]

lemmas table_bound = mixs_table_bounds [THEN bound_mem] table_bounds(7-10) [THEN bound_mem]

section \<open>What the functions compute\<close>

definition ark4_off :: "nat list" where
  "ark4_off = [0, 4, 8, 12, 16, 76, 80, 84]"

definition ark3_off :: "nat list" where
  "ark3_off = [0, 3, 6, 9, 12, 72, 75, 78]"

lemma ark4_runs_map:
  "ark4_runs = map2 (\<lambda>rc off. run_template 2 91 0 (ark_body 4 89 88 0 rc off)) ark4_rc ark4_off"
  by (simp add: ark4_runs_def ark4_rc_def ark4_off_def ark4_defs)

lemma ark3_runs_map:
  "ark3_runs = map2 (\<lambda>rc off. run_template 2 84 0 (ark_body 3 460 81 841 rc off)) ark3_rc ark3_off"
  by (simp add: ark3_runs_def ark3_rc_def ark3_off_def ark3_defs)

lemma mixs4_runs_map:
  "mixs4_runs = map2 (\<lambda>(rc, oc) r. run_template 5 396 0 (mixs_body 4 89 mixs4_table 392 rc (7 * r) oc))
     (zip mixs4_rc mixs4_oc) [0..<56]"
  by (simp add: mixs4_runs_def mixs4_rc_def mixs4_oc_def mixs4_defs upt_rec)

lemma mixs3_runs_map:
  "mixs3_runs = map2 (\<lambda>(rc, oc) r. run_template 5 289 0 (mixs_body 3 460 mixs3_table 285 rc (5 * r) oc))
     (zip mixs3_rc mixs3_oc) [0..<57]"
  by (simp add: mixs3_runs_def mixs3_rc_def mixs3_oc_def mixs3_defs upt_rec)

lemma table_lengths:
  "length mixs4_table = 392" "length mixs3_table = 285"
  "length mat_M4 = 16" "length mat_P4 = 16" "length mat_M3 = 9" "length mat_P3 = 9"
  "length ark4_off = 8" "length ark3_off = 8"
  by (simp_all add: mixs4_table_def mixs3_table_def mat_M4_def mat_P4_def mat_M3_def mat_P3_def
      ark4_off_def ark3_off_def)

lemma off_bounds: "r < 8 \<Longrightarrow> ark4_off ! r \<le> 84" "r < 8 \<Longrightarrow> ark3_off ! r \<le> 78"
proof -
  have "list_all (\<lambda>m. m < 85) ark4_off" "list_all (\<lambda>m. m < 79) ark3_off"
    by (simp_all add: ark4_off_def ark3_off_def)
  from this [THEN bound_nth] show "r < 8 \<Longrightarrow> ark4_off ! r \<le> 84" "r < 8 \<Longrightarrow> ark3_off ! r \<le> 78"
    using table_lengths by fastforce+
qed

lemma ark4_correct:
  assumes "r < 8" "circuit_consts_ok ctx" "component_ready ctx idx start"
    "unat start + 8 \<le> unat get_total_signal_no" "carries ctx (unat start + 4) 4 x"
  shows "runs ((ark4_runs ! r) idx) ctx (\<lambda>ctx'.
    carries ctx' (unat start) 4 (\<lambda>i. (x i + cst ctx (ark4_off ! r + i)) mod q_int) \<and>
    only_signals ctx ctx' (unat start) 4)"
proof -
  have "ark4_runs ! r = run_template 2 (88 + 3) 0 (ark_body 4 89 88 0 (ark4_rc ! r) (ark4_off ! r))"
    using assms(1) by (simp add: ark4_runs_map table_lengths oc_lengths)
  then show ?thesis
    using ark_run [OF consts_width(1) [OF assms(2)], of "ark4_rc ! r" 0 88 "ark4_off ! r" idx start x]
      assms rc_bound(5) [of r] off_bounds(1) [of r] consts_length [OF assms(2)] by simp
qed

lemma ark3_correct:
  assumes "r < 8" "circuit_consts_ok ctx" "component_ready ctx idx start"
    "unat start + 6 \<le> unat get_total_signal_no" "carries ctx (unat start + 3) 3 x"
  shows "runs ((ark3_runs ! r) idx) ctx (\<lambda>ctx'.
    carries ctx' (unat start) 3 (\<lambda>i. (x i + cst ctx (841 + (ark3_off ! r + i))) mod q_int) \<and>
    only_signals ctx ctx' (unat start) 3)"
proof -
  have "ark3_runs ! r = run_template 2 (81 + 3) 0 (ark_body 3 460 81 841 (ark3_rc ! r) (ark3_off ! r))"
    using assms(1) by (simp add: ark3_runs_map table_lengths oc_lengths)
  then show ?thesis
    using ark_run [OF consts_width(2) [OF assms(2)], of "ark3_rc ! r" 841 81 "ark3_off ! r" idx start x]
      assms rc_bound(6) [of r] off_bounds(2) [of r] consts_length [OF assms(2)] by simp
qed

lemma mix4_correct:
  assumes "circuit_consts_ok ctx" "component_ready ctx idx start"
    "unat start + 8 \<le> unat get_total_signal_no" "carries ctx (unat start + 4) 4 x"
    "(f, ms) = (Mix_3_run, mat_M4) \<or> (f, ms) = (Mix_7_run, mat_P4)"
  shows "runs (f idx) ctx (\<lambda>ctx'.
    carries ctx' (unat start) 4 (\<lambda>i. (\<Sum>j<4. cst ctx (ms ! (4 * j + i)) * x j) mod q_int) \<and>
    only_signals ctx ctx' (unat start) 4)"
proof -
  have "f = run_template 2 (4 * 4 + 4) 0 (mix_body 4 89 ms)" "length ms = 4 * 4"
    "\<forall>m \<in> set ms. m < length (circuitConstants (circuit ctx))"
    using assms(5) table_bound consts_length [OF assms(1)]
    by (auto simp: Mix_3_run_def Mix_7_run_def table_lengths)
  then show ?thesis
    using mix_run [OF consts_width(1) [OF assms(1)], of ms idx start x] assms(2-4) by simp
qed

lemma mix3_correct:
  assumes "circuit_consts_ok ctx" "component_ready ctx idx start"
    "unat start + 6 \<le> unat get_total_signal_no" "carries ctx (unat start + 3) 3 x"
    "(f, ms) = (Mix_72_run, mat_M3) \<or> (f, ms) = (Mix_76_run, mat_P3)"
  shows "runs (f idx) ctx (\<lambda>ctx'.
    carries ctx' (unat start) 3 (\<lambda>i. (\<Sum>j<3. cst ctx (ms ! (3 * j + i)) * x j) mod q_int) \<and>
    only_signals ctx ctx' (unat start) 3)"
proof -
  have "f = run_template 2 (3 * 3 + 4) 0 (mix_body 3 460 ms)" "length ms = 3 * 3"
    "\<forall>m \<in> set ms. m < length (circuitConstants (circuit ctx))"
    using assms(5) table_bound consts_length [OF assms(1)]
    by (auto simp: Mix_72_run_def Mix_76_run_def table_lengths)
  then show ?thesis
    using mix_run [OF consts_width(2) [OF assms(1)], of ms idx start x] assms(2-4) by simp
qed

lemma mixs4_correct:
  assumes "r < 56" "circuit_consts_ok ctx" "component_ready ctx idx start"
    "unat start + 8 \<le> unat get_total_signal_no" "carries ctx (unat start + 4) 4 x"
  shows "runs ((mixs4_runs ! r) idx) ctx (\<lambda>ctx'.
    carries ctx' (unat start) 4 (sparse_round (\<lambda>i. cst ctx (mixs4_table ! i)) 4 (7 * r) x) \<and>
    only_signals ctx ctx' (unat start) 4)"
proof -
  have f: "mixs4_runs ! r =
      run_template 5 (392 + 4) 0 (mixs_body 4 89 mixs4_table 392 (mixs4_rc ! r) (7 * r) (mixs4_oc ! r))"
    using assms(1) by (simp add: mixs4_runs_map oc_lengths)
  show ?thesis
    unfolding f
    by (rule mixs_run [OF consts_width(1) [OF assms(2)] _ _ oc_small(1) [OF assms(2,1)]])
      (use assms rc_bound(1,2) [of r] table_bound(1) consts_length [OF assms(2)] table_lengths in auto)
qed

lemma mixs3_correct:
  assumes "r < 57" "circuit_consts_ok ctx" "component_ready ctx idx start"
    "unat start + 6 \<le> unat get_total_signal_no" "carries ctx (unat start + 3) 3 x"
  shows "runs ((mixs3_runs ! r) idx) ctx (\<lambda>ctx'.
    carries ctx' (unat start) 3 (sparse_round (\<lambda>i. cst ctx (mixs3_table ! i)) 3 (5 * r) x) \<and>
    only_signals ctx ctx' (unat start) 3)"
proof -
  have f: "mixs3_runs ! r =
      run_template 5 (285 + 4) 0 (mixs_body 3 460 mixs3_table 285 (mixs3_rc ! r) (5 * r) (mixs3_oc ! r))"
    using assms(1) by (simp add: mixs3_runs_map oc_lengths)
  show ?thesis
    unfolding f
    by (rule mixs_run [OF consts_width(2) [OF assms(2)] _ _ oc_small(2) [OF assms(2,1)]])
      (use assms rc_bound(3,4) [of r] table_bound(2) consts_length [OF assms(2)] table_lengths in auto)
qed

lemma mixlast_correct:
  assumes "circuit_consts_ok ctx" "component_ready ctx idx start"
    "unat start + 1 + t \<le> unat get_total_signal_no" "carries ctx (unat start + 1) t x"
    "(f, t, ms) = (MixLast_67_run, 4, mat_M4) \<or> (f, t, ms) = (MixLast_137_run, 3, mat_M3)"
  shows "runs (f idx) ctx (\<lambda>ctx'.
    carries ctx' (unat start) 1 (\<lambda>_. (\<Sum>j<t. cst ctx (ms ! (t * j)) * x j) mod q_int) \<and>
    only_signals ctx ctx' (unat start) 1)"
proof -
  obtain tc where "f = run_template 2 (t * t + 4) 0 (mixlast_body t tc ms)" "length ms = t * t"
    "\<forall>m \<in> set ms. m < length (circuitConstants (circuit ctx))" "width_consts ctx tc t"
    using assms(5) table_bound consts_length [OF assms(1)] consts_width [OF assms(1)]
    by (auto simp: MixLast_67_run_def MixLast_137_run_def table_lengths)
  then show ?thesis using mixlast_run [of ctx tc t ms idx start x] assms(2-4) by simp
qed


end
