(* ===== verification/Raw_Fr.thy ===== *)
theory Raw_Fr
  imports Fr_Gmp
begin

text \<open>
  The class \<open>RawFr\<close> of \<open>circuit_cpp/fr.hpp\<close> and \<open>fr.cpp\<close>: elements that are always four limbs in
  Montgomery form. An \<open>Element\<close> is its limb array, so the inline methods that forward to one raw
  routine are that routine of \<open>Fr_Raw\<close>.
\<close>

section \<open>Methods\<close>

definition RawFr_fromMpz :: "gmp \<Rightarrow> int \<Rightarrow> cerr + FrRaw" where
  "RawFr_fromMpz g v = bindR (export_raw g v) (\<lambda>r. Inr (Fr_rawToMontgomery r))"

definition RawFr_toMpz :: "gmp \<Rightarrow> FrRaw \<Rightarrow> int" where
  "RawFr_toMpz g a = mpz_import g 4 (-1) 8 (-1) 0 (raw_bytes (Fr_rawFromMontgomery a))"

definition RawFr_set :: "gmp \<Rightarrow> 32 word \<Rightarrow> cerr + FrRaw" where
  "RawFr_set g v = RawFr_fromMpz g (if sint v < 0 then sint v + Fr_init_q g else sint v)"

definition RawFr_fromUI :: "gmp \<Rightarrow> u64 \<Rightarrow> cerr + FrRaw" where
  "RawFr_fromUI g v = RawFr_fromMpz g (uint v)"

definition RawFr_fromString :: "gmp \<Rightarrow> string \<Rightarrow> nat \<Rightarrow> cerr + FrRaw" where
  "RawFr_fromString g s radix =
     bindR (of_div (mpz_fdiv_r g (mpz_init_set_str g s radix) (Fr_init_q g))) (RawFr_fromMpz g)"

definition RawFr_toString :: "gmp \<Rightarrow> FrRaw \<Rightarrow> nat \<Rightarrow> string" where
  "RawFr_toString g a radix = mpz_get_str g radix (RawFr_toMpz g a)"

definition RawFr_inv :: "gmp \<Rightarrow> FrRaw \<Rightarrow> cerr + FrRaw" where
  "RawFr_inv g a =
     bindR (export_raw g (mpz_invert g (mpz_import g 4 (-1) 8 (-1) 0 (raw_bytes a)) (Fr_init_q g)))
       (\<lambda>r. Inr (Fr_rawMMul r Fr_rawR3))"

definition RawFr_div :: "gmp \<Rightarrow> FrRaw \<Rightarrow> FrRaw \<Rightarrow> cerr + FrRaw" where
  "RawFr_div g a b = bindR (RawFr_inv g b) (\<lambda>tmp. Inr (Fr_rawMMul a tmp))"

text \<open>
  \<open>BIT_IS_SET\<close>, and the loop of \<open>exp\<close>. The loop index is an \<open>int\<close> of 32 bits that starts at
  \<open>scalarSize * 8 - 1\<close>, computed in the unsigned type of \<open>scalarSize\<close>; the loop ends when it is negative.
  A byte beyond the scalar is an access out of bounds.
\<close>

definition BIT_IS_SET :: "u8 list \<Rightarrow> nat \<Rightarrow> cerr + bool" where
  "BIT_IS_SET s p = bindR (read_list s (p div 8)) (\<lambda>b. Inr (bit b (p mod 8)))"

lemma sint_pred: "0 \<le> sint i \<Longrightarrow> sint (i - 1) = sint i - 1" for i :: u32
proof -
  assume "0 \<le> sint i"
  then have "sint (word_of_int (sint i - 1) :: u32) = sint i - 1"
    using sint32_bounds' [of i] by (intro sint_word_of_int_32) (simp add: fits32_def)
  then show ?thesis by simp
qed

function exp_loop :: "FrRaw \<Rightarrow> u8 list \<Rightarrow> u32 \<Rightarrow> bool \<Rightarrow> FrRaw \<Rightarrow> cerr + bool \<times> FrRaw" where
  "exp_loop copyBase scalar i oneFound r =
     (if sint i < 0 then Inr (oneFound, r)
      else bindR (BIT_IS_SET scalar (nat (sint i))) (\<lambda>set.
        if \<not> oneFound then
          if \<not> set then exp_loop copyBase scalar (i - 1) oneFound r
          else exp_loop copyBase scalar (i - 1) True (Fr_rawCopy copyBase)
        else
          let r = Fr_rawMSquare r;
              r = (if set then Fr_rawMMul r copyBase else r)
          in exp_loop copyBase scalar (i - 1) oneFound r))"
  by pat_completeness auto
termination
  by (relation "measure (\<lambda>(copyBase, scalar, i, oneFound, r). nat (sint i + 1))") (auto simp: sint_pred)

declare exp_loop.simps [simp del]

text \<open>\<open>r\<close> is the result operand as the caller left it, \<open>fOne\<close> the class member set by the constructor.\<close>

definition RawFr_exp :: "FrRaw \<Rightarrow> FrRaw \<Rightarrow> FrRaw \<Rightarrow> u8 list \<Rightarrow> u32 \<Rightarrow> cerr + FrRaw" where
  "RawFr_exp fOne r base scalar scalarSize =
     bindR (exp_loop (Fr_rawCopy base) scalar (scalarSize * 8 - 1) False r) (\<lambda>(oneFound, r).
       Inr (if \<not> oneFound then Fr_rawCopy fOne else r))"

text \<open>
  The conversions to and from big-endian bytes return the number of bytes, negated if the buffer
  is too short. The exported words overwrite the front of the buffer.
\<close>

definition RawFr_toRprBE :: "gmp \<Rightarrow> FrRaw \<Rightarrow> u8 list \<Rightarrow> int \<times> u8 list" where
  "RawFr_toRprBE g e data =
     (if length data < 32 then (- 32, data)
      else let bs = mpz_export g 1 8 1 0 (RawFr_toMpz g e)
           in (32, bs @ drop (length bs) data))"

definition RawFr_fromRprBE :: "gmp \<Rightarrow> FrRaw \<Rightarrow> u8 list \<Rightarrow> cerr + int \<times> FrRaw" where
  "RawFr_fromRprBE g e data =
     (if length data < 32 then Inr (- 32, e)
      else bindR (RawFr_fromMpz g (mpz_import g 32 0 1 0 0 data)) (\<lambda>r. Inr (32, r)))"

section \<open>Values\<close>

definition mval :: "FrRaw \<Rightarrow> int" where
  "mval a = rval a * Rinv mod q_int"

definition mreturns :: "cerr + FrRaw \<Rightarrow> int \<Rightarrow> bool" where
  "mreturns r v \<longleftrightarrow> (\<exists>m. r = Inr m \<and> rval m < q_int \<and> mval m = v)"

lemma mval_bounds: "0 \<le> mval a" "mval a < q_int"
  by (simp_all add: mval_def)

lemma mval_MMul: "rval b < q_int \<Longrightarrow> mval (Fr_rawMMul a b) = mval a * mval b mod q_int"
  using mont_mulI [of "rval a" "mval a" "rval b" "mval b"]
  by (simp add: mval_def Fr_rawMMul_mod)

lemma MMul_less: "rval b < q_int \<Longrightarrow> rval (Fr_rawMMul a b) < q_int"
  by (simp add: Fr_rawMMul_mod)

lemma MSquare_MMul: "rval a < q_int \<Longrightarrow> Fr_rawMSquare a = Fr_rawMMul a a"
  by (subst rval_inject [symmetric]) (simp only: Fr_rawMSquare_mod Fr_rawMMul_mod)

lemma RawFr_fromMpz_returns:
  assumes "gmp_spec g" "0 \<le> v" "v < q_int"
  shows "mreturns (RawFr_fromMpz g v) v"
proof -
  obtain l where "export_raw g v = Inr l" "rval l = v"
    using gmp_export_raw [OF assms(1,2)] assms(3) q_int_bounds by fastforce
  then show ?thesis
    using assms mod_Rinv [of v] by (simp add: RawFr_fromMpz_def mreturns_def mval_def Fr_rawToMontgomery_mod)
qed

lemma RawFr_toMpz_val: "gmp_spec g \<Longrightarrow> RawFr_toMpz g a = mval a"
  by (simp add: RawFr_toMpz_def gmp_import mval_def Fr_rawFromMontgomery_mod)

lemma RawFr_set_returns:
  assumes "gmp_spec g"
  shows "mreturns (RawFr_set g v) (sint v mod q_int)"
proof -
  have "(if sint v < 0 then sint v + Fr_init_q g else sint v) = sint v mod q_int"
    using sint32_bounds' [of v] q_int_bounds(4) assms by (auto simp: gmp_init_q mod_add_once)
  then show ?thesis using assms by (simp only: RawFr_set_def) (simp add: RawFr_fromMpz_returns)
qed

lemma RawFr_fromUI_returns: "gmp_spec g \<Longrightarrow> mreturns (RawFr_fromUI g v) (uint v)"
  by (simp add: RawFr_fromUI_def RawFr_fromMpz_returns uint64_less_q)

lemma RawFr_inv_returns:
  assumes "gmp_spec g" "coprime (rval a) q_int"
  shows "\<exists>m. RawFr_inv g a = Inr m \<and> rval m < q_int \<and> mval a * mval m mod q_int = 1"
proof -
  let ?v = "mpz_invert g (rval a) q_int"
  have v: "0 \<le> ?v" "?v < q_int" "rval a * ?v mod q_int = 1"
    using assms q_int_bounds(2) unfolding gmp_spec_def by blast+
  obtain l where l: "export_raw g ?v = Inr l" "rval l = ?v"
    using gmp_export_raw [OF assms(1) v(1)] v(2) q_int_bounds by fastforce
  have m: "mval (Fr_rawMMul l Fr_rawR3) = ?v * 2 ^ 256 mod q_int"
  proof -
    have "mval (Fr_rawMMul l Fr_rawR3) = ?v * 2 ^ 512 mod q_int * Rinv mod q_int"
      by (simp add: mval_def Fr_rawMMul_mod rval_R3_less R3_Rinv l(2))
    also have "\<dots> = (?v * 2 ^ 256) * 2 ^ 256 mod q_int * Rinv mod q_int"
      by (simp add: mult.assoc)
    finally show ?thesis by (simp only: mod_Rinv)
  qed
  have "mval a * (?v * 2 ^ 256 mod q_int) mod q_int = rval a * ?v * (2 ^ 256 * Rinv) mod q_int"
    unfolding mval_def by (simp only: mod_mult_eq) (simp only: mult_ac)
  also have "\<dots> = (rval a * ?v mod q_int) * (2 ^ 256 * Rinv mod q_int) mod q_int"
    by (simp only: mod_mult_eq)
  finally have "mval a * mval (Fr_rawMMul l Fr_rawR3) mod q_int = 1"
    using v(3) q_int_bounds by (simp only: m Rinv_inverse) simp
  then show ?thesis
    using l assms by (simp add: RawFr_inv_def gmp_import gmp_init_q MMul_less rval_R3_less)
qed

section \<open>Exponentiation\<close>

lemma bit_le_val: "bit (le_val s) p = (if p div 8 < length s then bit (s ! (p div 8)) (p mod 8) else False)"
proof (induction s arbitrary: p)
  case Nil
  then show ?case by simp
next
  case (Cons b s)
  have c: "uint b + 256 * le_val s = or (uint b) (push_bit 8 (le_val s))"
  proof -
    have "and (uint b) (push_bit 8 (le_val s)) = 0"
      by (rule bit_eqI) (auto simp: bit_simps dest: bit_imp_le_length)
    then show ?thesis
      using plus_and_or [of "uint b" "push_bit 8 (le_val s)"] by (simp add: push_bit_eq_mult mult.commute)
  qed
  show ?case
  proof (cases "p < 8")
    case True
    then show ?thesis by (simp add: c bit_simps)
  next
    case False
    then obtain k where k: "p = 8 + k" using le_Suc_ex [of 8 p] by auto
    have "\<not> bit (uint b) p" using False by (simp add: bit_uint_iff)
    then have "bit (le_val (b # s)) p = bit (le_val s) k"
      using k by (simp add: c bit_simps)
    moreover have "(8 + k) div 8 = Suc (k div 8)" by simp
    ultimately show ?thesis using k Cons [of k] by (simp del: le_val.simps)
  qed
qed


lemma BIT_IS_SET_take:
  assumes "p < 8 * n" "n \<le> length s"
  shows "BIT_IS_SET s p = Inr (bit (le_val (take n s)) p)"
  using assms by (simp add: BIT_IS_SET_def read_list_def bit_le_val less_mult_imp_div_less mult.commute)

lemma div_step: "e div 2 ^ k = 2 * (e div 2 ^ Suc k) + of_bool (bit e k)" for e :: int
proof -
  have "e div 2 ^ Suc k = e div 2 ^ k div 2"
    by (simp add: zdiv_zmult2_eq mult.commute [of 2])
  then show ?thesis
    using div_mult_mod_eq [of "e div 2 ^ k" 2] by (simp add: bit_iff_odd odd_iff_mod_2_eq_one mod2_eq_if)
qed

lemma square_step:
  assumes b: "rval b < q_int" and r: "rval r < q_int" "mval r = mval b ^ nat e mod q_int" and e: "0 \<le> e"
    and t: "t = (if h then Fr_rawMMul (Fr_rawMSquare r) b else Fr_rawMSquare r)"
  shows "rval t < q_int \<and> mval t = mval b ^ nat (2 * e + of_bool h) mod q_int"
proof -
  have sq: "mval (Fr_rawMSquare r) = mval b ^ (nat e + nat e) mod q_int"
    using r by (simp add: MSquare_MMul mval_MMul mod_mult_eq power_add)
  have "nat (2 * e + of_bool h) = nat e + nat e + of_bool h" using e by (cases h) simp_all
  then have "mval t = mval b ^ nat (2 * e + of_bool h) mod q_int"
    using sq b by (cases h) (simp_all add: t mval_MMul mod_simps mult.commute)
  then show ?thesis using b r(1) by (simp add: t MMul_less MSquare_MMul)
qed

text \<open>
  The loop with \<open>k\<close> bits left of the exponent \<open>E\<close>: the result is the power with the bits above, or
  nothing yet when they are zero.
\<close>

definition powered :: "FrRaw \<Rightarrow> int \<Rightarrow> bool \<Rightarrow> FrRaw \<Rightarrow> bool" where
  "powered b e f r \<longleftrightarrow> (if f then rval r < q_int \<and> mval r = mval b ^ nat e mod q_int else e = 0)"

lemma sint_index: "k \<le> 2 ^ 31 \<Longrightarrow> sint (of_nat k - 1 :: u32) = int k - 1"
proof -
  assume "k \<le> 2 ^ 31"
  then have "sint (word_of_int (int k - 1) :: u32) = int k - 1" by (intro sint_word_of_int_32) (simp add: fits32_def)
  then show ?thesis by simp
qed

lemma exp_loop_correct:
  assumes b: "rval b < q_int" and E: "0 \<le> E" "\<And>p. p < K \<Longrightarrow> BIT_IS_SET s p = Inr (bit E p)"
    and k: "k \<le> K" "k \<le> 2 ^ 31" and P: "powered b (E div 2 ^ k) f r"
  shows "\<exists>f' r'. exp_loop b s (of_nat k - 1) f r = Inr (f', r') \<and> powered b E f' r'"
  using k P
proof (induction k arbitrary: f r)
  case 0
  then show ?case by (subst exp_loop.simps) simp
next
  case (Suc k)
  define h where "h = bit E k"
  define t where "t = (if h then Fr_rawMMul (Fr_rawMSquare r) b else Fr_rawMSquare r)"
  have i: "sint (of_nat (Suc k) - 1 :: u32) = int k" using sint_index [of "Suc k"] Suc.prems(2) by simp
  have d: "E div 2 ^ k = 2 * (E div 2 ^ Suc k) + of_bool h" unfolding h_def by (rule div_step)
  have e0: "0 \<le> E div 2 ^ Suc k" using E(1) by (simp add: pos_imp_zdiv_nonneg_iff del: power_Suc)
  have loop: "exp_loop b s (of_nat (Suc k) - 1) f r =
      (if \<not> f then exp_loop b s (of_nat k - 1) h (if h then b else r) else exp_loop b s (of_nat k - 1) True t)"
    using E(2) [of k] Suc.prems(1) i by (subst exp_loop.simps) (simp add: h_def [symmetric] t_def Let_def Fr_rawCopy_def)
  have "powered b (E div 2 ^ k) True t" if f
    using square_step [OF b _ _ e0 t_def] Suc.prems(3) that unfolding d by (simp add: powered_def)
  moreover have "powered b (E div 2 ^ k) h (if h then b else r)" if "\<not> f"
    using Suc.prems(3) that b mval_bounds [of b] unfolding d by (simp add: powered_def)
  ultimately show ?case
    using Suc.IH Suc.prems(1,2) unfolding loop by simp
qed

text \<open>
  The number of bytes that the loop goes over: the size modulo \<open>2 ^ 29\<close>, or none when the index starts
  negative.
\<close>

definition exp_bytes :: "u32 \<Rightarrow> nat" where
  "exp_bytes scalarSize = (let m = unat scalarSize mod 2 ^ 29 in if m \<le> 2 ^ 28 then m else 0)"

lemma exp_bytes_small: "unat scalarSize \<le> 2 ^ 28 \<Longrightarrow> exp_bytes scalarSize = unat scalarSize"
  by (simp add: exp_bytes_def)

lemma exp_start:
  obtains "scalarSize * 8 - 1 = of_nat (8 * exp_bytes scalarSize) - 1" "exp_bytes scalarSize \<le> 2 ^ 28"
  | "sint (scalarSize * 8 - 1) < 0" "exp_bytes scalarSize = 0"
proof -
  define m where "m = unat scalarSize mod 2 ^ 29"
  have m: "m < 2 ^ 29" by (simp add: m_def)
  have "(of_nat (8 * unat scalarSize) :: u32) = of_nat (8 * unat scalarSize mod 2 ^ 32)"
    by (rule word_unat_eq_iff [THEN iffD2]) (simp only: unat_of_nat mod_mod_trivial len_num1 len_num0 len_bit0, simp)
  also have "8 * unat scalarSize mod 2 ^ 32 = 8 * m" by (simp add: m_def mult_mod_right)
  finally have e: "scalarSize * 8 = of_nat (8 * m)" by (simp add: mult.commute)
  have n: "exp_bytes scalarSize = (if m \<le> 2 ^ 28 then m else 0)" by (simp only: exp_bytes_def m_def Let_def)
  show thesis
  proof (cases "m \<le> 2 ^ 28")
    case True
    then show ?thesis using e by (intro that(1)) (simp_all add: n)
  next
    case False
    have "sint (word_of_int (8 * int m - 1 - 2 ^ 32) :: u32) = 8 * int m - 1 - 2 ^ 32"
      using m False by (intro sint_word_of_int_32) (simp add: fits32_def)
    moreover have "(word_of_int (8 * int m - 1 - 2 ^ 32) :: u32) = scalarSize * 8 - 1" by (simp add: e)
    ultimately have "sint (scalarSize * 8 - 1) < 0" using m by simp
    then show ?thesis using False by (intro that(2)) (simp_all add: n)
  qed
qed

lemma RawFr_exp_correct:
  assumes "rval base < q_int" "rval fOne < q_int" "mval fOne = 1" "exp_bytes scalarSize \<le> length s"
  shows "mreturns (RawFr_exp fOne r base s scalarSize)
    (mval base ^ nat (le_val (take (exp_bytes scalarSize) s)) mod q_int)"
proof -
  let ?n = "exp_bytes scalarSize"
  let ?E = "le_val (take ?n s)"
  have E: "0 \<le> ?E" "?E div 2 ^ (8 * ?n) = 0"
    using le_val_less [of "take ?n s"] assms(4) by (simp_all add: power_mult)
  have "\<exists>f' r'. exp_loop base s (scalarSize * 8 - 1) False r = Inr (f', r') \<and> powered base ?E f' r'"
  proof (cases rule: exp_start [of scalarSize])
    case 1
    then show ?thesis
      using exp_loop_correct [OF assms(1) E(1) BIT_IS_SET_take [OF _ assms(4)], where k = "8 * ?n" and f = False and r = r] E(2)
      by (simp add: powered_def)
  next
    case 2
    then show ?thesis by (subst exp_loop.simps) (auto simp: powered_def)
  qed
  then show ?thesis
    using assms(2,3) q_int_bounds(2)
    by (auto simp: RawFr_exp_def mreturns_def powered_def Fr_rawCopy_def split: if_splits)
qed

section \<open>Big-endian bytes\<close>

text \<open>A value of at least 193 bits fills the 32 bytes; zero leaves the buffer as it was.\<close>

lemma words64_large:
  assumes "2 ^ 192 \<le> v" "v < 2 ^ 256"
  shows "words64 v = 4"
proof -
  have "\<not> words64 v \<le> 3"
  proof
    assume "words64 v \<le> 3"
    then have "(256 :: int) ^ (8 * words64 v) \<le> 256 ^ 24" by (intro power_increasing) auto
    then show False using words64_enough [of v] assms by simp
  qed
  moreover have "words64 v \<le> 4" using words64_bound [of v 4] assms by simp
  ultimately show ?thesis by simp
qed

lemma toRprBE_large:
  assumes "gmp_spec g" "2 ^ 192 \<le> mval e" "length data = 32"
  shows "RawFr_toRprBE g e data = (32, rev (le_bytes 32 (mval e)))"
proof -
  have "words64 (mval e) = 4"
    using words64_large [OF assms(2)] mval_bounds [of e] q_int_bounds by simp
  moreover have "mpz_export g 1 8 1 0 (mval e) = rev (le_bytes (8 * words64 (mval e)) (mval e))"
    using assms(1) mval_bounds [of e] by (simp add: gmp_spec_def)
  ultimately show ?thesis using assms by (simp add: RawFr_toRprBE_def RawFr_toMpz_val)
qed

lemma toRprBE_zero:
  assumes "gmp_spec g" "32 \<le> length data"
  shows "RawFr_toRprBE g Fr_rawZero data = (32, data)"
proof -
  have "mpz_export g 1 8 1 0 0 = []" using assms(1) by (simp add: gmp_spec_def words64.simps)
  then show ?thesis using assms by (simp add: RawFr_toRprBE_def RawFr_toMpz_val mval_def)
qed

end
