(* ===== verification/Main_IO.thy ===== *)
theory Main_IO
  imports Calcwit Bytes "HOL-Library.List_Lexorder" "HOL-Library.Char_ord"
begin

text \<open>
  \<open>circuit_cpp/main.cpp\<close>: loading the circuit from the bytes of the \<open>.dat\<close> file, turning the JSON
  input into signal assignments, writing the witness file, and the whole program.

  The JSON library is not part of the repository. The datatype \<open>json\<close> has the kinds of value the
  library documents; the text of the input is parsed before the model starts, and \<open>number_text\<close>,
  a parameter, is the text that the stream prints for a JSON number converted to \<open>double\<close>.
\<close>

section \<open>Checking and converting numbers\<close>

definition between :: "char \<Rightarrow> char \<Rightarrow> char \<Rightarrow> bool" where
  "between a c b \<longleftrightarrow> (of_char a :: nat) \<le> of_char c \<and> (of_char c :: nat) \<le> of_char b"

definition check_valid_number :: "string \<Rightarrow> nat \<Rightarrow> bool" where
  "check_valid_number s base =
     (if base = 16 then
        foldl (\<lambda>is_valid c. is_valid \<and>
          (between CHR ''0'' c CHR ''9'' \<or> between CHR ''a'' c CHR ''f'' \<or> between CHR ''A'' c CHR ''F'')) True s
      else
        foldl (\<lambda>is_valid c. is_valid \<and> (48 \<le> (of_char c :: nat) \<and> of_char c < 48 + base)) True s)"

text \<open>The values of the library; the members of an object are in the order of their keys.\<close>

datatype json =
    J_null
  | J_boolean bool
  | J_integer int
  | J_unsigned nat
  | J_float string
  | J_string string
  | J_array "json list"
  | J_object "(string \<times> json) list"

definition split_prefix :: "string \<Rightarrow> string \<times> nat" where
  "split_prefix s_aux =
     (let possible_prefix = take 2 s_aux
      in if possible_prefix = ''0b'' \<or> possible_prefix = ''0B'' then (drop 2 s_aux, 2)
         else if possible_prefix = ''0o'' \<or> possible_prefix = ''0O'' then (drop 2 s_aux, 8)
         else if possible_prefix = ''0x'' \<or> possible_prefix = ''0X'' then (drop 2 s_aux, 16)
         else (s_aux, 10))"

definition string2Fr :: "gmp \<Rightarrow> string \<Rightarrow> cerr + FrElement" where
  "string2Fr g s_aux =
     (case split_prefix s_aux of (s, base) \<Rightarrow>
        if \<not> check_valid_number s base then Inl (RuntimeError (''Invalid number in JSON input: '' @ s_aux))
        else Fr_str2element g s base)"

text \<open>The values of a signal, nested arrays flattened in order; the result is appended to \<open>vval\<close>.\<close>

fun json2FrElements :: "gmp \<Rightarrow> (json \<Rightarrow> string) \<Rightarrow> json \<Rightarrow> FrElement list \<Rightarrow> cerr + FrElement list"
  and json2FrElements_list :: "gmp \<Rightarrow> (json \<Rightarrow> string) \<Rightarrow> json list \<Rightarrow> FrElement list \<Rightarrow> cerr + FrElement list" where
  "json2FrElements g number_text (J_array vs) vval = json2FrElements_list g number_text vs vval"
| "json2FrElements g number_text (J_string s) vval = bindR (string2Fr g s) (\<lambda>v. Inr (vval @ [v]))"
| "json2FrElements g number_text (J_integer n) vval =
     bindR (Fr_str2element g (number_text (J_integer n)) 10) (\<lambda>v. Inr (vval @ [v]))"
| "json2FrElements g number_text (J_unsigned n) vval =
     bindR (Fr_str2element g (number_text (J_unsigned n)) 10) (\<lambda>v. Inr (vval @ [v]))"
| "json2FrElements g number_text (J_float x) vval =
     bindR (Fr_str2element g (number_text (J_float x)) 10) (\<lambda>v. Inr (vval @ [v]))"
| "json2FrElements g number_text J_null vval = Inl (RuntimeError ''Invalid JSON type'')"
| "json2FrElements g number_text (J_boolean b) vval = Inl (RuntimeError ''Invalid JSON type'')"
| "json2FrElements g number_text (J_object fs) vval = Inl (RuntimeError ''Invalid JSON type'')"
| "json2FrElements_list g number_text [] vval = Inr vval"
| "json2FrElements_list g number_text (v # vs) vval =
     bindR (json2FrElements g number_text v vval) (json2FrElements_list g number_text vs)"

section \<open>Qualified names\<close>

datatype value_t =
    T_null | T_object | T_array | T_string | T_boolean | T_integer | T_unsigned | T_float

fun type_of :: "json \<Rightarrow> value_t" where
  "type_of J_null = T_null"
| "type_of (J_boolean _) = T_boolean"
| "type_of (J_integer _) = T_integer"
| "type_of (J_unsigned _) = T_unsigned"
| "type_of (J_float _) = T_float"
| "type_of (J_string _) = T_string"
| "type_of (J_array _) = T_array"
| "type_of (J_object _) = T_object"

definition leaf_type :: "json \<Rightarrow> value_t" where
  "leaf_type v =
     (case v of J_integer _ \<Rightarrow> T_integer | J_unsigned _ \<Rightarrow> T_integer | J_string _ \<Rightarrow> T_integer
      | _ \<Rightarrow> type_of v)"

fun check_type :: "string \<Rightarrow> json \<Rightarrow> cerr + value_t"
  and check_rest :: "string \<Rightarrow> value_t \<Rightarrow> json list \<Rightarrow> cerr + value_t" where
  "check_type prefix (J_array []) = Inr T_null"
| "check_type prefix (J_array (v # vs)) = bindR (check_type prefix v) (\<lambda>t. check_rest prefix t vs)"
| "check_type prefix v = Inr (leaf_type v)"
| "check_rest prefix t [] = Inr t"
| "check_rest prefix t (v # vs) =
     bindR (check_type prefix v) (\<lambda>u.
       if t \<noteq> u then Inl (AssertFailed (''Types are not the same in the key '' @ prefix))
       else check_rest prefix t vs)"

text \<open>\<open>in1[prefix] = in\<close>: an object keeps its members in the order of the keys.\<close>

definition obj_set :: "string \<Rightarrow> json \<Rightarrow> (string \<times> json) list \<Rightarrow> (string \<times> json) list" where
  "obj_set k v m = insort_key fst (k, v) (filter (\<lambda>p. fst p \<noteq> k) m)"

definition member_name :: "string \<Rightarrow> string \<Rightarrow> string" where
  "member_name prefix key = (if length prefix = 0 then key else prefix @ ''.'' @ key)"

function qualify_input :: "string \<Rightarrow> json \<Rightarrow> (string \<times> json) list \<Rightarrow> cerr + (string \<times> json) list"
  and qualify_input_list :: "string \<Rightarrow> json \<Rightarrow> (string \<times> json) list \<Rightarrow> cerr + (string \<times> json) list"
  and qualify_elements :: "string \<Rightarrow> nat \<Rightarrow> json list \<Rightarrow> (string \<times> json) list \<Rightarrow> cerr + (string \<times> json) list"
  and qualify_members :: "string \<Rightarrow> (string \<times> json) list \<Rightarrow> (string \<times> json) list \<Rightarrow> cerr + (string \<times> json) list"
  where
  "qualify_input prefix v in1 =
     (case v of
        J_array vs \<Rightarrow>
          if 0 < length vs then
            bindR (check_type prefix v) (\<lambda>t.
              if t = T_object then qualify_input_list prefix v in1 else Inr (obj_set prefix v in1))
          else Inr (obj_set prefix v in1)
      | J_object fs \<Rightarrow> qualify_members prefix fs in1
      | _ \<Rightarrow> Inr (obj_set prefix v in1))"
| "qualify_input_list prefix v in1 =
     (case v of
        J_array vs \<Rightarrow> qualify_elements prefix 0 vs in1
      | _ \<Rightarrow> qualify_input prefix v in1)"
| "qualify_elements prefix i [] in1 = Inr in1"
| "qualify_elements prefix i (v # vs) in1 =
     bindR (qualify_input_list (prefix @ ''['' @ digits10 i @ '']'') v in1) (qualify_elements prefix (i + 1) vs)"
| "qualify_members prefix [] in1 = Inr in1"
| "qualify_members prefix ((k, v) # fs) in1 =
     bindR (qualify_input (member_name prefix k) v in1) (qualify_members prefix fs)"
  by pat_completeness auto
termination
proof (relation "measure (\<lambda>x. case x of
      Inl (Inl (p, v, m)) \<Rightarrow> 2 * size v + (case v of J_array _ \<Rightarrow> 1 | _ \<Rightarrow> 0)
    | Inl (Inr (p, v, m)) \<Rightarrow> 2 * size v + (case v of J_array _ \<Rightarrow> 0 | _ \<Rightarrow> 1)
    | Inr (Inl (p, i, vs, m)) \<Rightarrow> 2 * size_list size vs
    | Inr (Inr (p, fs, m)) \<Rightarrow> 2 * size_list (size_prod (\<lambda>_. 0) size) fs)")
qed (auto split: json.splits)

declare qualify_input.simps [simp del] qualify_input_list.simps [simp del]

section \<open>Loading the inputs\<close>

text \<open>The inner loop sets the values of one signal, the outer one goes through the members.\<close>

fun set_values :: "Circom_CalcWit stmt \<Rightarrow> u64 \<Rightarrow> nat \<Rightarrow> FrElement list \<Rightarrow> Circom_CalcWit stmt" where
  "set_values run h i [] ctx = Some (Inr ctx)"
| "set_values run h i (v # vs) ctx =
     (case setInputSignal run h (of_nat i) v ctx of
        None \<Rightarrow> None
      | Some (Inl e) \<Rightarrow> Some (Inl e)
      | Some (Inr ctx') \<Rightarrow> set_values run h (i + 1) vs ctx')"

definition load_signal ::
    "gmp \<Rightarrow> (json \<Rightarrow> string) \<Rightarrow> Circom_CalcWit stmt \<Rightarrow> string \<times> json \<Rightarrow> Circom_CalcWit stmt" where
  "load_signal g number_text run kv ctx =
     (case kv of (key, value) \<Rightarrow>
        let h = fnv1a key
        in case json2FrElements g number_text value [] of
             Inl e \<Rightarrow> Some (Inl e)
           | Inr v \<Rightarrow>
               (case getInputSignalSize ctx h of
                  None \<Rightarrow> None
                | Some (Inl e) \<Rightarrow> Some (Inl e)
                | Some (Inr sz) \<Rightarrow>
                    let signalSize = (ucast sz :: u32)
                    in if length v < unat signalSize then
                         Some (Inl (RuntimeError (''Error loading signal '' @ key @ '': Not enough values'')))
                       else if length v > unat signalSize then
                         Some (Inl (RuntimeError (''Error loading signal '' @ key @ '': Too many values'')))
                       else set_values run h 0 v ctx))"

definition loadJson ::
    "gmp \<Rightarrow> (json \<Rightarrow> string) \<Rightarrow> Circom_CalcWit stmt \<Rightarrow> json \<Rightarrow> Circom_CalcWit stmt" where
  "loadJson g number_text run jin ctx =
     (case qualify_input '''' jin [] of
        Inl e \<Rightarrow> Some (Inl e)
      | Inr j \<Rightarrow>
          seqM ((if length j = 0 then [tryRunCircuit run] else []) @ map (load_signal g number_text run) j) ctx)"

section \<open>The witness file\<close>

text \<open>
  The bytes that \<open>writeBinWitness\<close> writes, section by section; \<open>fopen\<close> is taken to succeed.
\<close>

fun witness_rows :: "Circom_CalcWit \<Rightarrow> nat \<Rightarrow> nat \<Rightarrow> cerr + u8 list" where
  "witness_rows ctx i 0 = Inr []"
| "witness_rows ctx i (Suc n) =
     bindR (getWitness ctx i) (\<lambda>v.
     bindR (witness_rows ctx (i + 1) n) (\<lambda>rest.
       Inr (raw_bytes (longVal (Fr_toLongNormal v)) @ rest)))"

definition n8 :: nat where
  "n8 = 4 * 8"

definition witness_header :: "u8 list" where
  "witness_header =
     map of_char ''wtns'' @
     le_bytes 4 2 @
     le_bytes 4 2 @
     le_bytes 4 1 @
     le_bytes 8 (8 + int n8) @
     le_bytes 4 (int n8) @
     raw_bytes Fr_rawq @
     le_bytes 4 (uint get_size_of_witness) @
     le_bytes 4 2 @
     le_bytes 8 (int n8 * uint get_size_of_witness)"

definition writeBinWitness :: "Circom_CalcWit \<Rightarrow> cerr + u8 list" where
  "writeBinWitness ctx =
     bindR (witness_rows ctx 0 (unat get_size_of_witness)) (\<lambda>rows. Inr (witness_header @ rows))"

section \<open>The circuit file\<close>

text \<open>\<open>memcpy\<close> from the mapped file; bytes past its end are an error.\<close>

definition slice :: "u8 list \<Rightarrow> nat \<Rightarrow> nat \<Rightarrow> cerr + u8 list" where
  "slice bs off len = (if off + len \<le> length bs then Inr (take len (drop off bs)) else Inl OutOfBounds)"

fun chunks :: "nat \<Rightarrow> nat \<Rightarrow> u8 list \<Rightarrow> u8 list list" where
  "chunks k 0 bs = []"
| "chunks k (Suc n) bs = take k bs # chunks k n (drop k bs)"

definition u32_of :: "u8 list \<Rightarrow> u32" where
  "u32_of bs = word_of_int (le_val (take 4 bs))"

definition u64_of :: "u8 list \<Rightarrow> u64" where
  "u64_of bs = word_of_int (le_val (take 8 bs))"

definition hash_info_of :: "u8 list \<Rightarrow> HashSignalInfo" where
  "hash_info_of bs = \<lparr>hash = u64_of bs, signalid = u64_of (drop 8 bs), signalsize = u64_of (drop 16 bs)\<rparr>"

text \<open>The packed struct \<open>FrElement\<close>: \<open>shortVal\<close>, \<open>type\<close>, \<open>longVal\<close>; bits 31 and 30 of \<open>type\<close> are the tag.\<close>

definition element_of :: "u8 list \<Rightarrow> FrElement" where
  "element_of bs =
     (let s = u32_of bs; t = u32_of (drop 4 bs); l = raw_of_bytes (drop 8 bs)
      in if bit t 31 then (if bit t 30 then Fr_LONGMONTGOMERY l else Fr_LONG l)
         else (if bit t 30 then Fr_SHORTMONTGOMERY s l else Fr_SHORT s))"

fun element_bytes :: "FrElement \<Rightarrow> u8 list" where
  "element_bytes (Fr_SHORT s) = le_bytes 4 (uint s) @ le_bytes 4 0 @ raw_bytes Fr_rawZero"
| "element_bytes (Fr_SHORTMONTGOMERY s m) = le_bytes 4 (uint s) @ le_bytes 4 0x40000000 @ raw_bytes m"
| "element_bytes (Fr_LONG l) = le_bytes 4 0 @ le_bytes 4 0x80000000 @ raw_bytes l"
| "element_bytes (Fr_LONGMONTGOMERY m) = le_bytes 4 0 @ le_bytes 4 0xC0000000 @ raw_bytes m"

text \<open>The input/output maps: \<open>pu32\<close> walks through the words of the rest of the file.\<close>

fun take_words :: "nat \<Rightarrow> u32 list \<Rightarrow> cerr + u32 list \<times> u32 list" where
  "take_words n pu32 = (if n \<le> length pu32 then Inr (take n pu32, drop n pu32) else Inl OutOfBounds)"

fun parse_defs :: "nat \<Rightarrow> u32 list \<Rightarrow> cerr + IOFieldDef list \<times> u32 list" where
  "parse_defs 0 pu32 = Inr ([], pu32)"
| "parse_defs (Suc n) pu32 =
     bindR (take_words 2 pu32) (\<lambda>(h, p1).
     bindR (take_words (unat (h ! 1)) p1) (\<lambda>(ls, p2).
     bindR (take_words 2 p2) (\<lambda>(t, p3).
     bindR (parse_defs n p3) (\<lambda>(ds, p4).
       Inr (\<lparr>io_offset = h ! 0, io_len = h ! 1, io_lengths = ls, io_size = t ! 0, io_busId = t ! 1\<rparr> # ds, p4)))))"

definition parse_pair :: "u32 list \<Rightarrow> cerr + IOFieldDefPair \<times> u32 list" where
  "parse_pair pu32 =
     bindR (take_words 1 pu32) (\<lambda>(h, p1).
     bindR (parse_defs (unat (h ! 0)) p1) (\<lambda>(ds, p2). Inr (\<lparr>pair_len = h ! 0, pair_defs = ds\<rparr>, p2)))"

fun parse_io_map ::
    "u32 list \<Rightarrow> u32 list \<Rightarrow> (u32 \<rightharpoonup> IOFieldDefPair) \<Rightarrow> cerr + (u32 \<rightharpoonup> IOFieldDefPair) \<times> u32 list" where
  "parse_io_map [] pu32 m = Inr (m, pu32)"
| "parse_io_map (i # is) pu32 m = bindR (parse_pair pu32) (\<lambda>(p, rest). parse_io_map is rest (m(i \<mapsto> p)))"

fun parse_buses :: "nat \<Rightarrow> u32 list \<Rightarrow> cerr + IOFieldDefPair list" where
  "parse_buses 0 pu32 = Inr []"
| "parse_buses (Suc n) pu32 =
     bindR (parse_pair pu32) (\<lambda>(p, rest). bindR (parse_buses n rest) (\<lambda>ps. Inr (p # ps)))"

definition loadCircuit :: "u8 list \<Rightarrow> cerr + Circom_Circuit" where
  "loadCircuit bdata =
     (let nh = unat get_size_of_input_hashmap; nw = unat get_size_of_witness;
          nc = unat get_size_of_constants; ni = unat get_size_of_io_map;
          off1 = nh * 24; off2 = off1 + nw * 8; off3 = off2 + nc * 40; off4 = off3 + ni * 4
      in bindR (slice bdata 0 (nh * 24)) (\<lambda>hs.
         bindR (slice bdata off1 (nw * 8)) (\<lambda>ws.
         bindR (slice bdata off2 (nc * 40)) (\<lambda>cs.
         bindR (slice bdata off3 (ni * 4)) (\<lambda>index.
           if off4 mod 4 \<noteq> 0 then Inl (AssertFailed ''inisize % sizeof(u32) == 0'')
           else if length bdata mod 4 \<noteq> 0 then Inl (AssertFailed ''sb.st_size % sizeof(u32) == 0'')
           else
             let dataiomap = map u32_of (chunks 4 ((length bdata - off4) div 4) (drop off4 bdata))
             in bindR (parse_io_map (map u32_of (chunks 4 ni index)) dataiomap Map.empty) (\<lambda>(io, rest).
                bindR (parse_buses (unat get_size_of_bus_field_map) rest) (\<lambda>buses.
                  Inr \<lparr>InputHashMap = map hash_info_of (chunks 24 nh hs),
                       witness2SignalList = map u64_of (chunks 8 nw ws),
                       circuitConstants = map element_of (chunks 40 nc cs),
                       templateInsId2IOSignalInfo = io,
                       busInsId2FieldInfo = Some buses\<rparr>)))))))"

section \<open>The program\<close>

text \<open>
  \<open>main\<close> with two arguments: \<open>bdata\<close> are the bytes of the circuit file, \<open>jin\<close> is the parsed
  input, the result is the content of the witness file. The calculator is built with the default
  number of threads.
\<close>

definition main_program ::
    "gmp \<Rightarrow> (json \<Rightarrow> string) \<Rightarrow> Circom_CalcWit stmt \<Rightarrow> u8 list \<Rightarrow> json \<Rightarrow> (cerr + u8 list) option" where
  "main_program g number_text run bdata jin =
     (case bindR (loadCircuit bdata) (\<lambda>circuit. Circom_CalcWit_new g circuit 32) of
        Inl e \<Rightarrow> Some (Inl e)
      | Inr ctx \<Rightarrow>
          (case loadJson g number_text run jin ctx of
             None \<Rightarrow> None
           | Some (Inl e) \<Rightarrow> Some (Inl e)
           | Some (Inr ctx') \<Rightarrow>
               if getRemaingInputsToBeSet ctx' \<noteq> 0 then Some (Inl (AssertFailed ''Not all inputs have been set''))
               else Some (writeBinWitness ctx')))"

section \<open>Numbers in the input\<close>

lemma foldl_and: "foldl (\<lambda>b c. b \<and> P c) b s \<longleftrightarrow> b \<and> (\<forall>c \<in> set s. P c)"
  by (induction s arbitrary: b) auto

lemma check_valid_digits:
  assumes "base \<in> {2, 8, 10, 16}"
  shows "check_valid_number s base \<longleftrightarrow> s = [] \<or> numeral_in base s"
proof -
  have d: "(case digit_of c of None \<Rightarrow> False | Some d \<Rightarrow> d < base) \<longleftrightarrow>
    (if base = 16 then between CHR ''0'' c CHR ''9'' \<or> between CHR ''a'' c CHR ''f'' \<or> between CHR ''A'' c CHR ''F''
     else 48 \<le> (of_char c :: nat) \<and> of_char c < 48 + base)" for c
    using assms by (auto simp: digit_of_def between_def Let_def)
  show ?thesis
    unfolding check_valid_number_def foldl_and numeral_in_def d by auto
qed

lemma split_prefix_base: "split_prefix s = (t, base) \<Longrightarrow> base \<in> {2, 8, 10, 16}"
  by (auto simp: split_prefix_def Let_def split: if_splits)

lemma string2Fr_numeral:
  assumes "gmp_spec g" "split_prefix s = (t, base)" "numeral_in base t"
  shows "returns (string2Fr g s) (numeral_val base t mod q_int)"
proof -
  have b: "base \<in> {2, 8, 10, 16}" using assms(2) by (rule split_prefix_base)
  then have "check_valid_number t base" "2 \<le> base" "base \<le> 16"
    using assms(3) check_valid_digits [of base t] by auto
  then show ?thesis
    using Fr_str2element_returns [OF assms(1) _ _ assms(3)] assms(2) by (simp add: string2Fr_def)
qed

lemma string2Fr_invalid:
  assumes "split_prefix s = (t, base)" "t \<noteq> []" "\<not> numeral_in base t"
  shows "string2Fr g s = Inl (RuntimeError (''Invalid number in JSON input: '' @ s))"
proof -
  have "\<not> check_valid_number t base"
    using assms split_prefix_base [OF assms(1)] check_valid_digits [of base t] by auto
  then show ?thesis using assms(1) by (simp add: string2Fr_def)
qed

text \<open>The reference for nested arrays of numeric strings: flatten, then convert one by one.\<close>

fun json_leaves :: "json \<Rightarrow> json list" and json_leaves_list :: "json list \<Rightarrow> json list" where
  "json_leaves (J_array vs) = json_leaves_list vs"
| "json_leaves v = [v]"
| "json_leaves_list [] = []"
| "json_leaves_list (v # vs) = json_leaves v @ json_leaves_list vs"

lemma json2Fr_list_append:
  "json2FrElements_list g nt (us @ vs) vval =
     bindR (json2FrElements_list g nt us vval) (json2FrElements_list g nt vs)"
  by (induction us arbitrary: vval) (auto simp: bindR_def split: sum.splits)

lemma json2Fr_flatten:
  "json2FrElements g nt v vval = json2FrElements_list g nt (json_leaves v) vval"
  "json2FrElements_list g nt vs vval = json2FrElements_list g nt (json_leaves_list vs) vval"
proof (induction g nt v vval and g nt vs vval rule: json2FrElements_json2FrElements_list.induct)
  case (10 g nt v vs vval)
  then show ?case by (auto simp: json2Fr_list_append bindR_def split: sum.splits)
qed (simp_all add: bindR_def split: sum.splits)

lemma json2Fr_strings:
  assumes "list_all2 (\<lambda>v x. \<exists>s. v = J_string s \<and> returns (string2Fr g s) x) vs xs"
  shows "\<exists>es. json2FrElements_list g nt vs vval = Inr (vval @ es) \<and> list_all2 (\<lambda>e x. fok e \<and> fval e = x) es xs"
  using assms
proof (induction vs xs arbitrary: vval rule: list_all2_induct)
  case Nil
  then show ?case by simp
next
  case (Cons v vs x xs)
  then obtain s e where v: "v = J_string s" "string2Fr g s = Inr e" "fok e" "fval e = x"
    by (auto simp: returns_def)
  from Cons.IH [of "vval @ [e]"] obtain es where
    "json2FrElements_list g nt vs (vval @ [e]) = Inr (vval @ e # es)"
    "list_all2 (\<lambda>e x. fok e \<and> fval e = x) es xs" by auto
  then show ?case using v by (intro exI [of _ "e # es"]) simp
qed

section \<open>The witness file\<close>

definition witness_ok :: "Circom_CalcWit \<Rightarrow> bool" where
  "witness_ok ctx \<longleftrightarrow>
     length (witness2SignalList (circuit ctx)) = unat get_size_of_witness \<and>
     (\<forall>w \<in> set (witness2SignalList (circuit ctx)).
        unat w < unat get_total_signal_no \<and> (\<exists>e. signalValues ctx (unat w) = Some e \<and> fok e))"

text \<open>The value of entry \<open>i\<close> of the witness.\<close>

definition witness_val :: "Circom_CalcWit \<Rightarrow> nat \<Rightarrow> int" where
  "witness_val ctx i = fval (the (signalValues ctx (unat (witness2SignalList (circuit ctx) ! i))))"

lemma getWitness_ok:
  assumes "witness_ok ctx" "i < unat get_size_of_witness"
  shows "\<exists>e. getWitness ctx i = Inr e \<and> fok e \<and> fval e = witness_val ctx i"
proof -
  let ?w = "witness2SignalList (circuit ctx) ! i"
  have len: "i < length (witness2SignalList (circuit ctx))" using assms by (simp add: witness_ok_def)
  then obtain e where e: "unat ?w < unat get_total_signal_no" "signalValues ctx (unat ?w) = Some e" "fok e"
    using assms(1) nth_mem unfolding witness_ok_def by blast
  have "arr_read (unat get_total_signal_no) (signalValues ctx) (int (unat ?w)) = Inr e"
    using e by (simp only: arr_read_int) simp
  then show ?thesis
    using len e by (simp add: getWitness_def read_list_def Fr_copy_def witness_val_def)
qed

lemma raw_row: "fok e \<Longrightarrow> raw_bytes (longVal (Fr_toLongNormal e)) = le_bytes 32 (fval e)"
proof -
  assume "fok e"
  then have "le_val (raw_bytes (longVal (Fr_toLongNormal e))) = fval e"
    by (simp add: le_val_raw_bytes toLongNormal_val(1))
  moreover have "le_bytes 32 (le_val (raw_bytes r)) = raw_bytes r" for r
    using le_bytes_le_val [of "raw_bytes r"] by simp
  ultimately show ?thesis by metis
qed

lemma witness_rows_eq:
  assumes "witness_ok ctx" "i + n \<le> unat get_size_of_witness"
  shows "witness_rows ctx i n = Inr (concat (map (\<lambda>j. le_bytes 32 (witness_val ctx j)) [i..<i + n]))"
  using assms(2)
proof (induction n arbitrary: i)
  case (Suc n)
  then have "i < unat get_size_of_witness" by simp
  then obtain e where e: "getWitness ctx i = Inr e" "fok e" "fval e = witness_val ctx i"
    using getWitness_ok [OF assms(1)] by blast
  have "[i..<i + Suc n] = i # [Suc i..<Suc i + n]" by (simp add: upt_conv_Cons)
  then show ?case using e Suc by (simp add: raw_row del: upt_Suc)
qed simp

lemma writeBinWitness_eq:
  assumes "witness_ok ctx"
  shows "writeBinWitness ctx =
    Inr (witness_header @ concat (map (\<lambda>j. le_bytes 32 (witness_val ctx j)) [0..<unat get_size_of_witness]))"
  using witness_rows_eq [OF assms, of 0] by (simp add: writeBinWitness_def)

text \<open>A reader of the file: entry \<open>i\<close> of the data section.\<close>

definition read_entry :: "u8 list \<Rightarrow> nat \<Rightarrow> int" where
  "read_entry file i = le_val (take 32 (drop (76 + 32 * i) file))"

lemma drop_concat_rows:
  assumes "\<And>j. length (f j) = k" "i < n"
  shows "take k (drop (k * i) (concat (map f [m..<m + n]))) = f (m + i)"
  using assms(2)
proof (induction n arbitrary: m i)
  case (Suc n)
  have u: "[m..<m + Suc n] = m # [Suc m..<Suc m + n]" by (simp add: upt_conv_Cons)
  show ?case
  proof (cases i)
    case 0
    then show ?thesis unfolding u using assms(1) [of m] by simp
  next
    case (Suc i')
    then show ?thesis unfolding u using assms(1) [of m] Suc.prems Suc.IH [of i' "Suc m"] by simp
  qed
qed simp

lemma header_length: "length witness_header = 76"
  by (simp add: witness_header_def)

lemma read_entry_written:
  assumes "witness_ok ctx" "writeBinWitness ctx = Inr file" "i < unat get_size_of_witness"
  shows "read_entry file i = witness_val ctx i"
proof -
  let ?rows = "concat (map (\<lambda>j. le_bytes 32 (witness_val ctx j)) [0..<0 + unat get_size_of_witness])"
  have f: "file = witness_header @ ?rows" using assms(2) writeBinWitness_eq [OF assms(1)] by simp
  have "drop (76 + 32 * i) file = drop (32 * i) ?rows"
    unfolding f using header_length by simp
  then have "take 32 (drop (76 + 32 * i) file) = le_bytes 32 (witness_val ctx i)"
    using drop_concat_rows [of "\<lambda>j. le_bytes 32 (witness_val ctx j)" 32 i "unat get_size_of_witness" 0] assms(3)
    by simp
  moreover have "0 \<le> witness_val ctx i \<and> witness_val ctx i < 256 ^ 32"
    using fval_bounds [of "the (signalValues ctx (unat (witness2SignalList (circuit ctx) ! i)))"] q_int_bounds
    by (simp add: witness_val_def)
  ultimately show ?thesis by (simp add: read_entry_def le_val_le_bytes)
qed

section \<open>The circuit file\<close>

lemma u32_of_bytes: "u32_of (le_bytes 4 x @ bs) = word_of_int x"
proof -
  have "word_of_int (x mod 256 ^ 4) = (word_of_int x :: u32)"
    by (simp add: word_of_int_eq_iff take_bit_eq_mod)
  then show ?thesis by (simp add: u32_of_def le_val_le_bytes)
qed

lemma element_bytes_length [simp]: "length (element_bytes e) = 40"
  by (cases e) simp_all

lemma element_roundtrip: "element_of (element_bytes e) = e"
  by (cases e) (simp_all add: element_of_def u32_of_bytes Let_def)

lemma chunks_concat:
  "(\<And>x. length (f x) = k) \<Longrightarrow> chunks k (length xs) (concat (map f xs)) = map f xs"
  by (induction xs) auto

lemma constants_roundtrip:
  "map element_of (chunks 40 (length es) (concat (map element_bytes es))) = es"
  by (simp add: chunks_concat comp_def element_roundtrip)

section \<open>The circuit starts only when every input is there\<close>

definition inputs_complete :: "Circom_CalcWit \<Rightarrow> bool" where
  "inputs_complete ctx \<longleftrightarrow>
     inputSignalAssignedCounter ctx = 0 \<and>
     (\<forall>k < unat get_main_input_signal_no. signalValues ctx (Suc k) \<noteq> None)"

lemma inv_complete: "inputs_inv ctx \<Longrightarrow> inputSignalAssignedCounter ctx = 0 \<Longrightarrow> inputs_complete ctx"
  using complete_inputs by (simp add: inputs_complete_def)

text \<open>Two circuits that agree on complete inputs; a run leaves the input bookkeeping alone.\<close>

definition agree_complete :: "Circom_CalcWit stmt \<Rightarrow> Circom_CalcWit stmt \<Rightarrow> bool" where
  "agree_complete run run' \<longleftrightarrow>
     (\<forall>c. inputs_complete c \<longrightarrow> run c = run' c) \<and>
     (\<forall>c c'. inputs_inv c \<longrightarrow> run c = Some (Inr c') \<longrightarrow> inputs_inv c')"

lemma tryRun_agree:
  "agree_complete run run' \<Longrightarrow> inputs_inv ctx \<Longrightarrow> tryRunCircuit run ctx = tryRunCircuit run' ctx"
  using inv_complete by (simp add: tryRunCircuit_def agree_complete_def)

lemma tryRun_inv:
  "agree_complete run run' \<Longrightarrow> inputs_inv ctx \<Longrightarrow> tryRunCircuit run ctx = Some (Inr ctx') \<Longrightarrow> inputs_inv ctx'"
  by (auto simp: tryRunCircuit_def agree_complete_def split: if_splits)

lemma setInputSignal_agree:
  assumes "agree_complete run run'" "inputs_inv ctx"
  shows "setInputSignal run h i v ctx = setInputSignal run' h i v ctx"
    and "setInputSignal run h i v ctx = Some (Inr ctx') \<Longrightarrow> inputs_inv ctx'"
proof -
  have inv: "inputs_inv c" if "inputSignalAssignedCounter ctx \<noteq> 0" "assign_input ctx pos i v = Inr c" for pos c
    using assign_input_inv [OF assms(2) that] .
  show "setInputSignal run h i v ctx = setInputSignal run' h i v ctx"
    using inv tryRun_agree [OF assms(1)]
    by (auto simp: setInputSignal_def split: option.splits sum.splits)
  show "inputs_inv ctx'" if "setInputSignal run h i v ctx = Some (Inr ctx')"
    using inv that tryRun_inv [OF assms(1)]
    by (auto simp: setInputSignal_def split: option.splits sum.splits if_splits)
qed

lemma set_values_agree:
  assumes "agree_complete run run'" "inputs_inv ctx"
  shows "set_values run h i vs ctx = set_values run' h i vs ctx \<and>
    (\<forall>ctx'. set_values run h i vs ctx = Some (Inr ctx') \<longrightarrow> inputs_inv ctx')"
  using assms(2)
proof (induction vs arbitrary: i ctx)
  case (Cons v vs)
  let ?r = "setInputSignal run h (of_nat i) v ctx"
  have eq: "setInputSignal run' h (of_nat i) v ctx = ?r"
    using setInputSignal_agree(1) [OF assms(1) Cons.prems] by simp
  consider "?r = None" | e where "?r = Some (Inl e)" | c where "?r = Some (Inr c)"
    by (metis not_None_eq old.sum.exhaust)
  then show ?case
  proof cases
    case 3
    then have "inputs_inv c" using setInputSignal_agree(2) [OF assms(1) Cons.prems] by blast
    then show ?thesis using 3 Cons.IH [of c "i + 1"] by (simp add: eq)
  qed (simp_all add: eq)
qed simp

lemma load_signal_agree:
  assumes "agree_complete run run'" "inputs_inv ctx"
  shows "load_signal g nt run kv ctx = load_signal g nt run' kv ctx"
    and "load_signal g nt run kv ctx = Some (Inr ctx') \<Longrightarrow> inputs_inv ctx'"
  using set_values_agree [OF assms]
  by (auto simp: load_signal_def Let_def split: option.splits sum.splits prod.splits if_splits)

lemma seq_agree:
  assumes "agree_complete run run'" "inputs_inv ctx"
  shows "seqM (map (load_signal g nt run) j) ctx = seqM (map (load_signal g nt run') j) ctx"
  using assms(2)
proof (induction j arbitrary: ctx)
  case (Cons kv j)
  let ?r = "load_signal g nt run kv ctx"
  have eq: "load_signal g nt run' kv ctx = ?r"
    using load_signal_agree(1) [OF assms(1) Cons.prems] by simp
  consider "?r = None" | e where "?r = Some (Inl e)" | c where "?r = Some (Inr c)"
    by (metis not_None_eq old.sum.exhaust)
  then show ?case
  proof cases
    case 3
    then have "inputs_inv c" using load_signal_agree(2) [OF assms(1) Cons.prems] by blast
    then show ?thesis using 3 Cons.IH [of c] by (simp add: eq seqM.simps)
  qed (simp_all add: eq seqM.simps)
qed simp

lemma loadJson_agree:
  assumes "agree_complete run run'" "inputs_inv ctx"
  shows "loadJson g nt run jin ctx = loadJson g nt run' jin ctx"
proof (cases "qualify_input '''' jin []")
  case (Inr j)
  show ?thesis
    using Inr seq_agree [OF assms, of g nt j] tryRun_agree [OF assms]
    by (cases j) (auto simp: loadJson_def seqM.simps split: option.splits sum.splits)
qed (simp add: loadJson_def)

lemma CalcWit_new_inv: "Circom_CalcWit_new g c n = Inr ctx \<Longrightarrow> inputs_inv ctx"
  by (auto simp: Circom_CalcWit_new_def inputs_inv_def circuit_sizes bindR_def split: sum.splits)

end
