(* ===== verification/Examples.thy ===== *)
theory Examples
  imports Circuit_Leaf Raw_Fr Main_IO
begin

text \<open>
  Concrete states at which the properties are exercised: a calculator whose circuit has the small
  constants of \<open>circuit.dat\<close> in place, whose components are created and whose signals are written.
\<close>

text \<open>The small constants of \<open>circuit.dat\<close> by number, as a search tree.\<close>

datatype const_tree = Leafv | Nodev const_tree nat int const_tree

fun find_const :: "const_tree \<Rightarrow> nat \<Rightarrow> int" where
  "find_const Leafv i = 7"
| "find_const (Nodev l k v r) i = (if i < k then find_const l i else if i = k then v else find_const r i)"

definition demo_tree :: const_tree where
  "demo_tree =
     (Nodev (Nodev (Nodev (Nodev (Nodev (Nodev (Nodev Leafv 88 0 Leafv) 89 4 (Nodev Leafv 90 1
     Leafv)) 107 8 (Nodev (Nodev Leafv 456 11 Leafv) 457 2 Leafv)) 459 18 (Nodev (Nodev (Nodev
     Leafv 460 3 Leafv) 462 25 (Nodev Leafv 463 28 Leafv)) 464 32 (Nodev (Nodev Leafv 467 39
     Leafv) 470 46 Leafv))) 472 53 (Nodev (Nodev (Nodev (Nodev Leafv 474 60 Leafv) 476 63
     (Nodev Leafv 477 67 Leafv)) 480 74 (Nodev (Nodev Leafv 482 81 Leafv) 484 88 Leafv)) 485 13
     (Nodev (Nodev (Nodev Leafv 487 95 Leafv) 488 98 (Nodev Leafv 489 102 Leafv)) 492 109
     (Nodev (Nodev Leafv 494 116 Leafv) 497 123 Leafv)))) 499 130 (Nodev (Nodev (Nodev (Nodev
     (Nodev Leafv 501 133 Leafv) 502 137 (Nodev Leafv 505 144 Leafv)) 507 151 (Nodev (Nodev
     Leafv 510 158 Leafv) 511 23 Leafv)) 513 165 (Nodev (Nodev (Nodev Leafv 515 168 Leafv) 516
     172 (Nodev Leafv 518 179 Leafv)) 521 186 (Nodev (Nodev Leafv 524 193 Leafv) 526 200
     Leafv))) 528 203 (Nodev (Nodev (Nodev (Nodev Leafv 529 207 Leafv) 532 214 (Nodev Leafv 535
     221 Leafv)) 537 228 (Nodev (Nodev Leafv 538 33 Leafv) 540 235 Leafv)) 542 238 (Nodev
     (Nodev (Nodev Leafv 543 242 Leafv) 545 249 Leafv) 548 256 (Nodev (Nodev Leafv 551 263
     Leafv) 552 38 Leafv))))) 554 270 (Nodev (Nodev (Nodev (Nodev (Nodev (Nodev Leafv 555 273
     Leafv) 556 277 (Nodev Leafv 559 284 Leafv)) 562 291 (Nodev (Nodev Leafv 564 298 Leafv) 565
     43 Leafv)) 567 305 (Nodev (Nodev (Nodev Leafv 570 312 Leafv) 573 319 (Nodev Leafv 575 326
     Leafv)) 578 333 (Nodev (Nodev Leafv 579 48 Leafv) 581 340 Leafv))) 583 347 (Nodev (Nodev
     (Nodev (Nodev Leafv 586 354 Leafv) 589 361 (Nodev Leafv 592 368 Leafv)) 594 375 (Nodev
     (Nodev Leafv 597 382 Leafv) 600 389 Leafv)) 607 68 (Nodev (Nodev (Nodev Leafv 608 58
     Leafv) 615 73 Leafv) 617 78 (Nodev (Nodev Leafv 620 83 Leafv) 627 93 Leafv)))) 634 103
     (Nodev (Nodev (Nodev (Nodev (Nodev Leafv 638 108 Leafv) 641 113 (Nodev Leafv 645 118
     Leafv)) 652 128 (Nodev (Nodev Leafv 659 138 Leafv) 663 143 Leafv)) 666 148 (Nodev (Nodev
     (Nodev Leafv 670 153 Leafv) 677 163 (Nodev Leafv 684 173 Leafv)) 688 178 (Nodev (Nodev
     Leafv 691 183 Leafv) 695 188 Leafv))) 702 198 (Nodev (Nodev (Nodev (Nodev Leafv 709 208
     Leafv) 713 213 (Nodev Leafv 716 218 Leafv)) 720 223 (Nodev (Nodev Leafv 727 233 Leafv) 734
     243 Leafv)) 738 248 (Nodev (Nodev (Nodev Leafv 741 253 Leafv) 745 258 Leafv) 752 268
     (Nodev (Nodev Leafv 759 278 Leafv) 763 283 Leafv))))))"

definition demo_const :: "nat \<Rightarrow> FrElement" where
  "demo_const i = Fr_SHORT (word_of_int (find_const demo_tree i))"

definition demo_table :: "HashSignalInfo list" where
  "demo_table = (replicate 256 \<lparr>hash = 0, signalid = 0, signalsize = 0\<rparr>)
     [197 := \<lparr>hash = 11769310039851165637, signalid = 1, signalsize = 1\<rparr>]"

definition demo_circuit :: Circom_Circuit where
  "demo_circuit =
     \<lparr>InputHashMap = demo_table, witness2SignalList = replicate 48610 5,
      circuitConstants = map demo_const [0..<25024],
      templateInsId2IOSignalInfo = Map.empty, busInsId2FieldInfo = None\<rparr>"

definition demo_component :: Circom_Component where
  "demo_component = Circom_Component_new
     \<lparr>signalStart := Some 10, idFather := Some 0, inputCounter := Some 0, subcomponents := Live [],
      componentName := ''main''\<rparr>"

definition demo_ctx :: Circom_CalcWit where
  "demo_ctx =
     \<lparr>inputSignalAssigned = replicate 193 False, inputSignalAssignedCounter = 193,
      circuit = demo_circuit, signalValues = (\<lambda>_. Some (Fr_SHORT 1)),
      componentMemory = (\<lambda>_. demo_component), maxThread = 32, numThread = 0\<rparr>"

lemma demo_tree_ok:
  "list_all (\<lambda>(i, v). find_const demo_tree i = v \<and> i < 25024 \<and> fits32 v) small_constants"
  by (simp add: small_constants_def mixs4_oc_def mixs3_oc_def upt_rec demo_tree_def fits32_def
      cong: if_weak_cong)

lemma demo_consts_ok: "circuit_consts_ok demo_ctx"
proof -
  have "small (map demo_const [0..<25024] ! i) v" if "(i, v) \<in> set small_constants" for i v
  proof -
    have "find_const demo_tree i = v \<and> i < 25024 \<and> fits32 v"
      using demo_tree_ok that unfolding list_all_iff by fast
    then show ?thesis by (simp add: demo_const_def smallI)
  qed
  then show ?thesis
    by (auto simp: circuit_consts_ok_def demo_ctx_def demo_circuit_def circuit_sizes demo_const_def)
qed

lemma demo_ready: "i < 14485 \<Longrightarrow> component_ready demo_ctx i 10"
  by (simp add: component_ready_def demo_ctx_def demo_component_def circuit_sizes)

lemma demo_carries: "carries demo_ctx a n (\<lambda>_. 1)"
  by (simp add: carries_def demo_ctx_def q_int_def)

lemma demo_inv: "inputs_inv demo_ctx"
  by (simp add: inputs_inv_def demo_ctx_def circuit_sizes)

lemma demo_table_ok: "table_size_ok (InputHashMap (circuit demo_ctx))"
  by (simp add: table_size_ok_def demo_ctx_def demo_circuit_def demo_table_def circuit_sizes)

lemma demo_witness_ok: "witness_ok demo_ctx"
  by (simp add: witness_ok_def demo_ctx_def demo_circuit_def circuit_sizes)

lemmas demo_state = demo_consts_ok demo_ready demo_carries demo_inv demo_table_ok demo_witness_ok

end
