(* ===== verification/Compose.thy ===== *)
theory Compose
  imports Templates Circuit_Create
begin

text \<open>
  The statements of the generated \<open>_run\<close> functions of \<open>circuit_cpp/circuit.cpp\<close> that have
  subcomponents: creating them, reading and writing their signals, counting their inputs down and
  running them when the last input has arrived, and the calls of the functions that fill a local
  array with constants. Then the contract of a run function, as its caller relies on it.
\<close>

section \<open>Statements on the calculator inside a frame\<close>

definition on_ctx :: "Circom_CalcWit stmt \<Rightarrow> frame stmt" where
  "on_ctx c s =
     (case c (f_ctx s) of
        None \<Rightarrow> None
      | Some (Inl e) \<Rightarrow> Some (Inl e)
      | Some (Inr ctx') \<Rightarrow> Some (Inr (s\<lparr>f_ctx := ctx'\<rparr>)))"

section \<open>Creating subcomponents\<close>

text \<open>\<open>mySubcomponents[i] = v\<close>: the pointer is that of the component \<open>idx\<close>.\<close>

definition set_sub :: "nat \<Rightarrow> nat \<Rightarrow> u32 \<Rightarrow> Circom_CalcWit \<Rightarrow> cerr + Circom_CalcWit" where
  "set_sub idx i v ctx =
     bindR (comp_at ctx idx) (\<lambda>c.
       case subcomponents c of
         Null \<Rightarrow> Inl NullPointer
       | Freed \<Rightarrow> Inl UseAfterFree
       | Live xs \<Rightarrow>
           if i < length xs then comp_upd idx (\<lambda>c. c\<lparr>subcomponents := Live (xs[i := v])\<rparr>) ctx
           else Inl OutOfBounds)"

text \<open>
  \<open>X_create(mySignalStart + so, co + ctx_index + 1, ctx, new_cmp_name, myId)\<close> and the assignment of
  the component's number; the signal offset is cut to 32 bits by the parameter's type.
\<close>

definition create_at :: "creator \<Rightarrow> nat \<Rightarrow> u32 \<Rightarrow> u32 \<Rightarrow> string \<Rightarrow> frame stmt" where
  "create_at cr i so co nm s =
     seqM [on_ctx (cr so co nm (of_nat (ctx_index s))), on_ctx (liftM (set_sub (ctx_index s) i co))] s"

definition create_sub :: "creator \<Rightarrow> nat \<Rightarrow> nat \<Rightarrow> nat \<Rightarrow> string \<Rightarrow> frame stmt" where
  "create_sub cr i so co nm s =
     create_at cr i (ucast (mySignalStart s + of_nat so)) (of_nat co + of_nat (ctx_index s) + 1) nm s"

text \<open>
  The loop that creates an array of components of one template: \<open>csoffset\<close> and \<open>aux_cmp_num\<close> are
  advanced by the number of signals and of components of the template.
\<close>

primrec create_loop ::
    "creator \<Rightarrow> string \<Rightarrow> u32 list \<Rightarrow> nat \<Rightarrow> nat \<Rightarrow> nat \<Rightarrow> nat \<Rightarrow> nat \<Rightarrow> u32 \<Rightarrow> u32 \<Rightarrow> frame stmt" where
  "create_loop cr nm dims aux_create sstep cstep 0 i csoffset aux_cmp_num = skipM"
| "create_loop cr nm dims aux_create sstep cstep (Suc n) i csoffset aux_cmp_num = (\<lambda>s.
     case generate_position_array dims (of_nat i) of
       Inl e \<Rightarrow> Some (Inl e)
     | Inr pos \<Rightarrow>
         seqM [create_at cr (aux_create + i) csoffset aux_cmp_num (nm @ pos),
               create_loop cr nm dims aux_create sstep cstep n (i + 1)
                 (csoffset + of_nat sstep) (aux_cmp_num + of_nat cstep)] s)"

definition create_array ::
    "creator \<Rightarrow> nat \<Rightarrow> nat \<Rightarrow> nat \<Rightarrow> string \<Rightarrow> u32 list \<Rightarrow> nat \<Rightarrow> nat \<Rightarrow> nat \<Rightarrow> frame stmt" where
  "create_array cr aux_create so co nm dims n sstep cstep s =
     create_loop cr nm dims aux_create sstep cstep n 0
       (ucast (mySignalStart s + of_nat so)) (of_nat co + of_nat (ctx_index s) + 1) s"

section \<open>Signals of subcomponents\<close>

text \<open>\<open>mySubcomponents[k]\<close>, and the component with that number.\<close>

definition sub_ref :: "frame \<Rightarrow> int \<Rightarrow> cerr + nat" where
  "sub_ref s k =
     bindR (comp_at (f_ctx s) (ctx_index s)) (\<lambda>c.
       case subcomponents c of
         Null \<Rightarrow> Inl NullPointer
       | Freed \<Rightarrow> Inl UseAfterFree
       | Live xs \<Rightarrow> if 0 \<le> k \<and> k < int (length xs) then Inr (unat (xs ! nat k)) else Inl OutOfBounds)"

definition sub_start :: "frame \<Rightarrow> int \<Rightarrow> cerr + u64" where
  "sub_start s k =
     bindR (sub_ref s k) (\<lambda>j. bindR (comp_at (f_ctx s) j) (\<lambda>c. of_member (signalStart c)))"

text \<open>The address of signal \<open>ix\<close> of subcomponent \<open>k\<close>, directly or through the field map.\<close>

definition sub_addr :: "index \<Rightarrow> int \<Rightarrow> frame \<Rightarrow> cerr + int" where
  "sub_addr ix k s =
     bindR (sub_start s k) (\<lambda>st. bindR (ix s) (\<lambda>o1. Inr ((uint st + o1) mod 2 ^ 64)))"

definition io_def :: "frame \<Rightarrow> int \<Rightarrow> nat \<Rightarrow> cerr + IOFieldDef" where
  "io_def s k d =
     bindR (sub_ref s k) (\<lambda>j.
     bindR (comp_at (f_ctx s) j) (\<lambda>c.
     bindR (of_member (templateId c)) (\<lambda>t.
       case templateInsId2IOSignalInfo (circuit (f_ctx s)) t of
         None \<Rightarrow> Inl NullPointer
       | Some p \<Rightarrow> read_list (pair_defs p) d)))"

definition io_addr :: "nat \<Rightarrow> index \<Rightarrow> int \<Rightarrow> frame \<Rightarrow> cerr + int" where
  "io_addr d ix k s =
     bindR (io_def s k d) (\<lambda>f.
     bindR (ix s) (\<lambda>o1.
     bindR (sub_start s k) (\<lambda>st.
       Inr ((uint st + uint (io_offset f) + o1 * uint (io_size f) mod 2 ^ 32) mod 2 ^ 64))))"

text \<open>As a source and as a destination; \<open>A\<close> is one of the two address functions.\<close>

definition from_sub :: "index \<Rightarrow> (int \<Rightarrow> frame \<Rightarrow> cerr + int) \<Rightarrow> operand" where
  "from_sub k A s =
     bindR (k s) (\<lambda>i. bindR (A i s) (\<lambda>a. arr_read (unat get_total_signal_no) (sigs s) a))"

definition to_addr :: "(int \<Rightarrow> frame \<Rightarrow> cerr + int) \<Rightarrow> int \<Rightarrow> frame \<Rightarrow> cerr + dest" where
  "to_addr A k s = bindR (A k s) (\<lambda>a. Inr (D_sig a))"

section \<open>Running subcomponents\<close>

text \<open>\<open>(*_functionTable[templateId])(j, ctx)\<close>.\<close>

definition by_table :: "runner list \<Rightarrow> runner" where
  "by_table ft j ctx =
     (case bindR (comp_at ctx j) (\<lambda>c. bindR (of_member (templateId c)) (\<lambda>t. read_list ft (unat t))) of
        Inl e \<Rightarrow> Some (Inl e)
      | Inr r \<Rightarrow> r j ctx)"

text \<open>\<open>if (!(ctx->componentMemory[mySubcomponents[k]].inputCounter -= 1)) r(mySubcomponents[k], ctx)\<close>\<close>

definition input_arrived :: "runner \<Rightarrow> nat \<Rightarrow> Circom_CalcWit stmt" where
  "input_arrived r j ctx =
     (case bindR (comp_at ctx j) (\<lambda>c. of_member (inputCounter c)) of
        Inl e \<Rightarrow> Some (Inl e)
      | Inr n \<Rightarrow>
          seqM [liftM (comp_upd j (\<lambda>c. c\<lparr>inputCounter := Some (n - 1)\<rparr>)),
                (if n - 1 = 0 then r j else skipM)] ctx)"

definition run_sub :: "runner \<Rightarrow> int \<Rightarrow> frame stmt" where
  "run_sub r k s =
     (case sub_ref s k of Inl e \<Rightarrow> Some (Inl e) | Inr j \<Rightarrow> on_ctx (input_arrived r j) s)"

text \<open>The whole block that gives a subcomponent one input; its number is computed once.\<close>

definition sub_input ::
    "index \<Rightarrow> (int \<Rightarrow> frame \<Rightarrow> cerr + int) \<Rightarrow> frame stmt list \<Rightarrow> operand \<Rightarrow> runner \<Rightarrow> frame stmt" where
  "sub_input k A cs a r s =
     (case k s of
        Inl e \<Rightarrow> Some (Inl e)
      | Inr i \<Rightarrow> seqM [block (to_addr A i) cs a, run_sub r i] s)"

section \<open>Copies of arrays and calls of constant functions\<close>

text \<open>\<open>Fr_copyn\<close> between local variables.\<close>

definition copyn :: "nat \<Rightarrow> nat \<Rightarrow> nat \<Rightarrow> frame stmt" where
  "copyn dst src n = forM n (\<lambda>i. copyM (D_lvar (int (dst + i))) (lv (src + i)))"

text \<open>
  One branch of a constant function: the number of the constant its argument is compared with,
  the constants it loads into \<open>lvar[1]\<close> and up (as runs of consecutive numbers), the rows it
  copies (destination, source, length), and the position and length of what it returns.
\<close>

type_synonym branch = "nat \<times> (nat \<times> nat) list \<times> (nat \<times> nat \<times> nat) list \<times> nat \<times> nat"

definition spans :: "(nat \<times> nat) list \<Rightarrow> nat list" where
  "spans ps = concat (map (\<lambda>(n, c). [c..<c + n]) ps)"

definition load_rows :: "nat list \<Rightarrow> frame stmt" where
  "load_rows ms = load_consts (zip [1..<Suc (length ms)] ms)"

fun read_cells :: "nat \<Rightarrow> nat \<Rightarrow> frame \<Rightarrow> cerr + FrElement list" where
  "read_cells i 0 s = Inr []"
| "read_cells i (Suc n) s = bindR (lv i s) (\<lambda>v. bindR (read_cells (i + 1) n s) (\<lambda>vs. Inr (v # vs)))"

definition take_branch :: "branch \<Rightarrow> nat \<Rightarrow> frame \<Rightarrow> (cerr + FrElement list) option" where
  "take_branch b destination_size s =
     (case b of (c, ps, cps, src, n) \<Rightarrow>
       (case seqM (load_rows (spans ps) # map (\<lambda>(d, s, n). copyn d s n) cps) s of
          None \<Rightarrow> None
        | Some (Inl e) \<Rightarrow> Some (Inl e)
        | Some (Inr t) \<Rightarrow> Some (read_cells src (min n destination_size) t)))"

text \<open>The chain of comparisons; past the last one stands an assertion of the constant zero.\<close>

fun constant_function :: "branch list \<Rightarrow> nat \<Rightarrow> frame \<Rightarrow> (cerr + FrElement list) option" where
  "constant_function [] destination_size s =
     (case bindR (con 88 s) (\<lambda>z. Inr (Fr_isTrue z)) of
        Inl e \<Rightarrow> Some (Inl e)
      | Inr t \<Rightarrow>
          if t then Some (bindR (con 88 s) (\<lambda>z. Inr [z])) else Some (Inl (AssertFailed ''constant'')))"
| "constant_function (b # bs) destination_size s =
     (case op2 Fr_eq 0 (lv 0) (con (fst b)) s of
        None \<Rightarrow> None
      | Some (Inl e) \<Rightarrow> Some (Inl e)
      | Some (Inr t) \<Rightarrow>
          (case isTrueE 0 t of
             Inl e \<Rightarrow> Some (Inl e)
           | Inr u \<Rightarrow> if u then take_branch b destination_size t else constant_function bs destination_size t))"

text \<open>
  The call bucket: a local array \<open>lvarcall\<close> of \<open>sz\<close> cells with the constant \<open>c\<close> as the argument;
  the result goes to \<open>lvar[dst]\<close> and up.
\<close>

definition store_cells :: "nat \<Rightarrow> FrElement list \<Rightarrow> frame \<Rightarrow> cerr + frame" where
  "store_cells dst vs s =
     (if dst + length vs \<le> lvar_size s
      then Inr (s\<lparr>lvar := (\<lambda>i. if dst \<le> i \<and> i < dst + length vs then Some (vs ! (i - dst)) else lvar s i)\<rparr>)
      else Inl OutOfBounds)"

definition call_constants ::
    "(nat \<Rightarrow> frame \<Rightarrow> (cerr + FrElement list) option) \<Rightarrow> nat \<Rightarrow> nat \<Rightarrow> nat \<Rightarrow> nat \<Rightarrow> frame stmt" where
  "call_constants f sz c dst destination_size s =
     (case con c s of
        Inl e \<Rightarrow> Some (Inl e)
      | Inr a \<Rightarrow>
          (case f destination_size
                  (s\<lparr>expaux := Map.empty, expaux_size := 2, lvar := [0 \<mapsto> Fr_copy a], lvar_size := sz\<rparr>) of
             None \<Rightarrow> None
           | Some (Inl e) \<Rightarrow> Some (Inl e)
           | Some (Inr vs) \<Rightarrow> Some (store_cells dst vs s)))"

section \<open>Comparisons of small integers\<close>

lemma small_gt [small_int]: "small a m \<Longrightarrow> small b n \<Longrightarrow> Fr_gt a b = bool_elem (n < m)"
  by (auto simp: small_def Fr_gt_def Fr_rgt_def)

lemma small_eq [small_int]: "small a m \<Longrightarrow> small b n \<Longrightarrow> Fr_eq a b = bool_elem (m = n)"
proof -
  have "Fr_req a b \<longleftrightarrow> s = t" if "shortVal a = Some s" "shortVal b = Some t" for s t
    using that by (cases a; cases b) auto
  moreover have "s = t \<longleftrightarrow> sint s = sint t" for s t :: u32
    using signed_word_eqI by blast
  ultimately show "small a m \<Longrightarrow> small b n \<Longrightarrow> Fr_eq a b = bool_elem (m = n)"
    by (auto simp: small_def Fr_eq_def)
qed

end
