(* ===== verification/Poseidon_Tables.thy ===== *)
theory Poseidon_Tables
  imports Compose
begin

text \<open>
  The functions \<open>POSEIDON_C_0\<close>, \<open>POSEIDON_S_1\<close>, \<open>POSEIDON_M_2\<close> and \<open>POSEIDON_P_3\<close> of
  \<open>circuit_cpp/circuit.cpp\<close>, which fill an array with the round constants, the sparse tables and
  the two matrices for the width given as the argument. A definition per branch holds the numbers
  of the circuit constants that the branch copies, as runs (length, first number).
\<close>

section \<open>\<open>POSEIDON_C_0\<close>\<close>

definition POSEIDON_C_width_2 :: branch where
  "POSEIDON_C_width_2 =
    (457, [(72, 1163)], [], 1, 72)"

definition POSEIDON_C_width_3 :: branch where
  "POSEIDON_C_width_3 =
    (460, [(81, 841)], [], 1, 81)"

definition POSEIDON_C_width_4 :: branch where
  "POSEIDON_C_width_4 =
    (89, [(88, 0)], [], 1, 88)"

definition POSEIDON_C_width_5 :: branch where
  "POSEIDON_C_width_5 =
    (465, [(100, 1235)], [], 1, 100)"

definition POSEIDON_C_width_6 :: branch where
  "POSEIDON_C_width_6 =
    (468, [(108, 1335)], [], 1, 108)"

definition POSEIDON_C_width_7 :: branch where
  "POSEIDON_C_width_7 =
    (455, [(119, 1443)], [], 1, 119)"

definition POSEIDON_C_width_8 :: branch where
  "POSEIDON_C_width_8 =
    (107, [(128, 1562)], [], 1, 128)"

definition POSEIDON_C_width_9 :: branch where
  "POSEIDON_C_width_9 =
    (475, [(135, 1690)], [], 1, 135)"

definition POSEIDON_C_width_10 :: branch where
  "POSEIDON_C_width_10 =
    (478, [(140, 1825)], [], 1, 140)"

definition POSEIDON_C_width_11 :: branch where
  "POSEIDON_C_width_11 =
    (456, [(154, 1965)], [], 1, 154)"

definition POSEIDON_C_width_12 :: branch where
  "POSEIDON_C_width_12 =
    (108, [(156, 2119)], [], 1, 156)"

definition POSEIDON_C_width_13 :: branch where
  "POSEIDON_C_width_13 =
    (485, [(169, 2275)], [], 1, 169)"

definition POSEIDON_C_width_14 :: branch where
  "POSEIDON_C_width_14 =
    (458, [(182, 2444)], [], 1, 182)"

definition POSEIDON_C_width_15 :: branch where
  "POSEIDON_C_width_15 =
    (490, [(180, 2626)], [], 1, 180)"

definition POSEIDON_C_width_16 :: branch where
  "POSEIDON_C_width_16 =
    (109, [(192, 2806)], [], 1, 192)"

definition POSEIDON_C_width_17 :: branch where
  "POSEIDON_C_width_17 =
    (495, [(204, 2998)], [], 1, 204)"

definition POSEIDON_C_branches :: "branch list" where
  "POSEIDON_C_branches =
    [POSEIDON_C_width_2, POSEIDON_C_width_3, POSEIDON_C_width_4, POSEIDON_C_width_5,
     POSEIDON_C_width_6, POSEIDON_C_width_7, POSEIDON_C_width_8, POSEIDON_C_width_9,
     POSEIDON_C_width_10, POSEIDON_C_width_11, POSEIDON_C_width_12, POSEIDON_C_width_13,
     POSEIDON_C_width_14, POSEIDON_C_width_15, POSEIDON_C_width_16, POSEIDON_C_width_17]"

definition POSEIDON_C_0 :: "nat \<Rightarrow> frame \<Rightarrow> (cerr + FrElement list) option" where
  "POSEIDON_C_0 = constant_function POSEIDON_C_branches"

lemmas POSEIDON_C_rows =
  POSEIDON_C_branches_def POSEIDON_C_width_2_def POSEIDON_C_width_3_def
  POSEIDON_C_width_4_def POSEIDON_C_width_5_def POSEIDON_C_width_6_def
  POSEIDON_C_width_7_def POSEIDON_C_width_8_def POSEIDON_C_width_9_def
  POSEIDON_C_width_10_def POSEIDON_C_width_11_def POSEIDON_C_width_12_def
  POSEIDON_C_width_13_def POSEIDON_C_width_14_def POSEIDON_C_width_15_def
  POSEIDON_C_width_16_def POSEIDON_C_width_17_def

section \<open>\<open>POSEIDON_S_1\<close>\<close>

definition POSEIDON_S_width_2 :: branch where
  "POSEIDON_S_width_2 =
    (457, [(3, 3202), (1, 3202), (2, 3205), (1, 3202), (2, 3207), (1, 3202), (2, 3209), (1,
     3202), (2, 3211), (1, 3202), (2, 3213), (1, 3202), (2, 3215), (1, 3202), (2, 3217), (1,
     3202), (2, 3219), (1, 3202), (2, 3221), (1, 3202), (2, 3223), (1, 3202), (2, 3225), (1,
     3202), (2, 3227), (1, 3202), (2, 3229), (1, 3202), (2, 3231), (1, 3202), (2, 3233), (1,
     3202), (2, 3235), (1, 3202), (2, 3237), (1, 3202), (2, 3239), (1, 3202), (2, 3241), (1,
     3202), (2, 3243), (1, 3202), (2, 3245), (1, 3202), (2, 3247), (1, 3202), (2, 3249), (1,
     3202), (2, 3251), (1, 3202), (2, 3253), (1, 3202), (2, 3255), (1, 3202), (2, 3257), (1,
     3202), (2, 3259), (1, 3202), (2, 3261), (1, 3202), (2, 3263), (1, 3202), (2, 3265), (1,
     3202), (2, 3267), (1, 3202), (2, 3269), (1, 3202), (2, 3271), (1, 3202), (2, 3273), (1,
     3202), (2, 3275), (1, 3202), (2, 3277), (1, 3202), (2, 3279), (1, 3202), (2, 3281), (1,
     3202), (2, 3283), (1, 3202), (2, 3285), (1, 3202), (2, 3287), (1, 3202), (2, 3289), (1,
     3202), (2, 3291), (1, 3202), (2, 3293), (1, 3202), (2, 3295), (1, 3202), (2, 3297), (1,
     3202), (2, 3299), (1, 3202), (2, 3301), (1, 3202), (2, 3303), (1, 3202), (2, 3305), (1,
     3202), (2, 3307), (1, 3202), (2, 3309), (1, 3202), (2, 3311), (1, 3202), (2, 3313)], [], 1,
     168)"

definition POSEIDON_S_width_3 :: branch where
  "POSEIDON_S_width_3 =
    (460, [(1, 922), (4, 937), (1, 922), (4, 941), (1, 922), (4, 945), (1, 922), (4, 949), (1,
     922), (4, 953), (1, 922), (4, 957), (1, 922), (4, 961), (1, 922), (4, 965), (1, 922), (4,
     969), (1, 922), (4, 973), (1, 922), (4, 977), (1, 922), (4, 981), (1, 922), (4, 985), (1,
     922), (4, 989), (1, 922), (4, 993), (1, 922), (4, 997), (1, 922), (4, 1001), (1, 922), (4,
     1005), (1, 922), (4, 1009), (1, 922), (4, 1013), (1, 922), (4, 1017), (1, 922), (4, 1021),
     (1, 922), (4, 1025), (1, 922), (4, 1029), (1, 922), (4, 1033), (1, 922), (4, 1037), (1,
     922), (4, 1041), (1, 922), (4, 1045), (1, 922), (4, 1049), (1, 922), (4, 1053), (1, 922),
     (4, 1057), (1, 922), (4, 1061), (1, 922), (4, 1065), (1, 922), (4, 1069), (1, 922), (4,
     1073), (1, 922), (4, 1077), (1, 922), (4, 1081), (1, 922), (4, 1085), (1, 922), (4, 1089),
     (1, 922), (4, 1093), (1, 922), (4, 1097), (1, 922), (4, 1101), (1, 922), (4, 1105), (1,
     922), (4, 1109), (1, 922), (4, 1113), (1, 922), (4, 1117), (1, 922), (4, 1121), (1, 922),
     (4, 1125), (1, 922), (4, 1129), (1, 922), (4, 1133), (1, 922), (4, 1137), (1, 922), (4,
     1141), (1, 922), (4, 1145), (1, 922), (4, 1149), (1, 922), (4, 1153), (1, 922), (4, 1157),
     (1, 922), (2, 1161), (2, 923)], [], 1, 285)"

definition POSEIDON_S_width_4 :: branch where
  "POSEIDON_S_width_4 =
    (89, [(1, 91), (6, 122), (1, 91), (6, 128), (1, 91), (6, 134), (1, 91), (6, 140), (1, 91),
     (6, 146), (1, 91), (6, 152), (1, 91), (6, 158), (1, 91), (6, 164), (1, 91), (6, 170), (1,
     91), (6, 176), (1, 91), (6, 182), (1, 91), (6, 188), (1, 91), (6, 194), (1, 91), (6, 200),
     (1, 91), (6, 206), (1, 91), (6, 212), (1, 91), (6, 218), (1, 91), (6, 224), (1, 91), (6,
     230), (1, 91), (6, 236), (1, 91), (6, 242), (1, 91), (6, 248), (1, 91), (6, 254), (1, 91),
     (6, 260), (1, 91), (6, 266), (1, 91), (6, 272), (1, 91), (6, 278), (1, 91), (6, 284), (1,
     91), (6, 290), (1, 91), (6, 296), (1, 91), (6, 302), (1, 91), (6, 308), (1, 91), (6, 314),
     (1, 91), (6, 320), (1, 91), (6, 326), (1, 91), (6, 332), (1, 91), (6, 338), (1, 91), (6,
     344), (1, 91), (6, 350), (1, 91), (6, 356), (1, 91), (6, 362), (1, 91), (6, 368), (1, 91),
     (6, 374), (1, 91), (6, 380), (1, 91), (6, 386), (1, 91), (6, 392), (1, 91), (6, 398), (1,
     91), (6, 404), (1, 91), (6, 410), (1, 91), (6, 416), (1, 91), (6, 422), (1, 91), (6, 428),
     (1, 91), (6, 434), (1, 91), (6, 440), (1, 91), (6, 446), (1, 91), (3, 452), (3, 92)], [],
     1, 392)"

definition POSEIDON_S_width_5 :: branch where
  "POSEIDON_S_width_5 =
    (465, [(9, 3315), (1, 3315), (8, 3324), (1, 3315), (8, 3332), (1, 3315), (8, 3340), (1,
     3315), (8, 3348), (1, 3315), (8, 3356), (1, 3315), (8, 3364), (1, 3315), (8, 3372), (1,
     3315), (8, 3380), (1, 3315), (8, 3388), (1, 3315), (8, 3396), (1, 3315), (8, 3404), (1,
     3315), (8, 3412), (1, 3315), (8, 3420), (1, 3315), (8, 3428), (1, 3315), (8, 3436), (1,
     3315), (8, 3444), (1, 3315), (8, 3452), (1, 3315), (8, 3460), (1, 3315), (8, 3468), (1,
     3315), (8, 3476), (1, 3315), (8, 3484), (1, 3315), (8, 3492), (1, 3315), (8, 3500), (1,
     3315), (8, 3508), (1, 3315), (8, 3516), (1, 3315), (8, 3524), (1, 3315), (8, 3532), (1,
     3315), (8, 3540), (1, 3315), (8, 3548), (1, 3315), (8, 3556), (1, 3315), (8, 3564), (1,
     3315), (8, 3572), (1, 3315), (8, 3580), (1, 3315), (8, 3588), (1, 3315), (8, 3596), (1,
     3315), (8, 3604), (1, 3315), (8, 3612), (1, 3315), (8, 3620), (1, 3315), (8, 3628), (1,
     3315), (8, 3636), (1, 3315), (8, 3644), (1, 3315), (8, 3652), (1, 3315), (4, 3660), (1,
     3665), (1, 3667), (1, 3669), (1, 3671), (1, 3315), (1, 3674), (1, 3676), (1, 3678), (1,
     3680), (1, 3682), (1, 3684), (1, 3686), (1, 3688), (1, 3315), (1, 3691), (1, 3693), (1,
     3695), (1, 3697), (1, 3699), (1, 3701), (1, 3703), (1, 3705), (1, 3315), (1, 3708), (1,
     3710), (1, 3712), (1, 3714), (1, 3716), (1, 3718), (1, 3720), (1, 3722), (1, 3315), (1,
     3725), (1, 3727), (1, 3729), (1, 3731), (1, 3733), (1, 3735), (1, 3737), (1, 3739), (1,
     3315), (1, 3742), (1, 3744), (1, 3746), (1, 3748), (1, 3750), (1, 3752), (1, 3754), (1,
     3756), (1, 3315), (1, 3759), (1, 3761), (1, 3763), (1, 3765), (1, 3767), (1, 3769), (1,
     3771), (1, 3773), (1, 3315), (1, 3776), (1, 3778), (1, 3780), (1, 3782), (1, 3784), (1,
     3786), (1, 3788), (1, 3790), (1, 3315), (1, 3793), (1, 3795), (1, 3797), (1, 3799), (1,
     3801), (1, 3803), (1, 3805), (1, 3807), (1, 3315), (1, 3810), (1, 3812), (1, 3814), (1,
     3816), (1, 3818), (1, 3820), (1, 3822), (1, 3824), (1, 3315), (1, 3827), (1, 3829), (1,
     3831), (1, 3833), (1, 3835), (1, 3837), (1, 3839), (1, 3841), (1, 3315), (1, 3844), (1,
     3846), (1, 3848), (1, 3850), (1, 3852), (1, 3854), (1, 3856), (1, 3858), (1, 3315), (1,
     3861), (1, 3863), (1, 3865), (1, 3867), (1, 3869), (1, 3871), (1, 3873), (1, 3875), (1,
     3315), (1, 3878), (1, 3880), (1, 3882), (1, 3884), (1, 3886), (1, 3888), (1, 3890), (1,
     3892), (1, 3315), (1, 3895), (1, 3897), (1, 3899), (1, 3901), (1, 3903), (1, 3905), (1,
     3907), (1, 3909), (1, 3315), (1, 3912), (1, 3914), (1, 3916), (1, 3918), (1, 3920), (1,
     3922), (1, 3924), (1, 3926), (1, 3315), (1, 3929), (1, 3931), (1, 3933), (1, 3935), (1,
     3937), (1, 3939), (1, 3941), (1, 3943)], [], 1, 540)"

definition POSEIDON_S_width_6 :: branch where
  "POSEIDON_S_width_6 =
    (468, [(11, 3944), (1, 3944), (10, 3955), (1, 3944), (10, 3965), (1, 3944), (10, 3975), (1,
     3944), (10, 3985), (1, 3944), (10, 3995), (1, 3944), (10, 4005), (1, 3944), (10, 4015), (1,
     3944), (10, 4025), (1, 3944), (10, 4035), (1, 3944), (10, 4045), (1, 3944), (10, 4055), (1,
     3944), (10, 4065), (1, 3944), (10, 4075), (1, 3944), (10, 4085), (1, 3944), (10, 4095), (1,
     3944), (10, 4105), (1, 3944), (10, 4115), (1, 3944), (10, 4125), (1, 3944), (10, 4135), (1,
     3944), (10, 4145), (1, 3944), (10, 4155), (1, 3944), (10, 4165), (1, 3944), (10, 4175), (1,
     3944), (10, 4185), (1, 3944), (10, 4195), (1, 3944), (10, 4205), (1, 3944), (10, 4215), (1,
     3944), (10, 4225), (1, 3944), (10, 4235), (1, 3944), (10, 4245), (1, 3944), (10, 4255), (1,
     3944), (10, 4265), (1, 3944), (10, 4275), (1, 3944), (10, 4285), (1, 3944), (10, 4295), (1,
     3944), (10, 4305), (1, 3944), (10, 4315), (1, 3944), (10, 4325), (1, 3944), (10, 4335), (1,
     3944), (10, 4345), (1, 3944), (10, 4355), (1, 3944), (10, 4365), (1, 3944), (10, 4375), (1,
     3944), (10, 4385), (1, 3944), (10, 4395), (1, 3944), (10, 4405), (1, 3944), (10, 4415), (1,
     3944), (10, 4425), (1, 3944), (1, 4436), (1, 4438), (1, 4440), (1, 4442), (1, 4444), (1,
     4446), (1, 4448), (1, 4450), (1, 4452), (1, 4454), (1, 3944), (1, 4457), (1, 4459), (1,
     4461), (1, 4463), (1, 4465), (1, 4467), (1, 4469), (1, 4471), (1, 4473), (1, 4475), (1,
     3944), (1, 4478), (1, 4480), (1, 4482), (1, 4484), (1, 4486), (1, 4488), (1, 4490), (1,
     4492), (1, 4494), (1, 4496), (1, 3944), (1, 4499), (1, 4501), (1, 4503), (1, 4505), (1,
     4507), (1, 4509), (1, 4511), (1, 4513), (1, 4515), (1, 4517), (1, 3944), (1, 4520), (1,
     4522), (1, 4524), (1, 4526), (1, 4528), (1, 4530), (1, 4532), (1, 4534), (1, 4536), (1,
     4538), (1, 3944), (1, 4541), (1, 4543), (1, 4545), (1, 4547), (1, 4549), (1, 4551), (1,
     4553), (1, 4555), (1, 4557), (1, 4559), (1, 3944), (1, 4562), (1, 4564), (1, 4566), (1,
     4568), (1, 4570), (1, 4572), (1, 4574), (1, 4576), (1, 4578), (1, 4580), (1, 3944), (1,
     4583), (1, 4585), (1, 4587), (1, 4589), (1, 4591), (1, 4593), (1, 4595), (1, 4597), (1,
     4599), (1, 4601), (1, 3944), (1, 4604), (1, 4606), (1, 4608), (1, 4610), (1, 4612), (1,
     4614), (1, 4616), (1, 4618), (1, 4620), (1, 4622), (1, 3944), (1, 4625), (1, 4627), (1,
     4629), (1, 4631), (1, 4633), (1, 4635), (1, 4637), (1, 4639), (1, 4641), (1, 4643), (1,
     3944), (1, 4646), (1, 4648), (1, 4650), (1, 4652), (1, 4654), (1, 4656), (1, 4658), (1,
     4660), (1, 4662), (1, 4664)], [], 1, 660)"

definition POSEIDON_S_width_7 :: branch where
  "POSEIDON_S_width_7 =
    (455, [(13, 4665), (1, 4665), (12, 4678), (1, 4665), (12, 4690), (1, 4665), (12, 4702), (1,
     4665), (12, 4714), (1, 4665), (12, 4726), (1, 4665), (12, 4738), (1, 4665), (12, 4750), (1,
     4665), (12, 4762), (1, 4665), (12, 4774), (1, 4665), (12, 4786), (1, 4665), (12, 4798), (1,
     4665), (12, 4810), (1, 4665), (12, 4822), (1, 4665), (12, 4834), (1, 4665), (12, 4846), (1,
     4665), (12, 4858), (1, 4665), (12, 4870), (1, 4665), (12, 4882), (1, 4665), (12, 4894), (1,
     4665), (12, 4906), (1, 4665), (12, 4918), (1, 4665), (12, 4930), (1, 4665), (12, 4942), (1,
     4665), (12, 4954), (1, 4665), (12, 4966), (1, 4665), (12, 4978), (1, 4665), (12, 4990), (1,
     4665), (12, 5002), (1, 4665), (12, 5014), (1, 4665), (12, 5026), (1, 4665), (12, 5038), (1,
     4665), (12, 5050), (1, 4665), (12, 5062), (1, 4665), (12, 5074), (1, 4665), (12, 5086), (1,
     4665), (12, 5098), (1, 4665), (12, 5110), (1, 4665), (12, 5122), (1, 4665), (12, 5134), (1,
     4665), (12, 5146), (1, 4665), (12, 5158), (1, 4665), (12, 5170), (1, 4665), (12, 5182), (1,
     4665), (12, 5194), (1, 4665), (12, 5206), (1, 4665), (12, 5218), (1, 4665), (12, 5230), (1,
     4665), (12, 5242), (1, 4665), (12, 5254), (1, 4665), (9, 5266), (1, 5276), (1, 5278), (1,
     5280), (1, 4665), (1, 5283), (1, 5285), (1, 5287), (1, 5289), (1, 5291), (1, 5293), (1,
     5295), (1, 5297), (1, 5299), (1, 5301), (1, 5303), (1, 5305), (1, 4665), (1, 5308), (1,
     5310), (1, 5312), (1, 5314), (1, 5316), (1, 5318), (1, 5320), (1, 5322), (1, 5324), (1,
     5326), (1, 5328), (1, 5330), (1, 4665), (1, 5333), (1, 5335), (1, 5337), (1, 5339), (1,
     5341), (1, 5343), (1, 5345), (1, 5347), (1, 5349), (1, 5351), (1, 5353), (1, 5355), (1,
     4665), (1, 5358), (1, 5360), (1, 5362), (1, 5364), (1, 5366), (1, 5368), (1, 5370), (1,
     5372), (1, 5374), (1, 5376), (1, 5378), (1, 5380), (1, 4665), (1, 5383), (1, 5385), (1,
     5387), (1, 5389), (1, 5391), (1, 5393), (1, 5395), (1, 5397), (1, 5399), (1, 5401), (1,
     5403), (1, 5405), (1, 4665), (1, 5408), (1, 5410), (1, 5412), (1, 5414), (1, 5416), (1,
     5418), (1, 5420), (1, 5422), (1, 5424), (1, 5426), (1, 5428), (1, 5430), (1, 4665), (1,
     5433), (1, 5435), (1, 5437), (1, 5439), (1, 5441), (1, 5443), (1, 5445), (1, 5447), (1,
     5449), (1, 5451), (1, 5453), (1, 5455), (1, 4665), (1, 5458), (1, 5460), (1, 5462), (1,
     5464), (1, 5466), (1, 5468), (1, 5470), (1, 5472), (1, 5474), (1, 5476), (1, 5478), (1,
     5480), (1, 4665), (1, 5483), (1, 5485), (1, 5487), (1, 5489), (1, 5491), (1, 5493), (1,
     5495), (1, 5497), (1, 5499), (1, 5501), (1, 5503), (1, 5505), (1, 4665), (1, 5508), (1,
     5510), (1, 5512), (1, 5514), (1, 5516), (1, 5518), (1, 5520), (1, 5522), (1, 5524), (1,
     5526), (1, 5528), (1, 5530), (1, 4665), (1, 5533), (1, 5535), (1, 5537), (1, 5539), (1,
     5541), (1, 5543), (1, 5545), (1, 5547), (1, 5549), (1, 5551), (1, 5553), (1, 5555), (1,
     4665), (1, 5558), (1, 5560), (1, 5562), (1, 5564), (1, 5566), (1, 5568), (1, 5570), (1,
     5572), (1, 5574), (1, 5576), (1, 5578), (1, 5580)], [], 1, 819)"

definition POSEIDON_S_width_8 :: branch where
  "POSEIDON_S_width_8 =
    (107, [(15, 5581), (1, 5581), (14, 5596), (1, 5581), (14, 5610), (1, 5581), (14, 5624), (1,
     5581), (14, 5638), (1, 5581), (14, 5652), (1, 5581), (14, 5666), (1, 5581), (14, 5680), (1,
     5581), (14, 5694), (1, 5581), (14, 5708), (1, 5581), (14, 5722), (1, 5581), (14, 5736), (1,
     5581), (14, 5750), (1, 5581), (14, 5764), (1, 5581), (14, 5778), (1, 5581), (14, 5792), (1,
     5581), (14, 5806), (1, 5581), (14, 5820), (1, 5581), (14, 5834), (1, 5581), (14, 5848), (1,
     5581), (14, 5862), (1, 5581), (14, 5876), (1, 5581), (14, 5890), (1, 5581), (14, 5904), (1,
     5581), (14, 5918), (1, 5581), (14, 5932), (1, 5581), (14, 5946), (1, 5581), (14, 5960), (1,
     5581), (14, 5974), (1, 5581), (14, 5988), (1, 5581), (14, 6002), (1, 5581), (14, 6016), (1,
     5581), (14, 6030), (1, 5581), (14, 6044), (1, 5581), (14, 6058), (1, 5581), (14, 6072), (1,
     5581), (14, 6086), (1, 5581), (14, 6100), (1, 5581), (14, 6114), (1, 5581), (14, 6128), (1,
     5581), (14, 6142), (1, 5581), (14, 6156), (1, 5581), (14, 6170), (1, 5581), (14, 6184), (1,
     5581), (14, 6198), (1, 5581), (14, 6212), (1, 5581), (14, 6226), (1, 5581), (14, 6240), (1,
     5581), (14, 6254), (1, 5581), (14, 6268), (1, 5581), (14, 6282), (1, 5581), (14, 6296), (1,
     5581), (14, 6310), (1, 5581), (14, 6324), (1, 5581), (8, 6338), (1, 6347), (1, 6349), (1,
     6351), (1, 6353), (1, 6355), (1, 6357), (1, 5581), (1, 6360), (1, 6362), (1, 6364), (1,
     6366), (1, 6368), (1, 6370), (1, 6372), (1, 6374), (1, 6376), (1, 6378), (1, 6380), (1,
     6382), (1, 6384), (1, 6386), (1, 5581), (1, 6389), (1, 6391), (1, 6393), (1, 6395), (1,
     6397), (1, 6399), (1, 6401), (1, 6403), (1, 6405), (1, 6407), (1, 6409), (1, 6411), (1,
     6413), (1, 6415), (1, 5581), (1, 6418), (1, 6420), (1, 6422), (1, 6424), (1, 6426), (1,
     6428), (1, 6430), (1, 6432), (1, 6434), (1, 6436), (1, 6438), (1, 6440), (1, 6442), (1,
     6444), (1, 5581), (1, 6447), (1, 6449), (1, 6451), (1, 6453), (1, 6455), (1, 6457), (1,
     6459), (1, 6461), (1, 6463), (1, 6465), (1, 6467), (1, 6469), (1, 6471), (1, 6473), (1,
     5581), (1, 6476), (1, 6478), (1, 6480), (1, 6482), (1, 6484), (1, 6486), (1, 6488), (1,
     6490), (1, 6492), (1, 6494), (1, 6496), (1, 6498), (1, 6500), (1, 6502), (1, 5581), (1,
     6505), (1, 6507), (1, 6509), (1, 6511), (1, 6513), (1, 6515), (1, 6517), (1, 6519), (1,
     6521), (1, 6523), (1, 6525), (1, 6527), (1, 6529), (1, 6531), (1, 5581), (1, 6534), (1,
     6536), (1, 6538), (1, 6540), (1, 6542), (1, 6544), (1, 6546), (1, 6548), (1, 6550), (1,
     6552), (1, 6554), (1, 6556), (1, 6558), (1, 6560), (1, 5581), (1, 6563), (1, 6565), (1,
     6567), (1, 6569), (1, 6571), (1, 6573), (1, 6575), (1, 6577), (1, 6579), (1, 6581), (1,
     6583), (1, 6585), (1, 6587), (1, 6589), (1, 5581), (1, 6592), (1, 6594), (1, 6596), (1,
     6598), (1, 6600), (1, 6602), (1, 6604), (1, 6606), (1, 6608), (1, 6610), (1, 6612), (1,
     6614), (1, 6616), (1, 6618)], [], 1, 960)"

definition POSEIDON_S_width_9 :: branch where
  "POSEIDON_S_width_9 =
    (475, [(17, 6619), (1, 6619), (16, 6636), (1, 6619), (16, 6652), (1, 6619), (16, 6668), (1,
     6619), (16, 6684), (1, 6619), (16, 6700), (1, 6619), (16, 6716), (1, 6619), (16, 6732), (1,
     6619), (16, 6748), (1, 6619), (16, 6764), (1, 6619), (16, 6780), (1, 6619), (16, 6796), (1,
     6619), (16, 6812), (1, 6619), (16, 6828), (1, 6619), (16, 6844), (1, 6619), (16, 6860), (1,
     6619), (16, 6876), (1, 6619), (16, 6892), (1, 6619), (16, 6908), (1, 6619), (16, 6924), (1,
     6619), (16, 6940), (1, 6619), (16, 6956), (1, 6619), (16, 6972), (1, 6619), (16, 6988), (1,
     6619), (16, 7004), (1, 6619), (16, 7020), (1, 6619), (16, 7036), (1, 6619), (16, 7052), (1,
     6619), (16, 7068), (1, 6619), (16, 7084), (1, 6619), (16, 7100), (1, 6619), (16, 7116), (1,
     6619), (16, 7132), (1, 6619), (16, 7148), (1, 6619), (16, 7164), (1, 6619), (16, 7180), (1,
     6619), (16, 7196), (1, 6619), (16, 7212), (1, 6619), (16, 7228), (1, 6619), (16, 7244), (1,
     6619), (16, 7260), (1, 6619), (16, 7276), (1, 6619), (16, 7292), (1, 6619), (16, 7308), (1,
     6619), (16, 7324), (1, 6619), (16, 7340), (1, 6619), (16, 7356), (1, 6619), (16, 7372), (1,
     6619), (16, 7388), (1, 6619), (16, 7404), (1, 6619), (16, 7420), (1, 6619), (16, 7436), (1,
     6619), (16, 7452), (1, 6619), (16, 7468), (1, 6619), (16, 7484), (1, 6619), (16, 7500), (1,
     6619), (7, 7516), (1, 7524), (1, 7526), (1, 7528), (1, 7530), (1, 7532), (1, 7534), (1,
     7536), (1, 7538), (1, 7540), (1, 6619), (1, 7543), (1, 7545), (1, 7547), (1, 7549), (1,
     7551), (1, 7553), (1, 7555), (1, 7557), (1, 7559), (1, 7561), (1, 7563), (1, 7565), (1,
     7567), (1, 7569), (1, 7571), (1, 7573), (1, 6619), (1, 7576), (1, 7578), (1, 7580), (1,
     7582), (1, 7584), (1, 7586), (1, 7588), (1, 7590), (1, 7592), (1, 7594), (1, 7596), (1,
     7598), (1, 7600), (1, 7602), (1, 7604), (1, 7606), (1, 6619), (1, 7609), (1, 7611), (1,
     7613), (1, 7615), (1, 7617), (1, 7619), (1, 7621), (1, 7623), (1, 7625), (1, 7627), (1,
     7629), (1, 7631), (1, 7633), (1, 7635), (1, 7637), (1, 7639), (1, 6619), (1, 7642), (1,
     7644), (1, 7646), (1, 7648), (1, 7650), (1, 7652), (1, 7654), (1, 7656), (1, 7658), (1,
     7660), (1, 7662), (1, 7664), (1, 7666), (1, 7668), (1, 7670), (1, 7672), (1, 6619), (1,
     7675), (1, 7677), (1, 7679), (1, 7681), (1, 7683), (1, 7685), (1, 7687), (1, 7689), (1,
     7691), (1, 7693), (1, 7695), (1, 7697), (1, 7699), (1, 7701), (1, 7703), (1, 7705), (1,
     6619), (1, 7708), (1, 7710), (1, 7712), (1, 7714), (1, 7716), (1, 7718), (1, 7720), (1,
     7722), (1, 7724), (1, 7726), (1, 7728), (1, 7730), (1, 7732), (1, 7734), (1, 7736), (1,
     7738)], [], 1, 1071)"

definition POSEIDON_S_width_10 :: branch where
  "POSEIDON_S_width_10 =
    (478, [(19, 7739), (1, 7739), (18, 7758), (1, 7739), (18, 7776), (1, 7739), (18, 7794), (1,
     7739), (18, 7812), (1, 7739), (18, 7830), (1, 7739), (18, 7848), (1, 7739), (18, 7866), (1,
     7739), (18, 7884), (1, 7739), (18, 7902), (1, 7739), (18, 7920), (1, 7739), (18, 7938), (1,
     7739), (18, 7956), (1, 7739), (18, 7974), (1, 7739), (18, 7992), (1, 7739), (18, 8010), (1,
     7739), (18, 8028), (1, 7739), (18, 8046), (1, 7739), (18, 8064), (1, 7739), (18, 8082), (1,
     7739), (18, 8100), (1, 7739), (18, 8118), (1, 7739), (18, 8136), (1, 7739), (18, 8154), (1,
     7739), (18, 8172), (1, 7739), (18, 8190), (1, 7739), (18, 8208), (1, 7739), (18, 8226), (1,
     7739), (18, 8244), (1, 7739), (18, 8262), (1, 7739), (18, 8280), (1, 7739), (18, 8298), (1,
     7739), (18, 8316), (1, 7739), (18, 8334), (1, 7739), (18, 8352), (1, 7739), (18, 8370), (1,
     7739), (18, 8388), (1, 7739), (18, 8406), (1, 7739), (18, 8424), (1, 7739), (18, 8442), (1,
     7739), (18, 8460), (1, 7739), (18, 8478), (1, 7739), (18, 8496), (1, 7739), (18, 8514), (1,
     7739), (18, 8532), (1, 7739), (18, 8550), (1, 7739), (18, 8568), (1, 7739), (18, 8586), (1,
     7739), (18, 8604), (1, 7739), (18, 8622), (1, 7739), (18, 8640), (1, 7739), (18, 8658), (1,
     7739), (18, 8676), (1, 7739), (18, 8694), (1, 7739), (18, 8712), (1, 7739), (18, 8730), (1,
     7739), (6, 8748), (1, 8755), (1, 8757), (1, 8759), (1, 8761), (1, 8763), (1, 8765), (1,
     8767), (1, 8769), (1, 8771), (1, 8773), (1, 8775), (1, 8777), (1, 7739), (1, 8780), (1,
     8782), (1, 8784), (1, 8786), (1, 8788), (1, 8790), (1, 8792), (1, 8794), (1, 8796), (1,
     8798), (1, 8800), (1, 8802), (1, 8804), (1, 8806), (1, 8808), (1, 8810), (1, 8812), (1,
     8814), (1, 7739), (1, 8817), (1, 8819), (1, 8821), (1, 8823), (1, 8825), (1, 8827), (1,
     8829), (1, 8831), (1, 8833), (1, 8835), (1, 8837), (1, 8839), (1, 8841), (1, 8843), (1,
     8845), (1, 8847), (1, 8849), (1, 8851), (1, 7739), (1, 8854), (1, 8856), (1, 8858), (1,
     8860), (1, 8862), (1, 8864), (1, 8866), (1, 8868), (1, 8870), (1, 8872), (1, 8874), (1,
     8876), (1, 8878), (1, 8880), (1, 8882), (1, 8884), (1, 8886), (1, 8888)], [], 1, 1140)"

definition POSEIDON_S_width_11 :: branch where
  "POSEIDON_S_width_11 =
    (456, [(21, 8889), (1, 8889), (20, 8910), (1, 8889), (20, 8930), (1, 8889), (20, 8950), (1,
     8889), (20, 8970), (1, 8889), (20, 8990), (1, 8889), (20, 9010), (1, 8889), (20, 9030), (1,
     8889), (20, 9050), (1, 8889), (20, 9070), (1, 8889), (20, 9090), (1, 8889), (20, 9110), (1,
     8889), (20, 9130), (1, 8889), (20, 9150), (1, 8889), (20, 9170), (1, 8889), (20, 9190), (1,
     8889), (20, 9210), (1, 8889), (20, 9230), (1, 8889), (20, 9250), (1, 8889), (20, 9270), (1,
     8889), (20, 9290), (1, 8889), (20, 9310), (1, 8889), (20, 9330), (1, 8889), (20, 9350), (1,
     8889), (20, 9370), (1, 8889), (20, 9390), (1, 8889), (20, 9410), (1, 8889), (20, 9430), (1,
     8889), (20, 9450), (1, 8889), (20, 9470), (1, 8889), (20, 9490), (1, 8889), (20, 9510), (1,
     8889), (20, 9530), (1, 8889), (20, 9550), (1, 8889), (20, 9570), (1, 8889), (20, 9590), (1,
     8889), (20, 9610), (1, 8889), (20, 9630), (1, 8889), (20, 9650), (1, 8889), (20, 9670), (1,
     8889), (20, 9690), (1, 8889), (20, 9710), (1, 8889), (20, 9730), (1, 8889), (20, 9750), (1,
     8889), (20, 9770), (1, 8889), (20, 9790), (1, 8889), (20, 9810), (1, 8889), (20, 9830), (1,
     8889), (20, 9850), (1, 8889), (20, 9870), (1, 8889), (20, 9890), (1, 8889), (20, 9910), (1,
     8889), (20, 9930), (1, 8889), (20, 9950), (1, 8889), (5, 9970), (1, 9976), (1, 9978), (1,
     9980), (1, 9982), (1, 9984), (1, 9986), (1, 9988), (1, 9990), (1, 9992), (1, 9994), (1,
     9996), (1, 9998), (1, 10000), (1, 10002), (1, 10004), (1, 8889), (1, 10007), (1, 10009),
     (1, 10011), (1, 10013), (1, 10015), (1, 10017), (1, 10019), (1, 10021), (1, 10023), (1,
     10025), (1, 10027), (1, 10029), (1, 10031), (1, 10033), (1, 10035), (1, 10037), (1, 10039),
     (1, 10041), (1, 10043), (1, 10045), (1, 8889), (1, 10048), (1, 10050), (1, 10052), (1,
     10054), (1, 10056), (1, 10058), (1, 10060), (1, 10062), (1, 10064), (1, 10066), (1, 10068),
     (1, 10070), (1, 10072), (1, 10074), (1, 10076), (1, 10078), (1, 10080), (1, 10082), (1,
     10084), (1, 10086), (1, 8889), (1, 10089), (1, 10091), (1, 10093), (1, 10095), (1, 10097),
     (1, 10099), (1, 10101), (1, 10103), (1, 10105), (1, 10107), (1, 10109), (1, 10111), (1,
     10113), (1, 10115), (1, 10117), (1, 10119), (1, 10121), (1, 10123), (1, 10125), (1, 10127),
     (1, 8889), (1, 10130), (1, 10132), (1, 10134), (1, 10136), (1, 10138), (1, 10140), (1,
     10142), (1, 10144), (1, 10146), (1, 10148), (1, 10150), (1, 10152), (1, 10154), (1, 10156),
     (1, 10158), (1, 10160), (1, 10162), (1, 10164), (1, 10166), (1, 10168), (1, 8889), (1,
     10171), (1, 10173), (1, 10175), (1, 10177), (1, 10179), (1, 10181), (1, 10183), (1, 10185),
     (1, 10187), (1, 10189), (1, 10191), (1, 10193), (1, 10195), (1, 10197), (1, 10199), (1,
     10201), (1, 10203), (1, 10205), (1, 10207), (1, 10209), (1, 8889), (1, 10212), (1, 10214),
     (1, 10216), (1, 10218), (1, 10220), (1, 10222), (1, 10224), (1, 10226), (1, 10228), (1,
     10230), (1, 10232), (1, 10234), (1, 10236), (1, 10238), (1, 10240), (1, 10242), (1, 10244),
     (1, 10246), (1, 10248), (1, 10250), (1, 8889), (1, 10253), (1, 10255), (1, 10257), (1,
     10259), (1, 10261), (1, 10263), (1, 10265), (1, 10267), (1, 10269), (1, 10271), (1, 10273),
     (1, 10275), (1, 10277), (1, 10279), (1, 10281), (1, 10283), (1, 10285), (1, 10287), (1,
     10289), (1, 10291), (1, 8889), (1, 10294), (1, 10296), (1, 10298), (1, 10300), (1, 10302),
     (1, 10304), (1, 10306), (1, 10308), (1, 10310), (1, 10312), (1, 10314), (1, 10316), (1,
     10318), (1, 10320), (1, 10322), (1, 10324), (1, 10326), (1, 10328), (1, 10330), (1, 10332),
     (1, 8889), (1, 10335), (1, 10337), (1, 10339), (1, 10341), (1, 10343), (1, 10345), (1,
     10347), (1, 10349), (1, 10351), (1, 10353), (1, 10355), (1, 10357), (1, 10359), (1, 10361),
     (1, 10363), (1, 10365), (1, 10367), (1, 10369), (1, 10371), (1, 10373), (1, 8889), (1,
     10376), (1, 10378), (1, 10380), (1, 10382), (1, 10384), (1, 10386), (1, 10388), (1, 10390),
     (1, 10392), (1, 10394), (1, 10396), (1, 10398), (1, 10400), (1, 10402), (1, 10404), (1,
     10406), (1, 10408), (1, 10410), (1, 10412), (1, 10414), (1, 8889), (1, 10417), (1, 10419),
     (1, 10421), (1, 10423), (1, 10425), (1, 10427), (1, 10429), (1, 10431), (1, 10433), (1,
     10435), (1, 10437), (1, 10439), (1, 10441), (1, 10443), (1, 10445), (1, 10447), (1, 10449),
     (1, 10451), (1, 10453), (1, 10455)], [], 1, 1386)"

definition POSEIDON_S_width_12 :: branch where
  "POSEIDON_S_width_12 =
    (108, [(23, 10456), (1, 10456), (22, 10479), (1, 10456), (22, 10501), (1, 10456), (22,
     10523), (1, 10456), (22, 10545), (1, 10456), (22, 10567), (1, 10456), (22, 10589), (1,
     10456), (22, 10611), (1, 10456), (22, 10633), (1, 10456), (22, 10655), (1, 10456), (22,
     10677), (1, 10456), (22, 10699), (1, 10456), (22, 10721), (1, 10456), (22, 10743), (1,
     10456), (22, 10765), (1, 10456), (22, 10787), (1, 10456), (22, 10809), (1, 10456), (22,
     10831), (1, 10456), (22, 10853), (1, 10456), (22, 10875), (1, 10456), (22, 10897), (1,
     10456), (22, 10919), (1, 10456), (22, 10941), (1, 10456), (22, 10963), (1, 10456), (22,
     10985), (1, 10456), (22, 11007), (1, 10456), (22, 11029), (1, 10456), (22, 11051), (1,
     10456), (22, 11073), (1, 10456), (22, 11095), (1, 10456), (22, 11117), (1, 10456), (22,
     11139), (1, 10456), (22, 11161), (1, 10456), (22, 11183), (1, 10456), (22, 11205), (1,
     10456), (22, 11227), (1, 10456), (22, 11249), (1, 10456), (22, 11271), (1, 10456), (22,
     11293), (1, 10456), (22, 11315), (1, 10456), (22, 11337), (1, 10456), (22, 11359), (1,
     10456), (22, 11381), (1, 10456), (22, 11403), (1, 10456), (22, 11425), (1, 10456), (22,
     11447), (1, 10456), (22, 11469), (1, 10456), (22, 11491), (1, 10456), (22, 11513), (1,
     10456), (22, 11535), (1, 10456), (22, 11557), (1, 10456), (22, 11579), (1, 10456), (22,
     11601), (1, 10456), (22, 11623), (1, 10456), (22, 11645), (1, 10456), (22, 11667), (1,
     10456), (22, 11689), (1, 10456), (22, 11711), (1, 10456), (22, 11733), (1, 10456), (22,
     11755)], [], 1, 1380)"

definition POSEIDON_S_width_13 :: branch where
  "POSEIDON_S_width_13 =
    (485, [(25, 11777), (1, 11777), (24, 11802), (1, 11777), (24, 11826), (1, 11777), (24,
     11850), (1, 11777), (24, 11874), (1, 11777), (24, 11898), (1, 11777), (24, 11922), (1,
     11777), (24, 11946), (1, 11777), (24, 11970), (1, 11777), (24, 11994), (1, 11777), (24,
     12018), (1, 11777), (24, 12042), (1, 11777), (24, 12066), (1, 11777), (24, 12090), (1,
     11777), (24, 12114), (1, 11777), (24, 12138), (1, 11777), (24, 12162), (1, 11777), (24,
     12186), (1, 11777), (24, 12210), (1, 11777), (24, 12234), (1, 11777), (24, 12258), (1,
     11777), (24, 12282), (1, 11777), (24, 12306), (1, 11777), (24, 12330), (1, 11777), (24,
     12354), (1, 11777), (24, 12378), (1, 11777), (24, 12402), (1, 11777), (24, 12426), (1,
     11777), (24, 12450), (1, 11777), (24, 12474), (1, 11777), (24, 12498), (1, 11777), (24,
     12522), (1, 11777), (24, 12546), (1, 11777), (24, 12570), (1, 11777), (24, 12594), (1,
     11777), (24, 12618), (1, 11777), (24, 12642), (1, 11777), (24, 12666), (1, 11777), (24,
     12690), (1, 11777), (24, 12714), (1, 11777), (24, 12738), (1, 11777), (24, 12762), (1,
     11777), (24, 12786), (1, 11777), (24, 12810), (1, 11777), (24, 12834), (1, 11777), (24,
     12858), (1, 11777), (24, 12882), (1, 11777), (24, 12906), (1, 11777), (24, 12930), (1,
     11777), (24, 12954), (1, 11777), (24, 12978), (1, 11777), (24, 13002), (1, 11777), (24,
     13026), (1, 11777), (24, 13050), (1, 11777), (24, 13074), (1, 11777), (10, 13098), (1,
     13109), (1, 13111), (1, 13113), (1, 13115), (1, 13117), (1, 13119), (1, 13121), (1, 13123),
     (1, 13125), (1, 13127), (1, 13129), (1, 13131), (1, 13133), (1, 13135), (1, 11777), (1,
     13138), (1, 13140), (1, 13142), (1, 13144), (1, 13146), (1, 13148), (1, 13150), (1, 13152),
     (1, 13154), (1, 13156), (1, 13158), (1, 13160), (1, 13162), (1, 13164), (1, 13166), (1,
     13168), (1, 13170), (1, 13172), (1, 13174), (1, 13176), (1, 13178), (1, 13180), (1, 13182),
     (1, 13184), (1, 11777), (1, 13187), (1, 13189), (1, 13191), (1, 13193), (1, 13195), (1,
     13197), (1, 13199), (1, 13201), (1, 13203), (1, 13205), (1, 13207), (1, 13209), (1, 13211),
     (1, 13213), (1, 13215), (1, 13217), (1, 13219), (1, 13221), (1, 13223), (1, 13225), (1,
     13227), (1, 13229), (1, 13231), (1, 13233), (1, 11777), (1, 13236), (1, 13238), (1, 13240),
     (1, 13242), (1, 13244), (1, 13246), (1, 13248), (1, 13250), (1, 13252), (1, 13254), (1,
     13256), (1, 13258), (1, 13260), (1, 13262), (1, 13264), (1, 13266), (1, 13268), (1, 13270),
     (1, 13272), (1, 13274), (1, 13276), (1, 13278), (1, 13280), (1, 13282), (1, 11777), (1,
     13285), (1, 13287), (1, 13289), (1, 13291), (1, 13293), (1, 13295), (1, 13297), (1, 13299),
     (1, 13301), (1, 13303), (1, 13305), (1, 13307), (1, 13309), (1, 13311), (1, 13313), (1,
     13315), (1, 13317), (1, 13319), (1, 13321), (1, 13323), (1, 13325), (1, 13327), (1, 13329),
     (1, 13331), (1, 11777), (1, 13334), (1, 13336), (1, 13338), (1, 13340), (1, 13342), (1,
     13344), (1, 13346), (1, 13348), (1, 13350), (1, 13352), (1, 13354), (1, 13356), (1, 13358),
     (1, 13360), (1, 13362), (1, 13364), (1, 13366), (1, 13368), (1, 13370), (1, 13372), (1,
     13374), (1, 13376), (1, 13378), (1, 13380), (1, 11777), (1, 13383), (1, 13385), (1, 13387),
     (1, 13389), (1, 13391), (1, 13393), (1, 13395), (1, 13397), (1, 13399), (1, 13401), (1,
     13403), (1, 13405), (1, 13407), (1, 13409), (1, 13411), (1, 13413), (1, 13415), (1, 13417),
     (1, 13419), (1, 13421), (1, 13423), (1, 13425), (1, 13427), (1, 13429), (1, 11777), (1,
     13432), (1, 13434), (1, 13436), (1, 13438), (1, 13440), (1, 13442), (1, 13444), (1, 13446),
     (1, 13448), (1, 13450), (1, 13452), (1, 13454), (1, 13456), (1, 13458), (1, 13460), (1,
     13462), (1, 13464), (1, 13466), (1, 13468), (1, 13470), (1, 13472), (1, 13474), (1, 13476),
     (1, 13478), (1, 11777), (1, 13481), (1, 13483), (1, 13485), (1, 13487), (1, 13489), (1,
     13491), (1, 13493), (1, 13495), (1, 13497), (1, 13499), (1, 13501), (1, 13503), (1, 13505),
     (1, 13507), (1, 13509), (1, 13511), (1, 13513), (1, 13515), (1, 13517), (1, 13519), (1,
     13521), (1, 13523), (1, 13525), (1, 13527), (1, 11777), (1, 13530), (1, 13532), (1, 13534),
     (1, 13536), (1, 13538), (1, 13540), (1, 13542), (1, 13544), (1, 13546), (1, 13548), (1,
     13550), (1, 13552), (1, 13554), (1, 13556), (1, 13558), (1, 13560), (1, 13562), (1, 13564),
     (1, 13566), (1, 13568), (1, 13570), (1, 13572), (1, 13574), (1, 13576)], [], 1, 1625)"

definition POSEIDON_S_width_14 :: branch where
  "POSEIDON_S_width_14 =
    (458, [(27, 13577), (1, 13577), (26, 13604), (1, 13577), (26, 13630), (1, 13577), (26,
     13656), (1, 13577), (26, 13682), (1, 13577), (26, 13708), (1, 13577), (26, 13734), (1,
     13577), (26, 13760), (1, 13577), (26, 13786), (1, 13577), (26, 13812), (1, 13577), (26,
     13838), (1, 13577), (26, 13864), (1, 13577), (26, 13890), (1, 13577), (26, 13916), (1,
     13577), (26, 13942), (1, 13577), (26, 13968), (1, 13577), (26, 13994), (1, 13577), (26,
     14020), (1, 13577), (26, 14046), (1, 13577), (26, 14072), (1, 13577), (26, 14098), (1,
     13577), (26, 14124), (1, 13577), (26, 14150), (1, 13577), (26, 14176), (1, 13577), (26,
     14202), (1, 13577), (26, 14228), (1, 13577), (26, 14254), (1, 13577), (26, 14280), (1,
     13577), (26, 14306), (1, 13577), (26, 14332), (1, 13577), (26, 14358), (1, 13577), (26,
     14384), (1, 13577), (26, 14410), (1, 13577), (26, 14436), (1, 13577), (26, 14462), (1,
     13577), (26, 14488), (1, 13577), (26, 14514), (1, 13577), (26, 14540), (1, 13577), (26,
     14566), (1, 13577), (26, 14592), (1, 13577), (26, 14618), (1, 13577), (26, 14644), (1,
     13577), (26, 14670), (1, 13577), (26, 14696), (1, 13577), (26, 14722), (1, 13577), (26,
     14748), (1, 13577), (26, 14774), (1, 13577), (26, 14800), (1, 13577), (26, 14826), (1,
     13577), (26, 14852), (1, 13577), (26, 14878), (1, 13577), (26, 14904), (1, 13577), (26,
     14930), (1, 13577), (26, 14956), (1, 13577), (26, 14982), (1, 13577), (26, 15008), (1,
     13577), (26, 15034), (1, 13577), (26, 15060), (1, 13577), (26, 15086), (1, 13577), (26,
     15112), (1, 13577), (4, 15138), (1, 15143), (1, 15145), (1, 15147), (1, 15149), (1, 15151),
     (1, 15153), (1, 15155), (1, 15157), (1, 15159), (1, 15161), (1, 15163), (1, 15165), (1,
     15167), (1, 15169), (1, 15171), (1, 15173), (1, 15175), (1, 15177), (1, 15179), (1, 15181),
     (1, 15183), (1, 15185), (1, 13577), (1, 15188), (1, 15190), (1, 15192), (1, 15194), (1,
     15196), (1, 15198), (1, 15200), (1, 15202), (1, 15204), (1, 15206), (1, 15208), (1, 15210),
     (1, 15212), (1, 15214), (1, 15216), (1, 15218), (1, 15220), (1, 15222), (1, 15224), (1,
     15226), (1, 15228), (1, 15230), (1, 15232), (1, 15234), (1, 15236), (1, 15238), (1, 13577),
     (1, 15241), (1, 15243), (1, 15245), (1, 15247), (1, 15249), (1, 15251), (1, 15253), (1,
     15255), (1, 15257), (1, 15259), (1, 15261), (1, 15263), (1, 15265), (1, 15267), (1, 15269),
     (1, 15271), (1, 15273), (1, 15275), (1, 15277), (1, 15279), (1, 15281), (1, 15283), (1,
     15285), (1, 15287), (1, 15289), (1, 15291), (1, 13577), (1, 15294), (1, 15296), (1, 15298),
     (1, 15300), (1, 15302), (1, 15304), (1, 15306), (1, 15308), (1, 15310), (1, 15312), (1,
     15314), (1, 15316), (1, 15318), (1, 15320), (1, 15322), (1, 15324), (1, 15326), (1, 15328),
     (1, 15330), (1, 15332), (1, 15334), (1, 15336), (1, 15338), (1, 15340), (1, 15342), (1,
     15344), (1, 13577), (1, 15347), (1, 15349), (1, 15351), (1, 15353), (1, 15355), (1, 15357),
     (1, 15359), (1, 15361), (1, 15363), (1, 15365), (1, 15367), (1, 15369), (1, 15371), (1,
     15373), (1, 15375), (1, 15377), (1, 15379), (1, 15381), (1, 15383), (1, 15385), (1, 15387),
     (1, 15389), (1, 15391), (1, 15393), (1, 15395), (1, 15397), (1, 13577), (1, 15400), (1,
     15402), (1, 15404), (1, 15406), (1, 15408), (1, 15410), (1, 15412), (1, 15414), (1, 15416),
     (1, 15418), (1, 15420), (1, 15422), (1, 15424), (1, 15426), (1, 15428), (1, 15430), (1,
     15432), (1, 15434), (1, 15436), (1, 15438), (1, 15440), (1, 15442), (1, 15444), (1, 15446),
     (1, 15448), (1, 15450), (1, 13577), (1, 15453), (1, 15455), (1, 15457), (1, 15459), (1,
     15461), (1, 15463), (1, 15465), (1, 15467), (1, 15469), (1, 15471), (1, 15473), (1, 15475),
     (1, 15477), (1, 15479), (1, 15481), (1, 15483), (1, 15485), (1, 15487), (1, 15489), (1,
     15491), (1, 15493), (1, 15495), (1, 15497), (1, 15499), (1, 15501), (1, 15503), (1, 13577),
     (1, 15506), (1, 15508), (1, 15510), (1, 15512), (1, 15514), (1, 15516), (1, 15518), (1,
     15520), (1, 15522), (1, 15524), (1, 15526), (1, 15528), (1, 15530), (1, 15532), (1, 15534),
     (1, 15536), (1, 15538), (1, 15540), (1, 15542), (1, 15544), (1, 15546), (1, 15548), (1,
     15550), (1, 15552), (1, 15554), (1, 15556), (1, 13577), (1, 15559), (1, 15561), (1, 15563),
     (1, 15565), (1, 15567), (1, 15569), (1, 15571), (1, 15573), (1, 15575), (1, 15577), (1,
     15579), (1, 15581), (1, 15583), (1, 15585), (1, 15587), (1, 15589), (1, 15591), (1, 15593),
     (1, 15595), (1, 15597), (1, 15599), (1, 15601), (1, 15603), (1, 15605), (1, 15607), (1,
     15609), (1, 13577), (1, 15612), (1, 15614), (1, 15616), (1, 15618), (1, 15620), (1, 15622),
     (1, 15624), (1, 15626), (1, 15628), (1, 15630), (1, 15632), (1, 15634), (1, 15636), (1,
     15638), (1, 15640), (1, 15642), (1, 15644), (1, 15646), (1, 15648), (1, 15650), (1, 15652),
     (1, 15654), (1, 15656), (1, 15658), (1, 15660), (1, 15662)], [], 1, 1890)"

definition POSEIDON_S_width_15 :: branch where
  "POSEIDON_S_width_15 =
    (490, [(29, 15663), (1, 15663), (28, 15692), (1, 15663), (28, 15720), (1, 15663), (28,
     15748), (1, 15663), (28, 15776), (1, 15663), (28, 15804), (1, 15663), (28, 15832), (1,
     15663), (28, 15860), (1, 15663), (28, 15888), (1, 15663), (28, 15916), (1, 15663), (28,
     15944), (1, 15663), (28, 15972), (1, 15663), (28, 16000), (1, 15663), (28, 16028), (1,
     15663), (28, 16056), (1, 15663), (28, 16084), (1, 15663), (28, 16112), (1, 15663), (28,
     16140), (1, 15663), (28, 16168), (1, 15663), (28, 16196), (1, 15663), (28, 16224), (1,
     15663), (28, 16252), (1, 15663), (28, 16280), (1, 15663), (28, 16308), (1, 15663), (28,
     16336), (1, 15663), (28, 16364), (1, 15663), (28, 16392), (1, 15663), (28, 16420), (1,
     15663), (28, 16448), (1, 15663), (28, 16476), (1, 15663), (28, 16504), (1, 15663), (28,
     16532), (1, 15663), (28, 16560), (1, 15663), (28, 16588), (1, 15663), (28, 16616), (1,
     15663), (28, 16644), (1, 15663), (28, 16672), (1, 15663), (28, 16700), (1, 15663), (28,
     16728), (1, 15663), (28, 16756), (1, 15663), (28, 16784), (1, 15663), (28, 16812), (1,
     15663), (28, 16840), (1, 15663), (28, 16868), (1, 15663), (28, 16896), (1, 15663), (28,
     16924), (1, 15663), (28, 16952), (1, 15663), (28, 16980), (1, 15663), (28, 17008), (1,
     15663), (28, 17036), (1, 15663), (28, 17064), (1, 15663), (28, 17092), (1, 15663), (28,
     17120), (1, 15663), (28, 17148), (1, 15663), (28, 17176), (1, 15663), (28, 17204), (1,
     15663), (28, 17232), (1, 15663), (28, 17260), (1, 15663), (28, 17288), (1, 15663), (28,
     17316)], [], 1, 1740)"

definition POSEIDON_S_width_16 :: branch where
  "POSEIDON_S_width_16 =
    (109, [(31, 17344), (1, 17344), (30, 17375), (1, 17344), (30, 17405), (1, 17344), (30,
     17435), (1, 17344), (30, 17465), (1, 17344), (30, 17495), (1, 17344), (30, 17525), (1,
     17344), (30, 17555), (1, 17344), (30, 17585), (1, 17344), (30, 17615), (1, 17344), (30,
     17645), (1, 17344), (30, 17675), (1, 17344), (30, 17705), (1, 17344), (30, 17735), (1,
     17344), (30, 17765), (1, 17344), (30, 17795), (1, 17344), (30, 17825), (1, 17344), (30,
     17855), (1, 17344), (30, 17885), (1, 17344), (30, 17915), (1, 17344), (30, 17945), (1,
     17344), (30, 17975), (1, 17344), (30, 18005), (1, 17344), (30, 18035), (1, 17344), (30,
     18065), (1, 17344), (30, 18095), (1, 17344), (30, 18125), (1, 17344), (30, 18155), (1,
     17344), (30, 18185), (1, 17344), (30, 18215), (1, 17344), (30, 18245), (1, 17344), (30,
     18275), (1, 17344), (30, 18305), (1, 17344), (30, 18335), (1, 17344), (30, 18365), (1,
     17344), (30, 18395), (1, 17344), (30, 18425), (1, 17344), (30, 18455), (1, 17344), (30,
     18485), (1, 17344), (30, 18515), (1, 17344), (30, 18545), (1, 17344), (30, 18575), (1,
     17344), (30, 18605), (1, 17344), (30, 18635), (1, 17344), (30, 18665), (1, 17344), (30,
     18695), (1, 17344), (30, 18725), (1, 17344), (30, 18755), (1, 17344), (30, 18785), (1,
     17344), (30, 18815), (1, 17344), (30, 18845), (1, 17344), (30, 18875), (1, 17344), (30,
     18905), (1, 17344), (30, 18935), (1, 17344), (30, 18965), (1, 17344), (30, 18995), (1,
     17344), (30, 19025), (1, 17344), (30, 19055), (1, 17344), (30, 19085), (1, 17344), (30,
     19115), (1, 17344), (29, 19145), (1, 19175), (1, 17344), (1, 19178), (1, 19180), (1,
     19182), (1, 19184), (1, 19186), (1, 19188), (1, 19190), (1, 19192), (1, 19194), (1, 19196),
     (1, 19198), (1, 19200), (1, 19202), (1, 19204), (1, 19206), (1, 19208), (1, 19210), (1,
     19212), (1, 19214), (1, 19216), (1, 19218), (1, 19220), (1, 19222), (1, 19224), (1, 19226),
     (1, 19228), (1, 19230), (1, 19232), (1, 19234), (1, 19236), (1, 17344), (1, 19239), (1,
     19241), (1, 19243), (1, 19245), (1, 19247), (1, 19249), (1, 19251), (1, 19253), (1, 19255),
     (1, 19257), (1, 19259), (1, 19261), (1, 19263), (1, 19265), (1, 19267), (1, 19269), (1,
     19271), (1, 19273), (1, 19275), (1, 19277), (1, 19279), (1, 19281), (1, 19283), (1, 19285),
     (1, 19287), (1, 19289), (1, 19291), (1, 19293), (1, 19295), (1, 19297), (1, 17344), (1,
     19300), (1, 19302), (1, 19304), (1, 19306), (1, 19308), (1, 19310), (1, 19312), (1, 19314),
     (1, 19316), (1, 19318), (1, 19320), (1, 19322), (1, 19324), (1, 19326), (1, 19328), (1,
     19330), (1, 19332), (1, 19334), (1, 19336), (1, 19338), (1, 19340), (1, 19342), (1, 19344),
     (1, 19346), (1, 19348), (1, 19350), (1, 19352), (1, 19354), (1, 19356), (1, 19358)], [], 1,
     1984)"

definition POSEIDON_S_width_17 :: branch where
  "POSEIDON_S_width_17 =
    (495, [(33, 19359), (1, 19359), (32, 19392), (1, 19359), (32, 19424), (1, 19359), (32,
     19456), (1, 19359), (32, 19488), (1, 19359), (32, 19520), (1, 19359), (32, 19552), (1,
     19359), (32, 19584), (1, 19359), (32, 19616), (1, 19359), (32, 19648), (1, 19359), (32,
     19680), (1, 19359), (32, 19712), (1, 19359), (32, 19744), (1, 19359), (32, 19776), (1,
     19359), (32, 19808), (1, 19359), (32, 19840), (1, 19359), (32, 19872), (1, 19359), (32,
     19904), (1, 19359), (32, 19936), (1, 19359), (32, 19968), (1, 19359), (32, 20000), (1,
     19359), (32, 20032), (1, 19359), (32, 20064), (1, 19359), (32, 20096), (1, 19359), (32,
     20128), (1, 19359), (32, 20160), (1, 19359), (32, 20192), (1, 19359), (32, 20224), (1,
     19359), (32, 20256), (1, 19359), (32, 20288), (1, 19359), (32, 20320), (1, 19359), (32,
     20352), (1, 19359), (32, 20384), (1, 19359), (32, 20416), (1, 19359), (32, 20448), (1,
     19359), (32, 20480), (1, 19359), (32, 20512), (1, 19359), (32, 20544), (1, 19359), (32,
     20576), (1, 19359), (32, 20608), (1, 19359), (32, 20640), (1, 19359), (32, 20672), (1,
     19359), (32, 20704), (1, 19359), (32, 20736), (1, 19359), (32, 20768), (1, 19359), (32,
     20800), (1, 19359), (32, 20832), (1, 19359), (32, 20864), (1, 19359), (32, 20896), (1,
     19359), (32, 20928), (1, 19359), (32, 20960), (1, 19359), (32, 20992), (1, 19359), (32,
     21024), (1, 19359), (32, 21056), (1, 19359), (32, 21088), (1, 19359), (32, 21120), (1,
     19359), (32, 21152), (1, 19359), (32, 21184), (1, 19359), (32, 21216), (1, 19359), (32,
     21248), (1, 19359), (3, 21280), (1, 21284), (1, 21286), (1, 21288), (1, 21290), (1, 21292),
     (1, 21294), (1, 21296), (1, 21298), (1, 21300), (1, 21302), (1, 21304), (1, 21306), (1,
     21308), (1, 21310), (1, 21312), (1, 21314), (1, 21316), (1, 21318), (1, 21320), (1, 21322),
     (1, 21324), (1, 21326), (1, 21328), (1, 21330), (1, 21332), (1, 21334), (1, 21336), (1,
     21338), (1, 21340), (1, 19359), (1, 21343), (1, 21345), (1, 21347), (1, 21349), (1, 21351),
     (1, 21353), (1, 21355), (1, 21357), (1, 21359), (1, 21361), (1, 21363), (1, 21365), (1,
     21367), (1, 21369), (1, 21371), (1, 21373), (1, 21375), (1, 21377), (1, 21379), (1, 21381),
     (1, 21383), (1, 21385), (1, 21387), (1, 21389), (1, 21391), (1, 21393), (1, 21395), (1,
     21397), (1, 21399), (1, 21401), (1, 21403), (1, 21405), (1, 19359), (1, 21408), (1, 21410),
     (1, 21412), (1, 21414), (1, 21416), (1, 21418), (1, 21420), (1, 21422), (1, 21424), (1,
     21426), (1, 21428), (1, 21430), (1, 21432), (1, 21434), (1, 21436), (1, 21438), (1, 21440),
     (1, 21442), (1, 21444), (1, 21446), (1, 21448), (1, 21450), (1, 21452), (1, 21454), (1,
     21456), (1, 21458), (1, 21460), (1, 21462), (1, 21464), (1, 21466), (1, 21468), (1, 21470),
     (1, 19359), (1, 21473), (1, 21475), (1, 21477), (1, 21479), (1, 21481), (1, 21483), (1,
     21485), (1, 21487), (1, 21489), (1, 21491), (1, 21493), (1, 21495), (1, 21497), (1, 21499),
     (1, 21501), (1, 21503), (1, 21505), (1, 21507), (1, 21509), (1, 21511), (1, 21513), (1,
     21515), (1, 21517), (1, 21519), (1, 21521), (1, 21523), (1, 21525), (1, 21527), (1, 21529),
     (1, 21531), (1, 21533), (1, 21535), (1, 19359), (1, 21538), (1, 21540), (1, 21542), (1,
     21544), (1, 21546), (1, 21548), (1, 21550), (1, 21552), (1, 21554), (1, 21556), (1, 21558),
     (1, 21560), (1, 21562), (1, 21564), (1, 21566), (1, 21568), (1, 21570), (1, 21572), (1,
     21574), (1, 21576), (1, 21578), (1, 21580), (1, 21582), (1, 21584), (1, 21586), (1, 21588),
     (1, 21590), (1, 21592), (1, 21594), (1, 21596), (1, 21598), (1, 21600), (1, 19359), (1,
     21603), (1, 21605), (1, 21607), (1, 21609), (1, 21611), (1, 21613), (1, 21615), (1, 21617),
     (1, 21619), (1, 21621), (1, 21623), (1, 21625), (1, 21627), (1, 21629), (1, 21631), (1,
     21633), (1, 21635), (1, 21637), (1, 21639), (1, 21641), (1, 21643), (1, 21645), (1, 21647),
     (1, 21649), (1, 21651), (1, 21653), (1, 21655), (1, 21657), (1, 21659), (1, 21661), (1,
     21663), (1, 21665), (1, 19359), (1, 21668), (1, 21670), (1, 21672), (1, 21674), (1, 21676),
     (1, 21678), (1, 21680), (1, 21682), (1, 21684), (1, 21686), (1, 21688), (1, 21690), (1,
     21692), (1, 21694), (1, 21696), (1, 21698), (1, 21700), (1, 21702), (1, 21704), (1, 21706),
     (1, 21708), (1, 21710), (1, 21712), (1, 21714), (1, 21716), (1, 21718), (1, 21720), (1,
     21722), (1, 21724), (1, 21726), (1, 21728), (1, 21730), (1, 19359), (1, 21733), (1, 21735),
     (1, 21737), (1, 21739), (1, 21741), (1, 21743), (1, 21745), (1, 21747), (1, 21749), (1,
     21751), (1, 21753), (1, 21755), (1, 21757), (1, 21759), (1, 21761), (1, 21763), (1, 21765),
     (1, 21767), (1, 21769), (1, 21771), (1, 21773), (1, 21775), (1, 21777), (1, 21779), (1,
     21781), (1, 21783), (1, 21785), (1, 21787), (1, 21789), (1, 21791), (1, 21793), (1,
     21795)], [], 1, 2244)"

definition POSEIDON_S_branches :: "branch list" where
  "POSEIDON_S_branches =
    [POSEIDON_S_width_2, POSEIDON_S_width_3, POSEIDON_S_width_4, POSEIDON_S_width_5,
     POSEIDON_S_width_6, POSEIDON_S_width_7, POSEIDON_S_width_8, POSEIDON_S_width_9,
     POSEIDON_S_width_10, POSEIDON_S_width_11, POSEIDON_S_width_12, POSEIDON_S_width_13,
     POSEIDON_S_width_14, POSEIDON_S_width_15, POSEIDON_S_width_16, POSEIDON_S_width_17]"

definition POSEIDON_S_1 :: "nat \<Rightarrow> frame \<Rightarrow> (cerr + FrElement list) option" where
  "POSEIDON_S_1 = constant_function POSEIDON_S_branches"

lemmas POSEIDON_S_rows =
  POSEIDON_S_branches_def POSEIDON_S_width_2_def POSEIDON_S_width_3_def
  POSEIDON_S_width_4_def POSEIDON_S_width_5_def POSEIDON_S_width_6_def
  POSEIDON_S_width_7_def POSEIDON_S_width_8_def POSEIDON_S_width_9_def
  POSEIDON_S_width_10_def POSEIDON_S_width_11_def POSEIDON_S_width_12_def
  POSEIDON_S_width_13_def POSEIDON_S_width_14_def POSEIDON_S_width_15_def
  POSEIDON_S_width_16_def POSEIDON_S_width_17_def

section \<open>\<open>POSEIDON_M_2\<close>\<close>

definition POSEIDON_M_width_2 :: branch where
  "POSEIDON_M_width_2 =
    (457, [(1, 3202), (1, 3314), (2, 21796)], [(5, 1, 2), (7, 3, 2)], 5, 4)"

definition POSEIDON_M_width_3 :: branch where
  "POSEIDON_M_width_3 =
    (460, [(9, 922)], [(10, 1, 3), (13, 4, 3), (16, 7, 3)], 10, 9)"

definition POSEIDON_M_width_4 :: branch where
  "POSEIDON_M_width_4 =
    (89, [(16, 91)], [(17, 1, 4), (21, 5, 4), (25, 9, 4), (29, 13, 4)], 17, 16)"

definition POSEIDON_M_width_5 :: branch where
  "POSEIDON_M_width_5 =
    (465, [(1, 3315), (1, 3937), (1, 3939), (1, 3941), (1, 3943), (20, 21798)], [(26, 1, 5),
     (31, 6, 5), (36, 11, 5), (41, 16, 5), (46, 21, 5)], 26, 25)"

definition POSEIDON_M_width_6 :: branch where
  "POSEIDON_M_width_6 =
    (468, [(1, 3944), (1, 4656), (1, 4658), (1, 4660), (1, 4662), (1, 4664), (30, 21818)], [(37,
     1, 6), (43, 7, 6), (49, 13, 6), (55, 19, 6), (61, 25, 6), (67, 31, 6)], 37, 36)"

definition POSEIDON_M_width_7 :: branch where
  "POSEIDON_M_width_7 =
    (455, [(1, 4665), (1, 5570), (1, 5572), (1, 5574), (1, 5576), (1, 5578), (1, 5580), (42,
     21848)], [(50, 1, 7), (57, 8, 7), (64, 15, 7), (71, 22, 7), (78, 29, 7), (85, 36, 7), (92,
     43, 7)], 50, 49)"

definition POSEIDON_M_width_8 :: branch where
  "POSEIDON_M_width_8 =
    (107, [(1, 5581), (1, 6606), (1, 6608), (1, 6610), (1, 6612), (1, 6614), (1, 6616), (1,
     6618), (56, 21890)], [(65, 1, 8), (73, 9, 8), (81, 17, 8), (89, 25, 8), (97, 33, 8), (105,
     41, 8), (113, 49, 8), (121, 57, 8)], 65, 64)"

definition POSEIDON_M_width_9 :: branch where
  "POSEIDON_M_width_9 =
    (475, [(1, 6619), (1, 7724), (1, 7726), (1, 7728), (1, 7730), (1, 7732), (1, 7734), (1,
     7736), (1, 7738), (72, 21946)], [(82, 1, 9), (91, 10, 9), (100, 19, 9), (109, 28, 9), (118,
     37, 9), (127, 46, 9), (136, 55, 9), (145, 64, 9), (154, 73, 9)], 82, 81)"

definition POSEIDON_M_width_10 :: branch where
  "POSEIDON_M_width_10 =
    (478, [(1, 7739), (1, 8872), (1, 8874), (1, 8876), (1, 8878), (1, 8880), (1, 8882), (1,
     8884), (1, 8886), (1, 8888), (90, 22018)], [(101, 1, 10), (111, 11, 10), (121, 21, 10),
     (131, 31, 10), (141, 41, 10), (151, 51, 10), (161, 61, 10), (171, 71, 10), (181, 81, 10),
     (191, 91, 10)], 101, 100)"

definition POSEIDON_M_width_11 :: branch where
  "POSEIDON_M_width_11 =
    (456, [(1, 8889), (1, 10437), (1, 10439), (1, 10441), (1, 10443), (1, 10445), (1, 10447),
     (1, 10449), (1, 10451), (1, 10453), (1, 10455), (110, 22108)], [(122, 1, 11), (133, 12,
     11), (144, 23, 11), (155, 34, 11), (166, 45, 11), (177, 56, 11), (188, 67, 11), (199, 78,
     11), (210, 89, 11), (221, 100, 11), (232, 111, 11)], 122, 121)"

definition POSEIDON_M_width_12 :: branch where
  "POSEIDON_M_width_12 =
    (108, [(1, 10456), (11, 11766), (132, 22218)], [(145, 1, 12), (157, 13, 12), (169, 25, 12),
     (181, 37, 12), (193, 49, 12), (205, 61, 12), (217, 73, 12), (229, 85, 12), (241, 97, 12),
     (253, 109, 12), (265, 121, 12), (277, 133, 12)], 145, 144)"

definition POSEIDON_M_width_13 :: branch where
  "POSEIDON_M_width_13 =
    (485, [(1, 11777), (1, 13554), (1, 13556), (1, 13558), (1, 13560), (1, 13562), (1, 13564),
     (1, 13566), (1, 13568), (1, 13570), (1, 13572), (1, 13574), (1, 13576), (156, 22350)],
     [(170, 1, 13), (183, 14, 13), (196, 27, 13), (209, 40, 13), (222, 53, 13), (235, 66, 13),
     (248, 79, 13), (261, 92, 13), (274, 105, 13), (287, 118, 13), (300, 131, 13), (313, 144,
     13), (326, 157, 13)], 170, 169)"

definition POSEIDON_M_width_14 :: branch where
  "POSEIDON_M_width_14 =
    (458, [(1, 13577), (1, 15638), (1, 15640), (1, 15642), (1, 15644), (1, 15646), (1, 15648),
     (1, 15650), (1, 15652), (1, 15654), (1, 15656), (1, 15658), (1, 15660), (1, 15662), (182,
     22506)], [(197, 1, 14), (211, 15, 14), (225, 29, 14), (239, 43, 14), (253, 57, 14), (267,
     71, 14), (281, 85, 14), (295, 99, 14), (309, 113, 14), (323, 127, 14), (337, 141, 14),
     (351, 155, 14), (365, 169, 14), (379, 183, 14)], 197, 196)"

definition POSEIDON_M_width_15 :: branch where
  "POSEIDON_M_width_15 =
    (490, [(1, 15663), (14, 17330), (210, 22688)], [(226, 1, 15), (241, 16, 15), (256, 31, 15),
     (271, 46, 15), (286, 61, 15), (301, 76, 15), (316, 91, 15), (331, 106, 15), (346, 121, 15),
     (361, 136, 15), (376, 151, 15), (391, 166, 15), (406, 181, 15), (421, 196, 15), (436, 211,
     15)], 226, 225)"

definition POSEIDON_M_width_16 :: branch where
  "POSEIDON_M_width_16 =
    (109, [(1, 17344), (1, 19330), (1, 19332), (1, 19334), (1, 19336), (1, 19338), (1, 19340),
     (1, 19342), (1, 19344), (1, 19346), (1, 19348), (1, 19350), (1, 19352), (1, 19354), (1,
     19356), (1, 19358), (240, 22898)], [(257, 1, 16), (273, 17, 16), (289, 33, 16), (305, 49,
     16), (321, 65, 16), (337, 81, 16), (353, 97, 16), (369, 113, 16), (385, 129, 16), (401,
     145, 16), (417, 161, 16), (433, 177, 16), (449, 193, 16), (465, 209, 16), (481, 225, 16),
     (497, 241, 16)], 257, 256)"

definition POSEIDON_M_width_17 :: branch where
  "POSEIDON_M_width_17 =
    (495, [(1, 19359), (1, 21765), (1, 21767), (1, 21769), (1, 21771), (1, 21773), (1, 21775),
     (1, 21777), (1, 21779), (1, 21781), (1, 21783), (1, 21785), (1, 21787), (1, 21789), (1,
     21791), (1, 21793), (1, 21795), (272, 23138)], [(290, 1, 17), (307, 18, 17), (324, 35, 17),
     (341, 52, 17), (358, 69, 17), (375, 86, 17), (392, 103, 17), (409, 120, 17), (426, 137,
     17), (443, 154, 17), (460, 171, 17), (477, 188, 17), (494, 205, 17), (511, 222, 17), (528,
     239, 17), (545, 256, 17), (562, 273, 17)], 290, 289)"

definition POSEIDON_M_branches :: "branch list" where
  "POSEIDON_M_branches =
    [POSEIDON_M_width_2, POSEIDON_M_width_3, POSEIDON_M_width_4, POSEIDON_M_width_5,
     POSEIDON_M_width_6, POSEIDON_M_width_7, POSEIDON_M_width_8, POSEIDON_M_width_9,
     POSEIDON_M_width_10, POSEIDON_M_width_11, POSEIDON_M_width_12, POSEIDON_M_width_13,
     POSEIDON_M_width_14, POSEIDON_M_width_15, POSEIDON_M_width_16, POSEIDON_M_width_17]"

definition POSEIDON_M_2 :: "nat \<Rightarrow> frame \<Rightarrow> (cerr + FrElement list) option" where
  "POSEIDON_M_2 = constant_function POSEIDON_M_branches"

lemmas POSEIDON_M_rows =
  POSEIDON_M_branches_def POSEIDON_M_width_2_def POSEIDON_M_width_3_def
  POSEIDON_M_width_4_def POSEIDON_M_width_5_def POSEIDON_M_width_6_def
  POSEIDON_M_width_7_def POSEIDON_M_width_8_def POSEIDON_M_width_9_def
  POSEIDON_M_width_10_def POSEIDON_M_width_11_def POSEIDON_M_width_12_def
  POSEIDON_M_width_13_def POSEIDON_M_width_14_def POSEIDON_M_width_15_def
  POSEIDON_M_width_16_def POSEIDON_M_width_17_def

section \<open>\<open>POSEIDON_P_3\<close>\<close>

definition POSEIDON_P_width_2 :: branch where
  "POSEIDON_P_width_2 =
    (457, [(1, 3202), (1, 23410), (1, 21796), (1, 23411)], [(5, 1, 2), (7, 3, 2)], 5, 4)"

definition POSEIDON_P_width_3 :: branch where
  "POSEIDON_P_width_3 =
    (460, [(1, 922), (2, 931), (1, 925), (2, 933), (1, 928), (2, 935)], [(10, 1, 3), (13, 4, 3),
     (16, 7, 3)], 10, 9)"

definition POSEIDON_P_width_4 :: branch where
  "POSEIDON_P_width_4 =
    (89, [(1, 91), (3, 110), (1, 95), (3, 113), (1, 99), (3, 116), (1, 103), (3, 119)], [(17, 1,
     4), (21, 5, 4), (25, 9, 4), (29, 13, 4)], 17, 16)"

definition POSEIDON_P_width_5 :: branch where
  "POSEIDON_P_width_5 =
    (465, [(1, 3315), (4, 23412), (1, 21798), (4, 23416), (1, 21803), (4, 23420), (1, 21808),
     (4, 23424), (1, 21813), (4, 23428)], [(26, 1, 5), (31, 6, 5), (36, 11, 5), (41, 16, 5),
     (46, 21, 5)], 26, 25)"

definition POSEIDON_P_width_6 :: branch where
  "POSEIDON_P_width_6 =
    (468, [(1, 3944), (5, 23432), (1, 21818), (5, 23437), (1, 21824), (5, 23442), (1, 21830),
     (5, 23447), (1, 21836), (5, 23452), (1, 21842), (5, 23457)], [(37, 1, 6), (43, 7, 6), (49,
     13, 6), (55, 19, 6), (61, 25, 6), (67, 31, 6)], 37, 36)"

definition POSEIDON_P_width_7 :: branch where
  "POSEIDON_P_width_7 =
    (455, [(1, 4665), (6, 23462), (1, 21848), (6, 23468), (1, 21855), (6, 23474), (1, 21862),
     (6, 23480), (1, 21869), (6, 23486), (1, 21876), (6, 23492), (1, 21883), (6, 23498)], [(50,
     1, 7), (57, 8, 7), (64, 15, 7), (71, 22, 7), (78, 29, 7), (85, 36, 7), (92, 43, 7)], 50,
     49)"

definition POSEIDON_P_width_8 :: branch where
  "POSEIDON_P_width_8 =
    (107, [(1, 5581), (7, 23504), (1, 21890), (7, 23511), (1, 21898), (7, 23518), (1, 21906),
     (7, 23525), (1, 21914), (7, 23532), (1, 21922), (7, 23539), (1, 21930), (7, 23546), (1,
     21938), (7, 23553)], [(65, 1, 8), (73, 9, 8), (81, 17, 8), (89, 25, 8), (97, 33, 8), (105,
     41, 8), (113, 49, 8), (121, 57, 8)], 65, 64)"

definition POSEIDON_P_width_9 :: branch where
  "POSEIDON_P_width_9 =
    (475, [(1, 6619), (8, 23560), (1, 21946), (8, 23568), (1, 21955), (8, 23576), (1, 21964),
     (8, 23584), (1, 21973), (8, 23592), (1, 21982), (8, 23600), (1, 21991), (8, 23608), (1,
     22000), (8, 23616), (1, 22009), (8, 23624)], [(82, 1, 9), (91, 10, 9), (100, 19, 9), (109,
     28, 9), (118, 37, 9), (127, 46, 9), (136, 55, 9), (145, 64, 9), (154, 73, 9)], 82, 81)"

definition POSEIDON_P_width_10 :: branch where
  "POSEIDON_P_width_10 =
    (478, [(1, 7739), (9, 23632), (1, 22018), (9, 23641), (1, 22028), (9, 23650), (1, 22038),
     (9, 23659), (1, 22048), (9, 23668), (1, 22058), (9, 23677), (1, 22068), (9, 23686), (1,
     22078), (9, 23695), (1, 22088), (9, 23704), (1, 22098), (9, 23713)], [(101, 1, 10), (111,
     11, 10), (121, 21, 10), (131, 31, 10), (141, 41, 10), (151, 51, 10), (161, 61, 10), (171,
     71, 10), (181, 81, 10), (191, 91, 10)], 101, 100)"

definition POSEIDON_P_width_11 :: branch where
  "POSEIDON_P_width_11 =
    (456, [(1, 8889), (10, 23722), (1, 22108), (10, 23732), (1, 22119), (10, 23742), (1, 22130),
     (10, 23752), (1, 22141), (10, 23762), (1, 22152), (10, 23772), (1, 22163), (10, 23782), (1,
     22174), (10, 23792), (1, 22185), (10, 23802), (1, 22196), (10, 23812), (1, 22207), (10,
     23822)], [(122, 1, 11), (133, 12, 11), (144, 23, 11), (155, 34, 11), (166, 45, 11), (177,
     56, 11), (188, 67, 11), (199, 78, 11), (210, 89, 11), (221, 100, 11), (232, 111, 11)], 122,
     121)"

definition POSEIDON_P_width_12 :: branch where
  "POSEIDON_P_width_12 =
    (108, [(1, 10456), (11, 23832), (1, 22218), (11, 23843), (1, 22230), (11, 23854), (1,
     22242), (11, 23865), (1, 22254), (11, 23876), (1, 22266), (11, 23887), (1, 22278), (11,
     23898), (1, 22290), (11, 23909), (1, 22302), (11, 23920), (1, 22314), (11, 23931), (1,
     22326), (11, 23942), (1, 22338), (11, 23953)], [(145, 1, 12), (157, 13, 12), (169, 25, 12),
     (181, 37, 12), (193, 49, 12), (205, 61, 12), (217, 73, 12), (229, 85, 12), (241, 97, 12),
     (253, 109, 12), (265, 121, 12), (277, 133, 12)], 145, 144)"

definition POSEIDON_P_width_13 :: branch where
  "POSEIDON_P_width_13 =
    (485, [(1, 11777), (12, 23964), (1, 22350), (12, 23976), (1, 22363), (12, 23988), (1,
     22376), (12, 24000), (1, 22389), (12, 24012), (1, 22402), (12, 24024), (1, 22415), (12,
     24036), (1, 22428), (12, 24048), (1, 22441), (12, 24060), (1, 22454), (12, 24072), (1,
     22467), (12, 24084), (1, 22480), (12, 24096), (1, 22493), (12, 24108)], [(170, 1, 13),
     (183, 14, 13), (196, 27, 13), (209, 40, 13), (222, 53, 13), (235, 66, 13), (248, 79, 13),
     (261, 92, 13), (274, 105, 13), (287, 118, 13), (300, 131, 13), (313, 144, 13), (326, 157,
     13)], 170, 169)"

definition POSEIDON_P_width_14 :: branch where
  "POSEIDON_P_width_14 =
    (458, [(1, 13577), (13, 24120), (1, 22506), (13, 24133), (1, 22520), (13, 24146), (1,
     22534), (13, 24159), (1, 22548), (13, 24172), (1, 22562), (13, 24185), (1, 22576), (13,
     24198), (1, 22590), (13, 24211), (1, 22604), (13, 24224), (1, 22618), (13, 24237), (1,
     22632), (13, 24250), (1, 22646), (13, 24263), (1, 22660), (13, 24276), (1, 22674), (13,
     24289)], [(197, 1, 14), (211, 15, 14), (225, 29, 14), (239, 43, 14), (253, 57, 14), (267,
     71, 14), (281, 85, 14), (295, 99, 14), (309, 113, 14), (323, 127, 14), (337, 141, 14),
     (351, 155, 14), (365, 169, 14), (379, 183, 14)], 197, 196)"

definition POSEIDON_P_width_15 :: branch where
  "POSEIDON_P_width_15 =
    (490, [(1, 15663), (14, 24302), (1, 22688), (14, 24316), (1, 22703), (14, 24330), (1,
     22718), (14, 24344), (1, 22733), (14, 24358), (1, 22748), (14, 24372), (1, 22763), (14,
     24386), (1, 22778), (14, 24400), (1, 22793), (14, 24414), (1, 22808), (14, 24428), (1,
     22823), (14, 24442), (1, 22838), (14, 24456), (1, 22853), (14, 24470), (1, 22868), (14,
     24484), (1, 22883), (14, 24498)], [(226, 1, 15), (241, 16, 15), (256, 31, 15), (271, 46,
     15), (286, 61, 15), (301, 76, 15), (316, 91, 15), (331, 106, 15), (346, 121, 15), (361,
     136, 15), (376, 151, 15), (391, 166, 15), (406, 181, 15), (421, 196, 15), (436, 211, 15)],
     226, 225)"

definition POSEIDON_P_width_16 :: branch where
  "POSEIDON_P_width_16 =
    (109, [(1, 17344), (15, 24512), (1, 22898), (15, 24527), (1, 22914), (15, 24542), (1,
     22930), (15, 24557), (1, 22946), (15, 24572), (1, 22962), (15, 24587), (1, 22978), (15,
     24602), (1, 22994), (15, 24617), (1, 23010), (15, 24632), (1, 23026), (15, 24647), (1,
     23042), (15, 24662), (1, 23058), (15, 24677), (1, 23074), (15, 24692), (1, 23090), (15,
     24707), (1, 23106), (15, 24722), (1, 23122), (15, 24737)], [(257, 1, 16), (273, 17, 16),
     (289, 33, 16), (305, 49, 16), (321, 65, 16), (337, 81, 16), (353, 97, 16), (369, 113, 16),
     (385, 129, 16), (401, 145, 16), (417, 161, 16), (433, 177, 16), (449, 193, 16), (465, 209,
     16), (481, 225, 16), (497, 241, 16)], 257, 256)"

definition POSEIDON_P_width_17 :: branch where
  "POSEIDON_P_width_17 =
    (495, [(1, 19359), (16, 24752), (1, 23138), (16, 24768), (1, 23155), (16, 24784), (1,
     23172), (16, 24800), (1, 23189), (16, 24816), (1, 23206), (16, 24832), (1, 23223), (16,
     24848), (1, 23240), (16, 24864), (1, 23257), (16, 24880), (1, 23274), (16, 24896), (1,
     23291), (16, 24912), (1, 23308), (16, 24928), (1, 23325), (16, 24944), (1, 23342), (16,
     24960), (1, 23359), (16, 24976), (1, 23376), (16, 24992), (1, 23393), (16, 25008)], [(290,
     1, 17), (307, 18, 17), (324, 35, 17), (341, 52, 17), (358, 69, 17), (375, 86, 17), (392,
     103, 17), (409, 120, 17), (426, 137, 17), (443, 154, 17), (460, 171, 17), (477, 188, 17),
     (494, 205, 17), (511, 222, 17), (528, 239, 17), (545, 256, 17), (562, 273, 17)], 290, 289)"

definition POSEIDON_P_branches :: "branch list" where
  "POSEIDON_P_branches =
    [POSEIDON_P_width_2, POSEIDON_P_width_3, POSEIDON_P_width_4, POSEIDON_P_width_5,
     POSEIDON_P_width_6, POSEIDON_P_width_7, POSEIDON_P_width_8, POSEIDON_P_width_9,
     POSEIDON_P_width_10, POSEIDON_P_width_11, POSEIDON_P_width_12, POSEIDON_P_width_13,
     POSEIDON_P_width_14, POSEIDON_P_width_15, POSEIDON_P_width_16, POSEIDON_P_width_17]"

definition POSEIDON_P_3 :: "nat \<Rightarrow> frame \<Rightarrow> (cerr + FrElement list) option" where
  "POSEIDON_P_3 = constant_function POSEIDON_P_branches"

lemmas POSEIDON_P_rows =
  POSEIDON_P_branches_def POSEIDON_P_width_2_def POSEIDON_P_width_3_def
  POSEIDON_P_width_4_def POSEIDON_P_width_5_def POSEIDON_P_width_6_def
  POSEIDON_P_width_7_def POSEIDON_P_width_8_def POSEIDON_P_width_9_def
  POSEIDON_P_width_10_def POSEIDON_P_width_11_def POSEIDON_P_width_12_def
  POSEIDON_P_width_13_def POSEIDON_P_width_14_def POSEIDON_P_width_15_def
  POSEIDON_P_width_16_def POSEIDON_P_width_17_def

end
