(* ===== verification/Constant_Functions.thy ===== *)
theory Constant_Functions
  imports Poseidon_Tables Circuit_Leaf
begin

text \<open>
  What the functions \<open>POSEIDON_C_0\<close>, \<open>POSEIDON_S_1\<close>, \<open>POSEIDON_M_2\<close> and \<open>POSEIDON_P_3\<close> return: for
  each of the widths 2 to 17 the listed circuit constants, cut to the size of the destination; for
  any other argument they stop at the assertion of the constant zero.
\<close>

section \<open>Loads, copies of rows, and reading the result\<close>

lemma const_map_rows:
  assumes "i < length ms"
  shows "const_map cs (zip [1..<Suc (length ms)] ms) (Suc i) = Some (cs ! (ms ! i))"
  using assms
proof (induction ms rule: rev_induct)
  case (snoc m ms)
  have "zip [1..<Suc (length (ms @ [m]))] (ms @ [m]) =
      zip [1..<Suc (length ms)] ms @ [(Suc (length ms), m)]"
    by (simp add: upt_Suc_append zip_append1 del: upt_Suc)
  then show ?case using snoc by (auto simp: const_map_append nth_append map_add_def less_Suc_eq)
qed simp

lemma runs_load_rows:
  assumes "length ms < lvar_size s" "\<forall>m \<in> set ms. m < length (consts_of s)"
  shows "runs (load_rows ms) s (\<lambda>t. (\<exists>l. t = s\<lparr>lvar := l\<rparr>) \<and>
    (\<forall>i < length ms. lvar t (Suc i) = Some (consts_of s ! (ms ! i))))"
proof -
  have "\<forall>(l, c) \<in> set (zip [1..<Suc (length ms)] ms). l < lvar_size s \<and> c < length (consts_of s)"
    using assms by (fastforce dest: set_zip_leftD set_zip_rightD)
  moreover have "(lvar s ++ const_map (consts_of s) (zip [1..<Suc (length ms)] ms)) (Suc i) =
      Some (consts_of s ! (ms ! i))" if "i < length ms" for i
    using const_map_rows [OF that] by (simp only: map_add_def option.case)
  ultimately show ?thesis
    unfolding load_rows_def runs_load_consts by (intro conjI exI [of _ "lvar s ++ _"]) simp_all
qed

lemma runs_copyn:
  assumes "src + n \<le> dst \<or> dst + n \<le> src \<and> src + n \<le> lvar_size s" "dst + n \<le> lvar_size s" "\<And>i. i < n \<Longrightarrow> lvar s (src + i) \<noteq> None"
  shows "runs (copyn dst src n) s (\<lambda>t. t = s\<lparr>lvar := (\<lambda>i. if dst \<le> i \<and> i < dst + n then lvar s (src + (i - dst))
    else lvar s i)\<rparr>)"
proof -
  define l where "l m = (\<lambda>i. if dst \<le> i \<and> i < dst + m then lvar s (src + (i - dst)) else lvar s i)" for m
  have "runs (forM n (\<lambda>i. copyM (D_lvar (int (dst + i))) (lv (src + i)))) s (\<lambda>t. t = s\<lparr>lvar := l n\<rparr>)"
  proof (rule runs_for [where I = "\<lambda>m t. t = s\<lparr>lvar := l m\<rparr>"])
    have "l 0 = lvar s" by (rule ext) (auto simp: l_def)
    then show "s = s\<lparr>lvar := l 0\<rparr>" by simp
  next
    fix i t assume i: "i < n" and t: "t = s\<lparr>lvar := l i\<rparr>"
    obtain v where v: "lvar s (src + i) = Some v" using assms(3) [OF i] by blast
    have "lv (src + i) t = Inr v"
      using assms(1,2) i v by (intro lv_eq) (auto simp: t l_def)
    moreover have "(l i)(dst + i \<mapsto> v) = l (Suc i)"
      by (rule ext) (use v in \<open>auto simp: l_def less_Suc_eq\<close>)
    ultimately show "runs (copyM (D_lvar (int (dst + i))) (lv (src + i))) t (\<lambda>t. t = s\<lparr>lvar := l (Suc i)\<rparr>)"
      using assms(2) i by (simp add: wp store_lvar t del: of_nat_add)
  qed simp
  then show ?thesis by (simp add: copyn_def l_def)
qed

lemma read_cells_eq:
  assumes "i + n \<le> lvar_size s" "\<And>k. k < n \<Longrightarrow> lvar s (i + k) = Some (f k)"
  shows "read_cells i n s = Inr (map f [0..<n])"
  using assms
proof (induction n arbitrary: i f)
  case (Suc n)
  have "read_cells (i + 1) n s = Inr (map (\<lambda>k. f (Suc k)) [0..<n])"
    using Suc.prems(1) Suc.prems(2) [of "Suc _"] by (intro Suc.IH) auto
  moreover have "map f [0..<Suc n] = f 0 # map (\<lambda>k. f (Suc k)) [0..<n]"
    by (simp add: upt_conv_Cons map_Suc_upt [symmetric] del: upt_Suc)
  ultimately show ?case using Suc.prems(1) Suc.prems(2) [of 0] by (simp add: lv_eq)
qed simp

text \<open>The rows \<open>1 + i * t\<close> and on, copied behind the loaded cells one by one.\<close>

definition rows :: "nat \<Rightarrow> nat \<Rightarrow> (nat \<times> nat \<times> nat) list" where
  "rows t m = map (\<lambda>i. (t * t + 1 + i * t, 1 + i * t, t)) [0..<m]"

lemma runs_rows:
  assumes "m \<le> t" "2 * (t * t) < lvar_size s" "\<And>i. i < t * t \<Longrightarrow> lvar s (Suc i) = Some (f i)"
  shows "runs (seqM (map (\<lambda>(d, s, n). copyn d s n) (rows t m))) s (\<lambda>u. (\<exists>l. u = s\<lparr>lvar := l\<rparr>) \<and>
    (\<forall>i < t * t. lvar u (Suc i) = Some (f i)) \<and> (\<forall>i < m * t. lvar u (t * t + 1 + i) = Some (f i)))"
  using assms(1)
proof (induction m)
  case 0
  show ?case using assms(3) by (auto simp: rows_def wp intro!: exI [of _ "lvar s"])
next
  case (Suc m)
  have split: "map (\<lambda>(d, s, n). copyn d s n) (rows t (Suc m)) =
      map (\<lambda>(d, s, n). copyn d s n) (rows t m) @ [copyn (t * t + 1 + m * t) (1 + m * t) t]"
    by (simp add: rows_def)
  have mt: "m * t + t \<le> t * t"
  proof -
    have "(m + 1) * t \<le> t * t" using Suc.prems by (intro mult_le_mono1) simp
    then show ?thesis by simp
  qed
  show ?case
    unfolding split runs_seq_append
  proof (rule runs_mono [OF Suc.IH])
    show "m \<le> t" using Suc.prems by simp
    fix u assume u: "(\<exists>l. u = s\<lparr>lvar := l\<rparr>) \<and> (\<forall>i < t * t. lvar u (Suc i) = Some (f i)) \<and>
      (\<forall>i < m * t. lvar u (t * t + 1 + i) = Some (f i))"
    define l where "l = (\<lambda>i. if t * t + 1 + m * t \<le> i \<and> i < t * t + 1 + m * t + t
      then lvar u (1 + m * t + (i - (t * t + 1 + m * t))) else lvar u i)"
    have run: "runs (copyn (t * t + 1 + m * t) (1 + m * t) t) u (\<lambda>v. v = u\<lparr>lvar := l\<rparr>)"
      unfolding l_def by (rule runs_copyn) (use u mt assms(2) in \<open>auto simp: add.assoc\<close>)
    have l1: "l (Suc i) = Some (f i)" if "i < t * t" for i using that u by (simp add: l_def)
    have l2: "l (t * t + 1 + i) = Some (f i)" if "i < Suc m * t" for i
    proof (cases "i < m * t")
      case True
      then show ?thesis using u by (simp add: l_def)
    next
      case False
      then have "1 + m * t + (t * t + 1 + i - (t * t + 1 + m * t)) = Suc i" by simp
      moreover have "t * t + 1 + m * t \<le> t * t + 1 + i" "t * t + 1 + i < t * t + 1 + m * t + t" "i < t * t"
        using False that mt by simp_all
      ultimately show ?thesis using u unfolding l_def by (simp only: if_True simp_thms)
    qed
    show "runs (seqM [copyn (t * t + 1 + m * t) (1 + m * t) t]) u (\<lambda>u. (\<exists>l. u = s\<lparr>lvar := l\<rparr>) \<and>
      (\<forall>i < t * t. lvar u (Suc i) = Some (f i)) \<and> (\<forall>i < Suc m * t. lvar u (t * t + 1 + i) = Some (f i)))"
      unfolding runs_seq_Cons runs_seq_Nil by (rule runs_mono [OF run]) (use u l1 l2 in auto)
  qed
qed

section \<open>One branch\<close>

text \<open>
  A branch returns what it loaded: directly, or the rows of a square matrix copied behind it. The
  check looks at the runs only, not at every constant.
\<close>

fun branch_ok :: "nat \<Rightarrow> nat \<Rightarrow> branch \<Rightarrow> bool" where
  "branch_ok sz t (c, ps, cps, src, n) \<longleftrightarrow>
     list_all (\<lambda>(n, c). c + n \<le> 25024) ps \<and> sum_list (map fst ps) = n \<and> n < sz \<and>
     (cps = [] \<and> src = 1 \<or> n = t * t \<and> cps = rows t t \<and> src = t * t + 1 \<and> 2 * (t * t) < sz)"

definition branch_consts :: "branch \<Rightarrow> nat list" where
  "branch_consts b = spans (fst (snd b))"

lemma length_spans: "length (spans ps) = sum_list (map fst ps)"
  by (induction ps) (auto simp: spans_def)

lemma spans_bound: "list_all (\<lambda>(n, c). c + n \<le> b) ps \<Longrightarrow> \<forall>m \<in> set (spans ps). m < b"
  by (induction ps) (auto simp: spans_def)

lemma take_branch_run:
  assumes ok: "branch_ok (lvar_size s) t b" and cs: "length (consts_of s) = 25024"
  shows "take_branch b m s = Some (Inr (map ((!) (consts_of s)) (take m (branch_consts b))))"
proof -
  obtain c ps cps src n where b: "b = (c, ps, cps, src, n)" by (cases b)
  let ?ms = "spans ps"
  define f where "f i = consts_of s ! (?ms ! i)" for i
  have len: "length ?ms = n" "n < lvar_size s" using ok by (simp_all add: b length_spans)
  have ms: "\<forall>m \<in> set ?ms. m < length (consts_of s)" using ok cs spans_bound [of 25024 ps] by (simp add: b)
  have "runs (load_rows ?ms) s (\<lambda>t. (\<exists>l. t = s\<lparr>lvar := l\<rparr>) \<and> (\<forall>i < n. lvar t (Suc i) = Some (f i)))"
    using runs_load_rows [of ?ms s] len ms by (simp add: f_def)
  moreover have "runs (seqM (map (\<lambda>(d, s, n). copyn d s n) cps)) u (\<lambda>t. (\<exists>l. t = s\<lparr>lvar := l\<rparr>) \<and>
      src + n \<le> lvar_size s \<and> (\<forall>i < n. lvar t (src + i) = Some (f i)))"
    if u: "(\<exists>l. u = s\<lparr>lvar := l\<rparr>) \<and> (\<forall>i < n. lvar u (Suc i) = Some (f i))" for u
  proof (cases "cps = []")
    case True
    have "src = 1"
      using ok True by (cases "t = 0") (auto simp: b rows_def)
    then show ?thesis using u len True by (auto simp: wp)
  next
    case False
    then have r: "n = t * t" "cps = rows t t" "src = t * t + 1" "2 * (t * t) < lvar_size s"
      using ok by (auto simp: b)
    show ?thesis
      unfolding r(2)
      by (rule runs_mono [OF runs_rows [of t t u f]]) (use u r in auto)
  qed
  ultimately have "runs (seqM (load_rows ?ms # map (\<lambda>(d, s, n). copyn d s n) cps)) s (\<lambda>t.
      (\<exists>l. t = s\<lparr>lvar := l\<rparr>) \<and> src + n \<le> lvar_size s \<and> (\<forall>i < n. lvar t (src + i) = Some (f i)))"
    unfolding runs_seq_Cons by (rule runs_mono)
  then obtain u where u: "seqM (load_rows ?ms # map (\<lambda>(d, s, n). copyn d s n) cps) s = Some (Inr u)"
    "lvar_size u = lvar_size s" "src + n \<le> lvar_size s" "\<And>i. i < n \<Longrightarrow> lvar u (src + i) = Some (f i)"
    by (auto simp: runs_def)
  have "read_cells src (min n m) u = Inr (map f [0..<min n m])"
    by (rule read_cells_eq) (use u in auto)
  moreover have "map f [0..<min n m] = map ((!) (consts_of s)) (take m ?ms)"
    by (rule nth_equalityI) (use len in \<open>auto simp: f_def\<close>)
  ultimately show ?thesis
    by (simp add: take_branch_def b u(1) branch_consts_def)
qed

section \<open>The chain of comparisons\<close>

text \<open>The widths that the branches are for, in their order, and the constants that hold them.\<close>

lemma chain_step:
  assumes "lvar s 0 = Some a" "0 < lvar_size s" "0 < expaux_size s" "small a w"
    "fst b < length (consts_of s)" "small (consts_of s ! fst b) v"
  shows "constant_function (b # bs) m s =
    (let t = s\<lparr>expaux := (expaux s)(0 \<mapsto> bool_elem (w = v))\<rparr>
     in if w = v then take_branch b m t else constant_function bs m t)"
proof -
  have "op2 Fr_eq 0 (lv 0) (con (fst b)) s = Some (Inr (s\<lparr>expaux := (expaux s)(0 \<mapsto> bool_elem (w = v))\<rparr>))"
    using runs_op2 [of Fr_eq 0 "lv 0" "con (fst b)" s "\<lambda>t. t = s\<lparr>expaux := (expaux s)(0 \<mapsto> bool_elem (w = v))\<rparr>"]
      assms small_eq [OF assms(4,6)] by (simp add: lv_eq con_eq runs_def)
  moreover have "isTrueE 0 (s\<lparr>expaux := (expaux s)(0 \<mapsto> bool_elem (w = v))\<rparr>) = Inr (w = v)"
    using assms(3) by (simp add: isTrueE_def exp_at_eq)
  ultimately show ?thesis by (simp only: constant_function.simps Let_def option.case sum.case)
qed

lemma chain_run:
  assumes s: "lvar s 0 = Some a" "0 < lvar_size s" "0 < expaux_size s" "small a w"
    and bs: "\<And>i. i < length bs \<Longrightarrow> fst (bs ! i) < length (consts_of s) \<and> small (consts_of s ! fst (bs ! i)) (key i)"
  shows "\<exists>e. constant_function bs m s = (case find (\<lambda>i. key i = w) [0..<length bs] of
      None \<Rightarrow> constant_function [] m (s\<lparr>expaux := e\<rparr>)
    | Some i \<Rightarrow> take_branch (bs ! i) m (s\<lparr>expaux := e\<rparr>))"
  using s bs
proof (induction bs arbitrary: s key)
  case Nil
  have "s\<lparr>expaux := expaux s\<rparr> = s" by simp
  then show ?case by (intro exI [of _ "expaux s"]) (simp only: list.size upt_0 find.simps option.case)
next
  case (Cons b bs)
  let ?t = "s\<lparr>expaux := (expaux s)(0 \<mapsto> bool_elem (w = key 0))\<rparr>"
  have step: "constant_function (b # bs) m s = (if w = key 0 then take_branch b m ?t else constant_function bs m ?t)"
    using chain_step [OF Cons.prems(1-4), of b "key 0" bs m] Cons.prems(5) [of 0] by (simp add: Let_def)
  have c: "consts_of ?t = consts_of s" by (simp add: consts_of_def)
  have fold: "?t\<lparr>expaux := e\<rparr> = s\<lparr>expaux := e\<rparr>" for e by simp
  have "\<And>i. i < length bs \<Longrightarrow> fst (bs ! i) < length (consts_of ?t) \<and> small (consts_of ?t ! fst (bs ! i)) (key (Suc i))"
    using Cons.prems(5) [of "Suc _"] unfolding c by auto
  moreover have "lvar ?t 0 = Some a" "0 < lvar_size ?t" "0 < expaux_size ?t" using Cons.prems(1-3) by simp_all
  ultimately obtain e where e: "constant_function bs m ?t = (case find (\<lambda>i. key (Suc i) = w) [0..<length bs] of
      None \<Rightarrow> constant_function [] m (s\<lparr>expaux := e\<rparr>) | Some i \<Rightarrow> take_branch (bs ! i) m (s\<lparr>expaux := e\<rparr>))"
    using Cons.IH [of ?t "\<lambda>i. key (Suc i)"] Cons.prems(4) unfolding fold by blast
  have f: "find (\<lambda>i. key i = w) [0..<length (b # bs)] =
      (if key 0 = w then Some 0 else map_option Suc (find (\<lambda>i. key (Suc i) = w) [0..<length bs]))"
  proof -
    have "find P (map Suc xs) = map_option Suc (find (\<lambda>i. P (Suc i)) xs)" for P xs
      by (induction xs) auto
    then show ?thesis by (simp add: upt_conv_Cons map_Suc_upt [symmetric] del: upt_Suc)
  qed
  show ?case
  proof (cases "key 0 = w")
    case True
    then show ?thesis unfolding step f by (intro exI [of _ "(expaux s)(0 \<mapsto> bool_elem (w = key 0))"]) simp
  next
    case False
    then show ?thesis
      unfolding step f using e
      by (intro exI [of _ e], cases "find (\<lambda>i. key (Suc i) = w) [0..<length bs]") simp_all
  qed
qed

section \<open>The four functions\<close>

text \<open>The constants that hold the widths 2 to 17.\<close>

definition width_args :: "nat list" where
  "width_args = [457, 460, 89, 465, 468, 455, 107, 475, 478, 456, 108, 485, 458, 490, 109, 495]"

definition width_args_ok :: "FrElement list \<Rightarrow> bool" where
  "width_args_ok cs \<longleftrightarrow> length cs = 25024 \<and>
     (\<forall>i < length width_args. small (cs ! (width_args ! i)) (int (i + 2))) \<and> small (cs ! 88) 0"

lemma branches_args:
  "map fst POSEIDON_C_branches = width_args" "map fst POSEIDON_S_branches = width_args"
  "map fst POSEIDON_M_branches = width_args" "map fst POSEIDON_P_branches = width_args"
  by (simp_all add: POSEIDON_C_rows POSEIDON_S_rows POSEIDON_M_rows POSEIDON_P_rows width_args_def)

lemma branches_C_ok: "list_all2 (branch_ok 205) [2..<18] POSEIDON_C_branches"
  by (simp add: POSEIDON_C_rows upt_rec)

lemma branches_S_ok: "list_all2 (branch_ok 2245) [2..<18] POSEIDON_S_branches"
  by (simp add: POSEIDON_S_rows upt_rec)

lemma branches_M_ok: "list_all2 (branch_ok 579) [2..<18] POSEIDON_M_branches"
  by (simp add: POSEIDON_M_rows upt_rec rows_def)

lemma branches_P_ok: "list_all2 (branch_ok 579) [2..<18] POSEIDON_P_branches"
  by (simp add: POSEIDON_P_rows upt_rec rows_def)

lemma width_args_bound: "i < 16 \<Longrightarrow> width_args ! i < 25024"
proof -
  have "list_all (\<lambda>m. m < 25024) width_args" by (simp add: width_args_def)
  then show "i < 16 \<Longrightarrow> width_args ! i < 25024" by (rule bound_nth) (simp_all add: width_args_def)
qed

lemma find_append: "find P (xs @ ys) = (case find P xs of None \<Rightarrow> find P ys | Some x \<Rightarrow> Some x)"
  by (induction xs) auto

lemma find_width: "find (\<lambda>i. int (i + 2) = w) [0..<n] = (if 2 \<le> w \<and> w < int n + 2 then Some (nat (w - 2)) else None)"
  by (induction n) (auto simp: find_append)

lemma constant_function_width:
  assumes ok: "list_all2 (branch_ok sz) [2..<18] bs" "map fst bs = width_args"
    and s: "lvar s 0 = Some a" "small a w" "lvar_size s = sz" "0 < sz" "0 < expaux_size s" "width_args_ok (consts_of s)"
  shows "constant_function bs m s =
    (if 2 \<le> w \<and> w \<le> 17 then Some (Inr (map ((!) (consts_of s)) (take m (branch_consts (bs ! nat (w - 2))))))
     else Some (Inl (AssertFailed ''constant'')))"
proof -
  have len: "length bs = 16" using list_all2_lengthD [OF ok(1)] by simp
  have b: "branch_ok sz (i + 2) (bs ! i)" "fst (bs ! i) = width_args ! i" if "i < 16" for i
    using that list_all2_nthD2 [OF ok(1), of i] len arg_cong [OF ok(2), of "\<lambda>xs. xs ! i"] nth_upt [of 2 i 18]
    by (simp_all add: add.commute del: upt_rec_numeral upt_Suc)
  have wl: "length width_args = 16" by (simp add: width_args_def)
  have cs: "length (consts_of s) = 25024" using s(6) by (simp add: width_args_ok_def)
  have "fst (bs ! i) < length (consts_of s) \<and> small (consts_of s ! fst (bs ! i)) (int (i + 2))"
    if "i < length bs" for i
    using that s(6) b(2) width_args_bound len wl cs by (simp add: width_args_ok_def)
  from chain_run [OF s(1) _ s(5) s(2) this, of m] obtain e where e: "constant_function bs m s =
    (case find (\<lambda>i. int (i + 2) = w) [0..<16] of
       None \<Rightarrow> constant_function [] m (s\<lparr>expaux := e\<rparr>) | Some i \<Rightarrow> take_branch (bs ! i) m (s\<lparr>expaux := e\<rparr>))"
    using s(3,4) len by auto
  have c: "consts_of (s\<lparr>expaux := e\<rparr>) = consts_of s" by (simp add: consts_of_def)
  show ?thesis
  proof (cases "2 \<le> w \<and> w \<le> 17")
    case True
    then have i: "nat (w - 2) < 16" by linarith
    have "take_branch (bs ! nat (w - 2)) m (s\<lparr>expaux := e\<rparr>) =
      Some (Inr (map ((!) (consts_of (s\<lparr>expaux := e\<rparr>))) (take m (branch_consts (bs ! nat (w - 2))))))"
      by (rule take_branch_run) (use b(1) [OF i] s(3) cs c in auto)
    then show ?thesis using True e [unfolded find_width] c by simp
  next
    case False
    have "con 88 (s\<lparr>expaux := e\<rparr>) = Inr (consts_of s ! 88)" using cs c by (simp add: con_eq)
    moreover have "\<not> Fr_isTrue (consts_of s ! 88)"
      using s(6) Fr_isTrue_iff [OF small_fok, of "consts_of s ! 88" 0] small_fval [of "consts_of s ! 88" 0]
      by (simp add: width_args_ok_def)
    ultimately show ?thesis using False e [unfolded find_width] by auto
  qed
qed

text \<open>The frame of a call, as \<open>call_constants\<close> sets it up, and what the four functions return in it.\<close>

definition call_frame :: "nat \<Rightarrow> FrElement \<Rightarrow> frame \<Rightarrow> frame" where
  "call_frame sz a s = s\<lparr>expaux := Map.empty, expaux_size := 2, lvar := [0 \<mapsto> Fr_copy a], lvar_size := sz\<rparr>"

definition width_table :: "branch list \<Rightarrow> int \<Rightarrow> nat \<Rightarrow> FrElement list \<Rightarrow> (cerr + FrElement list) option" where
  "width_table bs w m cs =
     Some (if 2 \<le> w \<and> w \<le> 17 then Inr (map ((!) cs) (take m (branch_consts (bs ! nat (w - 2)))))
       else Inl (AssertFailed ''constant''))"

lemma called_width:
  assumes "list_all2 (branch_ok sz) [2..<18] bs" "map fst bs = width_args" "0 < sz" "small a w" "width_args_ok (consts_of s)"
  shows "constant_function bs m (call_frame sz a s) = width_table bs w m (consts_of s)"
proof -
  have "consts_of (call_frame sz a s) = consts_of s" by (simp add: call_frame_def consts_of_def)
  then show ?thesis
    by (subst constant_function_width [OF assms(1,2) _ assms(4)])
      (use assms(3,5) in \<open>simp_all add: call_frame_def width_table_def Fr_copy_def\<close>)
qed

text \<open>
  For the widths of the circuit these are the tables that the \<open>Ark\<close>, \<open>Mix\<close>, \<open>MixS\<close> and \<open>MixLast\<close>
  functions have inlined.
\<close>

lemmas table_rows = branch_consts_def spans_def mat_M4_def mat_M3_def mat_P4_def mat_P3_def
  POSEIDON_C_width_4_def POSEIDON_C_width_3_def POSEIDON_S_width_4_def POSEIDON_S_width_3_def
  POSEIDON_M_width_4_def POSEIDON_M_width_3_def POSEIDON_P_width_4_def POSEIDON_P_width_3_def

lemma inlined_tables:
  "branch_consts POSEIDON_C_width_4 = [0..<88]" "branch_consts POSEIDON_C_width_3 = [841..<922]"
  "branch_consts POSEIDON_M_width_4 = mat_M4" "branch_consts POSEIDON_M_width_3 = mat_M3"
  "branch_consts POSEIDON_P_width_4 = mat_P4" "branch_consts POSEIDON_P_width_3 = mat_P3"
  by (simp_all add: table_rows)

lemmas upt_from_0 = upt_rec [of 0 "numeral n"] upt_rec [of "Suc 0" "numeral n"] numeral_2_eq_2 [symmetric] for n

lemma S_rows_4: "fst (snd POSEIDON_S_width_4) =
      concat (map (\<lambda>r. [(1, 91), (6, 122 + 6 * r)]) [0..<55]) @ [(1, 91), (3, 452), (3, 92)]"
  by (simp add: POSEIDON_S_width_4_def upt_from_0)

lemma S_rows_3: "fst (snd POSEIDON_S_width_3) =
      concat (map (\<lambda>r. [(1, 922), (4, 937 + 4 * r)]) [0..<56]) @ [(1, 922), (2, 1161), (2, 923)]"
  by (simp add: POSEIDON_S_width_3_def upt_from_0)

lemma map_upt_blocks: "map f [0..<k * n] = concat (map (\<lambda>r. map (\<lambda>j. f (k * r + j)) [0..<k]) [0..<n])"
proof (induction n)
  case (Suc n)
  have "[0..<k * Suc n] = [0..<k * n] @ map (\<lambda>j. k * n + j) [0..<k]"
    using upt_add_eq_append [of 0 "k * n" k] by (simp add: add.commute map_add_upt)
  then show ?case using Suc.IH by (simp add: comp_def)
qed simp

lemma spans_blocks: "spans (concat (map g rs) @ ps) = concat (map (\<lambda>r. spans (g r)) rs) @ spans ps"
  by (induction rs) (simp_all add: spans_def)

lemma sparse_block:
  "map (\<lambda>j. if (7 * r + j) mod 7 = 0 then 91 else 122 + 6 * ((7 * r + j) div 7) + ((7 * r + j) mod 7 - 1)) [0..<7] =
    spans [(1, 91), (6, 122 + 6 * r)]"
  "map (\<lambda>j. if (5 * r + j) mod 5 = 0 then 922 else 937 + 4 * ((5 * r + j) div 5) + ((5 * r + j) mod 5 - 1)) [0..<5] =
    spans [(1, 922), (4, 937 + 4 * r)]"
  by (rule nth_equalityI; simp add: spans_def nth_Cons split: nat.splits)+

lemma upt_split: "[0..<392] = [0..<7 * 55] @ [385..<392]" "[0..<285] = [0..<5 * 56] @ [280..<285]"
  using upt_add_eq_append [of 0 385 7] upt_add_eq_append [of 0 280 5] by (simp_all del: upt_rec_numeral)

lemma mixs_tables_blocks:
  "mixs4_table = concat (map (\<lambda>r. spans [(1, 91), (6, 122 + 6 * r)]) [0..<55]) @ [91, 452, 453, 454, 92, 93, 94]"
  "mixs3_table = concat (map (\<lambda>r. spans [(1, 922), (4, 937 + 4 * r)]) [0..<56]) @ [922, 1161, 1162, 923, 924]"
proof -
  let ?f = "\<lambda>i. if i mod 7 = 0 then 91 else if i < 385 then 122 + 6 * (i div 7) + (i mod 7 - 1)
               else if i < 389 then 452 + (i - 386) else 92 + (i - 389)"
  have "map ?f [0..<7 * 55] = map (\<lambda>i. if i mod 7 = 0 then 91 else 122 + 6 * (i div 7) + (i mod 7 - 1)) [0..<7 * 55]"
    by (rule map_cong) (auto simp del: upt_rec_numeral)
  moreover have "map ?f [385..<392] = [91, 452, 453, 454, 92, 93, 94]" by simp
  ultimately show "mixs4_table = concat (map (\<lambda>r. spans [(1, 91), (6, 122 + 6 * r)]) [0..<55]) @ [91, 452, 453, 454, 92, 93, 94]"
    unfolding mixs4_table_def upt_split map_append by (simp only: map_upt_blocks sparse_block)
  let ?g = "\<lambda>i. if i mod 5 = 0 then 922 else if i < 280 then 937 + 4 * (i div 5) + (i mod 5 - 1)
               else if i < 283 then 1161 + (i - 281) else 923 + (i - 283)"
  have "map ?g [0..<5 * 56] = map (\<lambda>i. if i mod 5 = 0 then 922 else 937 + 4 * (i div 5) + (i mod 5 - 1)) [0..<5 * 56]"
    by (rule map_cong) (auto simp del: upt_rec_numeral)
  moreover have "map ?g [280..<285] = [922, 1161, 1162, 923, 924]" by simp
  ultimately show "mixs3_table = concat (map (\<lambda>r. spans [(1, 922), (4, 937 + 4 * r)]) [0..<56]) @ [922, 1161, 1162, 923, 924]"
    unfolding mixs3_table_def upt_split map_append by (simp only: map_upt_blocks sparse_block)
qed

lemma inlined_sparse_tables:
  "branch_consts POSEIDON_S_width_4 = mixs4_table" "branch_consts POSEIDON_S_width_3 = mixs3_table"
  unfolding branch_consts_def S_rows_4 S_rows_3 spans_blocks mixs_tables_blocks by (simp_all add: spans_def)

end
