(* ===== verification/Poseidon.thy ===== *)
theory Poseidon
  imports Constant_Functions
begin

text \<open>
  The templates \<open>PoseidonEx\<close> and \<open>Poseidon\<close> of \<open>circuit_cpp/circuit.cpp\<close>, for three inputs
  (\<open>PoseidonEx_68\<close>, \<open>Poseidon_69\<close>) and for two (\<open>PoseidonEx_138\<close>, \<open>Poseidon_139\<close>). The two generated
  functions of a template are the same statements at another width, so the parts of the body are
  definitions with the width \<open>t\<close>, the number \<open>np\<close> of partial rounds and the constants \<open>tc\<close> and
  \<open>npc\<close> that hold them as parameters; \<open>ft\<close> is \<open>_functionTable\<close>.

  Local variables: \<open>lvar[0]\<close> to \<open>lvar[20]\<close> are parameters of the template, then the arrays \<open>C\<close>, \<open>S\<close>,
  \<open>M\<close> and \<open>P\<close> that the functions fill (\<open>M\<close> and \<open>P\<close> with a row of zeros behind them), then the two
  loop counters.
\<close>

section \<open>Positions\<close>

definition at_S :: "nat \<Rightarrow> nat \<Rightarrow> nat" where "at_S t np = 21 + (8 * t + np)"
definition at_M :: "nat \<Rightarrow> nat \<Rightarrow> nat" where "at_M t np = at_S t np + (2 * t - 1) * np"
definition at_P :: "nat \<Rightarrow> nat \<Rightarrow> nat" where "at_P t np = at_M t np + t * t + t"
definition lv_r :: "nat \<Rightarrow> nat \<Rightarrow> nat" where "lv_r t np = at_P t np + t * t + t"
definition lv_j :: "nat \<Rightarrow> nat \<Rightarrow> nat" where "lv_j t np = lv_r t np + 1"

text \<open>The first slots of the arrays of subcomponents.\<close>

definition at_sigmaP :: "nat \<Rightarrow> nat" where "at_sigmaP t = 8 + 8 * t"
definition at_mix :: "nat \<Rightarrow> nat \<Rightarrow> nat" where "at_mix t np = 8 + 8 * t + np"
definition at_mixS :: "nat \<Rightarrow> nat \<Rightarrow> nat" where "at_mixS t np = 15 + 8 * t + np"
definition at_mixLast :: "nat \<Rightarrow> nat \<Rightarrow> nat" where "at_mixLast t np = 15 + 8 * t + 2 * np"

section \<open>Creating the subcomponents\<close>

definition indexed :: "string \<Rightarrow> nat \<Rightarrow> string" where
  "indexed nm k = nm @ ''['' @ digits10 k @ '']''"

definition create_each ::
    "creator list \<Rightarrow> nat \<Rightarrow> nat \<Rightarrow> nat \<Rightarrow> nat \<Rightarrow> string \<Rightarrow> frame stmt list" where
  "create_each crs slot0 so step co nm =
     map (\<lambda>k. create_sub (crs ! k) (slot0 + k) (so + step * k) (co + k) (indexed nm k)) [0..<length crs]"

definition pex_create ::
    "nat \<Rightarrow> nat \<Rightarrow> creator list \<Rightarrow> creator list \<Rightarrow> creator list \<Rightarrow> creator \<Rightarrow> frame stmt list" where
  "pex_create t np arks mixes mixSs mixLast =
     create_each arks 0 (t + 1) (2 * t) 0 ''ark'' @
     [create_array Sigma_1_create 8 (32 * t + 2 + 2 * t * np) (16 + np) ''sigmaF'' [8, of_nat t] (8 * t) 4 1,
      create_array Sigma_1_create (at_sigmaP t) (64 * t + 2 + 2 * t * np) (16 + np + 8 * t) ''sigmaP''
        [of_nat np] np 4 1] @
     create_each mixes (at_mix t np) (17 * t + 1) (2 * t) 8 ''mix'' @
     create_each mixSs (at_mixS t np) (32 * t + 2) (2 * t) 16 ''mixS'' @
     [create_sub mixLast (at_mixLast t np) (31 * t + 1) 15 ''mixLast'']"

section \<open>The local variables\<close>

definition zeros :: "nat \<Rightarrow> nat \<Rightarrow> (nat \<times> nat) list" where
  "zeros a n = map (\<lambda>i. (a + i, 88)) [0..<n]"

definition N_ROUNDS_P :: "nat list" where
  "N_ROUNDS_P = [473, 603, 473, 474, 474, 476, 604, 476, 474, 605, 474, 606, 479, 474, 604, 607]"

text \<open>Zeros in a row, the row copied \<open>t\<close> times into a matrix at \<open>a\<close>, then the call that fills it.\<close>

definition matrix ::
    "(nat \<Rightarrow> frame \<Rightarrow> (cerr + FrElement list) option) \<Rightarrow> nat \<Rightarrow> nat \<Rightarrow> nat \<Rightarrow> frame stmt list" where
  "matrix f a t tc =
     [load_consts (zeros (a + t * t) t)] @
     map (\<lambda>i. copyn (a + t * i) (a + t * t) t) [0..<t] @
     [call_constants f 579 tc a (t * t)]"

definition pex_locals :: "nat \<Rightarrow> nat \<Rightarrow> nat \<Rightarrow> nat \<Rightarrow> frame stmt list" where
  "pex_locals t np tc npc =
     [load_consts (zeros 2 16 @ zip [2..<18] N_ROUNDS_P @ [(18, tc), (19, 107), (20, npc)] @ zeros 21 (8 * t + np)),
      call_constants POSEIDON_C_0 205 tc 21 (8 * t + np),
      load_consts (zeros (at_S t np) ((2 * t - 1) * np)),
      call_constants POSEIDON_S_1 2245 tc (at_S t np) ((2 * t - 1) * np)] @
     matrix POSEIDON_M_2 (at_M t np) t tc @
     matrix POSEIDON_P_3 (at_P t np) t tc"

section \<open>The rounds\<close>

text \<open>\<open>for (k = 0; k < cn; k++)\<close>\<close>

definition for_loop :: "nat \<Rightarrow> nat \<Rightarrow> frame stmt list \<Rightarrow> frame stmt list" where
  "for_loop k cn body = load_consts [(k, 88)] # count_loop k 90 cn body"

text \<open>Signal \<open>0\<close> of a subcomponent, and element \<open>j\<close> of its first or second field.\<close>

definition out0 :: "int \<Rightarrow> frame \<Rightarrow> cerr + int" where "out0 = sub_addr (ixs [] 0)"
definition in1 :: "int \<Rightarrow> frame \<Rightarrow> cerr + int" where "in1 = sub_addr (ixs [] 1)"
definition field :: "nat \<Rightarrow> nat \<Rightarrow> int \<Rightarrow> frame \<Rightarrow> cerr + int" where "field d k = io_addr d (ixs [(1, lv k)] 0)"
definition field0 :: "nat \<Rightarrow> int \<Rightarrow> frame \<Rightarrow> cerr + int" where "field0 d = io_addr d (ixs [] 0)"

text \<open>Lines 93 to 99 of the template: the initial state and the inputs into the first \<open>Ark\<close>.\<close>

definition pex_inputs :: "nat \<Rightarrow> nat \<Rightarrow> nat \<Rightarrow> runner list \<Rightarrow> frame stmt list" where
  "pex_inputs t tc k ft = for_loop k tc
     [op2 Fr_gt 0 (lv k) (con 88),
      ifM (isTrueE 0)
        (sub_input (ixs [] 0) (field 1 k) [op2 Fr_sub 0 (lv k) (con 90)] (sig_ix (ixs [(1, exp_at 0)] 1)) (by_table ft))
        (sub_input (ixs [] 0) (field0 1) [] (sig_ix (ixs [] t)) (by_table ft))]"

text \<open>
  Lines 101 to 121 and 161 to 181: three full rounds, from the round \<open>r0\<close> on. The state of the first
  comes from the slot \<open>prev\<close>, that of a later one from the \<open>Mix\<close> before, whose number \<open>cs\<close> computes.
\<close>

definition full_sigmas :: "nat \<Rightarrow> nat \<Rightarrow> nat \<Rightarrow> nat \<Rightarrow> frame stmt list \<Rightarrow> nat \<Rightarrow> nat \<Rightarrow> frame stmt list" where
  "full_sigmas t np r0 prev cs k l =
     [op2 Fr_eq 0 (lv k) (con 88),
      ifM (isTrueE 0)
        (sub_input (ixs [(1, lv l)] (t * r0 + 8)) in1 [] (from_sub (ixs [] prev) (field 0 l)) Sigma_1_run)
        (sub_input (ixs [(t, lv k), (1, lv l)] (t * r0 + 8)) in1 cs
           (from_sub (ixs [(1, exp_at 0)] (at_mix t np)) (field 0 l)) Sigma_1_run)]"

definition full_arks :: "nat \<Rightarrow> nat \<Rightarrow> nat \<Rightarrow> nat \<Rightarrow> runner list \<Rightarrow> frame stmt list" where
  "full_arks t r0 k l ft =
     [sub_input (ixs [(1, lv k)] (r0 + 1)) (field 1 l) []
        (from_sub (ixs [(t, lv k), (1, lv l)] (t * r0 + 8)) out0) (by_table ft)]"

definition full_mixes :: "nat \<Rightarrow> nat \<Rightarrow> nat \<Rightarrow> nat \<Rightarrow> nat \<Rightarrow> runner list \<Rightarrow> frame stmt list" where
  "full_mixes t np r0 k l ft =
     [sub_input (ixs [(1, lv k)] (at_mix t np + r0)) (field 1 l) []
        (from_sub (ixs [(1, lv k)] (r0 + 1)) (field 0 l)) (by_table ft)]"

definition full_rounds ::
    "nat \<Rightarrow> nat \<Rightarrow> nat \<Rightarrow> nat \<Rightarrow> nat \<Rightarrow> frame stmt list \<Rightarrow> nat \<Rightarrow> nat \<Rightarrow> runner list \<Rightarrow> frame stmt list" where
  "full_rounds t np tc r0 prev cs k l ft = for_loop k 460
     (for_loop l tc (full_sigmas t np r0 prev cs k l) @
      for_loop l tc (full_arks t r0 k l ft) @
      for_loop l tc (full_mixes t np r0 k l ft))"

text \<open>Lines 123 to 137: the fourth full round, with the matrix \<open>P\<close>.\<close>

definition middle_round :: "nat \<Rightarrow> nat \<Rightarrow> nat \<Rightarrow> nat \<Rightarrow> runner list \<Rightarrow> frame stmt list" where
  "middle_round t np tc k ft =
     for_loop k tc
       [sub_input (ixs [(1, lv k)] (3 * t + 8)) in1 [] (from_sub (ixs [] (at_mix t np + 2)) (field 0 k)) Sigma_1_run] @
     for_loop k tc
       [sub_input (ixs [] 4) (field 1 k) [] (from_sub (ixs [(1, lv k)] (3 * t + 8)) out0) (by_table ft)] @
     for_loop k tc
       [sub_input (ixs [] (at_mix t np + 3)) (field 1 k) [] (from_sub (ixs [] 4) (field 0 k)) (by_table ft)]"

text \<open>Lines 139 to 159: the partial rounds.\<close>

definition partial_sigmas :: "nat \<Rightarrow> nat \<Rightarrow> nat \<Rightarrow> frame stmt list" where
  "partial_sigmas t np k =
     [op2 Fr_eq 0 (lv k) (con 88),
      ifM (isTrueE 0)
        (sub_input (ixs [] (at_sigmaP t)) in1 [] (from_sub (ixs [] (at_mix t np + 3)) (field0 0)) Sigma_1_run)
        (sub_input (ixs [(1, lv k)] (at_sigmaP t)) in1 [op2 Fr_sub 0 (lv k) (con 90)]
           (from_sub (ixs [(1, exp_at 0)] (at_mixS t np)) (field0 0)) Sigma_1_run)]"

definition partial_mixes :: "nat \<Rightarrow> nat \<Rightarrow> nat \<Rightarrow> nat \<Rightarrow> runner list \<Rightarrow> frame stmt list" where
  "partial_mixes t np k l ft =
     [op2 Fr_eq 0 (lv l) (con 88),
      ifM (isTrueE 0)
        (sub_input (ixs [(1, lv k)] (at_mixS t np)) (field0 1)
           [op2 Fr_add 0 (from_sub (ixs [(1, lv k)] (at_sigmaP t)) out0) (lv_ix (ixs [(1, lv k)] (5 * t + 21)))]
           (exp_at 0) (by_table ft))
        (seqM [op2 Fr_eq 0 (lv k) (con 88),
          ifM (isTrueE 0)
            (sub_input (ixs [] (at_mixS t np)) (field 1 l) []
               (from_sub (ixs [] (at_mix t np + 3)) (field 0 l)) (by_table ft))
            (sub_input (ixs [(1, lv k)] (at_mixS t np)) (field 1 l) [op2 Fr_sub 0 (lv k) (con 90)]
               (from_sub (ixs [(1, exp_at 0)] (at_mixS t np)) (field 0 l)) (by_table ft))])]"

definition partial_rounds ::
    "nat \<Rightarrow> nat \<Rightarrow> nat \<Rightarrow> nat \<Rightarrow> nat \<Rightarrow> nat \<Rightarrow> runner list \<Rightarrow> frame stmt list" where
  "partial_rounds t np tc npc k l ft = for_loop k npc
     (partial_sigmas t np k @ for_loop l tc (partial_mixes t np k l ft))"

text \<open>
  Lines 183 to 195: the last full round. The loop over the outputs has one round and leaves its
  counter at the constant one.
\<close>

definition last_round ::
    "nat \<Rightarrow> nat \<Rightarrow> nat \<Rightarrow> nat \<Rightarrow> nat \<Rightarrow> runner \<Rightarrow> frame stmt list" where
  "last_round t np tc k l mixLast_run =
     for_loop k tc
       [sub_input (ixs [(1, lv k)] (7 * t + 8)) in1 [] (from_sub (ixs [] (at_mix t np + 6)) (field 0 k)) Sigma_1_run] @
     [load_consts [(k, 88)],
      op2 Fr_lt 0 (lv k) (con 90),
      whileM (isTrueE 0) (seqM
        (for_loop l tc
           [sub_input (ixs [] (at_mixLast t np)) (sub_addr (ixs [(1, lv l)] 1)) []
              (from_sub (ixs [(1, lv l)] (7 * t + 8)) out0) mixLast_run] @
         [block (to_sig (ixs [] 0)) [] (from_sub (ixs [] (at_mixLast t np)) out0),
          load_consts [(k, 90)],
          op2 Fr_lt 0 (lv k) (con 90)]))]"

definition pex_body ::
    "nat \<Rightarrow> nat \<Rightarrow> nat \<Rightarrow> nat \<Rightarrow> nat \<Rightarrow> creator list \<Rightarrow> creator list \<Rightarrow> creator list \<Rightarrow> creator \<Rightarrow> runner \<Rightarrow>
      runner list \<Rightarrow> frame stmt list" where
  "pex_body t np tc npc nInputs arks mixes mixSs mixLast mixLast_run ft =
     (let k = lv_r t np; l = lv_j t np
      in [load_consts [(0, nInputs), (1, 90)]] @
         pex_create t np arks mixes mixSs mixLast @
         pex_locals t np tc npc @
         pex_inputs t tc k ft @
         full_rounds t np tc 0 0 [op2 Fr_sub 0 (lv k) (con 90)] k l ft @
         middle_round t np tc k ft @
         partial_rounds t np tc npc k l ft @
         full_rounds t np tc 4 (at_mixS t np + np - 1)
           [op2 Fr_add 1 (con 89) (lv k), op2 Fr_sub 0 (exp_at 1) (con 90)] k l ft @
         last_round t np tc k l mixLast_run)"

section \<open>The run functions\<close>

definition arks_4 :: "creator list" where
  "arks_4 =
    [Ark_0_create, Ark_2_create, Ark_4_create, Ark_5_create, Ark_6_create, Ark_64_create,
     Ark_65_create, Ark_66_create]"

definition mixes_4 :: "creator list" where
  "mixes_4 =
    [Mix_3_create, Mix_3_create, Mix_3_create, Mix_7_create, Mix_3_create, Mix_3_create,
     Mix_3_create]"

definition mixSs_4 :: "creator list" where
  "mixSs_4 =
    [MixS_8_create, MixS_9_create, MixS_10_create, MixS_11_create, MixS_12_create,
     MixS_13_create, MixS_14_create, MixS_15_create, MixS_16_create, MixS_17_create,
     MixS_18_create, MixS_19_create, MixS_20_create, MixS_21_create, MixS_22_create,
     MixS_23_create, MixS_24_create, MixS_25_create, MixS_26_create, MixS_27_create,
     MixS_28_create, MixS_29_create, MixS_30_create, MixS_31_create, MixS_32_create,
     MixS_33_create, MixS_34_create, MixS_35_create, MixS_36_create, MixS_37_create,
     MixS_38_create, MixS_39_create, MixS_40_create, MixS_41_create, MixS_42_create,
     MixS_43_create, MixS_44_create, MixS_45_create, MixS_46_create, MixS_47_create,
     MixS_48_create, MixS_49_create, MixS_50_create, MixS_51_create, MixS_52_create,
     MixS_53_create, MixS_54_create, MixS_55_create, MixS_56_create, MixS_57_create,
     MixS_58_create, MixS_59_create, MixS_60_create, MixS_61_create, MixS_62_create,
     MixS_63_create]"

definition arks_3 :: "creator list" where
  "arks_3 =
    [Ark_70_create, Ark_71_create, Ark_73_create, Ark_74_create, Ark_75_create, Ark_134_create,
     Ark_135_create, Ark_136_create]"

definition mixes_3 :: "creator list" where
  "mixes_3 =
    [Mix_72_create, Mix_72_create, Mix_72_create, Mix_76_create, Mix_72_create, Mix_72_create,
     Mix_72_create]"

definition mixSs_3 :: "creator list" where
  "mixSs_3 =
    [MixS_77_create, MixS_78_create, MixS_79_create, MixS_80_create, MixS_81_create,
     MixS_82_create, MixS_83_create, MixS_84_create, MixS_85_create, MixS_86_create,
     MixS_87_create, MixS_88_create, MixS_89_create, MixS_90_create, MixS_91_create,
     MixS_92_create, MixS_93_create, MixS_94_create, MixS_95_create, MixS_96_create,
     MixS_97_create, MixS_98_create, MixS_99_create, MixS_100_create, MixS_101_create,
     MixS_102_create, MixS_103_create, MixS_104_create, MixS_105_create, MixS_106_create,
     MixS_107_create, MixS_108_create, MixS_109_create, MixS_110_create, MixS_111_create,
     MixS_112_create, MixS_113_create, MixS_114_create, MixS_115_create, MixS_116_create,
     MixS_117_create, MixS_118_create, MixS_119_create, MixS_120_create, MixS_121_create,
     MixS_122_create, MixS_123_create, MixS_124_create, MixS_125_create, MixS_126_create,
     MixS_127_create, MixS_128_create, MixS_129_create, MixS_130_create, MixS_131_create,
     MixS_132_create, MixS_133_create]"

definition PoseidonEx_68_run :: "runner list \<Rightarrow> runner" where
  "PoseidonEx_68_run ft = run_template 3 543 160
     (pex_body 4 56 89 473 460 arks_4 mixes_4 mixSs_4 MixLast_67_create MixLast_67_run ft)"

definition PoseidonEx_138_run :: "runner list \<Rightarrow> runner" where
  "PoseidonEx_138_run ft = run_template 3 413 154
     (pex_body 3 57 460 603 457 arks_3 mixes_3 mixSs_3 MixLast_137_create MixLast_137_run ft)"

text \<open>\<open>Poseidon\<close> gives \<open>PoseidonEx\<close> the initial state zero and its inputs.\<close>

definition poseidon_body :: "nat \<Rightarrow> nat \<Rightarrow> creator \<Rightarrow> runner \<Rightarrow> frame stmt list" where
  "poseidon_body n nInputs pEx_create pEx_run =
     [load_consts [(0, nInputs)],
      create_sub pEx_create 0 (n + 1) 0 ''pEx'',
      sub_input (ixs [] 0) (sub_addr (ixs [] (n + 1))) [] (con 88) pEx_run] @
     for_loop 1 nInputs
       [sub_input (ixs [] 0) (sub_addr (ixs [(1, lv 1)] 1)) [] (sig_ix (ixs [(1, lv 1)] 1)) pEx_run] @
     [block (to_sig (ixs [] 0)) [] (from_sub (ixs [] 0) out0)]"

definition Poseidon_69_run :: "runner list \<Rightarrow> runner" where
  "Poseidon_69_run ft = run_template 2 2 1
     (poseidon_body 3 460 PoseidonEx_68_create (PoseidonEx_68_run ft))"

definition Poseidon_139_run :: "runner list \<Rightarrow> runner" where
  "Poseidon_139_run ft = run_template 2 2 1
     (poseidon_body 2 457 PoseidonEx_138_create (PoseidonEx_138_run ft))"

end
