(* ===== verification/Poseidon_Hash.thy ===== *)
theory Poseidon_Hash
  imports Templates
begin

text \<open>
  The reference: the Poseidon permutation in its optimised form, as functions on states of the
  field. Four full rounds, the last of them with the matrix \<open>P\<close>, then the partial rounds with
  sparse matrices, then four full rounds, of which the last computes the first element only.
\<close>

record params =
  p_t :: nat
  p_np :: nat
  p_C :: "nat \<Rightarrow> int"
  p_S :: "nat \<Rightarrow> int"
  p_M :: "nat \<Rightarrow> int"
  p_P :: "nat \<Rightarrow> int"

definition ark_layer :: "params \<Rightarrow> nat \<Rightarrow> (nat \<Rightarrow> int) \<Rightarrow> nat \<Rightarrow> int" where
  "ark_layer p off x i = (x i + p_C p (off + i)) mod q_int"

definition sbox :: "(nat \<Rightarrow> int) \<Rightarrow> nat \<Rightarrow> int" where
  "sbox x i = x i ^ 5 mod q_int"

definition mix_layer :: "params \<Rightarrow> (nat \<Rightarrow> int) \<Rightarrow> (nat \<Rightarrow> int) \<Rightarrow> nat \<Rightarrow> int" where
  "mix_layer p M x i = (\<Sum>j<p_t p. M (p_t p * j + i) * x j) mod q_int"

definition full_round :: "params \<Rightarrow> (nat \<Rightarrow> int) \<Rightarrow> nat \<Rightarrow> (nat \<Rightarrow> int) \<Rightarrow> nat \<Rightarrow> int" where
  "full_round p M off x = mix_layer p M (ark_layer p off (sbox x))"

definition partial_in :: "params \<Rightarrow> nat \<Rightarrow> (nat \<Rightarrow> int) \<Rightarrow> nat \<Rightarrow> int" where
  "partial_in p r x j = (if j = 0 then (x 0 ^ 5 mod q_int + p_C p (5 * p_t p + r)) mod q_int else x j)"

definition partial_round :: "params \<Rightarrow> nat \<Rightarrow> (nat \<Rightarrow> int) \<Rightarrow> nat \<Rightarrow> int" where
  "partial_round p r x = sparse_round (p_S p) (p_t p) ((2 * p_t p - 1) * r) (partial_in p r x)"

primrec rounds :: "(nat \<Rightarrow> 'a \<Rightarrow> 'a) \<Rightarrow> nat \<Rightarrow> 'a \<Rightarrow> 'a" where
  "rounds f 0 x = x"
| "rounds f (Suc n) x = f n (rounds f n x)"

definition first_state :: "params \<Rightarrow> (nat \<Rightarrow> int) \<Rightarrow> nat \<Rightarrow> nat \<Rightarrow> int" where
  "first_state p x r = rounds (\<lambda>r. full_round p (p_M p) (p_t p * (r + 1))) r (ark_layer p 0 x)"

definition partial_state :: "params \<Rightarrow> (nat \<Rightarrow> int) \<Rightarrow> nat \<Rightarrow> nat \<Rightarrow> int" where
  "partial_state p x r = rounds (partial_round p) r (full_round p (p_P p) (p_t p * 4) (first_state p x 3))"

definition second_state :: "params \<Rightarrow> (nat \<Rightarrow> int) \<Rightarrow> nat \<Rightarrow> nat \<Rightarrow> int" where
  "second_state p x r =
     rounds (\<lambda>r. full_round p (p_M p) (p_np p + p_t p * (r + 5))) r (partial_state p x (p_np p))"

definition permutation_out :: "params \<Rightarrow> (nat \<Rightarrow> int) \<Rightarrow> int" where
  "permutation_out p x = mix_layer p (p_M p) (sbox (second_state p x 3)) 0"

text \<open>The state before full round \<open>r\<close>, of eight.\<close>

definition full_state :: "params \<Rightarrow> (nat \<Rightarrow> int) \<Rightarrow> nat \<Rightarrow> nat \<Rightarrow> int" where
  "full_state p x r = (if r < 4 then first_state p x r else second_state p x (r - 4))"

definition ark_off :: "params \<Rightarrow> nat \<Rightarrow> nat" where
  "ark_off p k = (if k < 5 then p_t p * k else p_np p + p_t p * k)"

lemma full_state_0: "full_state p x 0 = ark_layer p (ark_off p 0) x"
  by (simp add: full_state_def first_state_def ark_off_def)

lemma full_state_Suc:
  assumes "r < 3 \<or> 4 \<le> r \<and> r < 7"
  shows "full_state p x (Suc r) = mix_layer p (p_M p) (ark_layer p (ark_off p (Suc r)) (sbox (full_state p x r)))"
proof (cases "r < 3")
  case True
  then show ?thesis by (simp add: full_state_def first_state_def ark_off_def full_round_def)
next
  case False
  then have "Suc r - 4 = Suc (r - 4)" "r - 4 + 5 = Suc r" using assms by auto
  then show ?thesis
    using False assms by (simp add: full_state_def second_state_def ark_off_def full_round_def)
qed

lemma partial_state_0:
  "partial_state p x 0 = mix_layer p (p_P p) (ark_layer p (ark_off p 4) (sbox (full_state p x 3)))"
  by (simp add: partial_state_def full_state_def ark_off_def full_round_def)

lemma partial_state_Suc:
  "partial_state p x (Suc r) =
    sparse_round (p_S p) (p_t p) ((2 * p_t p - 1) * r) (partial_in p r (partial_state p x r))"
  by (simp add: partial_state_def partial_round_def)

lemma full_state_4: "full_state p x 4 = partial_state p x (p_np p)"
  by (simp add: full_state_def second_state_def)

lemma permutation_out_eq: "permutation_out p x = mix_layer p (p_M p) (sbox (full_state p x 7)) 0"
  by (simp add: permutation_out_def full_state_def)

lemmas permutation_steps = full_state_0 full_state_Suc partial_state_0 partial_state_Suc full_state_4

text \<open>The state that the hash of some inputs starts from, with the initial state in front.\<close>

definition hash_in :: "int \<Rightarrow> (nat \<Rightarrow> int) \<Rightarrow> nat \<Rightarrow> int" where
  "hash_in init x j = (if j = 0 then init else x (j - 1))"

definition poseidon_hash :: "params \<Rightarrow> (nat \<Rightarrow> int) \<Rightarrow> int" where
  "poseidon_hash p x = permutation_out p (hash_in 0 x)"

end
