(* ===== verification/Network.thy ===== *)
theory Network
  imports Compose
begin

text \<open>
  The contract of a run function, and networks of subcomponents: the inputs of every subcomponent
  arrive one by one, the subcomponent runs when the last one is there, and its outputs then hold
  what its contract says. The locale \<open>network\<close> states what a template's layout of numbers, signals
  and slots has to satisfy, and proves the steps once for every template with subcomponents.
\<close>

section \<open>Shapes and contracts\<close>

text \<open>
  The shape of a template: number and position of its inputs, number of its outputs (they come
  first), number of signals and of components below it, its own included, and the length of its
  subcomponent array.
\<close>

record shape =
  n_in :: nat
  in_at :: nat
  n_out :: nat
  n_sig :: nat
  n_comp :: nat
  n_sub :: nat

definition no_sync :: "Circom_Component \<Rightarrow> bool" where
  "no_sync c \<longleftrightarrow> subcomponentsParallel c = Null \<and> outputIsSet c = Null \<and> mutexes c = Null \<and>
     cvs c = Null \<and> sbct c = Null"

definition clean :: "Circom_CalcWit \<Rightarrow> bool" where
  "clean ctx \<longleftrightarrow> (\<forall>i. no_sync (componentMemory ctx i))"

text \<open>The component \<open>idx\<close> was created for template \<open>tid\<close> at signal \<open>start\<close> and waits for \<open>n\<close> inputs.\<close>

definition placed :: "u32 \<Rightarrow> nat \<Rightarrow> nat \<Rightarrow> Circom_Component \<Rightarrow> bool" where
  "placed tid n start c \<longleftrightarrow>
     templateId c = Some tid \<and> signalStart c = Some (of_nat start) \<and> inputCounter c = Some (of_nat n) \<and>
     idFather c \<noteq> None \<and> (\<exists>xs. subcomponents c = Live xs)"

definition fits :: "shape \<Rightarrow> nat \<Rightarrow> nat \<Rightarrow> bool" where
  "fits sh idx start \<longleftrightarrow>
     idx + n_comp sh \<le> unat get_number_of_components \<and> start + n_sig sh \<le> unat get_total_signal_no"

text \<open>Only signals in \<open>A\<close> and components in \<open>C\<close> differ.\<close>

definition changes :: "nat set \<Rightarrow> nat set \<Rightarrow> Circom_CalcWit \<Rightarrow> Circom_CalcWit \<Rightarrow> bool" where
  "changes A C ctx ctx' \<longleftrightarrow>
     (\<exists>sv cm. ctx' = ctx\<lparr>signalValues := sv, componentMemory := cm\<rparr> \<and>
       (\<forall>a. a \<notin> A \<longrightarrow> sv a = signalValues ctx a) \<and> (\<forall>i. i \<notin> C \<longrightarrow> cm i = componentMemory ctx i))"

text \<open>
  \<open>computes\<close>: on every component of the template that is in place and whose inputs carry \<open>x\<close>, the
  run function returns without an error, its outputs carry \<open>G x\<close>, all the signals of the component
  and of those below it are written, and nothing outside its own signals and components is touched.
  This is what the caller of a template relies on.
\<close>

definition computes ::
    "Circom_Circuit \<Rightarrow> u32 \<Rightarrow> shape \<Rightarrow> runner \<Rightarrow> ((nat \<Rightarrow> int) \<Rightarrow> nat \<Rightarrow> int) \<Rightarrow> bool" where
  "computes circ tid sh r G \<longleftrightarrow>
     (\<forall>ctx idx start x. circuit ctx = circ \<longrightarrow> clean ctx \<longrightarrow> fits sh idx start \<longrightarrow>
        placed tid 0 start (componentMemory ctx idx) \<longrightarrow>
        subcomponents (componentMemory ctx idx) = Live (replicate (n_sub sh) 0) \<longrightarrow>
        carries ctx (start + in_at sh) (n_in sh) x \<longrightarrow>
        runs (r idx) ctx (\<lambda>ctx'.
          changes {start..<start + n_sig sh} {idx..<idx + n_comp sh} ctx ctx' \<and> clean ctx' \<and>
          placed tid 0 start (componentMemory ctx' idx) \<and> carries ctx' start (n_out sh) (G x) \<and>
          filled ctx' start (n_sig sh)))"

lemma changes_refl [simp]: "changes A C ctx ctx"
  unfolding changes_def
  by (rule exI [of _ "signalValues ctx"], rule exI [of _ "componentMemory ctx"]) simp

lemma changesI:
  "ctx' = ctx\<lparr>signalValues := sv, componentMemory := cm\<rparr> \<Longrightarrow> (\<And>a. a \<notin> A \<Longrightarrow> sv a = signalValues ctx a) \<Longrightarrow>
    (\<And>i. i \<notin> C \<Longrightarrow> cm i = componentMemory ctx i) \<Longrightarrow> changes A C ctx ctx'"
  by (auto simp: changes_def)

lemma changesD:
  assumes "changes A C ctx ctx'"
  shows "circuit ctx' = circuit ctx" "a \<notin> A \<Longrightarrow> signalValues ctx' a = signalValues ctx a"
    "i \<notin> C \<Longrightarrow> componentMemory ctx' i = componentMemory ctx i"
  using assms by (auto simp: changes_def)

lemma changes_trans:
  assumes "changes A C ctx1 ctx2" "changes A' C' ctx2 ctx3" "A \<subseteq> B" "A' \<subseteq> B" "C \<subseteq> D" "C' \<subseteq> D"
  shows "changes B D ctx1 ctx3"
proof -
  obtain sv cm where 1: "ctx2 = ctx1\<lparr>signalValues := sv, componentMemory := cm\<rparr>"
      "\<And>a. a \<notin> A \<Longrightarrow> sv a = signalValues ctx1 a" "\<And>i. i \<notin> C \<Longrightarrow> cm i = componentMemory ctx1 i"
    using assms(1) by (auto simp: changes_def)
  obtain sv' cm' where 2: "ctx3 = ctx2\<lparr>signalValues := sv', componentMemory := cm'\<rparr>"
      "\<And>a. a \<notin> A' \<Longrightarrow> sv' a = signalValues ctx2 a" "\<And>i. i \<notin> C' \<Longrightarrow> cm' i = componentMemory ctx2 i"
    using assms(2) by (auto simp: changes_def)
  show ?thesis
  proof (rule changesI [where sv = sv' and cm = cm'])
    show "sv' a = signalValues ctx1 a" if "a \<notin> B" for a
    proof -
      have "a \<notin> A" "a \<notin> A'" using that assms(3,4) by blast+
      then show ?thesis using 1(2) [of a] 2(2) [of a] by (simp add: 1(1))
    qed
    show "cm' i = componentMemory ctx1 i" if "i \<notin> D" for i
    proof -
      have "i \<notin> C" "i \<notin> C'" using that assms(5,6) by blast+
      then show ?thesis using 1(3) [of i] 2(3) [of i] by (simp add: 1(1))
    qed
  qed (use 1 2 in simp)
qed

lemmas changes_step = changes_trans [OF _ _ order_refl _ order_refl]

lemma changes_mono: "changes A C ctx ctx' \<Longrightarrow> A \<subseteq> B \<Longrightarrow> C \<subseteq> D \<Longrightarrow> changes B D ctx ctx'"
  using changes_trans [of A C ctx ctx' A C ctx' B D] by simp

lemma carries_changes:
  assumes "changes A C ctx ctx'" "carries ctx a n x" "A \<inter> {a..<a + n} = {}"
  shows "carries ctx' a n x"
proof -
  have "signalValues ctx' (a + i) = signalValues ctx (a + i)" if "i < n" for i
    using assms(3) that by (intro changesD(2) [OF assms(1)]) auto
  then show ?thesis using assms(2) by (simp add: carries_def)
qed

text \<open>A leaf template changes signals only.\<close>

lemma changes_only_signals:
  assumes "only_signals ctx ctx' a n" "{a..<a + n} \<subseteq> A"
  shows "changes A C ctx ctx'" "componentMemory ctx' = componentMemory ctx"
proof -
  obtain sv where sv: "ctx' = ctx\<lparr>signalValues := sv\<rparr>" "\<And>j. j < a \<or> a + n \<le> j \<Longrightarrow> sv j = signalValues ctx j"
    using assms(1) by (auto simp: only_signals_def)
  show "changes A C ctx ctx'"
  proof (rule changesI [where sv = sv and cm = "componentMemory ctx"])
    show "sv j = signalValues ctx j" if "j \<notin> A" for j
    proof -
      have "j \<notin> {a..<a + n}" using that assms(2) by blast
      then show ?thesis by (intro sv(2)) auto
    qed
  qed (use sv in simp_all)
  show "componentMemory ctx' = componentMemory ctx" using sv(1) by simp
qed

lemma filled_changes:
  assumes "changes A C ctx ctx'" "filled ctx a n" "A \<inter> {a..<a + n} = {}"
  shows "filled ctx' a n"
proof -
  have "signalValues ctx' (a + i) = signalValues ctx (a + i)" if "i < n" for i
    using assms(3) that by (intro changesD(2) [OF assms(1)]) auto
  then show ?thesis using assms(2) by (simp add: filled_def)
qed

lemma carries_filled: "carries ctx a n x \<Longrightarrow> filled ctx a n"
  by (auto simp: carries_def filled_def)

lemma filled_append: "filled ctx a m \<Longrightarrow> filled ctx (a + m) n \<Longrightarrow> filled ctx a (m + n)"
  unfolding filled_def by (metis add.assoc add_diff_inverse_nat nat_add_left_cancel_less)

lemma unat_of_nat_u64: "n < 2 ^ 64 \<Longrightarrow> unat (of_nat n :: u64) = n"
  by (simp add: unsigned_of_nat take_bit_nat_eq_self)

lemma unat_of_nat_u32: "n < 2 ^ 32 \<Longrightarrow> unat (of_nat n :: u32) = n"
  by (simp add: unsigned_of_nat take_bit_nat_eq_self)

lemma fits_bounds:
  assumes "fits sh idx start"
  shows "idx \<le> 14485" "start \<le> 72906"
  using assms by (simp_all add: fits_def circuit_sizes)

text \<open>A run function proved correct for a component at any signal satisfies the contract.\<close>

lemma leaf_computes:
  assumes "0 < n_comp sh" "n \<le> n_sig sh"
    and "\<And>ctx idx start x. circuit ctx = circ \<Longrightarrow> component_ready ctx idx start \<Longrightarrow>
      unat start + n_sig sh \<le> unat get_total_signal_no \<Longrightarrow>
      carries ctx (unat start + in_at sh) (n_in sh) x \<Longrightarrow>
      runs (r idx) ctx (\<lambda>ctx'. carries ctx' (unat start) (n_out sh) (G x) \<and> only_signals ctx ctx' (unat start) n \<and>
        filled ctx' (unat start) (n_sig sh))"
  shows "computes circ tid sh r G"
  unfolding computes_def
proof (intro allI impI)
  fix ctx :: Circom_CalcWit and idx start :: nat and x
  assume a: "circuit ctx = circ" "clean ctx" "fits sh idx start" "placed tid 0 start (componentMemory ctx idx)"
    "carries ctx (start + in_at sh) (n_in sh) x"
  have u: "unat (of_nat start :: u64) = start" using fits_bounds [OF a(3)] by (intro unat_of_nat_u64) simp
  have "component_ready ctx idx (of_nat start)"
    using a(3,4) assms(1) by (auto simp: component_ready_def placed_def fits_def)
  from assms(3) [OF a(1) this] a(3,5)
  have "runs (r idx) ctx (\<lambda>ctx'. carries ctx' start (n_out sh) (G x) \<and> only_signals ctx ctx' start n \<and>
      filled ctx' start (n_sig sh))"
    by (simp add: u fits_def)
  then show "runs (r idx) ctx (\<lambda>ctx'.
      changes {start..<start + n_sig sh} {idx..<idx + n_comp sh} ctx ctx' \<and> clean ctx' \<and>
      placed tid 0 start (componentMemory ctx' idx) \<and> carries ctx' start (n_out sh) (G x) \<and>
      filled ctx' start (n_sig sh))"
  proof (rule runs_mono)
    fix ctx' assume p: "carries ctx' start (n_out sh) (G x) \<and> only_signals ctx ctx' start n \<and>
      filled ctx' start (n_sig sh)"
    have s: "{start..<start + n} \<subseteq> {start..<start + n_sig sh}" using assms(2) by auto
    show "changes {start..<start + n_sig sh} {idx..<idx + n_comp sh} ctx ctx' \<and> clean ctx' \<and>
      placed tid 0 start (componentMemory ctx' idx) \<and> carries ctx' start (n_out sh) (G x) \<and> filled ctx' start (n_sig sh)"
      using p a(2,4) changes_only_signals [OF _ s, of ctx ctx'] by (auto simp: clean_def)
  qed
qed

text \<open>A template whose signals are its outputs followed by its inputs, and that writes its outputs.\<close>

lemma plain_leaf_computes:
  assumes "0 < n_comp sh" "in_at sh = n_out sh" "n_sig sh = n_out sh + n_in sh"
    and run: "\<And>ctx idx start x. circuit ctx = circ \<Longrightarrow> component_ready ctx idx start \<Longrightarrow>
      unat start + n_sig sh \<le> unat get_total_signal_no \<Longrightarrow>
      carries ctx (unat start + in_at sh) (n_in sh) x \<Longrightarrow>
      runs (r idx) ctx (\<lambda>ctx'. carries ctx' (unat start) (n_out sh) (G x) \<and> only_signals ctx ctx' (unat start) (n_out sh))"
  shows "computes circ tid sh r G"
proof (rule leaf_computes [where n = "n_out sh"])
  fix ctx idx start x
  assume a: "circuit ctx = circ" "component_ready ctx idx start" "unat start + n_sig sh \<le> unat get_total_signal_no"
    "carries ctx (unat start + in_at sh) (n_in sh) x"
  show "runs (r idx) ctx (\<lambda>ctx'. carries ctx' (unat start) (n_out sh) (G x) \<and>
      only_signals ctx ctx' (unat start) (n_out sh) \<and> filled ctx' (unat start) (n_sig sh))"
  proof (rule runs_mono [OF run [OF a]])
    fix ctx' assume p: "carries ctx' (unat start) (n_out sh) (G x) \<and> only_signals ctx ctx' (unat start) (n_out sh)"
    have c: "changes {unat start..<unat start + n_out sh} {} ctx ctx'" using changes_only_signals(1) [of ctx ctx'] p by blast
    have "filled ctx' (unat start + n_out sh) (n_in sh)"
      by (rule filled_changes [OF c carries_filled]) (use a(4) assms(2) in auto)
    then show "carries ctx' (unat start) (n_out sh) (G x) \<and> only_signals ctx ctx' (unat start) (n_out sh) \<and>
        filled ctx' (unat start) (n_sig sh)"
      using p carries_filled filled_append unfolding assms(3) by blast
  qed
qed (use assms in simp_all)

lemma by_table_computes:
  assumes "computes circ tid sh (ft ! unat tid) G" "unat tid < length ft" "0 < n_comp sh"
  shows "computes circ tid sh (by_table ft) G"
proof -
  have "by_table ft idx ctx = (ft ! unat tid) idx ctx"
    if "fits sh idx start" "placed tid 0 start (componentMemory ctx idx)" for ctx idx start
    using that assms(2,3) by (simp add: by_table_def comp_at_def of_member_def read_list_def placed_def fits_def)
  then show ?thesis
    using assms(1) unfolding computes_def runs_def by simp
qed

section \<open>Statements\<close>

lemma runs_on_ctx [wp]: "runs (on_ctx c) s Q \<longleftrightarrow> runs c (f_ctx s) (\<lambda>ctx'. Q (s\<lparr>f_ctx := ctx'\<rparr>))"
  by (auto simp: runs_def on_ctx_def split: option.splits sum.splits)

lemma runs_sub_input [wp]:
  "runs (sub_input k A cs a r) s Q \<longleftrightarrow>
     (\<exists>i. k s = Inr i \<and> runs (block (to_addr A i) cs a) s (\<lambda>t. runs (run_sub r i) t Q))"
  by (auto simp: runs_def sub_input_def seqM.simps split: option.splits sum.splits)

lemma runs_run_sub [wp]:
  "runs (run_sub r i) s Q \<longleftrightarrow>
     (\<exists>j. sub_ref s i = Inr j \<and> runs (input_arrived r j) (f_ctx s) (\<lambda>ctx'. Q (s\<lparr>f_ctx := ctx'\<rparr>)))"
proof -
  have "runs (run_sub r i) s Q \<longleftrightarrow> (\<exists>j. sub_ref s i = Inr j \<and> runs (on_ctx (input_arrived r j)) s Q)"
    by (auto simp: runs_def run_sub_def split: sum.splits)
  then show ?thesis by (simp add: runs_on_ctx)
qed

text \<open>\<open>input_arrived\<close> while inputs are missing, and on the last one.\<close>

lemma runs_input_arrived:
  assumes "j < unat get_number_of_components" "inputCounter (componentMemory ctx j) = Some (of_nat (Suc n))"
    "Suc n < 2 ^ 32"
  shows "runs (input_arrived r j) ctx Q \<longleftrightarrow>
    (let ctx' = ctx\<lparr>componentMemory := (componentMemory ctx)
        (j := (componentMemory ctx j)\<lparr>inputCounter := Some (of_nat n)\<rparr>)\<rparr>
     in if n = 0 then runs (r j) ctx' Q else Q ctx')"
proof -
  have z: "(of_nat n :: u32) = 0 \<longleftrightarrow> n = 0"
  proof
    assume "(of_nat n :: u32) = 0"
    moreover have "unat (of_nat n :: u32) = n" using assms(3) by (intro unat_of_nat_u32) linarith
    ultimately show "n = 0" by simp
  qed simp
  have c: "bindR (comp_at ctx j) (\<lambda>c. of_member (inputCounter c)) = Inr (of_nat (Suc n))"
    using assms(1,2) by (simp add: comp_at_def of_member_def)
  let ?f = "\<lambda>c. c\<lparr>inputCounter := Some (of_nat n :: u32)\<rparr>"
  have u: "comp_upd j ?f ctx = Inr (ctx\<lparr>componentMemory := (componentMemory ctx)(j := ?f (componentMemory ctx j))\<rparr>)"
    using assms(1) by (simp only: comp_upd_def if_True)
  have "input_arrived r j ctx = seqM [liftM (comp_upd j ?f), (if n = 0 then r j else skipM)] ctx"
    by (simp only: input_arrived_def c sum.case) (simp only: of_nat_Suc add_diff_cancel_left' z)
  then have "runs (input_arrived r j) ctx Q \<longleftrightarrow>
      runs (seqM [liftM (comp_upd j ?f), (if n = 0 then r j else skipM)]) ctx Q"
    by (simp only: runs_def)
  also have "\<dots> \<longleftrightarrow> runs (if n = 0 then r j else skipM)
      (ctx\<lparr>componentMemory := (componentMemory ctx)(j := ?f (componentMemory ctx j))\<rparr>) Q"
    by (simp only: runs_seq_Cons runs_seq_Nil runs_lift u sum.case)
  finally show ?thesis
    by (cases "n = 0") (simp_all only: runs_skip if_True if_False Let_def simp_thms)
qed

text \<open>A loop counter, and index expressions over counters.\<close>

definition counter :: "frame \<Rightarrow> nat \<Rightarrow> nat \<Rightarrow> bool" where
  "counter s k i \<longleftrightarrow> k < lvar_size s \<and> (\<exists>v. lvar s k = Some v \<and> small v (int i))"

lemma counterE:
  assumes "counter s k i"
  obtains v where "lv k s = Inr v" "lvar s k = Some v" "small v (int i)"
  using assms by (auto simp: counter_def lv_eq)

lemma counter_expaux [simp]: "counter (s\<lparr>expaux := e\<rparr>) k i = counter s k i"
  by (simp add: counter_def)

lemma counter_cong: "counter s k i \<Longrightarrow> lvar t k = lvar s k \<Longrightarrow> lvar_size t = lvar_size s \<Longrightarrow> counter t k i"
  by (simp add: counter_def)

lemma ixs_lit: "ixs [] n s = Inr (int n)"
  by (rule ixs_Nil)

lemma ixs_counter1:
  assumes "counter s k i" "m = c * i + off"
  shows "ixs [(c, lv k)] off s = Inr (int m)"
  using assms ixs_small [of "lv k" s _ i "[]" off off c] by (auto simp: ixs_Nil elim!: counterE)

lemma ixs_counter2:
  assumes "counter s k i" "counter s k' i'" "m = c * i + c' * i' + off"
  shows "ixs [(c, lv k), (c', lv k')] off s = Inr (int m)"
  using assms(1,3) ixs_small [of "lv k" s _ i "[(c', lv k')]" off "c' * i' + off" c]
    ixs_counter1 [OF assms(2), of "c' * i' + off" c' off] by (auto simp: add.assoc elim!: counterE)

lemma ixs_exp:
  assumes "exp_at e s = Inr v" "small v (int i)" "m = c * i + off"
  shows "ixs [(c, exp_at e)] off s = Inr (int m)"
  using assms ixs_small [of "exp_at e" s v i "[]" off off c] by (simp add: ixs_Nil)

text \<open>An operand that holds a field element of value \<open>x\<close>.\<close>

definition gives :: "operand \<Rightarrow> frame \<Rightarrow> int \<Rightarrow> bool" where
  "gives a s x \<longleftrightarrow> (\<exists>v. a s = Inr v \<and> fok v \<and> fval v = x)"

lemma givesE:
  assumes "gives a s x"
  obtains v where "a s = Inr v" "fok v" "fval v = x"
  using assms by (auto simp: gives_def)

text \<open>The source of a block: after \<open>cs\<close>, which write \<open>expaux\<close> only, \<open>a\<close> holds \<open>x\<close>.\<close>

definition source :: "frame stmt list \<Rightarrow> operand \<Rightarrow> frame \<Rightarrow> int \<Rightarrow> bool" where
  "source cs a s x \<longleftrightarrow> runs (seqM cs) s (\<lambda>t. (\<exists>e. t = s\<lparr>expaux := e\<rparr>) \<and> gives a t x)"

lemma source_Nil [simp]: "source [] a s x \<longleftrightarrow> gives a s x"
  by (auto simp: source_def wp intro!: exI [of _ "expaux s"])

lemma gives_expaux [simp]:
  "gives (lv i) (s\<lparr>expaux := e\<rparr>) x = gives (lv i) s x" "gives (con c) (s\<lparr>expaux := e\<rparr>) x = gives (con c) s x"
  by (simp_all add: gives_def lv_def con_def consts_of_def)

lemma source_op2:
  assumes "a s = Inr v" "b s = Inr w" "i < expaux_size s" "source cs c (s\<lparr>expaux := (expaux s)(i \<mapsto> f v w)\<rparr>) x"
  shows "source (op2 f i a b # cs) c s x"
  using assms by (auto simp: source_def wp elim!: runs_mono)

lemma runs_source_block:
  assumes "d s = Inr t" "source cs a s x"
    "\<And>e v. fok v \<Longrightarrow> fval v = x \<Longrightarrow> \<exists>u. store t v (s\<lparr>expaux := e\<rparr>) = Inr u \<and> Q u"
  shows "runs (block d cs a) s Q"
proof -
  have "runs (seqM cs) s (\<lambda>u. runs (copyM t a) u Q)"
    by (rule runs_mono [OF assms(2) [unfolded source_def]]) (use assms(3) in \<open>auto simp: wp elim!: givesE\<close>)
  then show ?thesis using assms(1) by (simp add: wp)
qed

lemma sub_ref_signals:
  "sub_ref (s\<lparr>expaux := e, f_ctx := (f_ctx s)\<lparr>signalValues := sv\<rparr>\<rparr>) k = sub_ref s k"
  by (simp add: sub_ref_def comp_at_def)

text \<open>After \<open>cs\<close>, the index is \<open>n\<close>.\<close>

definition index_after :: "frame stmt list \<Rightarrow> index \<Rightarrow> frame \<Rightarrow> nat \<Rightarrow> bool" where
  "index_after cs ix s n \<longleftrightarrow> runs (seqM cs) s (\<lambda>t. (\<exists>e. t = s\<lparr>expaux := e\<rparr>) \<and> ix t = Inr (int n))"

lemma index_after_Nil [simp]: "index_after [] ix s n \<longleftrightarrow> ix s = Inr (int n)"
  by (auto simp: index_after_def wp intro!: exI [of _ "expaux s"])

section \<open>Networks\<close>

text \<open>
  One run of a template with subcomponents: the component's number, template, first signal and input
  counter, the calculator at the beginning, the values the inputs of every slot are going to have, what the slots
  compute from them, and the sizes of the two local arrays.
\<close>

record 'k job =
  j_idx :: nat
  j_tid :: u32
  j_start :: nat
  j_wait :: nat
  j_init :: Circom_CalcWit
  j_ins :: "'k \<Rightarrow> nat \<Rightarrow> int"
  j_fun :: "'k \<Rightarrow> (nat \<Rightarrow> int) \<Rightarrow> nat \<Rightarrow> int"
  j_exp :: nat
  j_lv :: nat


text \<open>The field map gives field \<open>d\<close> of a template at offset \<open>o1\<close> with elements of size one.\<close>

definition io_field :: "Circom_Circuit \<Rightarrow> u32 \<Rightarrow> nat \<Rightarrow> nat \<Rightarrow> bool" where
  "io_field circ t d o1 \<longleftrightarrow> (\<exists>p. templateInsId2IOSignalInfo circ t = Some p \<and> d < length (pair_defs p) \<and>
     io_offset (pair_defs p ! d) = of_nat o1 \<and> io_size (pair_defs p ! d) = 1)"

text \<open>The own signals a run begins with: the inputs.\<close>

definition own_inputs :: "shape \<Rightarrow> (nat \<Rightarrow> int) \<Rightarrow> nat \<rightharpoonup> int" where
  "own_inputs sh x i = (if in_at sh \<le> i \<and> i < in_at sh + n_in sh then Some (x (i - in_at sh)) else None)"

text \<open>The constant \<open>c\<close> of the circuit is the number \<open>n\<close>.\<close>

definition cval :: "'k job \<Rightarrow> nat \<Rightarrow> nat \<Rightarrow> bool" where
  "cval J c n \<longleftrightarrow> c < length (circuitConstants (circuit (j_init J))) \<and>
     small (circuitConstants (circuit (j_init J)) ! c) (int n)"

text \<open>A range of \<open>n\<close> strips of width \<open>w\<close>.\<close>

lemma in_strip:
  fixes a i w n :: nat
  assumes "a \<le> i" "i < a + w * n"
  obtains k where "k < n" "a + w * k \<le> i" "i < a + w * k + w"
proof
  have w: "0 < w" using assms by (cases w) auto
  have d: "w * ((i - a) div w) + (i - a) mod w = i - a" "(i - a) mod w < w" using w by simp_all
  show "(i - a) div w < n" using assms w by (simp add: less_mult_imp_div_less mult.commute)
  show "a + w * ((i - a) div w) \<le> i" "i < a + w * ((i - a) div w) + w" using d assms(1) by linarith+
qed

locale network =
  fixes slots :: "'k set" and num comp sig :: "'k \<Rightarrow> nat" and shp :: "'k \<Rightarrow> shape" and tmpl :: "'k \<Rightarrow> u32"
    and nslots own ncomp nsig :: nat
  assumes num: "\<kappa> \<in> slots \<Longrightarrow> num \<kappa> < nslots" "i < nslots \<Longrightarrow> \<exists>\<kappa>\<in>slots. num \<kappa> = i"
    and num_inj: "\<kappa> \<in> slots \<Longrightarrow> \<kappa>' \<in> slots \<Longrightarrow> num \<kappa> = num \<kappa>' \<Longrightarrow> \<kappa> = \<kappa>'"
    and comp: "\<kappa> \<in> slots \<Longrightarrow> 0 < comp \<kappa>" "\<kappa> \<in> slots \<Longrightarrow> comp \<kappa> + n_comp (shp \<kappa>) \<le> ncomp"
    and sig: "\<kappa> \<in> slots \<Longrightarrow> own \<le> sig \<kappa>" "\<kappa> \<in> slots \<Longrightarrow> sig \<kappa> + n_sig (shp \<kappa>) \<le> nsig"
    and disjoint: "\<kappa> \<in> slots \<Longrightarrow> \<kappa>' \<in> slots \<Longrightarrow> comp \<kappa> < comp \<kappa>' \<Longrightarrow> comp \<kappa> + n_comp (shp \<kappa>) \<le> comp \<kappa>'"
      "\<kappa> \<in> slots \<Longrightarrow> \<kappa>' \<in> slots \<Longrightarrow> comp \<kappa> < comp \<kappa>' \<Longrightarrow> sig \<kappa> + n_sig (shp \<kappa>) \<le> sig \<kappa>'"
      "\<kappa> \<in> slots \<Longrightarrow> \<kappa>' \<in> slots \<Longrightarrow> comp \<kappa> = comp \<kappa>' \<Longrightarrow> \<kappa> = \<kappa>'"
    and shape: "\<kappa> \<in> slots \<Longrightarrow> 0 < n_in (shp \<kappa>) \<and> in_at (shp \<kappa>) + n_in (shp \<kappa>) \<le> n_sig (shp \<kappa>) \<and>
      n_out (shp \<kappa>) \<le> n_sig (shp \<kappa>) \<and> 0 < n_comp (shp \<kappa>) \<and> n_in (shp \<kappa>) < 2 ^ 32"
    and own: "own \<le> nsig" "0 < ncomp"
    and cover: "own \<le> i \<Longrightarrow> i < nsig \<Longrightarrow> \<exists>\<kappa>\<in>slots. sig \<kappa> \<le> i \<and> i < sig \<kappa> + n_sig (shp \<kappa>)"
begin

text \<open>The inputs of \<open>\<kappa>\<close> that have not arrived, when those in \<open>F\<close> have.\<close>

definition missing :: "('k \<times> nat) set \<Rightarrow> 'k \<Rightarrow> nat" where
  "missing F \<kappa> = card {j. j < n_in (shp \<kappa>) \<and> (\<kappa>, j) \<notin> F}"

lemma missing_insert:
  assumes "j < n_in (shp \<kappa>)" "(\<kappa>, j) \<notin> F"
  shows "missing F \<kappa> = Suc (missing (insert (\<kappa>, j) F) \<kappa>)"
proof -
  have "{i. i < n_in (shp \<kappa>) \<and> (\<kappa>, i) \<notin> F} = insert j {i. i < n_in (shp \<kappa>) \<and> (\<kappa>, i) \<notin> insert (\<kappa>, j) F}"
    using assms by auto
  then show ?thesis by (simp add: missing_def)
qed

lemma missing_other: "\<kappa>' \<noteq> \<kappa> \<Longrightarrow> missing (insert (\<kappa>, j) F) \<kappa>' = missing F \<kappa>'"
  by (simp add: missing_def)

lemma missing_0: "missing F \<kappa> = 0 \<longleftrightarrow> (\<forall>j < n_in (shp \<kappa>). (\<kappa>, j) \<in> F)"
  by (auto simp: missing_def)

lemma missing_empty: "missing {} \<kappa> = n_in (shp \<kappa>)"
  by (simp add: missing_def)

lemma missing_le: "missing F \<kappa> \<le> n_in (shp \<kappa>)"
proof -
  have "{j. j < n_in (shp \<kappa>) \<and> (\<kappa>, j) \<notin> F} \<subseteq> {..<n_in (shp \<kappa>)}" by auto
  then have "card {j. j < n_in (shp \<kappa>) \<and> (\<kappa>, j) \<notin> F} \<le> card {..<n_in (shp \<kappa>)}" by (intro card_mono) simp_all
  then show ?thesis by (simp add: missing_def)
qed

text \<open>
  The state of a slot when the inputs in \<open>F\<close> have arrived: while some are missing the component
  waits and holds those that arrived, afterwards its outputs hold what its template computes.
\<close>

definition sub_state :: "'k job \<Rightarrow> ('k \<times> nat) set \<Rightarrow> Circom_CalcWit \<Rightarrow> 'k \<Rightarrow> bool" where
  "sub_state J F ctx \<kappa> \<longleftrightarrow>
     placed (tmpl \<kappa>) (missing F \<kappa>) (j_start J + sig \<kappa>) (componentMemory ctx (j_idx J + comp \<kappa>)) \<and>
     (missing F \<kappa> \<noteq> 0 \<longrightarrow>
        subcomponents (componentMemory ctx (j_idx J + comp \<kappa>)) = Live (replicate (n_sub (shp \<kappa>)) 0) \<and>
        (\<forall>j < n_in (shp \<kappa>). (\<kappa>, j) \<in> F \<longrightarrow>
          carries ctx (j_start J + sig \<kappa> + in_at (shp \<kappa>) + j) 1 (\<lambda>_. j_ins J \<kappa> j))) \<and>
     (missing F \<kappa> = 0 \<longrightarrow> carries ctx (j_start J + sig \<kappa>) (n_out (shp \<kappa>)) (j_fun J \<kappa> (j_ins J \<kappa>)) \<and>
        filled ctx (j_start J + sig \<kappa>) (n_sig (shp \<kappa>)))"

text \<open>The component itself; \<open>S\<close> are the slots created, \<open>W\<close> what is known of its own signals.\<close>

definition own_state :: "'k job \<Rightarrow> 'k set \<Rightarrow> (nat \<rightharpoonup> int) \<Rightarrow> Circom_CalcWit \<Rightarrow> bool" where
  "own_state J S W ctx \<longleftrightarrow>
     j_idx J + ncomp \<le> unat get_number_of_components \<and> j_start J + nsig \<le> unat get_total_signal_no \<and>
     placed (j_tid J) (j_wait J) (j_start J) (componentMemory ctx (j_idx J)) \<and>
     (\<forall>xs. subcomponents (componentMemory ctx (j_idx J)) = Live xs \<longrightarrow> length xs = nslots \<and>
       (\<forall>\<kappa>\<in>S. xs ! num \<kappa> = of_nat (j_idx J + comp \<kappa>))) \<and>
     (\<forall>i < own. \<forall>x. W i = Some x \<longrightarrow> carries ctx (j_start J + i) 1 (\<lambda>_. x))"

definition good :: "'k job \<Rightarrow> 'k set \<Rightarrow> ('k \<times> nat) set \<Rightarrow> (nat \<rightharpoonup> int) \<Rightarrow> Circom_CalcWit \<Rightarrow> bool" where
  "good J S F W ctx \<longleftrightarrow>
     S \<subseteq> slots \<and> clean ctx \<and> own_state J S W ctx \<and> (\<forall>\<kappa>\<in>S. sub_state J F ctx \<kappa>) \<and>
     changes {j_start J..<j_start J + nsig} {j_idx J..<j_idx J + ncomp} (j_init J) ctx"

lemma goodD:
  assumes "good J S F W ctx"
  shows "S \<subseteq> slots" "clean ctx" "own_state J S W ctx" "\<kappa> \<in> S \<Longrightarrow> sub_state J F ctx \<kappa>"
    "circuit ctx = circuit (j_init J)"
    "changes {j_start J..<j_start J + nsig} {j_idx J..<j_idx J + ncomp} (j_init J) ctx"
  using assms changesD(1) [of _ _ "j_init J" ctx] by (auto simp: good_def)

lemma own_bounds:
  assumes "own_state J S W ctx"
  shows "j_idx J + ncomp \<le> 14485" "j_start J + nsig \<le> 72906"
  using assms by (simp_all add: own_state_def circuit_sizes)

lemma disjoint_slots:
  assumes "\<kappa> \<in> slots" "\<kappa>' \<in> slots" "\<kappa>' \<noteq> \<kappa>"
  shows "comp \<kappa> + n_comp (shp \<kappa>) \<le> comp \<kappa>' \<and> sig \<kappa> + n_sig (shp \<kappa>) \<le> sig \<kappa>' \<or>
    comp \<kappa>' + n_comp (shp \<kappa>') \<le> comp \<kappa> \<and> sig \<kappa>' + n_sig (shp \<kappa>') \<le> sig \<kappa>"
  using disjoint [OF assms(1,2)] disjoint(1,2) [OF assms(2,1)] assms(3)
  by (cases "comp \<kappa>" "comp \<kappa>'" rule: linorder_cases) blast+

lemma sub_state_frame:
  assumes "sub_state J F ctx \<kappa>" "changes A C ctx ctx'"
    "A \<inter> {j_start J + sig \<kappa>..<j_start J + sig \<kappa> + n_sig (shp \<kappa>)} = {}" "j_idx J + comp \<kappa> \<notin> C"
    "\<And>j. (\<kappa>, j) \<in> F' \<longleftrightarrow> (\<kappa>, j) \<in> F" "\<kappa> \<in> slots"
  shows "sub_state J F' ctx' \<kappa>"
proof -
  have m: "missing F' \<kappa> = missing F \<kappa>" by (simp add: missing_def assms(5))
  have c: "componentMemory ctx' (j_idx J + comp \<kappa>) = componentMemory ctx (j_idx J + comp \<kappa>)"
    by (rule changesD(3) [OF assms(2,4)])
  note sh = shape [OF assms(6)]
  have i: "carries ctx' (j_start J + sig \<kappa> + in_at (shp \<kappa>) + j) 1 y"
    if "carries ctx (j_start J + sig \<kappa> + in_at (shp \<kappa>) + j) 1 y" "j < n_in (shp \<kappa>)" for j y
    by (rule carries_changes [OF assms(2) that(1)]) (use assms(3) that(2) sh in auto)
  have o: "carries ctx' (j_start J + sig \<kappa>) (n_out (shp \<kappa>)) y"
    if "carries ctx (j_start J + sig \<kappa>) (n_out (shp \<kappa>)) y" for y
    by (rule carries_changes [OF assms(2) that]) (use assms(3) sh in fastforce)
  have f: "filled ctx' (j_start J + sig \<kappa>) (n_sig (shp \<kappa>))" if "filled ctx (j_start J + sig \<kappa>) (n_sig (shp \<kappa>))"
    by (rule filled_changes [OF assms(2) that assms(3)])
  show ?thesis using assms(1) i o f by (simp add: sub_state_def m c assms(5))
qed

text \<open>A step inside one slot leaves everything else as it is.\<close>

lemma good_frame:
  assumes g: "good J S F W ctx" and \<kappa>: "\<kappa> \<in> S" and F: "\<And>\<kappa>' j. \<kappa>' \<noteq> \<kappa> \<Longrightarrow> (\<kappa>', j) \<in> F' \<longleftrightarrow> (\<kappa>', j) \<in> F"
    and c: "changes {j_start J + sig \<kappa>..<j_start J + sig \<kappa> + n_sig (shp \<kappa>)}
      {j_idx J + comp \<kappa>..<j_idx J + comp \<kappa> + n_comp (shp \<kappa>)} ctx ctx'"
    and new: "clean ctx'" "sub_state J F' ctx' \<kappa>"
  shows "good J S F' W ctx'"
proof -
  have s: "\<kappa> \<in> slots" using goodD(1) [OF g] \<kappa> by blast
  note cs = comp [OF s] sig [OF s]
  have idx: "componentMemory ctx' (j_idx J) = componentMemory ctx (j_idx J)"
    by (rule changesD(3) [OF c]) (use cs in simp)
  have W: "carries ctx' (j_start J + i) 1 y" if "carries ctx (j_start J + i) 1 y" "i < own" for i y
    by (rule carries_changes [OF c that(1)]) (use cs that in auto)
  have own: "own_state J S W ctx'"
    using goodD(3) [OF g] W by (simp add: own_state_def idx)
  have subs: "sub_state J F' ctx' \<kappa>'" if "\<kappa>' \<in> S" for \<kappa>'
  proof (cases "\<kappa>' = \<kappa>")
    case False
    have s': "\<kappa>' \<in> slots" using goodD(1) [OF g] that by blast
    show ?thesis
      by (rule sub_state_frame [OF goodD(4) [OF g that] c _ _ F [OF False] s'])
        (use disjoint_slots [OF s s' False] shape [OF s] shape [OF s'] in auto)
  qed (simp add: new)
  have "changes {j_start J..<j_start J + nsig} {j_idx J..<j_idx J + ncomp} (j_init J) ctx'"
    by (rule changes_trans [OF goodD(6) [OF g] c]) (use cs in auto)
  then show ?thesis using goodD(1) [OF g] new own subs by (simp add: good_def)
qed

lemma carriesI1: "signalValues ctx a = Some v \<Longrightarrow> fok v \<Longrightarrow> fval v = x \<Longrightarrow> carries ctx a 1 (\<lambda>_. x)"
  by (simp add: carries_def)

lemma carries_each:
  assumes "\<And>j. j < n \<Longrightarrow> carries ctx (a + j) 1 (\<lambda>_. x j)"
  shows "carries ctx a n x"
  using assms by (simp add: carries_def)

text \<open>A slot whose inputs are all there: its run function makes it a finished slot.\<close>

lemma run_when_filled:
  assumes g: "good J S F W ctx" and \<kappa>: "\<kappa> \<in> S" and F: "\<And>\<kappa>' i. \<kappa>' \<noteq> \<kappa> \<Longrightarrow> (\<kappa>', i) \<in> F' \<longleftrightarrow> (\<kappa>', i) \<in> F"
    and r: "computes (circuit (j_init J)) (tmpl \<kappa>) (shp \<kappa>) r (j_fun J \<kappa>)"
    and full: "missing F' \<kappa> = 0"
    and ch: "changes {j_start J + sig \<kappa>..<j_start J + sig \<kappa> + n_sig (shp \<kappa>)}
      {j_idx J + comp \<kappa>..<j_idx J + comp \<kappa> + n_comp (shp \<kappa>)} ctx ctx2" and cl: "clean ctx2"
    and at: "placed (tmpl \<kappa>) 0 (j_start J + sig \<kappa>) (componentMemory ctx2 (j_idx J + comp \<kappa>))"
      "subcomponents (componentMemory ctx2 (j_idx J + comp \<kappa>)) = Live (replicate (n_sub (shp \<kappa>)) 0)"
    and ins: "\<And>i. i < n_in (shp \<kappa>) \<Longrightarrow> carries ctx2 (j_start J + sig \<kappa> + in_at (shp \<kappa>) + i) 1 (\<lambda>_. j_ins J \<kappa> i)"
  shows "runs (r (j_idx J + comp \<kappa>)) ctx2 (good J S F' W)"
proof (rule runs_mono)
  let ?i = "j_idx J + comp \<kappa>"
  let ?A = "{j_start J + sig \<kappa>..<j_start J + sig \<kappa> + n_sig (shp \<kappa>)}" and ?C = "{?i..<?i + n_comp (shp \<kappa>)}"
  have "\<kappa> \<in> slots" using goodD(1) [OF g] \<kappa> by blast
  then have "fits (shp \<kappa>) ?i (j_start J + sig \<kappa>)"
    using comp [of \<kappa>] sig [of \<kappa>] goodD(3) [OF g] unfolding own_state_def fits_def by linarith
  moreover have "carries ctx2 (j_start J + sig \<kappa> + in_at (shp \<kappa>)) (n_in (shp \<kappa>)) (j_ins J \<kappa>)"
    by (rule carries_each) (use ins in auto)
  moreover have "circuit ctx2 = circuit (j_init J)" using changesD(1) [OF ch] goodD(5) [OF g] by simp
  ultimately show "runs (r ?i) ctx2 (\<lambda>ctx'. changes ?A ?C ctx2 ctx' \<and> clean ctx' \<and>
      placed (tmpl \<kappa>) 0 (j_start J + sig \<kappa>) (componentMemory ctx' ?i) \<and>
      carries ctx' (j_start J + sig \<kappa>) (n_out (shp \<kappa>)) (j_fun J \<kappa> (j_ins J \<kappa>)) \<and>
      filled ctx' (j_start J + sig \<kappa>) (n_sig (shp \<kappa>)))"
    using r [unfolded computes_def, rule_format, of ctx2 ?i "j_start J + sig \<kappa>" "j_ins J \<kappa>"] cl at by simp
  fix ctx' assume p: "changes ?A ?C ctx2 ctx' \<and> clean ctx' \<and>
    placed (tmpl \<kappa>) 0 (j_start J + sig \<kappa>) (componentMemory ctx' ?i) \<and>
    carries ctx' (j_start J + sig \<kappa>) (n_out (shp \<kappa>)) (j_fun J \<kappa> (j_ins J \<kappa>)) \<and>
    filled ctx' (j_start J + sig \<kappa>) (n_sig (shp \<kappa>))"
  have "sub_state J F' ctx' \<kappa>" using p full by (simp add: sub_state_def)
  moreover have "changes ?A ?C ctx ctx'" using changes_trans [OF ch conjunct1 [OF p], of ?A ?C] by simp
  ultimately show "good J S F' W ctx'" using p F by (intro good_frame [OF g \<kappa>]) auto
qed

text \<open>An input arrives.\<close>

lemma feed_ctx:
  assumes g: "good J S F W ctx" and \<kappa>: "\<kappa> \<in> S" and j: "j < n_in (shp \<kappa>)" "(\<kappa>, j) \<notin> F"
    and r: "computes (circuit (j_init J)) (tmpl \<kappa>) (shp \<kappa>) r (j_fun J \<kappa>)"
    and v: "fok v" "fval v = j_ins J \<kappa> j"
  shows "runs (input_arrived r (j_idx J + comp \<kappa>))
    (ctx\<lparr>signalValues := (signalValues ctx)(j_start J + sig \<kappa> + in_at (shp \<kappa>) + j \<mapsto> v)\<rparr>)
    (good J S (insert (\<kappa>, j) F) W)"
proof -
  let ?F = "insert (\<kappa>, j) F" and ?a = "j_start J + sig \<kappa> + in_at (shp \<kappa>) + j" and ?i = "j_idx J + comp \<kappa>"
  let ?A = "{j_start J + sig \<kappa>..<j_start J + sig \<kappa> + n_sig (shp \<kappa>)}"
    and ?C = "{?i..<?i + n_comp (shp \<kappa>)}"
  define n where "n = missing ?F \<kappa>"
  define c where "c = componentMemory ctx ?i"
  define ctx2 where "ctx2 = ctx\<lparr>signalValues := (signalValues ctx)(?a \<mapsto> v),
    componentMemory := (componentMemory ctx)(?i := c\<lparr>inputCounter := Some (of_nat n)\<rparr>)\<rparr>"
  have s: "\<kappa> \<in> slots" using goodD(1) [OF g] \<kappa> by blast
  note cs = comp [OF s] sig [OF s] and sh = shape [OF s] and b = own_bounds [OF goodD(3) [OF g]]
  have m: "missing F \<kappa> = Suc n" unfolding n_def by (rule missing_insert [OF j])
  have st: "placed (tmpl \<kappa>) (Suc n) (j_start J + sig \<kappa>) c" "subcomponents c = Live (replicate (n_sub (shp \<kappa>)) 0)"
    "\<And>j. j < n_in (shp \<kappa>) \<Longrightarrow> (\<kappa>, j) \<in> F \<Longrightarrow>
      carries ctx (j_start J + sig \<kappa> + in_at (shp \<kappa>) + j) 1 (\<lambda>_. j_ins J \<kappa> j)"
    using goodD(4) [OF g \<kappa>] by (simp_all add: sub_state_def m c_def)
  have ch: "changes ?A ?C ctx ctx2"
    by (rule changesI [where sv = "(signalValues ctx)(?a \<mapsto> v)"
          and cm = "(componentMemory ctx)(?i := c\<lparr>inputCounter := Some (of_nat n)\<rparr>)"])
      (use j(1) sh in \<open>auto simp: ctx2_def\<close>)
  have p2: "placed (tmpl \<kappa>) n (j_start J + sig \<kappa>) (componentMemory ctx2 ?i)"
    using st(1) by (simp add: placed_def ctx2_def)
  have sub2: "subcomponents (componentMemory ctx2 ?i) = Live (replicate (n_sub (shp \<kappa>)) 0)"
    using st(2) by (simp add: ctx2_def)
  have ns: "no_sync c" using goodD(2) [OF g] by (simp add: clean_def c_def)
  have cl2: "clean ctx2"
    using goodD(2) [OF g] ns by (auto simp: clean_def ctx2_def no_sync_def)
  have in2: "carries ctx2 (j_start J + sig \<kappa> + in_at (shp \<kappa>) + i) 1 (\<lambda>_. j_ins J \<kappa> i)"
    if "i < n_in (shp \<kappa>)" "(\<kappa>, i) \<in> ?F" for i
  proof (cases "i = j")
    case False
    then show ?thesis using st(3) [of i] that by (simp add: carries_def ctx2_def)
  qed (use v in \<open>simp add: carries_def ctx2_def\<close>)
  have ic: "inputCounter (componentMemory (ctx\<lparr>signalValues := sv\<rparr>) ?i) = Some (of_nat (Suc n))" for sv
    using st(1) by (simp add: placed_def c_def)
  have n32: "Suc n < 2 ^ 32" using missing_le [of F \<kappa>] m sh by linarith
  have il: "?i < unat get_number_of_components"
    using cs sh goodD(3) [OF g] unfolding own_state_def by linarith
  have eq: "runs (input_arrived r ?i) (ctx\<lparr>signalValues := (signalValues ctx)(?a \<mapsto> v)\<rparr>) Q \<longleftrightarrow>
      (if n = 0 then runs (r ?i) ctx2 Q else Q ctx2)" for Q
    unfolding runs_input_arrived [OF il ic n32] Let_def ctx2_def c_def by simp
  show ?thesis
  proof (cases "n = 0")
    case False
    have "sub_state J ?F ctx2 \<kappa>"
      using p2 sub2 in2 False by (simp add: sub_state_def n_def)
    then have "good J S ?F W ctx2" by (intro good_frame [OF g \<kappa> _ ch cl2]) auto
    then show ?thesis using False eq by simp
  next
    case True
    have "(\<kappa>, i) \<in> ?F" if "i < n_in (shp \<kappa>)" for i
      using True that missing_0 [of ?F \<kappa>] by (simp add: n_def)
    then have "runs (r ?i) ctx2 (good J S ?F W)"
      using True p2 by (intro run_when_filled [OF g \<kappa> _ r _ ch cl2 _ sub2 in2]) (auto simp: n_def)
    then show ?thesis using True eq by simp
  qed
qed

section \<open>The statements in a network\<close>

definition st :: "'k job \<Rightarrow> 'k set \<Rightarrow> ('k \<times> nat) set \<Rightarrow> (nat \<rightharpoonup> int) \<Rightarrow> frame \<Rightarrow> bool" where
  "st J S F W s \<longleftrightarrow>
     ctx_index s = j_idx J \<and> mySignalStart s = of_nat (j_start J) \<and> expaux_size s = j_exp J \<and>
     lvar_size s = j_lv J \<and> good J S F W (f_ctx s)"

lemma stD:
  assumes "st J S F W s"
  shows "ctx_index s = j_idx J" "mySignalStart s = of_nat (j_start J)" "expaux_size s = j_exp J"
    "lvar_size s = j_lv J" "good J S F W (f_ctx s)"
    "consts_of s = circuitConstants (circuit (j_init J))"
  using assms by (auto simp: st_def consts_of_def dest: goodD(5))

lemma st_locals [simp]:
  "st J S F W (s\<lparr>expaux := e\<rparr>) = st J S F W s" "st J S F W (s\<lparr>lvar := l\<rparr>) = st J S F W s"
  by (simp_all add: st_def)

lemma st_cong: "st J S F W s \<Longrightarrow> F = F' \<Longrightarrow> st J S F' W s"
  by simp

lemma st_start: "st J S F W s \<Longrightarrow> uint (mySignalStart s) = int (j_start J)"
  using own_bounds [OF goodD(3) [OF stD(5), of J S F W s]] stD(2) [of J S F W s]
  by (simp add: uint_nat unat_of_nat_u64)

lemma st_base: "st J S F W s \<Longrightarrow> base s = j_start J"
  using st_start [of J S F W s] unfolding base_def by (metis nat_int unat_eq_nat_uint)

lemma st_in_signals: "st J S F W s \<Longrightarrow> i < nsig \<Longrightarrow> in_signals s i"
  using goodD(3) [OF stD(5), of J S F W s] st_base [of J S F W s] by (simp add: in_signals_def own_state_def)

text \<open>The pointer, the first signal and the field map of a subcomponent.\<close>

lemma st_sub_ref:
  assumes s: "st J S F W s" and \<kappa>: "\<kappa> \<in> S"
  shows "sub_ref s (int (num \<kappa>)) = Inr (j_idx J + comp \<kappa>)"
proof -
  note g = stD(5) [OF s]
  have sl: "\<kappa> \<in> slots" using goodD(1) [OF g] \<kappa> by blast
  note o = goodD(3) [OF g] and b = own_bounds [OF goodD(3) [OF g]]
  obtain xs where xs: "subcomponents (componentMemory (f_ctx s) (j_idx J)) = Live xs"
    using o by (auto simp: own_state_def placed_def)
  then have x: "length xs = nslots" "xs ! num \<kappa> = of_nat (j_idx J + comp \<kappa>)"
    using o \<kappa> by (auto simp: own_state_def)
  have c: "comp \<kappa> < ncomp" using comp(2) [OF sl] shape [OF sl] by linarith
  then have "unat (of_nat (j_idx J + comp \<kappa>) :: u32) = j_idx J + comp \<kappa>"
    using b by (intro unat_of_nat_u32) simp
  moreover have "j_idx J < unat get_number_of_components" using o c unfolding own_state_def by linarith
  ultimately show ?thesis
    using x num(1) [OF sl] xs stD(1) [OF s] by (simp add: sub_ref_def comp_at_def del: of_nat_add)
qed

lemma st_comp_at:
  assumes s: "st J S F W s" and \<kappa>: "\<kappa> \<in> S"
  shows "comp_at (f_ctx s) (j_idx J + comp \<kappa>) = Inr (componentMemory (f_ctx s) (j_idx J + comp \<kappa>))"
    "placed (tmpl \<kappa>) (missing F \<kappa>) (j_start J + sig \<kappa>) (componentMemory (f_ctx s) (j_idx J + comp \<kappa>))"
proof -
  note g = stD(5) [OF s]
  have sl: "\<kappa> \<in> slots" using goodD(1) [OF g] \<kappa> by blast
  have "j_idx J + comp \<kappa> < unat get_number_of_components"
    using comp(2) [OF sl] shape [OF sl] goodD(3) [OF g] unfolding own_state_def by linarith
  then show "comp_at (f_ctx s) (j_idx J + comp \<kappa>) = Inr (componentMemory (f_ctx s) (j_idx J + comp \<kappa>))"
    by (simp add: comp_at_def)
  show "placed (tmpl \<kappa>) (missing F \<kappa>) (j_start J + sig \<kappa>) (componentMemory (f_ctx s) (j_idx J + comp \<kappa>))"
    using goodD(4) [OF g \<kappa>] by (simp add: sub_state_def)
qed

lemma st_sub_start:
  assumes s: "st J S F W s" and \<kappa>: "\<kappa> \<in> S"
  shows "sub_start s (int (num \<kappa>)) = Inr (of_nat (j_start J + sig \<kappa>))"
  using st_sub_ref [OF s \<kappa>] st_comp_at [OF s \<kappa>]
  by (simp add: sub_start_def of_member_def placed_def del: of_nat_add)

text \<open>\<open>A\<close> is the address of signal \<open>off\<close> of the slot \<open>\<kappa>\<close>.\<close>

definition points :: "(int \<Rightarrow> frame \<Rightarrow> cerr + int) \<Rightarrow> 'k job \<Rightarrow> frame \<Rightarrow> 'k \<Rightarrow> nat \<Rightarrow> bool" where
  "points A J s \<kappa> off \<longleftrightarrow> A (int (num \<kappa>)) s = Inr (int (j_start J + sig \<kappa> + off))"

lemma sig_bound:
  assumes "st J S F W s" "\<kappa> \<in> S" "off < n_sig (shp \<kappa>)"
  shows "j_start J + sig \<kappa> + off < unat get_total_signal_no" "j_start J + sig \<kappa> + off < 72906"
proof -
  have "\<kappa> \<in> slots" using goodD(1) [OF stD(5) [OF assms(1)]] assms(2) by blast
  then show l: "j_start J + sig \<kappa> + off < unat get_total_signal_no"
    using sig(2) assms(3) goodD(3) [OF stD(5) [OF assms(1)]] unfolding own_state_def by fastforce
  then show "j_start J + sig \<kappa> + off < 72906" by (simp add: circuit_sizes)
qed

lemma points_sub_addr:
  assumes s: "st J S F W s" and \<kappa>: "\<kappa> \<in> S" and ix: "ix s = Inr (int off)" "off < n_sig (shp \<kappa>)"
  shows "points (sub_addr ix) J s \<kappa> off"
proof -
  note l = sig_bound(2) [OF s \<kappa> ix(2)]
  have "uint (of_nat (j_start J + sig \<kappa>) :: u64) = int (j_start J + sig \<kappa>)"
    using l by (simp add: uint_nat unat_of_nat_u64 del: of_nat_add)
  moreover have "int (j_start J + sig \<kappa> + off) mod 2 ^ 64 = int (j_start J + sig \<kappa> + off)" using l by simp
  ultimately show ?thesis
    using st_sub_start [OF s \<kappa>] ix(1) by (simp add: points_def sub_addr_def del: of_nat_add)
qed

lemma points_io_addr:
  assumes s: "st J S F W s" and \<kappa>: "\<kappa> \<in> S" and ix: "ix s = Inr (int i)" "o1 + i < n_sig (shp \<kappa>)"
    and io: "io_field (circuit (j_init J)) (tmpl \<kappa>) d o1"
  shows "points (io_addr d ix) J s \<kappa> (o1 + i)"
proof -
  note l = sig_bound(2) [OF s \<kappa> ix(2)]
  obtain p where p: "templateInsId2IOSignalInfo (circuit (j_init J)) (tmpl \<kappa>) = Some p" "d < length (pair_defs p)"
    "io_offset (pair_defs p ! d) = of_nat o1" "io_size (pair_defs p ! d) = 1"
    using io by (auto simp: io_field_def)
  have def1: "io_def s (int (num \<kappa>)) d = Inr (pair_defs p ! d)"
    using st_sub_ref [OF s \<kappa>] st_comp_at [OF s \<kappa>] p(1,2) goodD(5) [OF stD(5) [OF s]]
    by (simp add: io_def_def of_member_def placed_def read_list_def)
  have u: "uint (of_nat (j_start J + sig \<kappa>) :: u64) = int (j_start J + sig \<kappa>)" "uint (of_nat o1 :: u32) = int o1"
    using l by (simp_all add: uint_nat unat_of_nat_u64 unat_of_nat_u32 del: of_nat_add)
  have m: "int (j_start J + sig \<kappa>) + int o1 + int i = int (j_start J + sig \<kappa> + (o1 + i))" by simp
  have i32: "int i mod 2 ^ 32 = int i" using l by simp
  have m64: "int (j_start J + sig \<kappa> + (o1 + i)) mod 2 ^ 64 = int (j_start J + sig \<kappa> + (o1 + i))" using l by simp
  show ?thesis
    unfolding points_def io_addr_def def1 st_sub_start [OF s \<kappa>] ix(1) bindR_simps p(3,4) u uint_1 mult_1_right i32 m m64 ..
qed

text \<open>The outputs of a slot that has run, and the component's own signals.\<close>

lemma gives_from_sub:
  assumes s: "st J S F W s" and \<kappa>: "\<kappa> \<in> S" and k: "k s = Inr (int (num \<kappa>))"
    and A: "points A J s \<kappa> i" "i < n_out (shp \<kappa>)" and all: "\<And>j. j < n_in (shp \<kappa>) \<Longrightarrow> (\<kappa>, j) \<in> F"
  shows "gives (from_sub k A) s (j_fun J \<kappa> (j_ins J \<kappa>) i)"
proof -
  have "missing F \<kappa> = 0" using all missing_0 by blast
  then have c: "carries (f_ctx s) (j_start J + sig \<kappa>) (n_out (shp \<kappa>)) (j_fun J \<kappa> (j_ins J \<kappa>))"
    using goodD(4) [OF stD(5) [OF s] \<kappa>] by (simp add: sub_state_def)
  have "\<kappa> \<in> slots" using goodD(1) [OF stD(5) [OF s]] \<kappa> by blast
  then have "i < n_sig (shp \<kappa>)" using A(2) shape by fastforce
  from sig_bound(1) [OF s \<kappa> this] show ?thesis
    using c A k by (auto simp: from_sub_def points_def carries_def gives_def sigs_def simp del: of_nat_add)
qed

lemma gives_own:
  assumes s: "st J S F W s" and ix: "ix s = Inr (int i)" "i < own" "i < nsig" and W: "W i = Some x"
  shows "gives (sig_ix ix) s x"
proof -
  have c: "carries (f_ctx s) (j_start J + i) 1 (\<lambda>_. x)"
    using goodD(3) [OF stD(5) [OF s]] ix(2) W by (simp add: own_state_def)
  have "sig_addr s (int i) = int (j_start J + i)"
    using sig_addr_nat [OF st_in_signals [OF s ix(3)]] st_base [OF s] by simp
  then show ?thesis
    using c ix(1) st_in_signals [OF s ix(3)] st_base [OF s]
    by (auto simp: sig_ix_def carries_def gives_def sigs_def in_signals_def simp del: of_nat_add)
qed

text \<open>Feeding one input.\<close>

lemma runs_feed:
  assumes s: "st J S F W s" and \<kappa>: "\<kappa> \<in> S" and k: "k s = Inr (int (num \<kappa>))"
    and A: "points A J s \<kappa> (in_at (shp \<kappa>) + j)" and j: "j < n_in (shp \<kappa>)" "(\<kappa>, j) \<notin> F"
    and v: "source cs a s (j_ins J \<kappa> j)"
    and r: "computes (circuit (j_init J)) (tmpl \<kappa>) (shp \<kappa>) r (j_fun J \<kappa>)"
  shows "runs (sub_input k A cs a r) s (\<lambda>t. st J S (insert (\<kappa>, j) F) W t \<and> lvar t = lvar s)"
proof -
  let ?a = "j_start J + sig \<kappa> + in_at (shp \<kappa>) + j"
  have sl: "\<kappa> \<in> slots" using goodD(1) [OF stD(5) [OF s]] \<kappa> by blast
  have lt: "in_at (shp \<kappa>) + j < n_sig (shp \<kappa>)" using j(1) shape [OF sl] by linarith
  have d: "to_addr A (int (num \<kappa>)) s = Inr (D_sig (int ?a))"
    using A by (simp add: to_addr_def points_def add.assoc)
  have run: "runs (block (to_addr A (int (num \<kappa>))) cs a) s (\<lambda>t. runs (run_sub r (int (num \<kappa>))) t
      (\<lambda>t. st J S (insert (\<kappa>, j) F) W t \<and> lvar t = lvar s))"
  proof (rule runs_source_block [where d = "to_addr A (int (num \<kappa>))", OF d v])
    fix e v assume v: "fok v" "fval v = j_ins J \<kappa> j"
    let ?t = "s\<lparr>expaux := e\<rparr>"
    let ?u = "?t\<lparr>f_ctx := (f_ctx s)\<lparr>signalValues := (signalValues (f_ctx s))(?a \<mapsto> v)\<rparr>\<rparr>"
    have "store (D_sig (int ?a)) v ?t = Inr ?u"
      using sig_bound(1) [OF s \<kappa> lt] by (simp add: store.simps sigs_def add.assoc del: of_nat_add)
    moreover have "sub_ref ?u (int (num \<kappa>)) = Inr (j_idx J + comp \<kappa>)"
      using st_sub_ref [OF s \<kappa>] by (simp add: sub_ref_signals)
    moreover have "runs (input_arrived r (j_idx J + comp \<kappa>)) (f_ctx ?u)
        (\<lambda>ctx'. st J S (insert (\<kappa>, j) F) W (?u\<lparr>f_ctx := ctx'\<rparr>))"
      using runs_mono [OF feed_ctx [OF stD(5) [OF s] \<kappa> j r v]] s by (simp add: st_def)
    ultimately show "\<exists>u. store (D_sig (int ?a)) v ?t = Inr u \<and>
      runs (run_sub r (int (num \<kappa>))) u (\<lambda>t. st J S (insert (\<kappa>, j) F) W t \<and> lvar t = lvar s)"
      by (simp add: runs_run_sub)
  qed
  show ?thesis using k run by (simp add: runs_sub_input)
qed

text \<open>Writing one of the component's own signals.\<close>

lemma good_own_write:
  assumes g: "good J S F W ctx" and i: "i < own" and v: "fok v" "fval v = x"
  shows "good J S F (W(i \<mapsto> x)) (ctx\<lparr>signalValues := (signalValues ctx)(j_start J + i \<mapsto> v)\<rparr>)"
proof -
  let ?ctx = "ctx\<lparr>signalValues := (signalValues ctx)(j_start J + i \<mapsto> v)\<rparr>"
  have c: "changes {j_start J + i} {} ctx ?ctx"
    by (rule changesI [where sv = "(signalValues ctx)(j_start J + i \<mapsto> v)" and cm = "componentMemory ctx"]) simp_all
  have subs: "sub_state J F ?ctx \<kappa>" if "\<kappa> \<in> S" for \<kappa>
  proof -
    have s: "\<kappa> \<in> slots" using goodD(1) [OF g] that by blast
    show ?thesis
      by (rule sub_state_frame [OF goodD(4) [OF g that] c _ _ _ s]) (use sig(1) [OF s] i in auto)
  qed
  have "own_state J S (W(i \<mapsto> x)) ?ctx"
    using goodD(3) [OF g] v by (auto simp: own_state_def carries_def)
  moreover have "changes {j_start J..<j_start J + nsig} {j_idx J..<j_idx J + ncomp} (j_init J) ?ctx"
    by (rule changes_trans [OF goodD(6) [OF g] c]) (use i own in auto)
  ultimately show ?thesis using goodD(1,2) [OF g] subs by (simp add: good_def clean_def)
qed

lemma runs_own_write:
  assumes s: "st J S F W s" and ix: "ix s = Inr (int i)" "i < own" and v: "source cs a s x"
  shows "runs (block (to_sig ix) cs a) s (\<lambda>t. st J S F (W(i \<mapsto> x)) t \<and> lvar t = lvar s)"
proof -
  have i: "in_signals s i" using own ix(2) by (intro st_in_signals [OF s]) simp
  have d: "to_sig ix s = Inr (D_sig (int (j_start J + i)))"
    using ix(1) sig_addr_nat [OF i] st_base [OF s] by (simp add: to_sig_def)
  show ?thesis
  proof (rule runs_source_block [where d = "to_sig ix", OF d v])
    fix e v assume v: "fok v" "fval v = x"
    let ?u = "s\<lparr>expaux := e, f_ctx := (f_ctx s)\<lparr>signalValues := (signalValues (f_ctx s))(j_start J + i \<mapsto> v)\<rparr>\<rparr>"
    have "store (D_sig (int (j_start J + i))) v (s\<lparr>expaux := e\<rparr>) = Inr ?u"
      using i st_base [OF s] by (simp add: store.simps sigs_def in_signals_def del: of_nat_add)
    moreover have "st J S F (W(i \<mapsto> x)) ?u"
      using good_own_write [OF stD(5) [OF s] ix(2) v] s by (simp add: st_def)
    ultimately show "\<exists>u. store (D_sig (int (j_start J + i))) v (s\<lparr>expaux := e\<rparr>) = Inr u \<and>
        st J S F (W(i \<mapsto> x)) u \<and> lvar u = lvar s"
      by simp
  qed
qed

section \<open>Creating the subcomponents\<close>

lemma create_good:
  assumes g: "good J S {} W ctx" and \<kappa>: "\<kappa> \<in> slots" "\<kappa> \<notin> S"
    and u: "unat so = j_start J + sig \<kappa>" "unat co = j_idx J + comp \<kappa>"
  shows "runs (seqM [create_component (tmpl \<kappa>) tn (of_nat (n_in (shp \<kappa>))) (n_sub (shp \<kappa>)) so co nm f,
      liftM (set_sub (j_idx J) (num \<kappa>) co)]) ctx (good J (insert \<kappa> S) {} W)"
proof -
  let ?i = "j_idx J + comp \<kappa>"
  note o = goodD(3) [OF g] and cs = comp [OF \<kappa>(1)] and sh = shape [OF \<kappa>(1)]
  define c where "c = (componentMemory ctx ?i)\<lparr>templateId := Some (tmpl \<kappa>), templateName := tn,
    signalStart := Some (ucast so), inputCounter := Some (of_nat (n_in (shp \<kappa>))), componentName := nm,
    idFather := Some (ucast f), subcomponents := Live (replicate (n_sub (shp \<kappa>)) 0)\<rparr>"
  obtain xs where xs: "subcomponents (componentMemory ctx (j_idx J)) = Live xs"
    using o by (auto simp: own_state_def placed_def)
  have x: "length xs = nslots" "\<And>\<kappa>. \<kappa> \<in> S \<Longrightarrow> xs ! num \<kappa> = of_nat (j_idx J + comp \<kappa>)"
    using o xs by (auto simp: own_state_def)
  have il: "?i < unat get_number_of_components" using cs sh o unfolding own_state_def by linarith
  define d where "d = (componentMemory ctx (j_idx J))\<lparr>subcomponents := Live (xs[num \<kappa> := co])\<rparr>"
  define cm where "cm = (componentMemory ctx)(?i := c, j_idx J := d)"
  have run: "runs (seqM [create_component (tmpl \<kappa>) tn (of_nat (n_in (shp \<kappa>))) (n_sub (shp \<kappa>)) so co nm f,
      liftM (set_sub (j_idx J) (num \<kappa>) co)]) ctx Q \<longleftrightarrow> Q (ctx\<lparr>componentMemory := cm\<rparr>)" for Q
    using il u(2) cs(1) xs x(1) num(1) [OF \<kappa>(1)]
    by (simp add: create_component_def wp comp_upd_def set_sub_def comp_at_def c_def cm_def d_def)
  let ?ctx = "ctx\<lparr>componentMemory := cm\<rparr>"
  have c: "changes {} {j_idx J, ?i} ctx ?ctx"
    by (rule changesI [where sv = "signalValues ctx" and cm = cm]) (simp_all add: cm_def)
  have subs: "sub_state J {} ?ctx \<kappa>'" if "\<kappa>' \<in> S" for \<kappa>'
  proof -
    have s': "\<kappa>' \<in> slots" "\<kappa>' \<noteq> \<kappa>" using goodD(1) [OF g] that \<kappa>(2) by blast+
    have "comp \<kappa>' \<noteq> comp \<kappa>" "0 < comp \<kappa>'" using disjoint(3) [OF s'(1) \<kappa>(1)] s' comp(1) by auto
    then show ?thesis by (intro sub_state_frame [OF goodD(4) [OF g that] c]) (use s' in auto)
  qed
  have start: "ucast so = (of_nat (j_start J + sig \<kappa>) :: u64)"
    using u(1) by (metis of_nat_unat)
  have self: "sub_state J {} ?ctx \<kappa>"
    using cs(1) sh start by (simp add: sub_state_def missing_empty placed_def cm_def c_def)
  have co: "co = of_nat (j_idx J + comp \<kappa>)" using u(2) by (metis of_nat_unat ucast_id)
  have ptrs: "xs[num \<kappa> := co] ! num \<kappa>' = of_nat (j_idx J + comp \<kappa>')" if "\<kappa>' \<in> insert \<kappa> S" for \<kappa>'
  proof (cases "\<kappa>' = \<kappa>")
    case True
    then show ?thesis using x(1) num(1) [OF \<kappa>(1)] co by simp
  next
    case False
    then have "\<kappa>' \<in> S" "num \<kappa>' \<noteq> num \<kappa>" using that goodD(1) [OF g] num_inj \<kappa>(1) by auto
    then show ?thesis using x(2) by simp
  qed
  have own: "own_state J (insert \<kappa> S) W ?ctx"
    using o ptrs x(1) by (simp add: own_state_def cm_def d_def placed_def carries_def)
  have "clean ?ctx"
    using goodD(2) [OF g] by (auto simp: clean_def no_sync_def cm_def c_def d_def)
  moreover have "changes {j_start J..<j_start J + nsig} {j_idx J..<j_idx J + ncomp} (j_init J) ?ctx"
    by (rule changes_trans [OF goodD(6) [OF g] c]) (use cs sh in auto)
  ultimately have "good J (insert \<kappa> S) {} W ?ctx"
    using goodD(1) [OF g] \<kappa>(1) own subs self by (simp add: good_def)
  then show ?thesis by (simp add: run)
qed

lemma runs_create_at:
  assumes s: "st J S {} W s" and \<kappa>: "\<kappa> \<in> slots" "\<kappa> \<notin> S" "num \<kappa> = i"
    and u: "so = of_nat (j_start J + sig \<kappa>)" "co = of_nat (j_idx J + comp \<kappa>)"
    and cr: "cr = create_component (tmpl \<kappa>) tn (of_nat (n_in (shp \<kappa>))) (n_sub (shp \<kappa>))"
  shows "runs (create_at cr i so co nm) s (\<lambda>t. st J (insert \<kappa> S) {} W t \<and> lvar t = lvar s)"
proof -
  note b = own_bounds [OF goodD(3) [OF stD(5) [OF s]]]
  have u': "unat so = j_start J + sig \<kappa>" "unat co = j_idx J + comp \<kappa>"
    using b sig(2) [OF \<kappa>(1)] comp(2) [OF \<kappa>(1)] unfolding u
    by (simp_all add: unat_of_nat_u32 del: of_nat_add)
  have seq: "runs (create_at cr i so co nm) s Q \<longleftrightarrow>
      runs (seqM [cr so co nm (of_nat (ctx_index s)), liftM (set_sub (ctx_index s) i co)]) (f_ctx s)
        (\<lambda>ctx. Q (s\<lparr>f_ctx := ctx\<rparr>))" for Q
  proof -
    have "runs (create_at cr i so co nm) s Q \<longleftrightarrow>
      runs (seqM [on_ctx (cr so co nm (of_nat (ctx_index s))), on_ctx (liftM (set_sub (ctx_index s) i co))]) s Q"
      by (simp add: create_at_def runs_def)
    then show ?thesis by (simp add: wp cong: sum.case_cong)
  qed
  have "runs (seqM [cr so co nm (of_nat (ctx_index s)), liftM (set_sub (ctx_index s) i co)]) (f_ctx s)
      (good J (insert \<kappa> S) {} W)"
    using create_good [OF stD(5) [OF s] \<kappa>(1,2) u'] \<kappa>(3) stD(1) [OF s] cr by simp
  then show ?thesis
    unfolding seq by (rule runs_mono) (use s in \<open>simp add: st_def\<close>)
qed

lemma st_so:
  assumes s: "st J S F W s" and l: "so \<le> nsig"
  shows "(ucast (mySignalStart s + of_nat so) :: u32) = of_nat (j_start J + so)"
proof -
  note b = own_bounds [OF goodD(3) [OF stD(5) [OF s]]]
  have "mySignalStart s + of_nat so = (of_nat (j_start J + so) :: u64)" using stD(2) [OF s] by simp
  moreover have "unat (of_nat (j_start J + so) :: u64) = j_start J + so"
    using b l by (intro unat_of_nat_u64) simp
  ultimately show ?thesis by (metis of_nat_unat)
qed

lemma runs_create_sub:
  assumes s: "st J S {} W s" and \<kappa>: "\<kappa> \<in> slots" "\<kappa> \<notin> S" "num \<kappa> = i" "sig \<kappa> = so" "comp \<kappa> = Suc co"
    and cr: "cr = create_component (tmpl \<kappa>) tn (of_nat (n_in (shp \<kappa>))) (n_sub (shp \<kappa>))"
  shows "runs (create_sub cr i so co nm) s (\<lambda>t. st J (insert \<kappa> S) {} W t \<and> lvar t = lvar s)"
proof -
  have "so \<le> nsig" using sig(2) [OF \<kappa>(1)] \<kappa>(4) by linarith
  from st_so [OF s this] have so: "ucast (mySignalStart s + of_nat so) = (of_nat (j_start J + sig \<kappa>) :: u32)"
    using \<kappa>(4) by simp
  have co: "of_nat co + of_nat (ctx_index s) + 1 = (of_nat (j_idx J + comp \<kappa>) :: u32)"
    using \<kappa>(5) stD(1) [OF s] by simp
  show ?thesis
    using runs_create_at [OF s \<kappa>(1-3) so co cr] by (simp add: create_sub_def runs_def)
qed

text \<open>An array of components of one template.\<close>

lemma position_ok: "0 \<notin> set ds \<Longrightarrow> \<exists>p. position_loop ds i acc = Inr p"
  by (induction ds arbitrary: i acc) auto

lemma generate_ok: "0 \<notin> set ds \<Longrightarrow> \<exists>p. generate_position_array ds i = Inr p"
  by (simp add: generate_position_array_def position_ok)

lemma runs_create_loop:
  assumes s: "st J (S \<union> \<kappa> ` {..<i}) {} W s" and n: "i + n \<le> m"
    and \<kappa>: "\<And>i. i < m \<Longrightarrow> \<kappa> i \<in> slots - S \<and> num (\<kappa> i) = aux + i \<and> sig (\<kappa> i) = so + i * sstep \<and>
      comp (\<kappa> i) = co + i * cstep"
    and cr: "\<And>i. i < m \<Longrightarrow> cr = create_component (tmpl (\<kappa> i)) tn (of_nat (n_in (shp (\<kappa> i)))) (n_sub (shp (\<kappa> i)))"
    and ds: "0 \<notin> set ds"
  shows "runs (create_loop cr nm ds aux sstep cstep n i (of_nat (j_start J + so + i * sstep))
      (of_nat (j_idx J + co + i * cstep))) s
    (\<lambda>t. st J (S \<union> \<kappa> ` {..<i + n}) {} W t \<and> lvar t = lvar s)"
  using s n
proof (induction n arbitrary: i s)
  case 0
  then show ?case by (simp add: wp)
next
  case (Suc n)
  then have i: "i < m" by simp
  obtain p where p: "generate_position_array ds (of_nat i) = Inr p" using generate_ok [OF ds] by blast
  have new: "\<kappa> i \<notin> S \<union> \<kappa> ` {..<i}"
  proof
    assume "\<kappa> i \<in> S \<union> \<kappa> ` {..<i}"
    then obtain j where "j < i" "\<kappa> i = \<kappa> j" using \<kappa> [OF i] by auto
    then show False using \<kappa> [OF i] \<kappa> [of j] i by simp
  qed
  have S: "insert (\<kappa> i) (S \<union> \<kappa> ` {..<i}) = S \<union> \<kappa> ` {..<Suc i}" by (auto simp: lessThan_Suc)
  have "runs (create_at cr (aux + i) (of_nat (j_start J + so + i * sstep)) (of_nat (j_idx J + co + i * cstep)) (nm @ p)) s
      (\<lambda>t. st J (S \<union> \<kappa> ` {..<Suc i}) {} W t \<and> lvar t = lvar s)"
    using runs_create_at [OF Suc.prems(1) _ new _ _ _ cr [OF i], of "aux + i"
        "of_nat (j_start J + so + i * sstep)" "of_nat (j_idx J + co + i * cstep)" "nm @ p"] \<kappa> [OF i]
    by (simp only: S) (simp add: add.assoc)
  moreover have "runs (create_loop cr nm ds aux sstep cstep n (Suc i) (of_nat (j_start J + so + Suc i * sstep))
      (of_nat (j_idx J + co + Suc i * cstep))) t (\<lambda>u. st J (S \<union> \<kappa> ` {..<i + Suc n}) {} W u \<and> lvar u = lvar s)"
    if "st J (S \<union> \<kappa> ` {..<Suc i}) {} W t \<and> lvar t = lvar s" for t
    using Suc.IH [of "Suc i" t] that Suc.prems(2) by simp
  moreover have "of_nat (j_start J + so + i * sstep) + of_nat sstep = (of_nat (j_start J + so + Suc i * sstep) :: u32)"
    "of_nat (j_idx J + co + i * cstep) + of_nat cstep = (of_nat (j_idx J + co + Suc i * cstep) :: u32)"
    by (simp_all add: algebra_simps)
  ultimately show ?case
    by (simp add: runs_def [of "create_loop _ _ _ _ _ _ (Suc _) _ _ _"] p del: of_nat_add of_nat_mult of_nat_Suc mult_Suc)
       (simp add: runs_def [symmetric] wp runs_mono del: of_nat_add of_nat_mult of_nat_Suc mult_Suc)
qed

lemma runs_create_array:
  assumes s: "st J S {} W s" and so: "so \<le> nsig"
    and \<kappa>: "\<And>i. i < n \<Longrightarrow> \<kappa> i \<in> slots - S \<and> num (\<kappa> i) = aux + i \<and> sig (\<kappa> i) = so + i * sstep \<and>
      comp (\<kappa> i) = Suc (co + i * cstep)"
    and cr: "\<And>i. i < n \<Longrightarrow> cr = create_component (tmpl (\<kappa> i)) tn (of_nat (n_in (shp (\<kappa> i)))) (n_sub (shp (\<kappa> i)))"
    and ds: "0 \<notin> set ds"
  shows "runs (create_array cr aux so co nm ds n sstep cstep) s
    (\<lambda>t. st J (S \<union> \<kappa> ` {..<n}) {} W t \<and> lvar t = lvar s)"
proof -
  have "runs (create_loop cr nm ds aux sstep cstep n 0 (of_nat (j_start J + so + 0 * sstep))
      (of_nat (j_idx J + Suc co + 0 * cstep))) s (\<lambda>t. st J (S \<union> \<kappa> ` {..<0 + n}) {} W t \<and> lvar t = lvar s)"
    by (rule runs_create_loop [where m = n]) (use s \<kappa> cr ds in auto)
  moreover have "of_nat co + of_nat (ctx_index s) + 1 = (of_nat (j_idx J + Suc co + 0 * cstep) :: u32)"
    using stD(1) [OF s] by simp
  moreover have "ucast (mySignalStart s + of_nat so) = (of_nat (j_start J + so + 0 * sstep) :: u32)"
    using st_so [OF s so] by simp
  ultimately show ?thesis by (simp only: create_array_def runs_def add_0)
qed

section \<open>Releasing the subcomponents\<close>

lemma release_placed:
  assumes "placed t n a c" "no_sync c" "0 < i" "i < unat get_number_of_components" "componentMemory ctx i = c"
  shows "release_memory_component i ctx =
    Inr (ctx\<lparr>componentMemory := (componentMemory ctx)(i := c\<lparr>subcomponents := Freed\<rparr>)\<rparr>)"
  using assms
  by (cases c) (auto simp: release_memory_component_def comp_at_def comp_upd_def delete_ptr_def placed_def no_sync_def)

lemma runs_release:
  assumes g: "good J slots F W ctx" and all: "\<And>\<kappa> j. \<kappa> \<in> slots \<Longrightarrow> j < n_in (shp \<kappa>) \<Longrightarrow> (\<kappa>, j) \<in> F"
  shows "runs (release_subcomponents nslots (j_idx J)) ctx (\<lambda>t. clean t \<and> signalValues t = signalValues ctx \<and>
    componentMemory t (j_idx J) = componentMemory ctx (j_idx J) \<and>
    changes {j_start J..<j_start J + nsig} {j_idx J..<j_idx J + ncomp} (j_init J) t)"
proof -
  define I where "I i t \<longleftrightarrow> clean t \<and> signalValues t = signalValues ctx \<and>
    componentMemory t (j_idx J) = componentMemory ctx (j_idx J) \<and>
    changes {j_start J..<j_start J + nsig} {j_idx J..<j_idx J + ncomp} (j_init J) t \<and>
    (\<forall>\<kappa>\<in>slots. i \<le> num \<kappa> \<longrightarrow> componentMemory t (j_idx J + comp \<kappa>) = componentMemory ctx (j_idx J + comp \<kappa>))"
    for i t
  note o = goodD(3) [OF g] and b = own_bounds [OF goodD(3) [OF g]]
  obtain xs where xs: "subcomponents (componentMemory ctx (j_idx J)) = Live xs"
    using o by (auto simp: own_state_def placed_def)
  have x: "length xs = nslots" "\<And>\<kappa>. \<kappa> \<in> slots \<Longrightarrow> xs ! num \<kappa> = of_nat (j_idx J + comp \<kappa>)"
    using o xs by (auto simp: own_state_def)
  have "runs (release_one (j_idx J) i) t (I (Suc i))" if i: "i < nslots" and I: "I i t" for i t
  proof -
    obtain \<kappa> where \<kappa>: "\<kappa> \<in> slots" "num \<kappa> = i" using num(2) [OF i] by blast
    let ?i = "j_idx J + comp \<kappa>"
    note cs = comp [OF \<kappa>(1)]
    define c where "c = componentMemory t ?i"
    have cc: "c = componentMemory ctx ?i" using I \<kappa> by (simp add: I_def c_def)
    have "missing F \<kappa> = 0" using all [OF \<kappa>(1)] by (simp add: missing_0)
    then have pl: "placed (tmpl \<kappa>) 0 (j_start J + sig \<kappa>) c"
      using goodD(4) [OF g \<kappa>(1)] by (simp add: sub_state_def cc)
    have ns: "no_sync c" using I by (simp add: I_def clean_def c_def)
    have il: "?i < unat get_number_of_components" "j_idx J < unat get_number_of_components"
      using cs shape [OF \<kappa>(1)] o unfolding own_state_def by linarith+
    have u: "unat (of_nat ?i :: u32) = ?i" using b cs shape [OF \<kappa>(1)] by (intro unat_of_nat_u32) simp
    then have nz: "(of_nat ?i :: u32) \<noteq> 0" using cs by (metis add_is_0 less_irrefl unat_0)
    let ?t = "t\<lparr>componentMemory := (componentMemory t)(?i := c\<lparr>subcomponents := Freed\<rparr>)\<rparr>"
    have rel: "release_memory_component ?i t = Inr ?t"
      by (rule release_placed [OF pl ns]) (use cs il in \<open>auto simp: c_def\<close>)
    have own: "componentMemory t (j_idx J) = componentMemory ctx (j_idx J)" using I by (simp add: I_def)
    have "release_one (j_idx J) i t = Some (Inr ?t)"
      using il xs x(1) x(2) [OF \<kappa>(1)] \<kappa>(2) i u nz pl rel own
      by (simp add: release_one_def liftM_def comp_at_def read_list_def of_member_def placed_def c_def [symmetric]
          del: of_nat_add)
    moreover have "I (Suc i) ?t"
    proof -
      have c1: "changes {} {?i} t ?t"
        by (rule changesI [where sv = "signalValues t" and cm = "(componentMemory t)(?i := c\<lparr>subcomponents := Freed\<rparr>)"])
          simp_all
      have c2: "changes {j_start J..<j_start J + nsig} {j_idx J..<j_idx J + ncomp} (j_init J) t"
        using I by (simp add: I_def)
      have "changes {j_start J..<j_start J + nsig} {j_idx J..<j_idx J + ncomp} (j_init J) ?t"
        by (rule changes_trans [OF c2 c1]) (use cs shape [OF \<kappa>(1)] in auto)
      moreover have "comp \<kappa>' \<noteq> comp \<kappa>" if "\<kappa>' \<in> slots" "Suc i \<le> num \<kappa>'" for \<kappa>'
        using disjoint(3) [OF that(1) \<kappa>(1)] that(2) \<kappa>(2) by auto
      moreover have "clean ?t" using I ns unfolding I_def clean_def no_sync_def by simp
      ultimately show ?thesis
        using I cs(1) unfolding I_def by simp
    qed
    ultimately show ?thesis by (simp add: runs_def)
  qed
  then show ?thesis
    unfolding release_subcomponents_def
    by (intro runs_for [where I = I]) (use goodD [OF g] in \<open>auto simp: I_def\<close>)
qed

section \<open>Loops\<close>

lemma st_con: "st J S F W s \<Longrightarrow> cval J c n \<Longrightarrow> \<exists>a. con c s = Inr a \<and> small a (int n)"
  by (simp add: cval_def con_eq stD(6))

lemma runs_loads:
  assumes "st J S F W s" "\<forall>(l, c) \<in> set ps. l < j_lv J \<and> c < length (circuitConstants (circuit (j_init J)))"
  shows "runs (load_consts ps) s (\<lambda>u. st J S F W u \<and>
    lvar u = lvar s ++ const_map (circuitConstants (circuit (j_init J))) ps)"
  using assms stD(4,6) [OF assms(1)] by (simp add: wp)

lemma outcome_net_for:
  assumes c: "cval J cn n" "cval J 88 0" "cval J 90 1" "int n < 2 ^ 31 - 1" "0 < j_exp J" "k < j_lv J"
    and start: "st J S (F 0) (W 0) s" "P 0 (lvar s)"
    and stable: "\<And>i l v. P i l \<Longrightarrow> P i (l(k := v))"
    and body: "\<And>i s v. i < n \<Longrightarrow> st J S (F i) (W i) s \<Longrightarrow> P i (lvar s) \<Longrightarrow> lvar s k = Some v \<Longrightarrow>
      small v (int i) \<Longrightarrow>
      outcome (seqM body) s (\<lambda>t. st J S (F (Suc i)) (W (Suc i)) t \<and> P (Suc i) (lvar t) \<and> lvar t k = Some v) E"
  shows "outcome (seqM (load_consts [(k, 88)] # count_loop k 90 cn body)) s
    (\<lambda>t. st J S (F n) (W n) t \<and> P n (lvar t)) E"
proof -
  let ?z = "circuitConstants (circuit (j_init J)) ! 88"
  let ?s = "s\<lparr>lvar := (lvar s)(k \<mapsto> ?z)\<rparr>"
  have z: "88 < length (circuitConstants (circuit (j_init J)))" "small ?z 0" using c(2) by (simp_all add: cval_def)
  have "outcome (seqM (count_loop k 90 cn body)) ?s (\<lambda>t. st J S (F n) (W n) t \<and> P n (lvar t)) E"
  proof (rule outcome_count_loop [where J = "\<lambda>i t. st J S (F i) (W i) t \<and> P i (lvar t)" and ?i0.0 = 0 and n = n
        and ?v0.0 = ?z])
    fix i t assume "st J S (F i) (W i) t \<and> P i (lvar t)"
    then show "k < lvar_size t \<and> 0 < expaux_size t \<and>
        (\<exists>a. con cn t = Inr a \<and> small a (int n)) \<and> (\<exists>a. con 90 t = Inr a \<and> small a 1)"
      using c st_con [of J S "F i" "W i" t] stD(3,4) [of J S "F i" "W i" t] by fastforce
  next
    fix i t v assume "0 \<le> i" "i < n" "st J S (F i) (W i) t \<and> P i (lvar t)" "lvar t k = Some v" "small v (int i)"
    then show "outcome (seqM body) t (\<lambda>u. (st J S (F (Suc i)) (W (Suc i)) u \<and> P (Suc i) (lvar u)) \<and> lvar u k = Some v) E"
      using body [of i t v] by simp
  qed (use start stable stable [OF start(2)] z c in auto)
  moreover have "runs (load_consts [(k, 88)]) s (\<lambda>t. t = ?s)"
    using z(1) c(6) stD [OF start(1)] by (simp add: wp)
  ultimately show ?thesis by (auto simp: outcome_seq(2) intro: outcome_runs)
qed

lemma runs_net_for:
  assumes "cval J cn n" "cval J 88 0" "cval J 90 1" "int n < 2 ^ 31 - 1" "0 < j_exp J" "k < j_lv J"
    and "st J S (F 0) (W 0) s" "P 0 (lvar s)"
    and "\<And>i l v. P i l \<Longrightarrow> P i (l(k := v))"
    and "\<And>i s v. i < n \<Longrightarrow> st J S (F i) (W i) s \<Longrightarrow> P i (lvar s) \<Longrightarrow> lvar s k = Some v \<Longrightarrow>
      small v (int i) \<Longrightarrow>
      runs (seqM body) s (\<lambda>t. st J S (F (Suc i)) (W (Suc i)) t \<and> P (Suc i) (lvar t) \<and> lvar t k = Some v)"
  shows "runs (seqM (load_consts [(k, 88)] # count_loop k 90 cn body)) s (\<lambda>t. st J S (F n) (W n) t \<and> P n (lvar t))"
  unfolding runs_outcome
  by (rule outcome_net_for [where F = F and W = W and P = P, OF assms(1-9)]) (use assms(10) in \<open>simp_all add: runs_outcome\<close>)

text \<open>A loop that feeds one input a round.\<close>

definition fed :: "(nat \<Rightarrow> 'k) \<Rightarrow> (nat \<Rightarrow> nat) \<Rightarrow> nat \<Rightarrow> ('k \<times> nat) set" where
  "fed \<kappa> jj n = (\<lambda>i. (\<kappa> i, jj i)) ` {..<n}"

lemma fed_simps [simp]:
  "fed \<kappa> jj 0 = {}" "insert (\<kappa> i, jj i) (F \<union> fed \<kappa> jj i) = F \<union> fed \<kappa> jj (Suc i)"
  "x \<in> fed \<kappa> jj n \<longleftrightarrow> (\<exists>i < n. x = (\<kappa> i, jj i))"
  by (auto simp: fed_def lessThan_Suc)

lemma runs_feed_for:
  assumes c: "cval J cn n" "cval J 88 0" "cval J 90 1" "int n < 2 ^ 31 - 1" "0 < j_exp J" "k < j_lv J"
    and start: "st J S F W s" "P (lvar s)"
    and stable: "\<And>l v. P l \<Longrightarrow> P (l(k := v))"
    and body: "\<And>i s. i < n \<Longrightarrow> st J S (F \<union> fed \<kappa> jj i) W s \<Longrightarrow> P (lvar s) \<Longrightarrow> counter s k i \<Longrightarrow>
      runs (seqM body) s (\<lambda>t. st J S (insert (\<kappa> i, jj i) (F \<union> fed \<kappa> jj i)) W t \<and> lvar t = lvar s)"
  shows "runs (seqM (load_consts [(k, 88)] # count_loop k 90 cn body)) s
    (\<lambda>t. st J S (F \<union> fed \<kappa> jj n) W t \<and> P (lvar t))"
proof (rule runs_net_for [where F = "\<lambda>i. F \<union> fed \<kappa> jj i" and W = "\<lambda>_. W" and P = "\<lambda>_. P", OF c])
  fix i s v
  assume a: "i < n" "st J S (F \<union> fed \<kappa> jj i) W s" "P (lvar s)" "lvar s k = Some v" "small v (int i)"
  have "counter s k i" using a(4,5) c(6) stD(4) [OF a(2)] by (simp add: counter_def)
  from body [OF a(1-3) this] a(3,4)
  show "runs (seqM body) s (\<lambda>t. st J S (F \<union> fed \<kappa> jj (Suc i)) W t \<and> P (lvar t) \<and> lvar t k = Some v)"
    by (auto elim!: runs_mono)
qed (use start stable in auto)

text \<open>An input at a fixed signal of its slot, from one of the component's own signals.\<close>

lemma runs_feed_own:
  assumes s: "st J S F W s" and \<kappa>: "\<kappa> \<in> S" "k s = Inr (int (num \<kappa>))" "ix s = Inr (int (in_at (shp \<kappa>) + j))"
      "j < n_in (shp \<kappa>)" "(\<kappa>, j) \<notin> F" "computes (circuit (j_init J)) (tmpl \<kappa>) (shp \<kappa>) r (j_fun J \<kappa>)"
    and src: "ix' s = Inr (int i)" "i < own" "W i = Some (j_ins J \<kappa> j)"
  shows "runs (sub_input k (sub_addr ix) [] (sig_ix ix') r) s (\<lambda>t. st J S (insert (\<kappa>, j) F) W t \<and> lvar t = lvar s)"
proof (rule runs_feed [where k = k, OF s \<kappa>(1,2) _ \<kappa>(4,5) _ \<kappa>(6)])
  have sl: "\<kappa> \<in> slots" using goodD(1) [OF stD(5) [OF s]] \<kappa>(1) by blast
  then show "points (sub_addr ix) J s \<kappa> (in_at (shp \<kappa>) + j)"
    by (intro points_sub_addr [where ix = ix, OF s \<kappa>(1,3)]) (use \<kappa>(4) shape in fastforce)
  have "i < nsig" using own src(2) by simp
  then show "source [] (sig_ix ix') s (j_ins J \<kappa> j)"
    using gives_own [where ix = ix', OF s src(1,2) _ src(3)] by simp
qed

text \<open>An input that comes from the output of another slot, whose number \<open>cs\<close> may compute.\<close>

lemma runs_feed_from:
  assumes s: "st J S F W s" and \<kappa>: "\<kappa> \<in> S" "k s = Inr (int (num \<kappa>))" "points A J s \<kappa> (in_at (shp \<kappa>) + j)"
      "j < n_in (shp \<kappa>)" "(\<kappa>, j) \<notin> F" "computes (circuit (j_init J)) (tmpl \<kappa>) (shp \<kappa>) r (j_fun J \<kappa>)"
    and src: "\<kappa>' \<in> S" "index_after cs k' s (num \<kappa>')" "\<And>e. points A' J (s\<lparr>expaux := e\<rparr>) \<kappa>' i" "i < n_out (shp \<kappa>')"
      "\<And>j. j < n_in (shp \<kappa>') \<Longrightarrow> (\<kappa>', j) \<in> F" "j_fun J \<kappa>' (j_ins J \<kappa>') i = j_ins J \<kappa> j"
  shows "runs (sub_input k A cs (from_sub k' A') r) s (\<lambda>t. st J S (insert (\<kappa>, j) F) W t \<and> lvar t = lvar s)"
proof (rule runs_feed [where k = k and A = A and a = "from_sub k' A'", OF s \<kappa>(1-5) _ \<kappa>(6)])
  have "gives (from_sub k' A') (s\<lparr>expaux := e\<rparr>) (j_ins J \<kappa> j)"
    if "k' (s\<lparr>expaux := e\<rparr>) = Inr (int (num \<kappa>'))" for e
    using gives_from_sub [where k = k' and A = A', of J S F W "s\<lparr>expaux := e\<rparr>" \<kappa>' i] s that src by simp
  then show "source cs (from_sub k' A') s (j_ins J \<kappa> j)"
    using src(2) unfolding source_def index_after_def by (auto elim!: runs_mono)
qed

text \<open>The same at fixed signals of the two slots.\<close>

lemma runs_feed_out:
  assumes s: "st J S F W s" and \<kappa>: "\<kappa> \<in> S" "k s = Inr (int (num \<kappa>))" "ix s = Inr (int (in_at (shp \<kappa>) + j))"
      "j < n_in (shp \<kappa>)" "(\<kappa>, j) \<notin> F" "computes (circuit (j_init J)) (tmpl \<kappa>) (shp \<kappa>) r (j_fun J \<kappa>)"
    and src: "\<kappa>' \<in> S" "k' s = Inr (int (num \<kappa>'))" "\<And>s. ix' s = Inr (int i)" "i < n_out (shp \<kappa>')"
      "\<And>j. j < n_in (shp \<kappa>') \<Longrightarrow> (\<kappa>', j) \<in> F" "j_fun J \<kappa>' (j_ins J \<kappa>') i = j_ins J \<kappa> j"
  shows "runs (sub_input k (sub_addr ix) [] (from_sub k' (sub_addr ix')) r) s
    (\<lambda>t. st J S (insert (\<kappa>, j) F) W t \<and> lvar t = lvar s)"
proof (rule runs_feed_from [where k = k and k' = k', OF s \<kappa>(1,2) _ \<kappa>(4-6) src(1)])
  have sl: "\<kappa> \<in> slots" "\<kappa>' \<in> slots" using goodD(1) [OF stD(5) [OF s]] \<kappa>(1) src(1) by blast+
  show "points (sub_addr ix) J s \<kappa> (in_at (shp \<kappa>) + j)"
    by (rule points_sub_addr [where ix = ix, OF s \<kappa>(1,3)]) (use \<kappa>(4) shape [OF sl(1)] in linarith)
  show "points (sub_addr ix') J (s\<lparr>expaux := e\<rparr>) \<kappa>' i" for e
    by (rule points_sub_addr [where ix = ix' and s = "s\<lparr>expaux := e\<rparr>", OF _ src(1,3)])
      (use s src(4) shape [OF sl(2)] in auto)
qed (use src in auto)

text \<open>The two tests on a loop counter.\<close>

lemma runs_if_zero:
  assumes s: "st J S F W s" "counter s k i" "cval J 88 0" "0 < j_exp J"
    and br: "\<And>u. st J S F W u \<Longrightarrow> lvar u = lvar s \<Longrightarrow> runs (if i = 0 then a else b) u Q"
  shows "runs (seqM [op2 Fr_eq 0 (lv k) (con 88), ifM (isTrueE 0) a b]) s Q"
proof -
  obtain v where v: "lv k s = Inr v" "small v (int i)" using s(2) by (rule counterE)
  obtain z where z: "con 88 s = Inr z" "small z 0" using st_con [OF s(1,3)] by auto
  have e: "Fr_eq v z = bool_elem (i = 0)" using small_eq [OF v(2) z(2)] by simp
  let ?u = "s\<lparr>expaux := (expaux s)(0 \<mapsto> bool_elem (i = 0))\<rparr>"
  have "isTrueE 0 ?u = Inr (i = 0)" using s(4) stD(3) [OF s(1)] by (simp add: isTrueE_def exp_at_eq)
  then show ?thesis
    using br [of ?u] v z e s(1,4) stD(3) [OF s(1)] by (cases "i = 0") (simp_all add: wp)
qed

lemma runs_if_pos:
  assumes s: "st J S F W s" "counter s k i" "cval J 88 0" "0 < j_exp J"
    and br: "\<And>u. st J S F W u \<Longrightarrow> lvar u = lvar s \<Longrightarrow> runs (if 0 < i then a else b) u Q"
  shows "runs (seqM [op2 Fr_gt 0 (lv k) (con 88), ifM (isTrueE 0) a b]) s Q"
proof -
  obtain v where v: "lv k s = Inr v" "small v (int i)" using s(2) by (rule counterE)
  obtain z where z: "con 88 s = Inr z" "small z 0" using st_con [OF s(1,3)] by auto
  have e: "Fr_gt v z = bool_elem (0 < i)" using small_gt [OF v(2) z(2)] by simp
  let ?u = "s\<lparr>expaux := (expaux s)(0 \<mapsto> bool_elem (0 < i))\<rparr>"
  have "isTrueE 0 ?u = Inr (0 < i)" using s(4) stD(3) [OF s(1)] by (simp add: isTrueE_def exp_at_eq)
  then show ?thesis
    using br [of ?u] v z e s(1,4) stD(3) [OF s(1)] by (cases "0 < i") (simp_all add: wp)
qed

text \<open>The number of the slot before.\<close>

lemma index_pred:
  assumes s: "st J S F W s" "counter s k (Suc i)" "cval J 90 1" "0 < j_exp J" "int i < 2 ^ 30"
  shows "index_after [op2 Fr_sub 0 (lv k) (con 90)] (ixs [(1, exp_at 0)] off) s (off + i)"
proof -
  obtain v where v: "lv k s = Inr v" "small v (int (Suc i))" using s(2) by (rule counterE)
  obtain z where z: "con 90 s = Inr z" "small z 1" using st_con [OF s(1,3)] by auto
  have "small (Fr_sub v z) (int (Suc i) - 1)" using small_sub [OF v(2) z(2)] s(5) by (simp add: fits32_def)
  then have w: "small (Fr_sub v z) (int i)" by simp
  have "ixs [(1, exp_at 0)] off (s\<lparr>expaux := (expaux s)(0 \<mapsto> Fr_sub v z)\<rparr>) = Inr (int (off + i))"
    by (rule ixs_exp [OF _ w]) (use s(4) stD(3) [OF s(1)] in \<open>simp_all add: exp_at_eq\<close>)
  then show ?thesis
    using v z s(4) stD(3) [OF s(1)] by (auto simp: index_after_def wp)
qed

lemma index_pred4:
  assumes s: "st J S F W s" "counter s k i" "cval J 90 1" "cval J 89 4" "1 < j_exp J" "int i < 2 ^ 30"
  shows "index_after [op2 Fr_add 1 (con 89) (lv k), op2 Fr_sub 0 (exp_at 1) (con 90)]
    (ixs [(1, exp_at 0)] off) s (off + (i + 3))"
proof -
  obtain v where v: "lv k s = Inr v" "small v (int i)" using s(2) by (rule counterE)
  obtain z where z: "con 90 s = Inr z" "small z 1" using st_con [OF s(1,3)] by auto
  obtain y where y: "con 89 s = Inr y" "small y 4" using st_con [OF s(1,4)] by auto
  have a: "small (Fr_add y v) (4 + int i)" using small_add [OF y(2) v(2)] s(6) by (simp add: fits32_def)
  have "small (Fr_sub (Fr_add y v) z) (4 + int i - 1)" using small_sub [OF a z(2)] s(6) by (simp add: fits32_def)
  then have w: "small (Fr_sub (Fr_add y v) z) (int (i + 3))" by (simp add: add.commute)
  let ?u = "s\<lparr>expaux := (expaux s)(1 \<mapsto> Fr_add y v, 0 \<mapsto> Fr_sub (Fr_add y v) z)\<rparr>"
  have "ixs [(1, exp_at 0)] off ?u = Inr (int (off + (i + 3)))"
    by (rule ixs_exp [OF _ w]) (use s(5) stD(3) [OF s(1)] in \<open>simp_all add: exp_at_eq\<close>)
  moreover have "con 90 (s\<lparr>expaux := e\<rparr>) = con 90 s" for e by (simp add: con_def consts_of_def)
  ultimately show ?thesis
    using v z y s(5) stD(3) [OF s(1)] by (auto simp: index_after_def wp exp_at_eq)
qed

section \<open>The contract of the whole template\<close>

text \<open>At the end every signal of the template and of its subcomponents is written.\<close>

lemma good_filled:
  assumes g: "good J slots F W ctx" and F: "\<And>\<kappa> j. \<kappa> \<in> slots \<Longrightarrow> j < n_in (shp \<kappa>) \<Longrightarrow> (\<kappa>, j) \<in> F"
    and W: "\<And>i. i < own \<Longrightarrow> W i \<noteq> None"
  shows "filled ctx (j_start J) nsig"
  unfolding filled_def
proof (intro allI impI)
  fix i assume i: "i < nsig"
  show "\<exists>e. signalValues ctx (j_start J + i) = Some e \<and> fok e"
  proof (cases "i < own")
    case True
    then obtain y where "W i = Some y" using W by blast
    then have "carries ctx (j_start J + i) 1 (\<lambda>_. y)" using goodD(3) [OF g] True by (simp add: own_state_def)
    then show ?thesis by (auto simp: carries_def)
  next
    case False
    then obtain \<kappa> where \<kappa>: "\<kappa> \<in> slots" "sig \<kappa> \<le> i" "i < sig \<kappa> + n_sig (shp \<kappa>)" using cover [of i] i by auto
    have "missing F \<kappa> = 0" using F [OF \<kappa>(1)] missing_0 by blast
    then have "filled ctx (j_start J + sig \<kappa>) (n_sig (shp \<kappa>))"
      using goodD(4) [OF g \<kappa>(1)] by (simp add: sub_state_def)
    then have "\<exists>e. signalValues ctx (j_start J + sig \<kappa> + (i - sig \<kappa>)) = Some e \<and> fok e"
      unfolding filled_def using \<kappa>(2,3) by (metis less_diff_conv2 add.commute)
    then show ?thesis using \<kappa>(2) by simp
  qed
qed

text \<open>
  What a run of the template leaves: besides the frame, every signal written, the own signals with the
  values that the body gives them, and the outputs of the subcomponents. \<open>Q\<close> is what is known of the
  values of the own signals.
\<close>

definition leaves :: "nat \<Rightarrow> ('k \<Rightarrow> nat \<Rightarrow> int) \<Rightarrow> ((nat \<rightharpoonup> int) \<Rightarrow> bool) \<Rightarrow> Circom_CalcWit \<Rightarrow> bool" where
  "leaves start outs Q ctx \<longleftrightarrow> filled ctx start nsig \<and>
     (\<exists>W. Q W \<and> (\<forall>i < own. \<forall>y. W i = Some y \<longrightarrow> carries ctx (start + i) 1 (\<lambda>_. y))) \<and>
     (\<forall>\<kappa>\<in>slots. carries ctx (start + sig \<kappa>) (n_out (shp \<kappa>)) (outs \<kappa>))"

lemma good_leaves:
  assumes g: "good J slots F W ctx" and F: "\<And>\<kappa> j. \<kappa> \<in> slots \<Longrightarrow> j < n_in (shp \<kappa>) \<Longrightarrow> (\<kappa>, j) \<in> F"
    and W: "\<And>i. i < own \<Longrightarrow> W i \<noteq> None" and Q: "Q W"
  shows "leaves (j_start J) (\<lambda>\<kappa>. j_fun J \<kappa> (j_ins J \<kappa>)) Q ctx"
  unfolding leaves_def
proof (intro conjI exI [of _ W] allI impI ballI)
  show "filled ctx (j_start J) nsig" by (rule good_filled [OF g F W])
  show "carries ctx (j_start J + i) 1 (\<lambda>_. y)" if "i < own" "W i = Some y" for i y
    using goodD(3) [OF g] that by (simp add: own_state_def)
  show "carries ctx (j_start J + sig \<kappa>) (n_out (shp \<kappa>)) (j_fun J \<kappa> (j_ins J \<kappa>))" if \<kappa>: "\<kappa> \<in> slots" for \<kappa>
  proof -
    have "missing F \<kappa> = 0" using F [OF \<kappa>] missing_0 by blast
    then show ?thesis using goodD(4) [OF g \<kappa>] by (simp add: sub_state_def)
  qed
qed (rule Q)

lemma leaves_outputs:
  assumes "leaves start outs Q ctx" "n \<le> own" "\<And>W i. Q W \<Longrightarrow> i < n \<Longrightarrow> W i = Some (y i)"
  shows "carries ctx start n y"
proof (rule carries_each)
  fix j assume "j < n"
  then show "carries ctx (start + j) 1 (\<lambda>_. y j)" using assms unfolding leaves_def by (meson less_le_trans)
qed

lemma composite_outcome:
  assumes sh: "n_comp sh = ncomp" "n_sig sh = nsig" "n_sub sh = nslots"
    and body: "\<And>J s x. circuit (j_init J) = circ \<Longrightarrow> j_ins J = V x \<Longrightarrow> j_fun J = Gs \<Longrightarrow> j_exp J = ne \<Longrightarrow>
      j_lv J = nl \<Longrightarrow> st J {} {} (own_inputs sh x) s \<Longrightarrow>
      outcome (seqM body) s (\<lambda>t. \<exists>F W. st J slots F W t \<and> (\<forall>\<kappa>\<in>slots. \<forall>j < n_in (shp \<kappa>). (\<kappa>, j) \<in> F) \<and>
        (\<forall>i < own. W i \<noteq> None) \<and> Q x W) (E x)"
    and a: "circuit ctx = circ" "clean ctx" "fits sh idx start" "placed tid wait start (componentMemory ctx idx)"
      "subcomponents (componentMemory ctx idx) = Live (replicate (n_sub sh) 0)"
      "carries ctx (start + in_at sh) (n_in sh) x"
  shows "outcome (run_template ne nl nslots body idx) ctx (\<lambda>ctx'.
    changes {start..<start + n_sig sh} {idx..<idx + n_comp sh} ctx ctx' \<and> clean ctx' \<and>
    placed tid wait start (componentMemory ctx' idx) \<and> leaves start (\<lambda>\<kappa>. Gs \<kappa> (V x \<kappa>)) (Q x) ctx') (E x)"
proof -
  define J where "J = \<lparr>j_idx = idx, j_tid = tid, j_start = start, j_wait = wait, j_init = ctx, j_ins = V x, j_fun = Gs,
    j_exp = ne, j_lv = nl\<rparr>"
  have J: "j_idx J = idx" "j_tid J = tid" "j_start J = start" "j_wait J = wait" "j_init J = ctx" "j_ins J = V x" "j_fun J = Gs"
    "j_exp J = ne" "j_lv J = nl"
    by (simp_all add: J_def)
  let ?s = "init_frame ne nl idx (of_nat start) ctx"
  have W: "carries ctx (start + i) 1 (\<lambda>_. y)" if "own_inputs sh x i = Some y" for i y
  proof -
    have i: "in_at sh \<le> i" "i - in_at sh < n_in sh" "y = x (i - in_at sh)"
      using that by (auto simp: own_inputs_def split: if_splits)
    then have "start + i = start + in_at sh + (i - in_at sh)" by simp
    then show ?thesis using a(6) i(2,3) unfolding carries_def by (metis add.right_neutral less_one)
  qed
  have "good J {} {} (own_inputs sh x) ctx"
    using a(2-5) sh W by (simp add: good_def own_state_def J fits_def)
  then have st0: "st J {} {} (own_inputs sh x) ?s"
    by (simp add: st_def J init_frame_def)
  have post: "runs (release_subcomponents nslots idx) (f_ctx s) (\<lambda>ctx'.
      changes {start..<start + n_sig sh} {idx..<idx + n_comp sh} ctx ctx' \<and> clean ctx' \<and>
      placed tid wait start (componentMemory ctx' idx) \<and> leaves start (\<lambda>\<kappa>. Gs \<kappa> (V x \<kappa>)) (Q x) ctx')"
    if s: "st J slots F W s" and F: "\<forall>\<kappa>\<in>slots. \<forall>j < n_in (shp \<kappa>). (\<kappa>, j) \<in> F"
      and W: "\<forall>i < own. W i \<noteq> None" "Q x W" for s F W
  proof -
    note g = stD(5) [OF s]
    have "runs (release_subcomponents nslots (j_idx J)) (f_ctx s) (\<lambda>t. clean t \<and>
      signalValues t = signalValues (f_ctx s) \<and> componentMemory t (j_idx J) = componentMemory (f_ctx s) (j_idx J) \<and>
      changes {j_start J..<j_start J + nsig} {j_idx J..<j_idx J + ncomp} (j_init J) t)"
      by (rule runs_release [OF g]) (use F in blast)
    moreover have "placed tid wait start (componentMemory (f_ctx s) idx)"
      using goodD(3) [OF g] by (simp add: own_state_def J)
    moreover have "leaves start (\<lambda>\<kappa>. Gs \<kappa> (V x \<kappa>)) (Q x) (f_ctx s)"
      using good_leaves [OF g, of "Q x"] F W by (simp add: J)
    ultimately show ?thesis
      by (auto simp: J sh leaves_def carries_def filled_def elim!: runs_mono)
  qed
  have "component_ready ctx idx (of_nat start)"
    using a(3,4) own sh by (auto simp: component_ready_def placed_def fits_def)
  then show ?thesis
  proof (rule outcome_template)
    show "outcome (seqM body) ?s (\<lambda>s. runs (release_subcomponents nslots idx) (f_ctx s) (\<lambda>ctx'.
        changes {start..<start + n_sig sh} {idx..<idx + n_comp sh} ctx ctx' \<and> clean ctx' \<and>
        placed tid wait start (componentMemory ctx' idx) \<and> leaves start (\<lambda>\<kappa>. Gs \<kappa> (V x \<kappa>)) (Q x) ctx')) (E x)"
      by (rule outcome_mono [OF body [OF _ _ _ _ _ st0]]) (use a(1) J in \<open>auto dest: post elim: runs_mono\<close>)
  qed
qed

lemma composite_computes:
  assumes "n_comp sh = ncomp" "n_sig sh = nsig" "n_sub sh = nslots" "n_out sh \<le> own"
    and "\<And>J s x. circuit (j_init J) = circ \<Longrightarrow> j_ins J = V x \<Longrightarrow> j_fun J = Gs \<Longrightarrow> j_exp J = ne \<Longrightarrow>
      j_lv J = nl \<Longrightarrow> st J {} {} (own_inputs sh x) s \<Longrightarrow>
      runs (seqM body) s (\<lambda>t. \<exists>F W. st J slots F W t \<and> (\<forall>\<kappa>\<in>slots. \<forall>j < n_in (shp \<kappa>). (\<kappa>, j) \<in> F) \<and>
        (\<forall>i < own. W i \<noteq> None) \<and> (\<forall>i < n_out sh. W i = Some (G x i)))"
  shows "computes circ tid sh (run_template ne nl nslots body) G"
  unfolding computes_def runs_outcome
proof (intro allI impI)
  fix ctx :: Circom_CalcWit and idx start :: nat and x
  assume a: "circuit ctx = circ" "clean ctx" "fits sh idx start" "placed tid 0 start (componentMemory ctx idx)"
    "subcomponents (componentMemory ctx idx) = Live (replicate (n_sub sh) 0)"
    "carries ctx (start + in_at sh) (n_in sh) x"
  let ?Q = "\<lambda>x W. \<forall>i < n_out sh. W i = Some (G x i)"
  have "outcome (run_template ne nl nslots body idx) ctx (\<lambda>ctx'.
    changes {start..<start + n_sig sh} {idx..<idx + n_comp sh} ctx ctx' \<and> clean ctx' \<and>
    placed tid 0 start (componentMemory ctx' idx) \<and> leaves start (\<lambda>\<kappa>. Gs \<kappa> (V x \<kappa>)) (?Q x) ctx') (\<lambda>_. False)"
    by (rule composite_outcome [where V = V and Gs = Gs and Q = ?Q and E = "\<lambda>_ _. False", OF assms(1-3) _ a])
      (use assms(5) in \<open>simp add: runs_outcome\<close>)
  then show "outcome (run_template ne nl nslots body idx) ctx (\<lambda>ctx'.
    changes {start..<start + n_sig sh} {idx..<idx + n_comp sh} ctx ctx' \<and> clean ctx' \<and>
    placed tid 0 start (componentMemory ctx' idx) \<and> carries ctx' start (n_out sh) (G x) \<and>
    filled ctx' start (n_sig sh)) (\<lambda>_. False)"
  proof (rule outcome_mono)
    fix ctx' assume c: "changes {start..<start + n_sig sh} {idx..<idx + n_comp sh} ctx ctx' \<and> clean ctx' \<and>
      placed tid 0 start (componentMemory ctx' idx) \<and> leaves start (\<lambda>\<kappa>. Gs \<kappa> (V x \<kappa>)) (?Q x) ctx'"
    have "carries ctx' start (n_out sh) (G x)" by (rule leaves_outputs [OF _ assms(4)]) (use c in blast)+
    moreover have "filled ctx' start (n_sig sh)" using c assms(2) by (simp add: leaves_def)
    ultimately show "changes {start..<start + n_sig sh} {idx..<idx + n_comp sh} ctx ctx' \<and> clean ctx' \<and>
      placed tid 0 start (componentMemory ctx' idx) \<and> carries ctx' start (n_out sh) (G x) \<and> filled ctx' start (n_sig sh)"
      using c by blast
  qed
qed

end

end
