(* ===== verification/Poseidon_Layout.thy ===== *)
theory Poseidon_Layout
  imports Poseidon Poseidon_Hash Network
begin

text \<open>
  The layout of \<open>PoseidonEx\<close>: its subcomponents as a datatype of slots, with their numbers, their
  component and signal offsets and their shapes; the reference permutation; and the values that
  every input of every slot has in a run. The layout is a network for the two widths of the circuit.
\<close>

section \<open>Slots\<close>

datatype pslot = Ark nat | SigF nat nat | SigP nat | Mix nat | MixS nat | MixLast

fun pex_slot :: "nat \<Rightarrow> nat \<Rightarrow> pslot \<Rightarrow> bool" where
  "pex_slot t np (Ark k) = (k < 8)"
| "pex_slot t np (SigF r j) = (r < 8 \<and> j < t)"
| "pex_slot t np (SigP r) = (r < np)"
| "pex_slot t np (Mix k) = (k < 7)"
| "pex_slot t np (MixS r) = (r < np)"
| "pex_slot t np MixLast = True"

fun pex_num :: "nat \<Rightarrow> nat \<Rightarrow> pslot \<Rightarrow> nat" where
  "pex_num t np (Ark k) = k"
| "pex_num t np (SigF r j) = 8 + t * r + j"
| "pex_num t np (SigP r) = 8 + 8 * t + r"
| "pex_num t np (Mix k) = 8 + 8 * t + np + k"
| "pex_num t np (MixS r) = 15 + 8 * t + np + r"
| "pex_num t np MixLast = 15 + 8 * t + 2 * np"

fun pex_comp :: "nat \<Rightarrow> nat \<Rightarrow> pslot \<Rightarrow> nat" where
  "pex_comp t np (Ark k) = 1 + k"
| "pex_comp t np (SigF r j) = 17 + np + t * r + j"
| "pex_comp t np (SigP r) = 17 + np + 8 * t + r"
| "pex_comp t np (Mix k) = 9 + k"
| "pex_comp t np (MixS r) = 17 + r"
| "pex_comp t np MixLast = 16"

fun pex_sig :: "nat \<Rightarrow> nat \<Rightarrow> pslot \<Rightarrow> nat" where
  "pex_sig t np (Ark k) = t + 1 + 2 * t * k"
| "pex_sig t np (SigF r j) = 32 * t + 2 + 2 * t * np + 4 * (t * r + j)"
| "pex_sig t np (SigP r) = 64 * t + 2 + 2 * t * np + 4 * r"
| "pex_sig t np (Mix k) = 17 * t + 1 + 2 * t * k"
| "pex_sig t np (MixS r) = 32 * t + 2 + 2 * t * r"
| "pex_sig t np MixLast = 31 * t + 1"

definition layer_shape :: "nat \<Rightarrow> shape" where
  "layer_shape t = \<lparr>n_in = t, in_at = t, n_out = t, n_sig = 2 * t, n_comp = 1, n_sub = 0\<rparr>"

definition sigma_shape :: shape where
  "sigma_shape = \<lparr>n_in = 1, in_at = 1, n_out = 1, n_sig = 4, n_comp = 1, n_sub = 0\<rparr>"

definition last_shape :: "nat \<Rightarrow> shape" where
  "last_shape t = \<lparr>n_in = t, in_at = 1, n_out = 1, n_sig = t + 1, n_comp = 1, n_sub = 0\<rparr>"

fun pex_shp :: "nat \<Rightarrow> pslot \<Rightarrow> shape" where
  "pex_shp t (Ark k) = layer_shape t"
| "pex_shp t (SigF r j) = sigma_shape"
| "pex_shp t (SigP r) = sigma_shape"
| "pex_shp t (Mix k) = layer_shape t"
| "pex_shp t (MixS r) = layer_shape t"
| "pex_shp t MixLast = last_shape t"

lemmas shape_defs = layer_shape_def sigma_shape_def last_shape_def

text \<open>The templates of the slots; the two widths use different instances.\<close>

definition ark4_ids :: "nat list" where "ark4_ids = [0, 2, 4, 5, 6, 64, 65, 66]"
definition ark3_ids :: "nat list" where "ark3_ids = [70, 71, 73, 74, 75, 134, 135, 136]"

fun pex_tmpl :: "nat \<Rightarrow> pslot \<Rightarrow> u32" where
  "pex_tmpl t (Ark k) = of_nat ((if t = 4 then ark4_ids else ark3_ids) ! k)"
| "pex_tmpl t (SigF r j) = 1"
| "pex_tmpl t (SigP r) = 1"
| "pex_tmpl t (Mix k) = (if k = 3 then if t = 4 then 7 else 76 else if t = 4 then 3 else 72)"
| "pex_tmpl t (MixS r) = of_nat ((if t = 4 then 8 else 77) + r)"
| "pex_tmpl t MixLast = (if t = 4 then 67 else 137)"

text \<open>The run functions of the slots, and the slots whose signals are addressed through the field map.\<close>

fun pex_runner :: "runner list \<Rightarrow> runner \<Rightarrow> pslot \<Rightarrow> runner" where
  "pex_runner ft ml (SigF r j) = Sigma_1_run"
| "pex_runner ft ml (SigP r) = Sigma_1_run"
| "pex_runner ft ml MixLast = ml"
| "pex_runner ft ml \<kappa> = by_table ft"

fun layered :: "pslot \<Rightarrow> bool" where
  "layered (Ark k) = True"
| "layered (Mix k) = True"
| "layered (MixS r) = True"
| "layered \<kappa> = False"

text \<open>The sizes: of the subcomponent array, of the component's own signals, and of all below it.\<close>

definition pex_nslots :: "nat \<Rightarrow> nat \<Rightarrow> nat" where "pex_nslots t np = 16 + 8 * t + 2 * np"
definition pex_own :: "nat \<Rightarrow> nat" where "pex_own t = t + 1"
definition pex_ncomp :: "nat \<Rightarrow> nat \<Rightarrow> nat" where "pex_ncomp t np = 17 + 8 * t + 2 * np"
definition pex_nsig :: "nat \<Rightarrow> nat \<Rightarrow> nat" where "pex_nsig t np = 64 * t + 2 + 2 * t * np + 4 * np"

definition pex_shape :: "nat \<Rightarrow> nat \<Rightarrow> shape" where
  "pex_shape t np = \<lparr>n_in = t, in_at = 1, n_out = 1, n_sig = pex_nsig t np, n_comp = pex_ncomp t np,
     n_sub = pex_nslots t np\<rparr>"

lemmas pex_sizes = pex_nslots_def pex_own_def pex_ncomp_def pex_nsig_def

lemma row_unique:
  "4 * a + b = 4 * c + d \<Longrightarrow> b < 4 \<Longrightarrow> d < 4 \<Longrightarrow> a = c \<and> b = d"
  "3 * a + b = 3 * c + d \<Longrightarrow> b < 3 \<Longrightarrow> d < 3 \<Longrightarrow> a = c \<and> b = d" for a b c d :: nat
  by presburger+

text \<open>Every signal past the component's own is one of a slot.\<close>

lemma pex_cover:
  assumes "t = 4 \<and> np = 56 \<or> t = 3 \<and> np = 57" "t + 1 \<le> i" "i < 64 * t + 2 + 2 * t * np + 4 * np"
  shows "\<exists>\<kappa>. pex_slot t np \<kappa> \<and> pex_sig t np \<kappa> \<le> i \<and> i < pex_sig t np \<kappa> + n_sig (pex_shp t \<kappa>)"
proof -
  consider "i < t + 1 + 2 * t * 8" | "17 * t + 1 \<le> i" "i < 17 * t + 1 + 2 * t * 7" |
    "31 * t + 1 \<le> i" "i < 32 * t + 2" | "32 * t + 2 \<le> i" "i < 32 * t + 2 + 2 * t * np" |
    "32 * t + 2 + 2 * t * np \<le> i" "i < 32 * t + 2 + 2 * t * np + 4 * (8 * t)" |
    "64 * t + 2 + 2 * t * np \<le> i" "i < 64 * t + 2 + 2 * t * np + 4 * np"
    using assms(2,3) by linarith
  then show ?thesis
  proof cases
    case 1
    then obtain k where "k < 8" "t + 1 + 2 * t * k \<le> i" "i < t + 1 + 2 * t * k + 2 * t"
      using in_strip [OF assms(2)] by blast
    then show ?thesis by (intro exI [of _ "Ark k"]) (simp add: shape_defs)
  next
    case 2
    then obtain k where "k < 7" "17 * t + 1 + 2 * t * k \<le> i" "i < 17 * t + 1 + 2 * t * k + 2 * t"
      using in_strip by blast
    then show ?thesis by (intro exI [of _ "Mix k"]) (simp add: shape_defs)
  next
    case 3
    then show ?thesis by (intro exI [of _ MixLast]) (simp add: shape_defs)
  next
    case 4
    then obtain r where "r < np" "32 * t + 2 + 2 * t * r \<le> i" "i < 32 * t + 2 + 2 * t * r + 2 * t"
      using in_strip by blast
    then show ?thesis by (intro exI [of _ "MixS r"]) (simp add: shape_defs)
  next
    case 5
    then obtain k where k: "k < 8 * t" "32 * t + 2 + 2 * t * np + 4 * k \<le> i" "i < 32 * t + 2 + 2 * t * np + 4 * k + 4"
      using in_strip by blast
    then have "k div t < 8" "k mod t < t" by (auto simp: less_mult_imp_div_less)
    then show ?thesis using k by (intro exI [of _ "SigF (k div t) (k mod t)"]) (simp add: shape_defs)
  next
    case 6
    then obtain r where "r < np" "64 * t + 2 + 2 * t * np + 4 * r \<le> i" "i < 64 * t + 2 + 2 * t * np + 4 * r + 4"
      using in_strip by blast
    then show ?thesis by (intro exI [of _ "SigP r"]) (simp add: shape_defs)
  qed
qed

lemma pex_network:
  assumes "t = 4 \<and> np = 56 \<or> t = 3 \<and> np = 57"
  shows "network {\<kappa>. pex_slot t np \<kappa>} (pex_num t np) (pex_comp t np) (pex_sig t np) (pex_shp t)
    (pex_nslots t np) (pex_own t) (pex_ncomp t np) (pex_nsig t np)"
  unfolding pex_sizes
proof
  have t: "t = 4 \<or> t = 3" "0 < t" "t < 2 ^ 32" using assms by auto
  fix \<kappa> \<kappa>' i
  show "\<kappa> \<in> {\<kappa>. pex_slot t np \<kappa>} \<Longrightarrow> pex_num t np \<kappa> < 16 + 8 * t + 2 * np"
    using assms by (cases \<kappa>) auto
  show "\<kappa> \<in> {\<kappa>. pex_slot t np \<kappa>} \<Longrightarrow> 0 < pex_comp t np \<kappa>"
    by (cases \<kappa>) auto
  show "\<kappa> \<in> {\<kappa>. pex_slot t np \<kappa>} \<Longrightarrow> pex_comp t np \<kappa> + n_comp (pex_shp t \<kappa>) \<le> 17 + 8 * t + 2 * np"
    using assms by (cases \<kappa>) (auto simp: shape_defs)
  show "\<kappa> \<in> {\<kappa>. pex_slot t np \<kappa>} \<Longrightarrow> t + 1 \<le> pex_sig t np \<kappa>"
    using assms by (cases \<kappa>) auto
  show "\<kappa> \<in> {\<kappa>. pex_slot t np \<kappa>} \<Longrightarrow> pex_sig t np \<kappa> + n_sig (pex_shp t \<kappa>) \<le> 64 * t + 2 + 2 * t * np + 4 * np"
    using assms by (cases \<kappa>) (auto simp: shape_defs)
  show "t + 1 \<le> 64 * t + 2 + 2 * t * np + 4 * np" "0 < 17 + 8 * t + 2 * np"
    using assms by auto
  show "\<kappa> \<in> {\<kappa>. pex_slot t np \<kappa>} \<Longrightarrow> 0 < n_in (pex_shp t \<kappa>) \<and> in_at (pex_shp t \<kappa>) + n_in (pex_shp t \<kappa>) \<le> n_sig (pex_shp t \<kappa>) \<and>
      n_out (pex_shp t \<kappa>) \<le> n_sig (pex_shp t \<kappa>) \<and> 0 < n_comp (pex_shp t \<kappa>) \<and> n_in (pex_shp t \<kappa>) < 2 ^ 32"
    using t by (cases \<kappa>) (simp_all add: shape_defs)
  assume k: "\<kappa> \<in> {\<kappa>. pex_slot t np \<kappa>}" "\<kappa>' \<in> {\<kappa>. pex_slot t np \<kappa>}"
  show "pex_num t np \<kappa> = pex_num t np \<kappa>' \<Longrightarrow> \<kappa> = \<kappa>'"
    using assms k by (cases \<kappa>; cases \<kappa>') (auto dest: row_unique)
  show "pex_comp t np \<kappa> < pex_comp t np \<kappa>' \<Longrightarrow> pex_comp t np \<kappa> + n_comp (pex_shp t \<kappa>) \<le> pex_comp t np \<kappa>'"
    using assms k by (cases \<kappa>; cases \<kappa>') (auto simp: shape_defs)
  show "pex_comp t np \<kappa> < pex_comp t np \<kappa>' \<Longrightarrow> pex_sig t np \<kappa> + n_sig (pex_shp t \<kappa>) \<le> pex_sig t np \<kappa>'"
    using assms k by (cases \<kappa>; cases \<kappa>') (auto simp: shape_defs)
  show "pex_comp t np \<kappa> = pex_comp t np \<kappa>' \<Longrightarrow> \<kappa> = \<kappa>'"
    using assms k by (cases \<kappa>; cases \<kappa>') (auto dest: row_unique)
next
  fix i assume i: "i < 16 + 8 * t + 2 * np"
  have t: "0 < t" using assms by auto
  consider "i < 8" | "8 \<le> i" "i < 8 + 8 * t" | "8 + 8 * t \<le> i" "i < 8 + 8 * t + np" |
    "8 + 8 * t + np \<le> i" "i < 15 + 8 * t + np" | "15 + 8 * t + np \<le> i" "i < 15 + 8 * t + 2 * np" | "i = 15 + 8 * t + 2 * np"
    using i by linarith
  then have "\<exists>\<kappa>. pex_slot t np \<kappa> \<and> pex_num t np \<kappa> = i"
  proof cases
    case 1 then show ?thesis by (intro exI [of _ "Ark i"]) simp
  next
    case 2
    then have "(i - 8) div t < 8" using t by (simp add: less_mult_imp_div_less mult.commute)
    then show ?thesis using 2 t by (intro exI [of _ "SigF ((i - 8) div t) ((i - 8) mod t)"]) simp
  next
    case 3 then show ?thesis by (intro exI [of _ "SigP (i - (8 + 8 * t))"]) auto
  next
    case 4 then show ?thesis by (intro exI [of _ "Mix (i - (8 + 8 * t + np))"]) auto
  next
    case 5 then show ?thesis by (intro exI [of _ "MixS (i - (15 + 8 * t + np))"]) auto
  next
    case 6 then show ?thesis by (intro exI [of _ MixLast]) simp
  qed
  then show "\<exists>\<kappa>\<in>{\<kappa>. pex_slot t np \<kappa>}. pex_num t np \<kappa> = i" by blast
next
  fix i assume i: "t + 1 \<le> i" "i < 64 * t + 2 + 2 * t * np + 4 * np"
  from pex_cover [OF assms this]
  show "\<exists>\<kappa>\<in>{\<kappa>. pex_slot t np \<kappa>}. pex_sig t np \<kappa> \<le> i \<and> i < pex_sig t np \<kappa> + n_sig (pex_shp t \<kappa>)"
    by blast
qed

section \<open>Values\<close>

text \<open>What the inputs of a slot are, and what its template computes from them.\<close>

fun pex_ins :: "params \<Rightarrow> (nat \<Rightarrow> int) \<Rightarrow> pslot \<Rightarrow> nat \<Rightarrow> int" where
  "pex_ins p x (Ark k) = (if k = 0 then x else sbox (full_state p x (k - 1)))"
| "pex_ins p x (SigF r j) = (\<lambda>_. full_state p x r j)"
| "pex_ins p x (SigP r) = (\<lambda>_. partial_state p x r 0)"
| "pex_ins p x (Mix k) = ark_layer p (ark_off p (Suc k)) (sbox (full_state p x k))"
| "pex_ins p x (MixS r) = partial_in p r (partial_state p x r)"
| "pex_ins p x MixLast = sbox (full_state p x 7)"

fun pex_fun :: "params \<Rightarrow> pslot \<Rightarrow> (nat \<Rightarrow> int) \<Rightarrow> nat \<Rightarrow> int" where
  "pex_fun p (Ark k) y = ark_layer p (ark_off p k) y"
| "pex_fun p (SigF r j) y = (\<lambda>_. y 0 ^ 5 mod q_int)"
| "pex_fun p (SigP r) y = (\<lambda>_. y 0 ^ 5 mod q_int)"
| "pex_fun p (Mix k) y = mix_layer p (if k = 3 then p_P p else p_M p) y"
| "pex_fun p (MixS r) y = sparse_round (p_S p) (p_t p) ((2 * p_t p - 1) * r) y"
| "pex_fun p MixLast y = (\<lambda>_. mix_layer p (p_M p) y 0)"

text \<open>The values fit together along the connections of the template.\<close>

lemma pex_flow:
  "pex_fun p (Ark 0) (pex_ins p x (Ark 0)) j = pex_ins p x (SigF 0 j) i"
  "r < 3 \<or> 4 \<le> r \<and> r < 7 \<Longrightarrow> pex_fun p (Mix r) (pex_ins p x (Mix r)) j = pex_ins p x (SigF (Suc r) j) i"
  "pex_fun p (MixS r) (pex_ins p x (MixS r)) j = pex_ins p x (MixS (Suc r)) j \<or> j = 0"
  "Suc r = p_np p \<Longrightarrow> pex_fun p (MixS r) (pex_ins p x (MixS r)) j = pex_ins p x (SigF 4 j) i"
  "pex_fun p (SigF r j) (pex_ins p x (SigF r j)) i = pex_ins p x (Ark (Suc r)) j"
  "pex_fun p (SigF 7 j) (pex_ins p x (SigF 7 j)) i = pex_ins p x MixLast j"
  "pex_fun p (Ark (Suc r)) (pex_ins p x (Ark (Suc r))) j = pex_ins p x (Mix r) j"
  "pex_fun p (Mix 3) (pex_ins p x (Mix 3)) 0 = pex_ins p x (SigP 0) i"
  "pex_fun p (MixS r) (pex_ins p x (MixS r)) 0 = pex_ins p x (SigP (Suc r)) i"
  "pex_fun p (Mix 3) (pex_ins p x (Mix 3)) j = pex_ins p x (MixS 0) j \<or> j = 0"
  "(pex_fun p (SigP r) (pex_ins p x (SigP r)) i + p_C p (5 * p_t p + r)) mod q_int = pex_ins p x (MixS r) 0"
  "pex_fun p MixLast (pex_ins p x MixLast) i = permutation_out p x"
  by (auto simp: permutation_steps permutation_out_eq sbox_def partial_in_def)
    (metis One_nat_def partial_state_Suc)

end
