(* ===== verification/Poseidon_Correct.thy ===== *)
theory Poseidon_Correct
  imports Poseidon_Layout
begin

text \<open>
  The body of \<open>PoseidonEx\<close> computes the reference permutation. The proof follows the parts of the
  body; after each of them the set of inputs that have arrived is known, and the network does the
  rest.
\<close>

locale pex =
  fixes t np :: nat
  assumes widths: "t = 4 \<and> np = 56 \<or> t = 3 \<and> np = 57"

sublocale pex \<subseteq> network "{\<kappa>. pex_slot t np \<kappa>}" "pex_num t np" "pex_comp t np" "pex_sig t np" "pex_shp t"
  "pex_tmpl t" "pex_nslots t np" "pex_own t" "pex_ncomp t np" "pex_nsig t np"
  by (rule pex_network [OF widths])

text \<open>What is known of the circuit that the functions run in.\<close>

definition pex_circuit :: "nat \<Rightarrow> nat \<Rightarrow> nat \<Rightarrow> nat \<Rightarrow> params \<Rightarrow> runner list \<Rightarrow> runner \<Rightarrow> Circom_Circuit \<Rightarrow> bool" where
  "pex_circuit t np tc npc p ft ml circ \<longleftrightarrow>
     p_t p = t \<and> p_np p = np \<and>
     (\<forall>(c, n) \<in> {(88, 0), (90, 1), (460, 3), (89, 4), (tc, t), (npc, np)}.
        c < length (circuitConstants circ) \<and> small (circuitConstants circ ! c) (int n)) \<and>
     (\<forall>\<kappa>. pex_slot t np \<kappa> \<longrightarrow> computes circ (pex_tmpl t \<kappa>) (pex_shp t \<kappa>) (pex_runner ft ml \<kappa>) (pex_fun p \<kappa>)) \<and>
     (\<forall>\<kappa>. pex_slot t np \<kappa> \<longrightarrow> layered \<kappa> \<longrightarrow> io_field circ (pex_tmpl t \<kappa>) 0 0 \<and> io_field circ (pex_tmpl t \<kappa>) 1 t)"

definition pex_job :: "nat \<Rightarrow> nat \<Rightarrow> nat \<Rightarrow> nat \<Rightarrow> params \<Rightarrow> (nat \<Rightarrow> int) \<Rightarrow> runner list \<Rightarrow> runner \<Rightarrow> pslot job \<Rightarrow> bool" where
  "pex_job t np tc npc p x ft ml J \<longleftrightarrow>
     pex_circuit t np tc npc p ft ml (circuit (j_init J)) \<and> j_ins J = pex_ins p x \<and> j_fun J = pex_fun p \<and>
     j_exp J = 3 \<and> j_lv J = lv_j t np + 1"

lemmas pex_job_defs = pex_job_def pex_circuit_def

context pex
begin

definition slots :: "pslot set" where "slots = {\<kappa>. pex_slot t np \<kappa>}"

lemmas slots_eq = slots_def [symmetric]

lemma t_pos: "0 < t" "0 < np" "t \<le> 4" "np \<le> 57"
  using widths by auto

lemma jobD:
  assumes "pex_job t np tc npc p x ft ml J"
  shows "cval J 88 0" "cval J 90 1" "cval J 460 3" "cval J 89 4" "cval J tc t" "cval J npc np"
    "j_exp J = 3" "j_lv J = lv_j t np + 1" "j_ins J = pex_ins p x" "j_fun J = pex_fun p"
    "p_t p = t" "p_np p = np"
  using assms by (simp_all add: pex_job_defs cval_def)

lemma job_computes:
  assumes "pex_job t np tc npc p x ft ml J" "pex_slot t np \<kappa>" "r = pex_runner ft ml \<kappa>"
  shows "computes (circuit (j_init J)) (pex_tmpl t \<kappa>) (pex_shp t \<kappa>) r (j_fun J \<kappa>)"
  using assms by (simp add: pex_job_defs)

lemma layered_shape: "layered \<kappa> \<Longrightarrow> pex_shp t \<kappa> = layer_shape t"
  by (cases \<kappa>) simp_all

lemma layer_fields [simp]:
  "n_in (layer_shape t) = t" "in_at (layer_shape t) = t" "n_out (layer_shape t) = t" "n_sig (layer_shape t) = 2 * t"
  "n_in sigma_shape = 1" "in_at sigma_shape = 1" "n_out sigma_shape = 1" "n_sig sigma_shape = 4"
  "n_in (last_shape t) = t" "in_at (last_shape t) = 1" "n_out (last_shape t) = 1" "n_sig (last_shape t) = t + 1"
  by (simp_all add: shape_defs)

lemma points_field:
  assumes s: "st J slots F W s" and J: "pex_job t np tc npc p x ft ml J" and \<kappa>: "pex_slot t np \<kappa>" "layered \<kappa>"
    and j: "counter s k j" "j < t"
  shows "points (field 0 k) J s \<kappa> j" "points (field 1 k) J s \<kappa> (t + j)"
proof -
  have io: "io_field (circuit (j_init J)) (pex_tmpl t \<kappa>) 0 0" "io_field (circuit (j_init J)) (pex_tmpl t \<kappa>) 1 t"
    using J \<kappa> by (auto simp: pex_job_defs)
  have ix: "ixs [(1, lv k)] 0 s = Inr (int j)" by (rule ixs_counter1 [OF j(1)]) simp
  have "\<kappa> \<in> slots" using \<kappa>(1) by (simp add: slots_def)
  from points_io_addr [where ix = "ixs [(1, lv k)] 0", OF s this ix _ io(1)] points_io_addr [where ix = "ixs [(1, lv k)] 0", OF s this ix _ io(2)]
  show "points (field 0 k) J s \<kappa> j" "points (field 1 k) J s \<kappa> (t + j)"
    using j(2) by (simp_all add: field_def layered_shape [OF \<kappa>(2)])
qed

lemma points_field0:
  assumes s: "st J slots F W s" and J: "pex_job t np tc npc p x ft ml J" and \<kappa>: "pex_slot t np \<kappa>" "layered \<kappa>"
  shows "points (field0 0) J s \<kappa> 0" "points (field0 1) J s \<kappa> t"
proof -
  have io: "io_field (circuit (j_init J)) (pex_tmpl t \<kappa>) 0 0" "io_field (circuit (j_init J)) (pex_tmpl t \<kappa>) 1 t"
    using J \<kappa> by (auto simp: pex_job_defs)
  have ix: "ixs [] 0 s = Inr (int 0)" by (rule ixs_lit)
  have "\<kappa> \<in> slots" using \<kappa>(1) by (simp add: slots_def)
  from points_io_addr [where ix = "ixs [] 0", OF s this ix _ io(1)] points_io_addr [where ix = "ixs [] 0", OF s this ix _ io(2)]
  show "points (field0 0) J s \<kappa> 0" "points (field0 1) J s \<kappa> t"
    using t_pos by (simp_all add: field0_def layered_shape [OF \<kappa>(2)])
qed

lemma points_in1_out0:
  assumes s: "st J slots F W s" and \<kappa>: "pex_slot t np \<kappa>"
  shows "points in1 J s \<kappa> 1" "points out0 J s \<kappa> 0"
proof -
  have "\<kappa> \<in> slots" using \<kappa>(1) by (simp add: slots_def)
  moreover have "1 < n_sig (pex_shp t \<kappa>)" using t_pos by (cases \<kappa>) simp_all
  ultimately show "points in1 J s \<kappa> 1" "points out0 J s \<kappa> 0"
    unfolding in1_def out0_def by (auto intro!: points_sub_addr [OF s] ixs_lit)
qed

lemma points_field_e:
  assumes "st J slots F W s" "pex_job t np tc npc p x ft ml J" "pex_slot t np \<kappa>" "layered \<kappa>" "counter s k j" "j < t"
  shows "points (field 0 k) J (s\<lparr>expaux := e\<rparr>) \<kappa> j"
  using points_field(1) [of J F W "s\<lparr>expaux := e\<rparr>"] assms by simp

lemma points_field0_e:
  assumes "st J slots F W s" "pex_job t np tc npc p x ft ml J" "pex_slot t np \<kappa>" "layered \<kappa>"
  shows "points (field0 0) J (s\<lparr>expaux := e\<rparr>) \<kappa> 0"
  using points_field0(1) [of J F W "s\<lparr>expaux := e\<rparr>"] assms by simp

lemma points_out0_e:
  assumes "st J slots F W s" "pex_slot t np \<kappa>"
  shows "points out0 J (s\<lparr>expaux := e\<rparr>) \<kappa> 0"
  using points_in1_out0(2) [of J F W "s\<lparr>expaux := e\<rparr>"] assms by simp

text \<open>Local variables that survive a loop: \<open>Q\<close> is any property that does not depend on the counters.\<close>

definition keeps :: "((nat \<rightharpoonup> FrElement) \<Rightarrow> bool) \<Rightarrow> bool" where
  "keeps Q \<longleftrightarrow> (\<forall>l v. Q l \<longrightarrow> Q (l(lv_r t np := v)) \<and> Q (l(lv_j t np := v)))"

lemma lv_neq: "lv_j t np \<noteq> lv_r t np" "lv_r t np < lv_j t np + 1" "lv_j t np < lv_j t np + 1"
  by (simp_all add: lv_j_def)

text \<open>A loop over the elements of a state, inside round \<open>r\<close> or outside the rounds.\<close>

lemma state_loop:
  assumes J: "pex_job t np tc npc p x ft ml J" and Q: "keeps Q" and s: "st J slots F W s" "Q (lvar s)"
      "lvar s (lv_r t np) = Some v" "small v (int r)"
    and body: "\<And>j s. j < t \<Longrightarrow> st J slots (F \<union> fed \<kappa> jj j) W s \<Longrightarrow> counter s (lv_r t np) r \<Longrightarrow>
      counter s (lv_j t np) j \<Longrightarrow> Q (lvar s) \<Longrightarrow>
      runs (seqM body) s (\<lambda>u. st J slots (insert (\<kappa> j, jj j) (F \<union> fed \<kappa> jj j)) W u \<and> lvar u = lvar s)"
  shows "runs (seqM (for_loop (lv_j t np) tc body)) s (\<lambda>u. st J slots (F \<union> fed \<kappa> jj t) W u \<and> Q (lvar u) \<and>
    lvar u (lv_r t np) = Some v)"
  unfolding for_loop_def slots_def
proof (rule runs_feed_for [where P = "\<lambda>l. Q l \<and> l (lv_r t np) = Some v"])
  show "cval J tc t" "cval J 88 0" "cval J 90 1" "0 < j_exp J" "lv_j t np < j_lv J" "int t < 2 ^ 31 - 1"
    using jobD [OF J] t_pos by simp_all
  show "st J {\<kappa>. pex_slot t np \<kappa>} F W s" "Q (lvar s) \<and> lvar s (lv_r t np) = Some v"
    using s by (simp_all add: slots_def)
  show "Q (l(lv_j t np := w)) \<and> (l(lv_j t np := w)) (lv_r t np) = Some v"
    if "Q l \<and> l (lv_r t np) = Some v" for l w
    using that Q lv_neq by (simp add: keeps_def)
next
  fix j u
  assume a: "j < t" "st J {\<kappa>. pex_slot t np \<kappa>} (F \<union> fed \<kappa> jj j) W u" "Q (lvar u) \<and> lvar u (lv_r t np) = Some v"
    "counter u (lv_j t np) j"
  have "counter u (lv_r t np) r"
    using a(3) s(4) stD(4) [OF a(2)] jobD(8) [OF J] by (simp add: counter_def lv_j_def)
  then show "runs (seqM body) u (\<lambda>w. st J {\<kappa>. pex_slot t np \<kappa>} (insert (\<kappa> j, jj j) (F \<union> fed \<kappa> jj j)) W w \<and> lvar w = lvar u)"
    using body [of j u] a by (simp add: slots_def)
qed

section \<open>Full rounds\<close>

text \<open>One element into a \<open>Sigma\<close> or into a layer, from the output of another slot.\<close>

lemma feed_sigma:
  assumes J: "pex_job t np tc npc p x ft ml J" and s: "st J slots F W s"
    and \<kappa>: "\<kappa> = SigF r j \<or> \<kappa> = SigP r" "pex_slot t np \<kappa>" "k s = Inr (int (pex_num t np \<kappa>))" "(\<kappa>, 0) \<notin> F"
    and src: "pex_slot t np \<kappa>'" "index_after cs k' s (pex_num t np \<kappa>')" "\<And>e. points A' J (s\<lparr>expaux := e\<rparr>) \<kappa>' i"
      "i < n_out (pex_shp t \<kappa>')" "\<And>j. j < n_in (pex_shp t \<kappa>') \<Longrightarrow> (\<kappa>', j) \<in> F"
      "pex_fun p \<kappa>' (pex_ins p x \<kappa>') i = pex_ins p x \<kappa> 0"
  shows "runs (sub_input k in1 cs (from_sub k' A') Sigma_1_run) s
    (\<lambda>u. st J slots (insert (\<kappa>, 0) F) W u \<and> lvar u = lvar s)"
proof (rule runs_feed_from [where k = k and A = in1 and k' = k' and A' = A' and i = i, OF s])
  show "\<kappa> \<in> slots" "\<kappa>' \<in> slots" using \<kappa>(2) src(1) by (simp_all add: slots_def)
  show "points in1 J s \<kappa> (in_at (pex_shp t \<kappa>) + 0)" "0 < n_in (pex_shp t \<kappa>)"
    using points_in1_out0(1) [OF s \<kappa>(2)] \<kappa>(1) by auto
  show "computes (circuit (j_init J)) (pex_tmpl t \<kappa>) (pex_shp t \<kappa>) Sigma_1_run (j_fun J \<kappa>)"
    by (rule job_computes [OF J \<kappa>(2)]) (use \<kappa>(1) in auto)
  show "j_fun J \<kappa>' (j_ins J \<kappa>') i = j_ins J \<kappa> 0" using src(6) jobD [OF J] by simp
qed (use \<kappa> src in auto)

lemma feed_layer:
  assumes J: "pex_job t np tc npc p x ft ml J" and s: "st J slots F W s"
    and \<kappa>: "layered \<kappa>" "pex_slot t np \<kappa>" "k s = Inr (int (pex_num t np \<kappa>))" "(\<kappa>, j) \<notin> F" "j < t"
      "points A J s \<kappa> (t + j)"
    and src: "pex_slot t np \<kappa>'" "index_after cs k' s (pex_num t np \<kappa>')" "\<And>e. points A' J (s\<lparr>expaux := e\<rparr>) \<kappa>' i"
      "i < n_out (pex_shp t \<kappa>')" "\<And>j. j < n_in (pex_shp t \<kappa>') \<Longrightarrow> (\<kappa>', j) \<in> F"
      "pex_fun p \<kappa>' (pex_ins p x \<kappa>') i = pex_ins p x \<kappa> j"
  shows "runs (sub_input k A cs (from_sub k' A') (by_table ft)) s
    (\<lambda>u. st J slots (insert (\<kappa>, j) F) W u \<and> lvar u = lvar s)"
proof (rule runs_feed_from [where k = k and A = A and k' = k' and A' = A' and i = i, OF s])
  show "\<kappa> \<in> slots" "\<kappa>' \<in> slots" using \<kappa>(2) src(1) by (simp_all add: slots_def)
  show "points A J s \<kappa> (in_at (pex_shp t \<kappa>) + j)" "j < n_in (pex_shp t \<kappa>)"
    using \<kappa>(5,6) layered_shape [OF \<kappa>(1)] by simp_all
  show "computes (circuit (j_init J)) (pex_tmpl t \<kappa>) (pex_shp t \<kappa>) (by_table ft) (j_fun J \<kappa>)"
    by (rule job_computes [OF J \<kappa>(2)]) (use \<kappa>(1) in \<open>cases \<kappa>; simp\<close>)
  show "j_fun J \<kappa>' (j_ins J \<kappa>') i = j_ins J \<kappa> j" using src(6) jobD [OF J] by simp
qed (use \<kappa> src in auto)

text \<open>The inputs that have arrived when rounds \<open>r0\<close> to \<open>r0 + n - 1\<close> are done.\<close>

definition full_done :: "nat \<Rightarrow> nat \<Rightarrow> (pslot \<times> nat) set" where
  "full_done r0 n = (\<Union>r<n. fed (SigF (r0 + r)) (\<lambda>_. 0) t \<union> fed (\<lambda>_. Ark (Suc (r0 + r))) (\<lambda>j. j) t \<union>
     fed (\<lambda>_. Mix (r0 + r)) (\<lambda>j. j) t)"

lemma full_done_Suc:
  "full_done r0 (Suc r) = full_done r0 r \<union> fed (SigF (r0 + r)) (\<lambda>_. 0) t \<union>
     fed (\<lambda>_. Ark (Suc (r0 + r))) (\<lambda>j. j) t \<union> fed (\<lambda>_. Mix (r0 + r)) (\<lambda>j. j) t"
  by (auto simp: full_done_def lessThan_Suc)

lemma full_done_Ark: "(Ark r, i) \<in> full_done r0 n \<longleftrightarrow> r0 < r \<and> r \<le> r0 + n \<and> i < t"
  by (auto simp: full_done_def Suc_le_eq intro!: bexI [of _ "r - Suc r0"])

lemma full_done_iff:
  "(SigF r j, i) \<in> full_done r0 n \<longleftrightarrow> r0 \<le> r \<and> r < r0 + n \<and> j < t \<and> i = 0"
  "(Mix r, i) \<in> full_done r0 n \<longleftrightarrow> r0 \<le> r \<and> r < r0 + n \<and> i < t"
  "(SigP r, i) \<notin> full_done r0 n" "(MixS r, i) \<notin> full_done r0 n" "(MixLast, i) \<notin> full_done r0 n"
  by (auto simp: full_done_def Suc_le_eq intro!: bexI [of _ "r - r0"])

text \<open>One element of a full round: into its \<open>Sigma\<close>, in the first round of a group and in the
  later ones, then into the \<open>Ark\<close> and into the \<open>Mix\<close>.\<close>

lemma full_sigma_first:
  assumes J: "pex_job t np tc npc p x ft ml J" and s: "st J slots G W s" "counter s (lv_j t np) j" "j < t"
    and slot: "pex_slot t np (SigF r0 j)" "(SigF r0 j, 0) \<notin> G"
    and prev: "pex_slot t np \<kappa>0" "layered \<kappa>0" "\<And>j. j < t \<Longrightarrow> (\<kappa>0, j) \<in> G" "prev = pex_num t np \<kappa>0"
      "pex_fun p \<kappa>0 (pex_ins p x \<kappa>0) j = pex_ins p x (SigF r0 j) 0"
  shows "runs (sub_input (ixs [(1, lv (lv_j t np))] (t * r0 + 8)) in1 []
      (from_sub (ixs [] prev) (field 0 (lv_j t np))) Sigma_1_run) s
    (\<lambda>w. st J slots (insert (SigF r0 j, 0) G) W w \<and> lvar w = lvar s)"
proof (rule feed_sigma [OF J s(1) _ slot(1) _ slot(2) prev(1) _ points_field_e [OF s(1) J prev(1,2) s(2,3)]])
  show "ixs [(1, lv (lv_j t np))] (t * r0 + 8) s = Inr (int (pex_num t np (SigF r0 j)))"
    by (rule ixs_counter1 [OF s(2)]) simp
  show "index_after [] (ixs [] prev) s (pex_num t np \<kappa>0)" by (simp add: ixs_lit prev(4))
  show "(\<kappa>0, i) \<in> G" if "i < n_in (pex_shp t \<kappa>0)" for i using that prev(2,3) by (simp add: layered_shape)
qed (use s prev in \<open>simp_all add: layered_shape\<close>)

lemma full_sigma_next:
  assumes J: "pex_job t np tc npc p x ft ml J" and s: "st J slots G W s" "counter s (lv_r t np) r"
      "counter s (lv_j t np) j" "j < t"
    and r: "r0 = 0 \<or> r0 = 4" "r < 3" "0 < r" and new: "(SigF (r0 + r) j, 0) \<notin> G"
    and prev: "\<And>j. j < t \<Longrightarrow> (Mix (r0 + r - 1), j) \<in> G"
    and cs: "index_after cs (ixs [(1, exp_at 0)] (at_mix t np)) s (at_mix t np + (r0 + r - 1))"
  shows "runs (sub_input (ixs [(t, lv (lv_r t np)), (1, lv (lv_j t np))] (t * r0 + 8)) in1 cs
      (from_sub (ixs [(1, exp_at 0)] (at_mix t np)) (field 0 (lv_j t np))) Sigma_1_run) s
    (\<lambda>w. st J slots (insert (SigF (r0 + r) j, 0) G) W w \<and> lvar w = lvar s)"
proof -
  let ?\<kappa> = "Mix (r0 + r - 1)"
  have slot: "pex_slot t np ?\<kappa>" "layered ?\<kappa>" "pex_slot t np (SigF (r0 + r) j)" using r s(4) by auto
  have "r0 + r - 1 < 3 \<or> 4 \<le> r0 + r - 1 \<and> r0 + r - 1 < 7" "Suc (r0 + r - 1) = r0 + r" using r by arith+
  then have fl: "pex_fun p ?\<kappa> (pex_ins p x ?\<kappa>) j = pex_ins p x (SigF (r0 + r) j) 0"
    using pex_flow(2) [of "r0 + r - 1" p x j 0] by (simp only:)
  show ?thesis
  proof (rule feed_sigma [OF J s(1) _ slot(3) _ new slot(1) _ points_field_e [OF s(1) J slot(1,2) s(3,4)]])
    show "ixs [(t, lv (lv_r t np)), (1, lv (lv_j t np))] (t * r0 + 8) s = Inr (int (pex_num t np (SigF (r0 + r) j)))"
      by (rule ixs_counter2 [OF s(2,3)]) (simp add: distrib_left)
    show "index_after cs (ixs [(1, exp_at 0)] (at_mix t np)) s (pex_num t np ?\<kappa>)"
      using cs by (simp add: at_mix_def)
  qed (use s prev fl in simp_all)
qed

lemma full_ark:
  assumes J: "pex_job t np tc npc p x ft ml J" and s: "st J slots G W s" "counter s (lv_r t np) r"
      "counter s (lv_j t np) j" "j < t"
    and slot: "pex_slot t np (SigF (r0 + r) j)" "pex_slot t np (Ark (Suc (r0 + r)))"
      "(SigF (r0 + r) j, 0) \<in> G" "(Ark (Suc (r0 + r)), j) \<notin> G"
  shows "runs (seqM (full_arks t r0 (lv_r t np) (lv_j t np) ft)) s
    (\<lambda>w. st J slots (insert (Ark (Suc (r0 + r)), j) G) W w \<and> lvar w = lvar s)"
  unfolding full_arks_def runs_seq_Cons runs_seq_Nil
proof (rule feed_layer [OF J s(1) _ slot(2) _ slot(4) s(4) points_field(2) [OF s(1) J slot(2) _ s(3,4)] slot(1) _
      points_out0_e [OF s(1) slot(1)]])
  show "ixs [(1, lv (lv_r t np))] (r0 + 1) s = Inr (int (pex_num t np (Ark (Suc (r0 + r)))))"
    by (rule ixs_counter1 [OF s(2)]) simp
  show "index_after [] (ixs [(t, lv (lv_r t np)), (1, lv (lv_j t np))] (t * r0 + 8)) s (pex_num t np (SigF (r0 + r) j))"
    unfolding index_after_Nil by (rule ixs_counter2 [OF s(2,3)]) (simp add: distrib_left)
qed (use slot in \<open>auto simp: sbox_def\<close>)

lemma full_mix:
  assumes J: "pex_job t np tc npc p x ft ml J" and s: "st J slots G W s" "counter s (lv_r t np) r"
      "counter s (lv_j t np) j" "j < t"
    and slot: "pex_slot t np (Ark (Suc (r0 + r)))" "pex_slot t np (Mix (r0 + r))"
      "\<And>j. j < t \<Longrightarrow> (Ark (Suc (r0 + r)), j) \<in> G" "(Mix (r0 + r), j) \<notin> G"
  shows "runs (seqM (full_mixes t np r0 (lv_r t np) (lv_j t np) ft)) s
    (\<lambda>w. st J slots (insert (Mix (r0 + r), j) G) W w \<and> lvar w = lvar s)"
  unfolding full_mixes_def runs_seq_Cons runs_seq_Nil
proof (rule feed_layer [OF J s(1) _ slot(2) _ slot(4) s(4) points_field(2) [OF s(1) J slot(2) _ s(3,4)] slot(1) _
      points_field_e [OF s(1) J slot(1) _ s(3,4)]])
  show "ixs [(1, lv (lv_r t np))] (at_mix t np + r0) s = Inr (int (pex_num t np (Mix (r0 + r))))"
    by (rule ixs_counter1 [OF s(2)]) (simp add: at_mix_def)
  show "index_after [] (ixs [(1, lv (lv_r t np))] (r0 + 1)) s (pex_num t np (Ark (Suc (r0 + r))))"
    unfolding index_after_Nil by (rule ixs_counter1 [OF s(2)]) simp
qed (use s slot in auto)

lemma full_sigma:
  assumes J: "pex_job t np tc npc p x ft ml J" and r0: "r0 = 0 \<or> r0 = 4" "r < 3"
    and s: "st J slots G W s" "counter s (lv_r t np) r" "counter s (lv_j t np) j" "j < t"
    and new: "(SigF (r0 + r) j, 0) \<notin> G"
    and before: "\<And>j. 0 < r \<Longrightarrow> j < t \<Longrightarrow> (Mix (r0 + r - 1), j) \<in> G"
    and prev: "pex_slot t np \<kappa>0" "layered \<kappa>0" "\<And>j. j < t \<Longrightarrow> (\<kappa>0, j) \<in> G" "prev = pex_num t np \<kappa>0"
      "\<And>j. pex_fun p \<kappa>0 (pex_ins p x \<kappa>0) j = pex_ins p x (SigF r0 j) 0"
    and cs: "\<And>s F W. st J slots F W s \<Longrightarrow> counter s (lv_r t np) r \<Longrightarrow> 0 < r \<Longrightarrow>
      index_after cs (ixs [(1, exp_at 0)] (at_mix t np)) s (at_mix t np + (r0 + r - 1))"
  shows "runs (seqM (full_sigmas t np r0 prev cs (lv_r t np) (lv_j t np))) s
    (\<lambda>w. st J slots (insert (SigF (r0 + r) j, 0) G) W w \<and> lvar w = lvar s)"
  unfolding full_sigmas_def
proof (rule runs_if_zero [OF s(1,2) jobD(1) [OF J]])
  fix w assume w: "st J slots G W w" "lvar w = lvar s"
  have cw: "counter w (lv_r t np) r" "counter w (lv_j t np) j"
    using s w stD(4) [OF w(1)] stD(4) [OF s(1)] by (auto intro: counter_cong)
  show "runs (if r = 0
      then sub_input (ixs [(1, lv (lv_j t np))] (t * r0 + 8)) in1 []
        (from_sub (ixs [] prev) (field 0 (lv_j t np))) Sigma_1_run
      else sub_input (ixs [(t, lv (lv_r t np)), (1, lv (lv_j t np))] (t * r0 + 8)) in1 cs
        (from_sub (ixs [(1, exp_at 0)] (at_mix t np)) (field 0 (lv_j t np))) Sigma_1_run) w
    (\<lambda>w. st J slots (insert (SigF (r0 + r) j, 0) G) W w \<and> lvar w = lvar s)"
  proof (cases "r = 0")
    case True
    have "pex_slot t np (SigF r0 j)" using r0 s(4) by auto
    from full_sigma_first [OF J w(1) cw(2) s(4) this _ prev] True new w(2) show ?thesis by simp
  next
    case False
    from False full_sigma_next [OF J w(1) cw s(4) r0 _ new before cs [OF w(1) cw(1)]] w(2) show ?thesis by simp
  qed
qed (use jobD(7) [OF J] in simp)

lemma full_round_step:
  assumes J: "pex_job t np tc npc p x ft ml J" and Q: "keeps Q" and r0: "r0 = 0 \<or> r0 = 4" "r < 3"
    and s: "st J slots (F \<union> full_done r0 r) W s" "Q (lvar s)" "lvar s (lv_r t np) = Some v" "small v (int r)"
    and F: "\<And>k. (Ark (Suc (r0 + r)), k) \<notin> F" "\<And>k j. (SigF (r0 + r) j, k) \<notin> F" "\<And>k. (Mix (r0 + r), k) \<notin> F"
    and prev: "pex_slot t np \<kappa>0" "layered \<kappa>0" "\<And>j. j < t \<Longrightarrow> (\<kappa>0, j) \<in> F" "prev = pex_num t np \<kappa>0"
      "\<And>j. pex_fun p \<kappa>0 (pex_ins p x \<kappa>0) j = pex_ins p x (SigF r0 j) 0"
    and cs: "\<And>s F W. st J slots F W s \<Longrightarrow> counter s (lv_r t np) r \<Longrightarrow> 0 < r \<Longrightarrow>
      index_after cs (ixs [(1, exp_at 0)] (at_mix t np)) s (at_mix t np + (r0 + r - 1))"
  shows "runs (seqM
     (for_loop (lv_j t np) tc (full_sigmas t np r0 prev cs (lv_r t np) (lv_j t np)) @
      for_loop (lv_j t np) tc (full_arks t r0 (lv_r t np) (lv_j t np) ft) @
      for_loop (lv_j t np) tc (full_mixes t np r0 (lv_r t np) (lv_j t np) ft))) s
    (\<lambda>u. st J slots (F \<union> full_done r0 (Suc r)) W u \<and> Q (lvar u) \<and> lvar u (lv_r t np) = Some v)"
    (is "runs (seqM (?sigmas @ ?arks @ ?mixes)) s _")
proof -
  let ?F1 = "F \<union> full_done r0 r \<union> fed (SigF (r0 + r)) (\<lambda>_. 0) t"
  let ?F2 = "?F1 \<union> fed (\<lambda>_. Ark (Suc (r0 + r))) (\<lambda>j. j) t"
  let ?F3 = "?F2 \<union> fed (\<lambda>_. Mix (r0 + r)) (\<lambda>j. j) t"
  let ?at = "\<lambda>F u. st J slots F W u \<and> Q (lvar u) \<and> lvar u (lv_r t np) = Some v"
  have slot: "pex_slot t np (SigF (r0 + r) j)" "pex_slot t np (Ark (Suc (r0 + r)))" "pex_slot t np (Mix (r0 + r))"
    if "j < t" for j using r0 that by auto
  have sigmas: "runs (seqM ?sigmas) s (?at ?F1)"
    by (rule state_loop [OF J Q s], rule full_sigma [OF J r0 _ _ _ _ _ _ prev(1,2) _ prev(4,5) cs])
      (use F prev(3) in \<open>auto simp: full_done_iff\<close>)
  have arks: "runs (seqM ?arks) u (?at ?F2)" if u: "?at ?F1 u" for u
    by (rule state_loop [OF J Q _ _ _ s(4)], use u in blast, use u in blast, use u in blast, rule full_ark [OF J])
      (use F slot in \<open>auto simp: full_done_Ark\<close>)
  have mixes: "runs (seqM ?mixes) u (?at ?F3)" if u: "?at ?F2 u" for u
    by (rule state_loop [OF J Q _ _ _ s(4)], use u in blast, use u in blast, use u in blast, rule full_mix [OF J])
      (use F slot in \<open>auto simp: full_done_iff\<close>)
  have "?F3 = F \<union> full_done r0 (Suc r)" by (simp add: full_done_Suc Un_assoc)
  then show ?thesis
    unfolding runs_seq_append
    by (intro runs_mono [OF sigmas] runs_mono [OF arks]) (use mixes in auto)
qed

text \<open>A loop on the outer counter, with some condition on the state.\<close>

lemma outer_loop:
  assumes J: "pex_job t np tc npc p x ft ml J" and Q: "keeps Q" and cn: "cval J cn n" "n \<le> 57"
    and s: "st J slots (F 0) W s" "Q (lvar s)"
    and body: "\<And>i s v. i < n \<Longrightarrow> st J slots (F i) W s \<Longrightarrow> counter s (lv_r t np) i \<Longrightarrow> Q (lvar s) \<Longrightarrow>
      lvar s (lv_r t np) = Some v \<Longrightarrow> small v (int i) \<Longrightarrow>
      runs (seqM body) s (\<lambda>u. st J slots (F (Suc i)) W u \<and> Q (lvar u) \<and> lvar u (lv_r t np) = Some v)"
  shows "runs (seqM (for_loop (lv_r t np) cn body)) s (\<lambda>u. st J slots (F n) W u \<and> Q (lvar u))"
  unfolding for_loop_def
proof (rule runs_net_for [where F = F and W = "\<lambda>_. W" and P = "\<lambda>_. Q", OF cn(1) jobD(1,2) [OF J]])
  show "Q (l(lv_r t np := v))" if "Q l" for l v using Q that by (simp add: keeps_def)
  fix i u v
  assume a: "i < n" "st J slots (F i) W u" "Q (lvar u)" "lvar u (lv_r t np) = Some v" "small v (int i)"
  have "counter u (lv_r t np) i"
    using a(4,5) stD(4) [OF a(2)] jobD(8) [OF J] by (simp add: counter_def lv_j_def)
  from body [OF a(1,2) this a(3-5)]
  show "runs (seqM body) u (\<lambda>u. st J slots (F (Suc i)) W u \<and> Q (lvar u) \<and> lvar u (lv_r t np) = Some v)" .
qed (use s jobD(7,8) [OF J] cn lv_neq in simp_all)

lemma feed_then:
  assumes "runs c u (\<lambda>w. st J S (insert (\<kappa> j, jj j) (F \<union> fed \<kappa> jj j)) W w \<and> lvar w = lvar u)"
    "Q (lvar u)" "lvar u k = Some v"
  shows "runs (seqM [c]) u (\<lambda>w. st J S (F \<union> fed \<kappa> jj (Suc j)) W w \<and> Q (lvar w) \<and> lvar w k = Some v)"
  unfolding runs_seq_Cons runs_seq_Nil
  by (rule runs_mono [OF assms(1)]) (use assms(2,3) in \<open>simp only: fed_simps(2)\<close>)

lemma runs_full_rounds:
  assumes J: "pex_job t np tc npc p x ft ml J" and Q: "keeps Q" and r0: "r0 = 0 \<or> r0 = 4"
    and s: "st J slots F W s" "Q (lvar s)"
    and F: "\<And>r k. r < 3 \<Longrightarrow> (Ark (Suc (r0 + r)), k) \<notin> F" "\<And>r k j. r < 3 \<Longrightarrow> (SigF (r0 + r) j, k) \<notin> F"
      "\<And>r k. r < 3 \<Longrightarrow> (Mix (r0 + r), k) \<notin> F"
    and prev: "pex_slot t np \<kappa>0" "layered \<kappa>0" "\<And>j. j < t \<Longrightarrow> (\<kappa>0, j) \<in> F" "prev = pex_num t np \<kappa>0"
      "\<And>j. pex_fun p \<kappa>0 (pex_ins p x \<kappa>0) j = pex_ins p x (SigF r0 j) 0"
    and cs: "\<And>s F W r. st J slots F W s \<Longrightarrow> counter s (lv_r t np) r \<Longrightarrow> 0 < r \<Longrightarrow> r < 3 \<Longrightarrow>
      index_after cs (ixs [(1, exp_at 0)] (at_mix t np)) s (at_mix t np + (r0 + r - 1))"
  shows "runs (seqM (full_rounds t np tc r0 prev cs (lv_r t np) (lv_j t np) ft)) s
    (\<lambda>u. st J slots (F \<union> full_done r0 3) W u \<and> Q (lvar u))"
  unfolding full_rounds_def
proof (rule outer_loop [where F = "\<lambda>r. F \<union> full_done r0 r", OF J Q jobD(3) [OF J]])
  show "st J slots (F \<union> full_done r0 0) W s" using s by (simp add: full_done_def)
  fix r u v
  assume r: "r < 3" and u: "st J slots (F \<union> full_done r0 r) W u" "Q (lvar u)" "lvar u (lv_r t np) = Some v" "small v (int r)"
  show "runs (seqM (for_loop (lv_j t np) tc (full_sigmas t np r0 prev cs (lv_r t np) (lv_j t np)) @
      for_loop (lv_j t np) tc (full_arks t r0 (lv_r t np) (lv_j t np) ft) @
      for_loop (lv_j t np) tc (full_mixes t np r0 (lv_r t np) (lv_j t np) ft))) u
    (\<lambda>u. st J slots (F \<union> full_done r0 (Suc r)) W u \<and> Q (lvar u) \<and> lvar u (lv_r t np) = Some v)"
    by (rule full_round_step [OF J Q r0 r u F(1,2,3) [OF r] prev cs [OF _ _ _ r]])
qed (use s in simp_all)

text \<open>One element of the middle round, whose loops run over the first counter.\<close>

lemma middle_sigma:
  assumes J: "pex_job t np tc npc p x ft ml J" and s: "st J slots G W s" "counter s (lv_r t np) j" "j < t"
    and F: "(SigF 3 j, 0) \<notin> G" "\<And>i. i < t \<Longrightarrow> (Mix 2, i) \<in> G"
  shows "runs (sub_input (ixs [(1, lv (lv_r t np))] (3 * t + 8)) in1 []
      (from_sub (ixs [] (at_mix t np + 2)) (field 0 (lv_r t np))) Sigma_1_run) s
    (\<lambda>w. st J slots (insert (SigF 3 j, 0) G) W w \<and> lvar w = lvar s)"
proof -
  have slot: "pex_slot t np (SigF 3 j)" "pex_slot t np (Mix 2)" using s(3) by auto
  have fl: "pex_fun p (Mix 2) (pex_ins p x (Mix 2)) j = pex_ins p x (SigF 3 j) 0" using pex_flow(2) [of 2 p x j 0] by simp
  show ?thesis
  proof (rule feed_sigma [OF J s(1) _ slot(1) _ F(1) slot(2) _ points_field_e [OF s(1) J slot(2) _ s(2,3)] _ _ fl])
    show "ixs [(1, lv (lv_r t np))] (3 * t + 8) s = Inr (int (pex_num t np (SigF 3 j)))"
      by (rule ixs_counter1 [OF s(2)]) simp
    show "index_after [] (ixs [] (at_mix t np + 2)) s (pex_num t np (Mix 2))" by (simp add: ixs_lit at_mix_def)
  qed (use F s(3) in auto)
qed

lemma middle_ark:
  assumes J: "pex_job t np tc npc p x ft ml J" and s: "st J slots G W s" "counter s (lv_r t np) j" "j < t"
    and F: "(Ark 4, j) \<notin> G" "(SigF 3 j, 0) \<in> G"
  shows "runs (sub_input (ixs [] 4) (field 1 (lv_r t np)) []
      (from_sub (ixs [(1, lv (lv_r t np))] (3 * t + 8)) out0) (by_table ft)) s
    (\<lambda>w. st J slots (insert (Ark 4, j) G) W w \<and> lvar w = lvar s)"
proof -
  have slot: "pex_slot t np (SigF 3 j)" "pex_slot t np (Ark 4)" using s(3) by auto
  show ?thesis
  proof (rule feed_layer [OF J s(1) _ slot(2) _ F(1) s(3) points_field(2) [OF s(1) J slot(2) _ s(2,3)] slot(1) _
        points_out0_e [OF s(1) slot(1)]])
    show "index_after [] (ixs [(1, lv (lv_r t np))] (3 * t + 8)) s (pex_num t np (SigF 3 j))"
      unfolding index_after_Nil by (rule ixs_counter1 [OF s(2)]) simp
  qed (use F in \<open>auto simp: ixs_lit sbox_def\<close>)
qed

lemma middle_mix:
  assumes J: "pex_job t np tc npc p x ft ml J" and s: "st J slots G W s" "counter s (lv_r t np) j" "j < t"
    and F: "(Mix 3, j) \<notin> G" "\<And>i. i < t \<Longrightarrow> (Ark 4, i) \<in> G"
  shows "runs (sub_input (ixs [] (at_mix t np + 3)) (field 1 (lv_r t np)) []
      (from_sub (ixs [] 4) (field 0 (lv_r t np))) (by_table ft)) s
    (\<lambda>w. st J slots (insert (Mix 3, j) G) W w \<and> lvar w = lvar s)"
proof -
  have slot: "pex_slot t np (Ark 4)" "pex_slot t np (Mix 3)" using s(3) by auto
  have fl: "pex_fun p (Ark 4) (pex_ins p x (Ark 4)) j = pex_ins p x (Mix 3) j" using pex_flow(7) [of p 3 x j] by simp
  show ?thesis
    by (rule feed_layer [OF J s(1) _ slot(2) _ F(1) s(3) points_field(2) [OF s(1) J slot(2) _ s(2,3)] slot(1) _
        points_field_e [OF s(1) J slot(1) _ s(2,3)] _ _ fl]) (use F s(3) in \<open>auto simp: ixs_lit at_mix_def\<close>)
qed

text \<open>A loop over the first counter that feeds one input at each step.\<close>

lemma feed_loop:
  assumes J: "pex_job t np tc npc p x ft ml J" and Q: "keeps Q" and s: "st J slots F W s \<and> Q (lvar s)"
    and body: "\<And>j u. j < t \<Longrightarrow> st J slots (F \<union> fed \<kappa> jj j) W u \<Longrightarrow> counter u (lv_r t np) j \<Longrightarrow>
      runs c u (\<lambda>w. st J slots (insert (\<kappa> j, jj j) (F \<union> fed \<kappa> jj j)) W w \<and> lvar w = lvar u)"
  shows "runs (seqM (for_loop (lv_r t np) tc [c])) s (\<lambda>u. st J slots (F \<union> fed \<kappa> jj t) W u \<and> Q (lvar u))"
proof (rule outer_loop [where F = "\<lambda>j. F \<union> fed \<kappa> jj j", OF J Q jobD(5) [OF J]])
  show "runs (seqM [c]) u (\<lambda>w. st J slots (F \<union> fed \<kappa> jj (Suc j)) W w \<and> Q (lvar w) \<and> lvar w (lv_r t np) = Some v)"
    if "j < t" "st J slots (F \<union> fed \<kappa> jj j) W u" "counter u (lv_r t np) j" "Q (lvar u)" "lvar u (lv_r t np) = Some v" for j u v
    by (rule feed_then [where jj = jj and \<kappa> = \<kappa> and j = j, OF body [OF that(1-3)]]) (use that in simp_all)
qed (use s t_pos(3) in simp_all)

lemma runs_middle_round:
  assumes J: "pex_job t np tc npc p x ft ml J" and Q: "keeps Q"
    and s: "st J slots (F \<union> full_done 0 3) W s" "Q (lvar s)"
    and F: "\<And>k. (Ark 4, k) \<notin> F" "\<And>k j. (SigF 3 j, k) \<notin> F" "\<And>k. (Mix 3, k) \<notin> F"
  shows "runs (seqM (middle_round t np tc (lv_r t np) ft)) s
    (\<lambda>u. st J slots (F \<union> full_done 0 4) W u \<and> Q (lvar u))"
proof -
  let ?F1 = "F \<union> full_done 0 3 \<union> fed (SigF 3) (\<lambda>_. 0) t"
  let ?F2 = "?F1 \<union> fed (\<lambda>_. Ark 4) (\<lambda>j. j) t"
  let ?F3 = "?F2 \<union> fed (\<lambda>_. Mix 3) (\<lambda>j. j) t"
  have fin: "F \<union> full_done 0 4 = ?F3"
    using full_done_Suc [of 0 3] by (simp add: Un_assoc)
  show ?thesis
    unfolding middle_round_def runs_seq_append fin
  proof (rule runs_mono [OF feed_loop [where jj = "\<lambda>_. 0", OF J Q conjI [OF s] middle_sigma [OF J]]])
    fix u assume u: "st J slots ?F1 W u \<and> Q (lvar u)"
    show "runs (seqM (for_loop (lv_r t np) tc [sub_input (ixs [] 4) (field 1 (lv_r t np)) []
          (from_sub (ixs [(1, lv (lv_r t np))] (3 * t + 8)) out0) (by_table ft)])) u
      (\<lambda>u. runs (seqM (for_loop (lv_r t np) tc [sub_input (ixs [] (at_mix t np + 3)) (field 1 (lv_r t np)) []
          (from_sub (ixs [] 4) (field 0 (lv_r t np))) (by_table ft)])) u (\<lambda>u. st J slots ?F3 W u \<and> Q (lvar u)))"
    proof (rule runs_mono [OF feed_loop [where jj = "\<lambda>j. j", OF J Q u middle_ark [OF J]]])
      show "runs (seqM (for_loop (lv_r t np) tc [sub_input (ixs [] (at_mix t np + 3)) (field 1 (lv_r t np)) []
          (from_sub (ixs [] 4) (field 0 (lv_r t np))) (by_table ft)])) w (\<lambda>u. st J slots ?F3 W u \<and> Q (lvar u))"
        if w: "st J slots ?F2 W w \<and> Q (lvar w)" for w
        by (rule feed_loop [where jj = "\<lambda>j. j", OF J Q w middle_mix [OF J]]) (use F in \<open>auto simp: full_done_iff\<close>)
    qed (use F in \<open>auto simp: full_done_Ark\<close>)
  qed (use F in \<open>auto simp: full_done_iff\<close>)
qed

section \<open>Partial rounds\<close>

definition part_done :: "nat \<Rightarrow> (pslot \<times> nat) set" where
  "part_done n = (\<Union>r<n. insert (SigP r, 0) (fed (\<lambda>_. MixS r) (\<lambda>j. j) t))"

lemma part_done_Suc: "part_done (Suc r) = insert (SigP r, 0) (part_done r) \<union> fed (\<lambda>_. MixS r) (\<lambda>j. j) t"
  by (auto simp: part_done_def lessThan_Suc)

lemma part_done_iff:
  "(SigP r, i) \<in> part_done n \<longleftrightarrow> r < n \<and> i = 0" "(MixS r, i) \<in> part_done n \<longleftrightarrow> r < n \<and> i < t"
  "(SigF r j, i) \<notin> part_done n" "(Ark r, i) \<notin> part_done n" "(Mix r, i) \<notin> part_done n" "(MixLast, i) \<notin> part_done n"
  by (auto simp: part_done_def)

text \<open>The round constants of the partial rounds, in the local array.\<close>

definition partial_consts :: "params \<Rightarrow> (nat \<rightharpoonup> FrElement) \<Rightarrow> bool" where
  "partial_consts p l \<longleftrightarrow> (\<forall>r < np. \<exists>c. l (5 * t + 21 + r) = Some c \<and> fok c \<and> fval c = p_C p (5 * t + r))"

lemma positions: "5 * t + 21 + np < lv_r t np" "lv_r t np < lv_j t np"
  using t_pos by (simp_all add: lv_r_def lv_j_def at_P_def at_M_def at_S_def)

lemma keeps_partial_consts: "keeps (partial_consts p)"
  using positions by (auto simp: keeps_def partial_consts_def)

lemma partial_const_source:
  assumes J: "pex_job t np tc npc p x ft ml J" and s: "st J slots F W s" "counter s (lv_r t np) r" "r < np"
      "partial_consts p (lvar s)"
    and sp: "(SigP r, 0) \<in> F"
  shows "source [op2 Fr_add 0 (from_sub (ixs [(1, lv (lv_r t np))] (at_sigmaP t)) out0)
      (lv_ix (ixs [(1, lv (lv_r t np))] (5 * t + 21)))] (exp_at 0) s (pex_ins p x (MixS r) 0)"
proof -
  have slot: "pex_slot t np (SigP r)" "SigP r \<in> slots" using s(3) by (simp_all add: slots_def)
  have "ixs [(1, lv (lv_r t np))] (at_sigmaP t) s = Inr (int (pex_num t np (SigP r)))"
    by (rule ixs_counter1 [OF s(2)]) (simp add: at_sigmaP_def)
  then have "gives (from_sub (ixs [(1, lv (lv_r t np))] (at_sigmaP t)) out0) s (j_fun J (SigP r) (j_ins J (SigP r)) 0)"
    by (rule gives_from_sub [OF s(1) slot(2) _ points_in1_out0(2) [OF s(1) slot(1)]]) (use sp in simp_all)
  then obtain v where v: "from_sub (ixs [(1, lv (lv_r t np))] (at_sigmaP t)) out0 s = Inr v" "fok v"
      "fval v = pex_fun p (SigP r) (pex_ins p x (SigP r)) 0"
    using jobD(9,10) [OF J] by (auto elim: givesE)
  obtain c where c: "lvar s (5 * t + 21 + r) = Some c" "fok c" "fval c = p_C p (5 * t + r)"
    using s(3,4) by (auto simp: partial_consts_def)
  have ix: "ixs [(1, lv (lv_r t np))] (5 * t + 21) s = Inr (int (5 * t + 21 + r))"
    by (rule ixs_counter1 [OF s(2)]) simp
  have "5 * t + 21 + r < lvar_size s"
    using positions s(3) stD(4) [OF s(1)] jobD(8) [OF J] by simp
  then have l: "lv_ix (ixs [(1, lv (lv_r t np))] (5 * t + 21)) s = Inr c"
    using c(1) by (simp only: lv_ix_def ix bindR_simps arr_read_int if_True option.case)
  have "fval (Fr_add v c) = pex_ins p x (MixS r) 0"
    using fr.add_val [OF v(2) c(2)] v(3) c(3) pex_flow(11) [of p r x 0] jobD(11) [OF J] by simp
  then show ?thesis
    using stD(3) [OF s(1)] jobD(7) [OF J] fr.add_ok [OF v(2) c(2)]
    by - (rule source_op2, rule v(1), rule l, simp_all add: gives_def exp_at_eq)
qed

lemma partial_sigma:
  assumes J: "pex_job t np tc npc p x ft ml J" and s: "st J slots (F \<union> part_done r) W s"
      "counter s (lv_r t np) r" "r < np"
    and F: "(SigP r, 0) \<notin> F" "\<And>j. j < t \<Longrightarrow> (Mix 3, j) \<in> F"
  shows "runs (seqM (partial_sigmas t np (lv_r t np))) s
    (\<lambda>u. st J slots (insert (SigP r, 0) (F \<union> part_done r)) W u \<and> lvar u = lvar s)"
  unfolding partial_sigmas_def
proof (rule runs_if_zero [OF s(1,2) jobD(1) [OF J]])
  let ?r = "lv_r t np" and ?G = "F \<union> part_done r"
  fix w assume w: "st J slots ?G W w" "lvar w = lvar s"
  have cw: "counter w ?r r" using s(2) w stD(4) [OF w(1)] stD(4) [OF s(1)] by (auto intro: counter_cong)
  have slot: "pex_slot t np (SigP r)" "(SigP r, 0) \<notin> ?G" using s(3) F by (simp_all add: part_done_iff)
  show "runs (if r = 0
      then sub_input (ixs [] (at_sigmaP t)) in1 [] (from_sub (ixs [] (at_mix t np + 3)) (field0 0)) Sigma_1_run
      else sub_input (ixs [(1, lv ?r)] (at_sigmaP t)) in1 [op2 Fr_sub 0 (lv ?r) (con 90)]
            (from_sub (ixs [(1, exp_at 0)] (at_mixS t np)) (field0 0)) Sigma_1_run) w
    (\<lambda>u. st J slots (insert (SigP r, 0) ?G) W u \<and> lvar u = lvar s)"
  proof (cases r)
    case 0
    have m: "pex_slot t np (Mix 3)" "layered (Mix 3)" by simp_all
    have "runs (sub_input (ixs [] (at_sigmaP t)) in1 [] (from_sub (ixs [] (at_mix t np + 3)) (field0 0)) Sigma_1_run) w
      (\<lambda>u. st J slots (insert (SigP r, 0) ?G) W u \<and> lvar u = lvar w)"
    proof (rule feed_sigma [OF J w(1) _ slot(1) _ slot(2) m(1) _ points_field0_e [OF w(1) J m]])
      show "pex_fun p (Mix 3) (pex_ins p x (Mix 3)) 0 = pex_ins p x (SigP r) 0" using pex_flow(8) [of p x 0] 0 by simp
    qed (use F t_pos 0 in \<open>simp_all add: ixs_lit at_sigmaP_def at_mix_def\<close>)
    then show ?thesis using 0 w(2) by simp
  next
    case (Suc i)
    have m: "pex_slot t np (MixS i)" "layered (MixS i)" using s(3) Suc by simp_all
    have i: "int i < 2 ^ 30" using s(3) Suc t_pos by simp
    have "runs (sub_input (ixs [(1, lv ?r)] (at_sigmaP t)) in1 [op2 Fr_sub 0 (lv ?r) (con 90)]
            (from_sub (ixs [(1, exp_at 0)] (at_mixS t np)) (field0 0)) Sigma_1_run) w
      (\<lambda>u. st J slots (insert (SigP r, 0) ?G) W u \<and> lvar u = lvar w)"
    proof (rule feed_sigma [OF J w(1) _ slot(1) _ slot(2) m(1) _ points_field0_e [OF w(1) J m]])
      show "ixs [(1, lv ?r)] (at_sigmaP t) w = Inr (int (pex_num t np (SigP r)))"
        by (rule ixs_counter1 [OF cw]) (simp add: at_sigmaP_def)
      show "index_after [op2 Fr_sub 0 (lv ?r) (con 90)] (ixs [(1, exp_at 0)] (at_mixS t np)) w (pex_num t np (MixS i))"
        using index_pred [OF w(1) cw [unfolded Suc] jobD(2) [OF J] _ i, of "at_mixS t np"] jobD(7) [OF J]
        by (simp add: at_mixS_def)
      show "pex_fun p (MixS i) (pex_ins p x (MixS i)) 0 = pex_ins p x (SigP r) 0" using pex_flow(9) [of p i x 0] Suc by simp
    qed (use t_pos Suc in \<open>simp_all add: part_done_iff\<close>)
    then show ?thesis using Suc w(2) by simp
  qed
qed (use jobD(7) [OF J] in simp)

text \<open>One element into the layer of a partial round: the first from the \<open>Sigma\<close> and a constant, the
  others from the last full round or from the layer before.\<close>

lemma mixs_from_sigma:
  assumes J: "pex_job t np tc npc p x ft ml J" and s: "st J slots G W s" "counter s (lv_r t np) r" "r < np"
      "partial_consts p (lvar s)"
    and G: "(SigP r, 0) \<in> G" "(MixS r, 0) \<notin> G"
  shows "runs (sub_input (ixs [(1, lv (lv_r t np))] (at_mixS t np)) (field0 1)
      [op2 Fr_add 0 (from_sub (ixs [(1, lv (lv_r t np))] (at_sigmaP t)) out0)
        (lv_ix (ixs [(1, lv (lv_r t np))] (5 * t + 21)))] (exp_at 0) (by_table ft)) s
    (\<lambda>u. st J slots (insert (MixS r, 0) G) W u \<and> lvar u = lvar s)"
proof -
  have slot: "pex_slot t np (MixS r)" "layered (MixS r)" using s(3) by simp_all
  show ?thesis
  proof (rule runs_feed [where k = "ixs [(1, lv (lv_r t np))] (at_mixS t np)", OF s(1)])
    show "MixS r \<in> slots" using slot by (simp add: slots_def)
    show "ixs [(1, lv (lv_r t np))] (at_mixS t np) s = Inr (int (pex_num t np (MixS r)))"
      by (rule ixs_counter1 [OF s(2)]) (simp add: at_mixS_def)
    show "points (field0 1) J s (MixS r) (in_at (pex_shp t (MixS r)) + 0)"
      using points_field0(2) [OF s(1) J slot] by simp
    show "source [op2 Fr_add 0 (from_sub (ixs [(1, lv (lv_r t np))] (at_sigmaP t)) out0)
        (lv_ix (ixs [(1, lv (lv_r t np))] (5 * t + 21)))] (exp_at 0) s (j_ins J (MixS r) 0)"
      using partial_const_source [OF J s G(1)] jobD(9) [OF J] by simp
    show "computes (circuit (j_init J)) (pex_tmpl t (MixS r)) (pex_shp t (MixS r)) (by_table ft) (j_fun J (MixS r))"
      by (rule job_computes [OF J slot(1)]) simp
  qed (use slot G t_pos in simp_all)
qed

lemma mixs_from_mix:
  assumes J: "pex_job t np tc npc p x ft ml J" and s: "st J slots G W s" "counter s (lv_j t np) j" "j < t" "j \<noteq> 0"
    and G: "(MixS 0, j) \<notin> G" "\<And>j. j < t \<Longrightarrow> (Mix 3, j) \<in> G"
  shows "runs (sub_input (ixs [] (at_mixS t np)) (field 1 (lv_j t np)) []
      (from_sub (ixs [] (at_mix t np + 3)) (field 0 (lv_j t np))) (by_table ft)) s
    (\<lambda>u. st J slots (insert (MixS 0, j) G) W u \<and> lvar u = lvar s)"
proof -
  have slot: "pex_slot t np (MixS 0)" "layered (MixS 0)" "pex_slot t np (Mix 3)" "layered (Mix 3)"
    using t_pos by simp_all
  show ?thesis
  proof (rule feed_layer [OF J s(1) slot(2,1) _ G(1) s(3) points_field(2) [OF s(1) J slot(1,2) s(2,3)] slot(3) _
        points_field_e [OF s(1) J slot(3,4) s(2,3)]])
    show "pex_fun p (Mix 3) (pex_ins p x (Mix 3)) j = pex_ins p x (MixS 0) j"
      using pex_flow(10) [of p x j] s(4) by simp
  qed (use s G in \<open>simp_all add: ixs_lit at_mixS_def at_mix_def\<close>)
qed

lemma mixs_from_mixs:
  assumes J: "pex_job t np tc npc p x ft ml J" and s: "st J slots G W s" "counter s (lv_r t np) (Suc i)" "Suc i < np"
      "counter s (lv_j t np) j" "j < t" "j \<noteq> 0"
    and G: "(MixS (Suc i), j) \<notin> G" "\<And>j. j < t \<Longrightarrow> (MixS i, j) \<in> G"
  shows "runs (sub_input (ixs [(1, lv (lv_r t np))] (at_mixS t np)) (field 1 (lv_j t np))
      [op2 Fr_sub 0 (lv (lv_r t np)) (con 90)]
      (from_sub (ixs [(1, exp_at 0)] (at_mixS t np)) (field 0 (lv_j t np))) (by_table ft)) s
    (\<lambda>u. st J slots (insert (MixS (Suc i), j) G) W u \<and> lvar u = lvar s)"
proof -
  have slot: "pex_slot t np (MixS (Suc i))" "layered (MixS (Suc i))" "pex_slot t np (MixS i)" "layered (MixS i)"
    using s(3) by simp_all
  have i: "int i < 2 ^ 30" using s(3) t_pos by simp
  show ?thesis
  proof (rule feed_layer [OF J s(1) slot(2,1) _ G(1) s(5) points_field(2) [OF s(1) J slot(1,2) s(4,5)] slot(3) _
        points_field_e [OF s(1) J slot(3,4) s(4,5)]])
    show "ixs [(1, lv (lv_r t np))] (at_mixS t np) s = Inr (int (pex_num t np (MixS (Suc i))))"
      by (rule ixs_counter1 [OF s(2)]) (simp add: at_mixS_def)
    show "index_after [op2 Fr_sub 0 (lv (lv_r t np)) (con 90)] (ixs [(1, exp_at 0)] (at_mixS t np)) s
        (pex_num t np (MixS i))"
      using index_pred [OF s(1,2) jobD(2) [OF J] _ i, of "at_mixS t np"] jobD(7) [OF J] by (simp add: at_mixS_def)
    show "pex_fun p (MixS i) (pex_ins p x (MixS i)) j = pex_ins p x (MixS (Suc i)) j"
      using pex_flow(3) [of p i x j] s(6) by simp
  qed (use s G in auto)
qed

lemma partial_mix:
  assumes J: "pex_job t np tc npc p x ft ml J" and r: "r < np" "j < t"
    and s: "st J slots (insert (SigP r, 0) (F \<union> part_done r) \<union> fed (\<lambda>_. MixS r) (\<lambda>j. j) j) W s" (is "st J slots ?G W s")
      "counter s (lv_r t np) r" "counter s (lv_j t np) j" "partial_consts p (lvar s)"
    and F: "\<And>k. (MixS r, k) \<notin> F" "\<And>j. j < t \<Longrightarrow> (Mix 3, j) \<in> F"
  shows "runs (seqM (partial_mixes t np (lv_r t np) (lv_j t np) ft)) s
    (\<lambda>u. st J slots (insert (MixS r, j) ?G) W u \<and> lvar u = lvar s)"
proof -
  define G where "G = ?G"
  let ?r = "lv_r t np" and ?j = "lv_j t np"
  let ?B0 = "sub_input (ixs [] (at_mixS t np)) (field 1 ?j) []
                 (from_sub (ixs [] (at_mix t np + 3)) (field 0 ?j)) (by_table ft)"
  let ?B1 = "sub_input (ixs [(1, lv ?r)] (at_mixS t np)) (field 1 ?j) [op2 Fr_sub 0 (lv ?r) (con 90)]
                 (from_sub (ixs [(1, exp_at 0)] (at_mixS t np)) (field 0 ?j)) (by_table ft)"
  have new: "(MixS r, j) \<notin> G" and sigma: "(SigP r, 0) \<in> G" and last: "\<And>j. j < t \<Longrightarrow> (Mix 3, j) \<in> G"
    and before: "\<And>i j. r = Suc i \<Longrightarrow> j < t \<Longrightarrow> (MixS i, j) \<in> G"
    using r F by (auto simp: G_def part_done_iff)
  have counters: "counter y ?r r" "counter y ?j j" if "st J slots G W y" "lvar y = lvar s" for y
    using s(2,3) that stD(4) [OF that(1)] stD(4) [OF s(1)] by (auto intro: counter_cong)
  have later: "runs (if r = 0 then ?B0 else ?B1) y (\<lambda>u. st J slots (insert (MixS r, j) G) W u \<and> lvar u = lvar s)"
    if y: "st J slots G W y" "lvar y = lvar s" and "j \<noteq> 0" for y
  proof (cases r)
    case 0
    from mixs_from_mix [OF J y(1) counters(2) [OF y] r(2) \<open>j \<noteq> 0\<close> new [unfolded 0]] last show ?thesis using 0 y(2) by simp
  next
    case (Suc i)
    from mixs_from_mixs [OF J y(1) counters(1) [OF y, unfolded Suc] r(1) [unfolded Suc] counters(2) [OF y] r(2)
        \<open>j \<noteq> 0\<close> new [unfolded Suc] before [OF Suc]]
    show ?thesis using Suc y(2) by simp
  qed
  have all: "runs (if j = 0
      then sub_input (ixs [(1, lv ?r)] (at_mixS t np)) (field0 1)
             [op2 Fr_add 0 (from_sub (ixs [(1, lv ?r)] (at_sigmaP t)) out0) (lv_ix (ixs [(1, lv ?r)] (5 * t + 21)))]
             (exp_at 0) (by_table ft)
      else seqM [op2 Fr_eq 0 (lv ?r) (con 88), ifM (isTrueE 0) ?B0 ?B1]) w
    (\<lambda>u. st J slots (insert (MixS r, j) G) W u \<and> lvar u = lvar s)"
    if w: "st J slots G W w" "lvar w = lvar s" for w
  proof (cases "j = 0")
    case True
    from mixs_from_sigma [OF J w(1) counters(1) [OF w] r(1) _ sigma new [unfolded True]] s(4) w(2) True show ?thesis by simp
  next
    case False
    have "runs (seqM [op2 Fr_eq 0 (lv ?r) (con 88), ifM (isTrueE 0) ?B0 ?B1]) w
      (\<lambda>u. st J slots (insert (MixS r, j) G) W u \<and> lvar u = lvar s)"
      by (rule runs_if_zero [OF w(1) counters(1) [OF w] jobD(1) [OF J]])
        (use later False w(2) jobD(7) [OF J] in simp_all)
    then show ?thesis using False by simp
  qed
  show ?thesis
    unfolding partial_mixes_def G_def [symmetric]
    by (rule runs_if_zero [OF s(1) [folded G_def] s(3) jobD(1) [OF J]]) (use all jobD(7) [OF J] in simp_all)
qed

lemma runs_partial_rounds:
  assumes J: "pex_job t np tc npc p x ft ml J" and s: "st J slots F W s" "partial_consts p (lvar s)"
    and F: "\<And>r k. (SigP r, k) \<notin> F" "\<And>r k. (MixS r, k) \<notin> F" "\<And>j. j < t \<Longrightarrow> (Mix 3, j) \<in> F"
  shows "runs (seqM (partial_rounds t np tc npc (lv_r t np) (lv_j t np) ft)) s
    (\<lambda>u. st J slots (F \<union> part_done np) W u \<and> partial_consts p (lvar u))"
  unfolding partial_rounds_def
proof (rule outer_loop [where F = "\<lambda>r. F \<union> part_done r", OF J keeps_partial_consts jobD(6) [OF J] t_pos(4)])
  show "st J slots (F \<union> part_done 0) W s" using s by (simp add: part_done_def)
next
  fix r u v
  assume r: "r < np" and u: "st J slots (F \<union> part_done r) W u" and c: "counter u (lv_r t np) r"
    and v: "partial_consts p (lvar u)" "lvar u (lv_r t np) = Some v" "small v (int r)"
  have fin: "insert (SigP r, 0) (F \<union> part_done r) \<union> fed (\<lambda>_. MixS r) (\<lambda>j. j) t = F \<union> part_done (Suc r)"
    by (simp add: part_done_Suc Un_assoc Un_left_commute)
  show "runs (seqM (partial_sigmas t np (lv_r t np) @
      for_loop (lv_j t np) tc (partial_mixes t np (lv_r t np) (lv_j t np) ft))) u
    (\<lambda>u. st J slots (F \<union> part_done (Suc r)) W u \<and> partial_consts p (lvar u) \<and> lvar u (lv_r t np) = Some v)"
    unfolding runs_seq_append fin [symmetric]
  proof (rule runs_mono [OF partial_sigma [OF J u c r F(1,3)]])
    fix w assume w: "st J slots (insert (SigP r, 0) (F \<union> part_done r)) W w \<and> lvar w = lvar u"
    show "runs (seqM (for_loop (lv_j t np) tc (partial_mixes t np (lv_r t np) (lv_j t np) ft))) w
      (\<lambda>u. st J slots (insert (SigP r, 0) (F \<union> part_done r) \<union> fed (\<lambda>_. MixS r) (\<lambda>j. j) t) W u \<and>
        partial_consts p (lvar u) \<and> lvar u (lv_r t np) = Some v)"
      by (rule state_loop [OF J keeps_partial_consts _ _ _ v(3)])
        (use w v partial_mix [OF J r _ _ _ _ _ F(2,3)] in auto)
  qed
qed (use s in auto)

end

end
