(* ===== verification/Poseidon_Ends.thy ===== *)
theory Poseidon_Ends
  imports Poseidon_Correct
begin

text \<open>
  The rest of the body of \<open>PoseidonEx\<close>: the inputs into the first \<open>Ark\<close>, the last round, the creation
  of the subcomponents and the local arrays. Together with the rounds they give the contract of the
  template, and from it that of \<open>Poseidon\<close>.
\<close>

section \<open>The inputs and the last round\<close>

context pex
begin

lemma source_own:
  assumes s: "st J slots F W s" and ix: "index_after cs ix s i" "i < pex_own t" "W i = Some y"
  shows "source cs (sig_ix ix) s y"
proof -
  have "i < pex_nsig t np" using ix(2) own by simp
  then have "gives (sig_ix ix) (s\<lparr>expaux := e\<rparr>) y" if "ix (s\<lparr>expaux := e\<rparr>) = Inr (int i)" for e
    using gives_own [where ix = ix, of J slots F W "s\<lparr>expaux := e\<rparr>" i] s that ix by simp
  then show ?thesis
    using ix(1) unfolding source_def index_after_def by (auto elim!: runs_mono)
qed

lemma runs_pex_inputs:
  assumes J: "pex_job t np tc npc p (hash_in (x (t - 1)) x) ft ml J" and Q: "keeps Q"
    and s: "st J slots F W s" "Q (lvar s)"
    and W: "\<And>i. i < t \<Longrightarrow> W (Suc i) = Some (x i)" and F: "\<And>k. (Ark 0, k) \<notin> F"
  shows "runs (seqM (pex_inputs t tc (lv_r t np) ft)) s
    (\<lambda>u. st J slots (F \<union> fed (\<lambda>_. Ark 0) (\<lambda>j. j) t) W u \<and> Q (lvar u))"
  unfolding pex_inputs_def
proof (rule outer_loop [where F = "\<lambda>j. F \<union> fed (\<lambda>_. Ark 0) (\<lambda>j. j) j", OF J Q jobD(5) [OF J]])
  let ?r = "lv_r t np"
  fix j u v assume j: "j < t" and u: "st J slots (F \<union> fed (\<lambda>_. Ark 0) (\<lambda>j. j) j) W u" and c: "counter u ?r j"
    and v: "Q (lvar u)" "lvar u ?r = Some v"
  let ?G = "F \<union> fed (\<lambda>_. Ark 0) (\<lambda>j. j) j"
  let ?A = "sub_input (ixs [] 0) (field 1 ?r) [op2 Fr_sub 0 (lv ?r) (con 90)] (sig_ix (ixs [(1, exp_at 0)] 1)) (by_table ft)"
  let ?B = "sub_input (ixs [] 0) (field0 1) [] (sig_ix (ixs [] t)) (by_table ft)"
  have slot: "pex_slot t np (Ark 0)" "layered (Ark 0)" "Ark 0 \<in> slots" by (simp_all add: slots_def)
  have new: "(Ark 0, j) \<notin> ?G" using F by simp
  have run: "computes (circuit (j_init J)) (pex_tmpl t (Ark 0)) (pex_shp t (Ark 0)) (by_table ft) (j_fun J (Ark 0))"
    by (rule job_computes [OF J slot(1)]) simp
  have ins: "j_ins J (Ark 0) j = hash_in (x (t - 1)) x j" using jobD(9) [OF J] by simp
  have "runs (seqM [op2 Fr_gt 0 (lv ?r) (con 88), ifM (isTrueE 0) ?A ?B]) u
    (\<lambda>w. st J slots (insert (Ark 0, j) ?G) W w \<and> lvar w = lvar u)"
  proof (rule runs_if_pos [OF u c jobD(1) [OF J]])
    fix w assume w: "st J slots ?G W w" "lvar w = lvar u"
    have cw: "counter w ?r j" using c w stD(4) [OF w(1)] stD(4) [OF u] by (auto intro: counter_cong)
    note feed = runs_feed [OF w(1) slot(3) _ _ _ new _ run]
    show "runs (if 0 < j then ?A else ?B) w (\<lambda>w. st J slots (insert (Ark 0, j) ?G) W w \<and> lvar w = lvar u)"
    proof (cases j)
      case 0
      have "source [] (sig_ix (ixs [] t)) w (j_ins J (Ark 0) j)"
        by (rule source_own [OF w(1)]) (use ins 0 W [of "t - 1"] t_pos in \<open>simp_all add: ixs_lit pex_own_def hash_in_def\<close>)
      then have "runs ?B w (\<lambda>y. st J slots (insert (Ark 0, j) ?G) W y \<and> lvar y = lvar w)"
        using points_field0(2) [OF w(1) J slot(1,2)] j 0 by (intro feed) (simp_all add: ixs_lit)
      then show ?thesis using 0 w(2) by simp
    next
      case (Suc i)
      have "source [op2 Fr_sub 0 (lv ?r) (con 90)] (sig_ix (ixs [(1, exp_at 0)] 1)) w (j_ins J (Ark 0) j)"
      proof (rule source_own [OF w(1) index_pred [OF w(1) cw [unfolded Suc] jobD(2) [OF J]]])
        show "W (1 + i) = Some (j_ins J (Ark 0) j)" using ins Suc W [of i] j by (simp add: hash_in_def)
      qed (use Suc j jobD(7) [OF J] t_pos in \<open>simp_all add: pex_own_def\<close>)
      then have "runs ?A w (\<lambda>y. st J slots (insert (Ark 0, j) ?G) W y \<and> lvar y = lvar w)"
        using points_field(2) [OF w(1) J slot(1,2) cw j] j by (intro feed) (simp_all add: ixs_lit)
      then show ?thesis using Suc w(2) by simp
    qed
  qed (use jobD(7) [OF J] in simp)
  then show "runs (seqM [op2 Fr_gt 0 (lv ?r) (con 88), ifM (isTrueE 0) ?A ?B]) u
    (\<lambda>w. st J slots (F \<union> fed (\<lambda>_. Ark 0) (\<lambda>j. j) (Suc j)) W w \<and> Q (lvar w) \<and> lvar w ?r = Some v)"
    by (rule runs_mono) (use v fed_simps(2) [where \<kappa> = "\<lambda>_. Ark 0" and jj = "\<lambda>j. j"] in simp)
qed (use s t_pos in simp_all)

text \<open>The loop with one round.\<close>

lemma runs_once:
  assumes s: "st J slots F W s" and c: "cval J 88 0" "cval J 90 1" "0 < j_exp J" "k < j_lv J"
    and body: "\<And>u v. st J slots F W u \<Longrightarrow> lvar u k = Some v \<Longrightarrow> small v 0 \<Longrightarrow> runs (seqM body) u (st J slots F' W')"
  shows "runs (seqM [load_consts [(k, 88)], op2 Fr_lt 0 (lv k) (con 90),
      whileM (isTrueE 0) (seqM (body @ [load_consts [(k, 90)], op2 Fr_lt 0 (lv k) (con 90)]))]) s (st J slots F' W')"
proof -
  let ?cs = "circuitConstants (circuit (j_init J))"
  have z: "88 < length ?cs" "small (?cs ! 88) 0" "90 < length ?cs" "small (?cs ! 90) 1"
    using c(1,2) by (simp_all add: cval_def)
  have lt: "Fr_lt (?cs ! 88) (?cs ! 90) = bool_elem True" "Fr_lt (?cs ! 90) (?cs ! 90) = bool_elem False"
    using small_lt [OF z(2,4)] small_lt [OF z(4,4)] by simp_all
  have exit: "runs (seqM [load_consts [(k, 90)], op2 Fr_lt 0 (lv k) (con 90)]) u
      (\<lambda>w. runs (whileM (isTrueE 0) c) w (st J slots F' W'))" if u: "st J slots F' W' u" for u c
  proof -
    have "con 90 (u\<lparr>lvar := l\<rparr>) = Inr (?cs ! 90)" for l
      using con_eq [of 90 u] z(3) stD(6) [OF u] by (simp add: con_def consts_of_def)
    then show ?thesis
      using u z(3) c(3,4) stD [OF u] lt(2)
      by (subst runs_whileM_unfold) (simp add: wp lv_eq isTrueE_def exp_at_eq)
  qed
  have once: "runs (whileM (isTrueE 0) (seqM (body @ [load_consts [(k, 90)], op2 Fr_lt 0 (lv k) (con 90)]))) u
      (st J slots F' W')"
    if u: "st J slots F W u" "lvar u k = Some (?cs ! 88)" "expaux u 0 = Some (bool_elem True)" for u
  proof -
    have "runs (seqM (body @ [load_consts [(k, 90)], op2 Fr_lt 0 (lv k) (con 90)])) u
      (\<lambda>w. runs (whileM (isTrueE 0) (seqM (body @ [load_consts [(k, 90)], op2 Fr_lt 0 (lv k) (con 90)]))) w (st J slots F' W'))"
      unfolding runs_seq_append by (rule runs_mono [OF body [OF u(1,2) z(2)]]) (rule exit)
    moreover have "isTrueE 0 u = Inr True" using u(3) c(3) stD(3) [OF u(1)] by (simp add: isTrueE_def exp_at_eq)
    ultimately show ?thesis by (subst runs_whileM_unfold) simp
  qed
  have "con 90 (s\<lparr>lvar := l\<rparr>) = Inr (?cs ! 90)" for l
    using con_eq [of 90 s] z(3) stD(6) [OF s] by (simp add: con_def consts_of_def)
  then show ?thesis
    using s z c(3,4) stD [OF s] lt(1) by (simp add: wp lv_eq once)
qed

text \<open>The last \<open>Sigma\<close>s, the inputs of \<open>mixLast\<close>, and the output signal.\<close>

lemma last_sigma:
  assumes J: "pex_job t np tc npc p x ft ml J" and s: "st J slots G W s" "counter s (lv_r t np) j" "j < t"
    and G: "(SigF 7 j, 0) \<notin> G" "\<And>i. i < t \<Longrightarrow> (Mix 6, i) \<in> G"
  shows "runs (sub_input (ixs [(1, lv (lv_r t np))] (7 * t + 8)) in1 []
      (from_sub (ixs [] (at_mix t np + 6)) (field 0 (lv_r t np))) Sigma_1_run) s
    (\<lambda>w. st J slots (insert (SigF 7 j, 0) G) W w \<and> lvar w = lvar s)"
proof -
  have slot: "pex_slot t np (SigF 7 j)" "pex_slot t np (Mix 6)" using s(3) by auto
  show ?thesis
  proof (rule feed_sigma [OF J s(1) _ slot(1) _ G(1) slot(2) _ points_field_e [OF s(1) J slot(2) _ s(2,3)]])
    show "ixs [(1, lv (lv_r t np))] (7 * t + 8) s = Inr (int (pex_num t np (SigF 7 j)))"
      by (rule ixs_counter1 [OF s(2)]) simp
    show "pex_fun p (Mix 6) (pex_ins p x (Mix 6)) j = pex_ins p x (SigF 7 j) 0"
      using pex_flow(2) [of 6 p x j 0] by simp
  qed (use G s(3) in \<open>auto simp: ixs_lit at_mix_def\<close>)
qed

lemma last_input:
  assumes J: "pex_job t np tc npc p x ft ml J" and s: "st J slots G W s" "counter s (lv_j t np) j" "j < t"
    and G: "(MixLast, j) \<notin> G" "(SigF 7 j, 0) \<in> G"
  shows "runs (seqM [sub_input (ixs [] (at_mixLast t np)) (sub_addr (ixs [(1, lv (lv_j t np))] 1)) []
      (from_sub (ixs [(1, lv (lv_j t np))] (7 * t + 8)) out0) ml]) s
    (\<lambda>w. st J slots (insert (MixLast, j) G) W w \<and> lvar w = lvar s)"
  unfolding runs_seq_Cons runs_seq_Nil
proof (rule runs_feed_from [where k = "ixs [] (at_mixLast t np)" and \<kappa>' = "SigF 7 j" and i = 0, OF s(1)])
  have slot: "pex_slot t np (SigF 7 j)" using s(3) by simp
  show ml: "MixLast \<in> slots" and "SigF 7 j \<in> slots" using slot by (simp_all add: slots_def)
  show "points (sub_addr (ixs [(1, lv (lv_j t np))] 1)) J s MixLast (in_at (pex_shp t MixLast) + j)"
    by (rule points_sub_addr [OF s(1) ml]) (use s(3) ixs_counter1 [OF s(2), of "1 + j" 1 1] in simp_all)
  show "index_after [] (ixs [(1, lv (lv_j t np))] (7 * t + 8)) s (pex_num t np (SigF 7 j))"
    unfolding index_after_Nil by (rule ixs_counter1 [OF s(2)]) simp
  show "points out0 J (s\<lparr>expaux := e\<rparr>) (SigF 7 j) 0" for e by (rule points_out0_e [OF s(1) slot])
  show "computes (circuit (j_init J)) (pex_tmpl t MixLast) (pex_shp t MixLast) ml (j_fun J MixLast)"
    by (rule job_computes [OF J]) simp_all
  show "j_fun J (SigF 7 j) (j_ins J (SigF 7 j)) 0 = j_ins J MixLast j"
    using pex_flow(6) [of p j x 0] jobD(9,10) [OF J] by simp
qed (use G s(3) in \<open>auto simp: ixs_lit at_mixLast_def\<close>)

lemma last_output:
  assumes J: "pex_job t np tc npc p x ft ml J" and s: "st J slots F W s" and F: "\<And>j. j < t \<Longrightarrow> (MixLast, j) \<in> F"
  shows "runs (block (to_sig (ixs [] 0)) [] (from_sub (ixs [] (at_mixLast t np)) out0)) s
    (st J slots F (W(0 \<mapsto> permutation_out p x)))"
proof (rule runs_mono [OF runs_own_write [OF s ixs_lit]])
  have ml: "MixLast \<in> slots" "pex_slot t np MixLast" by (simp_all add: slots_def)
  have "gives (from_sub (ixs [] (at_mixLast t np)) out0) s (j_fun J MixLast (j_ins J MixLast) 0)"
    by (rule gives_from_sub [OF s ml(1) _ points_in1_out0(2) [OF s ml(2)]]) (use F in \<open>simp_all add: ixs_lit at_mixLast_def\<close>)
  then show "source [] (from_sub (ixs [] (at_mixLast t np)) out0) s (permutation_out p x)"
    using pex_flow(12) [of p x 0] jobD(9,10) [OF J] by simp
qed (simp_all add: pex_own_def)

lemma runs_last_round:
  assumes J: "pex_job t np tc npc p x ft ml J" and s: "st J slots F W s"
    and F: "\<And>j k. (SigF 7 j, k) \<notin> F" "\<And>k. (MixLast, k) \<notin> F" "\<And>j. j < t \<Longrightarrow> (Mix 6, j) \<in> F"
  shows "runs (seqM (last_round t np tc (lv_r t np) (lv_j t np) ml)) s
    (st J slots (F \<union> fed (SigF 7) (\<lambda>_. 0) t \<union> fed (\<lambda>_. MixLast) (\<lambda>j. j) t) (W(0 \<mapsto> permutation_out p x)))"
proof -
  let ?r = "lv_r t np" and ?j = "lv_j t np"
  let ?F1 = "F \<union> fed (SigF 7) (\<lambda>_. 0) t"
  let ?F2 = "?F1 \<union> fed (\<lambda>_. MixLast) (\<lambda>j. j) t"
  let ?mixes = "for_loop ?j tc [sub_input (ixs [] (at_mixLast t np)) (sub_addr (ixs [(1, lv ?j)] 1)) []
    (from_sub (ixs [(1, lv ?j)] (7 * t + 8)) out0) ml]"
  have kp: "keeps (\<lambda>_. True)" by (simp add: keeps_def)
  have mixes: "runs (seqM ?mixes) u (\<lambda>u. st J slots ?F2 W u \<and> True \<and> lvar u ?r = Some v)"
    if u: "st J slots ?F1 W u" "lvar u ?r = Some v" "small v (int 0)" for u v
    by (rule state_loop [OF J kp u(1) TrueI u(2,3)], rule last_input [OF J]) (use F in auto)
  have body: "runs (seqM (?mixes @ [block (to_sig (ixs [] 0)) [] (from_sub (ixs [] (at_mixLast t np)) out0)])) u
      (st J slots ?F2 (W(0 \<mapsto> permutation_out p x)))"
    if u: "st J slots ?F1 W u" "lvar u ?r = Some v" "small v 0" for u v
    unfolding runs_seq_append
    by (rule runs_mono [OF mixes [OF u(1,2)]]) (use u(3) last_output [OF J] in \<open>simp_all add: wp\<close>)
  have "runs (seqM [load_consts [(?r, 88)], op2 Fr_lt 0 (lv ?r) (con 90),
      whileM (isTrueE 0) (seqM ((?mixes @
        [block (to_sig (ixs [] 0)) [] (from_sub (ixs [] (at_mixLast t np)) out0)]) @
        [load_consts [(?r, 90)], op2 Fr_lt 0 (lv ?r) (con 90)]))]) u
      (st J slots ?F2 (W(0 \<mapsto> permutation_out p x)))" if u: "st J slots ?F1 W u" for u
    by (rule runs_once [OF u jobD(1,2) [OF J]]) (use jobD(7,8) [OF J] lv_neq body in auto)
  then show ?thesis
    unfolding last_round_def runs_seq_append [of "for_loop ?r tc _"]
    by (intro runs_mono [OF feed_loop [where jj = "\<lambda>_. 0", OF J kp conjI [OF s TrueI] last_sigma [OF J]]])
      (use F in auto)
qed

end

end
