(* ===== verification/Poseidon_Setup.thy ===== *)
theory Poseidon_Setup
  imports Poseidon_Correct
begin

text \<open>
  The first part of the body of \<open>PoseidonEx\<close>: creating the subcomponents puts every slot in place,
  and the calls of the constant functions leave the round constants in the local array.
\<close>

context pex
begin

section \<open>Creating the subcomponents\<close>

lemma runs_create_each:
  assumes s: "st J S {} W s"
    and \<kappa>: "\<And>k. k < length crs \<Longrightarrow> \<kappa> k \<in> slots - S \<and> pex_num t np (\<kappa> k) = a + k \<and>
      pex_sig t np (\<kappa> k) = so + step * k \<and> pex_comp t np (\<kappa> k) = Suc (co + k) \<and>
      (\<exists>tn. crs ! k = create_component (pex_tmpl t (\<kappa> k)) tn (of_nat (n_in (pex_shp t (\<kappa> k)))) (n_sub (pex_shp t (\<kappa> k))))"
  shows "runs (seqM (create_each crs a so step co nm)) s
    (\<lambda>u. st J (S \<union> \<kappa> ` {..<length crs}) {} W u \<and> lvar u = lvar s)"
proof -
  have "runs (seqM (map (\<lambda>k. create_sub (crs ! k) (a + k) (so + step * k) (co + k) (indexed nm k)) [0..<n])) s
      (\<lambda>u. st J (S \<union> \<kappa> ` {..<n}) {} W u \<and> lvar u = lvar s)" if "n \<le> length crs" for n
    using that
  proof (induction n)
    case 0
    then show ?case using s by (simp add: wp)
  next
    case (Suc n)
    note kn = \<kappa> [of n]
    obtain tn where cr: "crs ! n = create_component (pex_tmpl t (\<kappa> n)) tn (of_nat (n_in (pex_shp t (\<kappa> n)))) (n_sub (pex_shp t (\<kappa> n)))"
      using kn Suc.prems by auto
    have new: "\<kappa> n \<notin> S \<union> \<kappa> ` {..<n}"
    proof
      assume "\<kappa> n \<in> S \<union> \<kappa> ` {..<n}"
      then obtain m where "m < n" "\<kappa> n = \<kappa> m" using kn Suc.prems by auto
      then show False using kn \<kappa> [of m] Suc.prems by simp
    qed
    have set: "insert (\<kappa> n) (S \<union> \<kappa> ` {..<n}) = S \<union> \<kappa> ` {..<Suc n}" by (auto simp: lessThan_Suc)
    have one: "runs (create_sub (crs ! n) (a + n) (so + step * n) (co + n) (indexed nm n)) u
        (\<lambda>w. st J (S \<union> \<kappa> ` {..<Suc n}) {} W w \<and> lvar w = lvar s)"
      if u: "st J (S \<union> \<kappa> ` {..<n}) {} W u \<and> lvar u = lvar s" for u
    proof -
      have sl: "\<kappa> n \<in> {\<kappa>. pex_slot t np \<kappa>}" using kn Suc.prems by (simp add: slots_def)
      show ?thesis
        using runs_create_sub [OF conjunct1 [OF u] sl new _ _ _ cr, of "a + n" "so + step * n" "co + n" "indexed nm n"]
          u kn Suc.prems by (simp add: set)
    qed
    show ?case
      using Suc one by (simp add: runs_seq_append wp runs_mono)
  qed
  from this [of "length crs"] show ?thesis by (simp add: create_each_def)
qed

text \<open>A part of the body that creates slots.\<close>

definition creates :: "pslot job \<Rightarrow> (nat \<rightharpoonup> int) \<Rightarrow> frame stmt list \<Rightarrow> pslot set \<Rightarrow> pslot set \<Rightarrow> bool" where
  "creates J W cs S S' \<longleftrightarrow>
     (\<forall>s. st J S {} W s \<longrightarrow> runs (seqM cs) s (\<lambda>u. st J S' {} W u \<and> lvar u = lvar s))"

lemma creates_append: "creates J W cs S S' \<Longrightarrow> creates J W ds S' S'' \<Longrightarrow> creates J W (cs @ ds) S S''"
  unfolding creates_def runs_seq_append
  by (intro allI impI, rule runs_mono [of "seqM cs" _ "\<lambda>u. st J S' {} W u \<and> lvar u = lvar _"])
    (auto elim: runs_mono)

lemma creates_one:
  "(\<And>s. st J S {} W s \<Longrightarrow> runs c s (\<lambda>u. st J S' {} W u \<and> lvar u = lvar s)) \<Longrightarrow> creates J W [c] S S'"
  unfolding creates_def by (simp add: wp)

lemma creates_two: "creates J W [c] S S' \<Longrightarrow> creates J W [d] S' S'' \<Longrightarrow> creates J W [c, d] S S''"
  using creates_append [of J W "[c]" S S' "[d]"] by simp

definition creators_ok :: "creator list \<Rightarrow> (nat \<Rightarrow> pslot) \<Rightarrow> nat \<Rightarrow> bool" where
  "creators_ok crs \<kappa> n \<longleftrightarrow> length crs = n \<and>
     (\<forall>k < n. \<exists>tn. crs ! k = create_component (pex_tmpl t (\<kappa> k)) tn (of_nat t) 0)"

text \<open>The two arrays of \<open>Sigma\<close> components.\<close>

lemma sigma_index: "i < 8 * t \<Longrightarrow> i div t < 8 \<and> i mod t < t \<and> t * (i div t) + i mod t = i"
  using t_pos(1) by (simp add: less_mult_imp_div_less)

lemma sigma_create:
  "\<kappa> \<in> range SigP \<or> (\<exists>a b. \<kappa> = SigF a b) \<Longrightarrow>
   Sigma_1_create = create_component (pex_tmpl t \<kappa>) ''Sigma'' (of_nat (n_in (pex_shp t \<kappa>))) (n_sub (pex_shp t \<kappa>))"
  by (auto simp: Sigma_1_create_def shape_defs)

abbreviation full_sigma_slots :: "pslot set" where
  "full_sigma_slots \<equiv> (\<lambda>i. SigF (i div t) (i mod t)) ` {..<8 * t}"

lemma create_full_sigmas:
  "creates J W [create_array Sigma_1_create 8 (32 * t + 2 + 2 * t * np) (16 + np) ''sigmaF'' [8, of_nat t] (8 * t) 4 1]
     (Ark ` {..<8}) (Ark ` {..<8} \<union> full_sigma_slots)"
proof (rule creates_one, rule runs_create_array)
  show "32 * t + 2 + 2 * t * np \<le> pex_nsig t np" by (simp add: pex_nsig_def)
  show "0 \<notin> set [8, of_nat t :: u32]" using t_pos(1,3) widths by auto
  fix i assume "i < 8 * t"
  then show "SigF (i div t) (i mod t) \<in> {\<kappa>. pex_slot t np \<kappa>} - Ark ` {..<8} \<and>
      pex_num t np (SigF (i div t) (i mod t)) = 8 + i \<and>
      pex_sig t np (SigF (i div t) (i mod t)) = 32 * t + 2 + 2 * t * np + i * 4 \<and>
      pex_comp t np (SigF (i div t) (i mod t)) = Suc (16 + np + i * 1)"
    using sigma_index [of i] by (auto simp: algebra_simps)
qed (use sigma_create in blast)+

lemma create_partial_sigmas:
  "creates J W [create_array Sigma_1_create (at_sigmaP t) (64 * t + 2 + 2 * t * np) (16 + np + 8 * t) ''sigmaP''
     [of_nat np] np 4 1] (Ark ` {..<8} \<union> full_sigma_slots) (Ark ` {..<8} \<union> full_sigma_slots \<union> SigP ` {..<np})"
proof (rule creates_one, rule runs_create_array)
  show "64 * t + 2 + 2 * t * np \<le> pex_nsig t np" by (simp add: pex_nsig_def)
  show "0 \<notin> set [of_nat np :: u32]" using widths by auto
  fix i assume "i < np"
  then show "SigP i \<in> {\<kappa>. pex_slot t np \<kappa>} - (Ark ` {..<8} \<union> full_sigma_slots) \<and>
      pex_num t np (SigP i) = at_sigmaP t + i \<and>
      pex_sig t np (SigP i) = 64 * t + 2 + 2 * t * np + i * 4 \<and> pex_comp t np (SigP i) = Suc (16 + np + 8 * t + i * 1)"
    by (auto simp: at_sigmaP_def)
qed (use sigma_create in blast)+

lemma all_slots:
  "insert MixLast (Ark ` {..<8} \<union> full_sigma_slots \<union> SigP ` {..<np} \<union> Mix ` {..<7} \<union> MixS ` {..<np}) = slots"
    (is "?S = _")
proof (rule equalityI; rule subsetI)
  show "\<kappa> \<in> slots" if "\<kappa> \<in> ?S" for \<kappa> using that sigma_index by (auto simp: slots_def)
next
  fix \<kappa> assume k: "\<kappa> \<in> slots"
  show "\<kappa> \<in> ?S"
  proof (cases \<kappa>)
    case (SigF r j)
    then have "r < 8" "j < t" using k by (simp_all add: slots_def)
    then have "t * r \<le> t * 7" by (intro mult_le_mono2) simp
    with \<open>j < t\<close> have "t * r + j < 8 * t" by linarith
    moreover have "SigF ((t * r + j) div t) ((t * r + j) mod t) = SigF r j" using \<open>j < t\<close> by simp
    ultimately have "SigF r j \<in> full_sigma_slots" by (metis (no_types, lifting) image_eqI lessThan_iff)
    then show ?thesis using SigF by blast
  qed (use k in \<open>auto simp: slots_def\<close>)
qed

lemma runs_pex_create:
  assumes s: "st J {} {} W s"
    and crs: "creators_ok arks Ark 8" "creators_ok mixes Mix 7" "creators_ok mixSs MixS np"
      "creators_ok [mixLast] (\<lambda>_. MixLast) 1"
  shows "runs (seqM (pex_create t np arks mixes mixSs mixLast)) s (\<lambda>u. st J slots {} W u \<and> lvar u = lvar s)"
proof -
  let ?S1 = "Ark ` {..<8}" and ?S3 = "Ark ` {..<8} \<union> full_sigma_slots \<union> SigP ` {..<np}"
  let ?S4 = "?S3 \<union> Mix ` {..<7}"
  let ?S5 = "?S4 \<union> MixS ` {..<np}"
  note len = crs [unfolded creators_ok_def]
  have arks: "creates J W (create_each arks 0 (t + 1) (2 * t) 0 ''ark'') {} ?S1"
    unfolding creates_def
    using runs_create_each [of J "{}" _ _ arks Ark 0 "t + 1" "2 * t" 0 "''ark''"] len by (auto simp: slots_def shape_defs)
  have mixes: "creates J W (create_each mixes (at_mix t np) (17 * t + 1) (2 * t) 8 ''mix'') ?S3 ?S4"
    unfolding creates_def
    using runs_create_each [of J ?S3 _ _ mixes Mix "at_mix t np" "17 * t + 1" "2 * t" 8 "''mix''"] len
    by (auto simp: slots_def shape_defs at_mix_def)
  have mixSs: "creates J W (create_each mixSs (at_mixS t np) (32 * t + 2) (2 * t) 16 ''mixS'') ?S4 ?S5"
    unfolding creates_def
    using runs_create_each [of J ?S4 _ _ mixSs MixS "at_mixS t np" "32 * t + 2" "2 * t" 16 "''mixS''"] len
    by (auto simp: slots_def shape_defs at_mixS_def)
  obtain tn where cr: "mixLast = create_component (pex_tmpl t MixLast) tn (of_nat (n_in (pex_shp t MixLast))) (n_sub (pex_shp t MixLast))"
    using len(4) by (auto simp: shape_defs)
  have last: "creates J W [create_sub mixLast (at_mixLast t np) (31 * t + 1) 15 ''mixLast''] ?S5 slots"
    unfolding all_slots [symmetric] by (rule creates_one, rule runs_create_sub [OF _ _ _ _ _ _ cr]) (auto simp: at_mixLast_def)
  note sigmas = creates_two [OF create_full_sigmas create_partial_sigmas]
  have "creates J W (pex_create t np arks mixes mixSs mixLast) {} slots"
    unfolding pex_create_def
    by (rule creates_append [OF arks creates_append [OF sigmas creates_append [OF mixes creates_append [OF mixSs last]]]])
  then show ?thesis using s by (simp add: creates_def)
qed

end

end
