(* ===== verification/Poseidon_Locals.thy ===== *)
theory Poseidon_Locals
  imports Poseidon_Setup
begin

text \<open>
  The local arrays of \<open>PoseidonEx\<close>: every statement of this part leaves the cells below its own
  array alone, so the round constants that the first call stores are still there when the rounds begin.
\<close>

lemma dom_const_map: "dom (const_map cs ps) = fst ` set ps"
  by (force simp: const_map_def dom_map_of_conv_image_fst)

lemma const_map_None: "i \<notin> fst ` set ps \<Longrightarrow> const_map cs ps i = None"
  unfolding dom_const_map [of cs, symmetric] by (simp add: domIff)

lemma const_map_zeros: "const_map cs (zeros a n) i = None \<longleftrightarrow> i < a \<or> a + n \<le> i"
proof -
  have "i \<in> dom (const_map cs (zeros a n)) \<longleftrightarrow> a \<le> i \<and> i < a + n"
    unfolding dom_const_map by (auto simp: zeros_def image_iff intro!: bexI [of _ "i - a"])
  then show ?thesis by (auto simp: domIff)
qed

context pex
begin

text \<open>A part of the body that keeps the network and the local variables below \<open>a\<close>.\<close>

definition local_part :: "pslot job \<Rightarrow> pslot set \<Rightarrow> (nat \<rightharpoonup> int) \<Rightarrow> nat \<Rightarrow> frame stmt list \<Rightarrow> bool" where
  "local_part J S W a cs \<longleftrightarrow>
     (\<forall>s. st J S {} W s \<longrightarrow> runs (seqM cs) s (\<lambda>u. st J S {} W u \<and> (\<forall>i < a. lvar u i = lvar s i)))"

lemma local_part_append: "local_part J S W a cs \<Longrightarrow> local_part J S W a ds \<Longrightarrow> local_part J S W a (cs @ ds)"
  unfolding local_part_def runs_seq_append
  by (intro allI impI, rule runs_mono [of "seqM cs" _ "\<lambda>u. st J S {} W u \<and> (\<forall>i < a. lvar u i = lvar _ i)"])
    (auto elim: runs_mono)

lemma local_part_mono: "local_part J S W b cs \<Longrightarrow> a \<le> b \<Longrightarrow> local_part J S W a cs"
  unfolding local_part_def by (auto elim!: runs_mono)

abbreviation net_consts :: "pslot job \<Rightarrow> FrElement list" where
  "net_consts J \<equiv> circuitConstants (circuit (j_init J))"

lemma local_part_loads:
  assumes "\<forall>(l, c) \<in> set ps. a \<le> l \<and> l < j_lv J \<and> c < length (net_consts J)"
  shows "local_part J S W a [load_consts ps]"
proof -
  have "const_map (net_consts J) ps i = None" if "i < a" for i
    using that assms by (intro const_map_None) auto
  then have "(m ++ const_map (net_consts J) ps) i = m i" if "i < a" for m i
    using that by (simp add: map_add_def)
  then show ?thesis
    unfolding local_part_def runs_seq_Cons runs_seq_Nil
    by (intro allI impI runs_mono [OF runs_loads]) (use assms in auto)
qed

lemma t_width: "2 \<le> t" "t \<le> 17"
  using widths by auto

text \<open>A call of one of the constant functions.\<close>

lemma runs_call:
  assumes s: "st J S F W s" and c: "cval J cn w" "2 \<le> w" "w \<le> 17"
    and ok: "list_all2 (branch_ok sz) [2..<18] bs" "map fst bs = width_args" "0 < sz"
    and k: "width_args_ok (net_consts J)" "dst + m \<le> j_lv J"
  defines "ms \<equiv> take m (branch_consts (bs ! (w - 2)))"
  shows "runs (call_constants (constant_function bs) sz cn dst m) s (\<lambda>u. st J S F W u \<and>
    lvar u = (\<lambda>i. if dst \<le> i \<and> i < dst + length ms then Some (net_consts J ! (ms ! (i - dst))) else lvar s i))"
proof -
  obtain a where a: "con cn s = Inr a" "small a (int w)" using st_con [OF s c(1)] by auto
  let ?f = "s\<lparr>expaux := Map.empty, expaux_size := 2, lvar := [0 \<mapsto> Fr_copy a], lvar_size := sz\<rparr>"
  have cf: "consts_of ?f = net_consts J" using stD(6) [OF s] by (simp add: consts_of_def)
  have "constant_function bs m ?f = Some (Inr (map ((!) (consts_of ?f)) (take m (branch_consts (bs ! nat (int w - 2))))))"
    by (subst constant_function_width [OF ok(1,2)]) (use a(2) c ok(3) k(1) cf in \<open>auto simp: Fr_copy_def\<close>)
  moreover have "nat (int w - 2) = w - 2" by simp
  ultimately have "constant_function bs m ?f = Some (Inr (map ((!) (net_consts J)) ms))" by (simp add: cf ms_def)
  moreover have "length ms \<le> m" by (simp add: ms_def)
  ultimately have "call_constants (constant_function bs) sz cn dst m s =
      Some (Inr (s\<lparr>lvar := (\<lambda>i. if dst \<le> i \<and> i < dst + length ms
        then Some (map ((!) (net_consts J)) ms ! (i - dst)) else lvar s i)\<rparr>))"
    using a(1) k(2) stD(4) [OF s] by (simp add: call_constants_def store_cells_def)
  moreover have "(\<lambda>i. if dst \<le> i \<and> i < dst + length ms then Some (map ((!) (net_consts J)) ms ! (i - dst)) else lvar s i) =
      (\<lambda>i. if dst \<le> i \<and> i < dst + length ms then Some (net_consts J ! (ms ! (i - dst))) else lvar s i)"
    by (rule ext) auto
  ultimately show ?thesis using s by (simp add: runs_def)
qed

lemma local_part_call:
  assumes "cval J cn w" "2 \<le> w" "w \<le> 17" "list_all2 (branch_ok sz) [2..<18] bs" "map fst bs = width_args" "0 < sz"
    "width_args_ok (net_consts J)" "dst + m \<le> j_lv J" "a \<le> dst"
  shows "local_part J S W a [call_constants (constant_function bs) sz cn dst m]"
  unfolding local_part_def runs_seq_Cons runs_seq_Nil
  by (intro allI impI runs_mono [OF runs_call [OF _ assms(1-8)]]) (use assms(9) in auto)

text \<open>The copies of the row of zeros, and the whole matrix.\<close>

lemma runs_row_copies:
  assumes s: "st J S F W s" and z: "\<And>i. i < t \<Longrightarrow> lvar s (a + t * t + i) \<noteq> None" and l: "a + t * t + t \<le> j_lv J"
  shows "n \<le> t \<Longrightarrow> runs (seqM (map (\<lambda>i. copyn (a + t * i) (a + t * t) t) [0..<n])) s
    (\<lambda>u. st J S F W u \<and> (\<forall>i. i < a \<or> a + t * t \<le> i \<longrightarrow> lvar u i = lvar s i))"
proof (induction n)
  case 0
  then show ?case using s by (simp add: wp)
next
  case (Suc n)
  have n: "t * n + t \<le> t * t" using Suc.prems mult_le_mono2 [of "Suc n" t t] by simp
  have "runs (copyn (a + t * n) (a + t * t) t) u
      (\<lambda>w. st J S F W w \<and> (\<forall>i. i < a \<or> a + t * t \<le> i \<longrightarrow> lvar w i = lvar s i))"
    if u: "st J S F W u \<and> (\<forall>i. i < a \<or> a + t * t \<le> i \<longrightarrow> lvar u i = lvar s i)" for u
  proof (rule runs_mono [OF runs_copyn])
    show "lvar u (a + t * t + i) \<noteq> None" if "i < t" for i using u z [OF that] by simp
  qed (use u n l stD(4) [OF conjunct1 [OF u]] in auto)
  then show ?case
    using Suc by (simp add: runs_seq_append wp runs_mono)
qed

lemma local_part_matrix:
  assumes c: "cval J cn t" "width_args_ok (net_consts J)" and l: "a + t * t + t \<le> j_lv J" "b \<le> a"
    and ok: "list_all2 (branch_ok 579) [2..<18] bs" "map fst bs = width_args"
  shows "local_part J S W b (matrix (constant_function bs) a t cn)"
  unfolding local_part_def
proof (intro allI impI)
  fix s assume s: "st J S {} W s"
  have 88: "88 < length (net_consts J)" using c(2) by (simp add: width_args_ok_def)
  have none: "const_map (net_consts J) (zeros (a + t * t) t) i = None" if "i < a" for i
    using that by (simp add: const_map_zeros)
  have loads: "runs (load_consts (zeros (a + t * t) t)) s
      (\<lambda>u. st J S {} W u \<and> lvar u = lvar s ++ const_map (net_consts J) (zeros (a + t * t) t))"
    by (rule runs_loads [OF s]) (use 88 l in \<open>auto simp: zeros_def\<close>)
  have call: "runs (seqM [call_constants (constant_function bs) 579 cn a (t * t)]) w
      (\<lambda>u. st J S {} W u \<and> (\<forall>i < b. lvar u i = lvar s i))"
    if "st J S {} W w" "\<forall>i < a. lvar w i = lvar s i" for w
  proof -
    have "local_part J S W a [call_constants (constant_function bs) 579 cn a (t * t)]"
      by (rule local_part_call [OF c(1) t_width ok _ c(2)]) (use l in simp_all)
    then have "runs (seqM [call_constants (constant_function bs) 579 cn a (t * t)]) w
        (\<lambda>u. st J S {} W u \<and> (\<forall>i < a. lvar u i = lvar w i))"
      using that(1) unfolding local_part_def by blast
    then show ?thesis by (rule runs_mono) (use that(2) l(2) in simp)
  qed
  have copies: "runs (seqM (map (\<lambda>i. copyn (a + t * i) (a + t * t) t) [0..<t])) w
      (\<lambda>u. st J S {} W u \<and> (\<forall>i. i < a \<or> a + t * t \<le> i \<longrightarrow> lvar u i = lvar w i))"
    if w: "st J S {} W w \<and> lvar w = lvar s ++ const_map (net_consts J) (zeros (a + t * t) t)" for w
  proof (rule runs_row_copies)
    show "lvar w (a + t * t + i) \<noteq> None" if i: "i < t" for i
    proof -
      have "const_map (net_consts J) (zeros (a + t * t) t) (a + t * t + i) \<noteq> None"
        using const_map_zeros [of "net_consts J" "a + t * t" t "a + t * t + i"] i by simp
      then show ?thesis using w by (auto simp: map_add_def)
    qed
  qed (use w l in simp_all)
  show "runs (seqM (matrix (constant_function bs) a t cn)) s (\<lambda>u. st J S {} W u \<and> (\<forall>i < b. lvar u i = lvar s i))"
    unfolding matrix_def runs_seq_append runs_seq_Cons [of "load_consts _"] runs_seq_Nil
  proof (rule runs_mono [OF loads], rule runs_mono [OF copies], assumption)
    fix u w
    assume "st J S {} W u \<and> lvar u = lvar s ++ const_map (net_consts J) (zeros (a + t * t) t)"
      "st J S {} W w \<and> (\<forall>i. i < a \<or> a + t * t \<le> i \<longrightarrow> lvar w i = lvar u i)"
    then show "runs (seqM [call_constants (constant_function bs) 579 cn a (t * t)]) w
        (\<lambda>u. st J S {} W u \<and> (\<forall>i < b. lvar u i = lvar s i))"
      by (intro call) (auto simp: map_add_def none)
  qed
qed

text \<open>All of them. \<open>cc\<close> is the first of the constants that \<open>POSEIDON_C_0\<close> returns.\<close>

text \<open>After the round constants come the other tables, which leave them in place.\<close>

abbreviation other_tables :: "nat \<Rightarrow> frame stmt list" where
  "other_tables tc \<equiv> [load_consts (zeros (at_S t np) ((2 * t - 1) * np)),
      call_constants POSEIDON_S_1 2245 tc (at_S t np) ((2 * t - 1) * np)] @
     matrix POSEIDON_M_2 (at_M t np) t tc @ matrix POSEIDON_P_3 (at_P t np) t tc"

lemma local_other_tables:
  assumes J: "pex_job t np tc npc p x ft ml J" and c: "width_args_ok (net_consts J)"
  shows "local_part J S W (21 + (8 * t + np)) (other_tables tc)"
  unfolding POSEIDON_S_1_def POSEIDON_M_2_def POSEIDON_P_3_def
proof (intro local_part_append)
  let ?n = "8 * t + np"
  note l = at_P_def at_M_def at_S_def lv_r_def lv_j_def and tc = jobD(5) [OF J] and size = jobD(8) [OF J]
  have len: "length (net_consts J) = 25024" using c by (simp add: width_args_ok_def)
  have "local_part J S W (21 + ?n) [load_consts (zeros (at_S t np) ((2 * t - 1) * np))]"
    by (rule local_part_loads) (use len size in \<open>auto simp: zeros_def l\<close>)
  moreover have "local_part J S W (21 + ?n)
      [call_constants (constant_function POSEIDON_S_branches) 2245 tc (at_S t np) ((2 * t - 1) * np)]"
    by (rule local_part_call [OF tc t_width branches_S_ok branches_args(2) _ c]) (use size in \<open>auto simp: l\<close>)
  ultimately show "local_part J S W (21 + ?n) [load_consts (zeros (at_S t np) ((2 * t - 1) * np)),
      call_constants (constant_function POSEIDON_S_branches) 2245 tc (at_S t np) ((2 * t - 1) * np)]"
    using local_part_append by fastforce
  show "local_part J S W (21 + ?n) (matrix (constant_function POSEIDON_M_branches) (at_M t np) t tc)"
    by (rule local_part_matrix [OF tc c _ _ branches_M_ok branches_args(3)]) (use size in \<open>auto simp: l\<close>)
  show "local_part J S W (21 + ?n) (matrix (constant_function POSEIDON_P_branches) (at_P t np) t tc)"
    by (rule local_part_matrix [OF tc c _ _ branches_P_ok branches_args(4)]) (use size in \<open>auto simp: l\<close>)
qed

text \<open>What the first call loads are the constants of the partial rounds.\<close>

lemma partial_consts_loaded:
  assumes c: "\<And>k. k < 25024 \<Longrightarrow> fok (cs ! k)"
    and cc: "cc + 8 * t + np \<le> 25024" "\<And>i. i < 8 * t + np \<Longrightarrow> p_C p i = fval (cs ! (cc + i))"
    and l: "\<And>i. i < 8 * t + np \<Longrightarrow> l (21 + i) = Some (cs ! (cc + i))"
  shows "partial_consts p l"
  unfolding partial_consts_def
proof (intro allI impI)
  fix r assume "r < np"
  then have i: "5 * t + r < 8 * t + np" by simp
  have e: "5 * t + 21 + r = 21 + (5 * t + r)" by simp
  show "\<exists>v. l (5 * t + 21 + r) = Some v \<and> fok v \<and> fval v = p_C p (5 * t + r)"
    using l [OF i] cc(1) cc(2) [OF i] c [of "cc + (5 * t + r)"] i by (simp add: e)
qed

lemma runs_pex_locals:
  assumes J: "pex_job t np tc npc p x ft ml J" and s: "st J S {} W s"
    and c: "width_args_ok (net_consts J)" "tc < 25024" "npc < 25024" "\<And>k. k < 25024 \<Longrightarrow> fok (net_consts J ! k)"
    and cc: "branch_consts (POSEIDON_C_branches ! (t - 2)) = [cc..<cc + (8 * t + np)]" "cc + 8 * t + np \<le> 25024"
      "\<And>i. i < 8 * t + np \<Longrightarrow> p_C p i = fval (net_consts J ! (cc + i))"
  shows "runs (seqM (pex_locals t np tc npc)) s (\<lambda>u. st J S {} W u \<and> partial_consts p (lvar u))"
proof -
  note l = at_P_def at_M_def at_S_def lv_r_def lv_j_def and size = jobD(8) [OF J]
  let ?n = "8 * t + np"
  let ?ps = "zeros 2 16 @ zip [2..<18] N_ROUNDS_P @ [(18, tc), (19, 107), (20, npc)] @ zeros 21 ?n"
  let ?loaded = "\<lambda>l. \<forall>i < ?n. l (21 + i) = Some (net_consts J ! (cc + i))"
  have len: "length (net_consts J) = 25024" using c(1) by (simp add: width_args_ok_def)
  have "list_all (\<lambda>(l, c). l < 18 \<and> c < 25024) (zip [2..<18] N_ROUNDS_P)"
    by (simp add: N_ROUNDS_P_def upt_rec)
  then have rp: "\<forall>(l, c) \<in> set (zip [2..<18] N_ROUNDS_P). l < 18 \<and> c < 25024" by (simp add: list_all_iff)
  have l0: "21 + ?n < lv_j t np" by (simp add: l)
  have ps: "\<forall>(l, c) \<in> set ?ps. l < j_lv J \<and> c < length (net_consts J)"
    unfolding set_append ball_Un
  proof (intro conjI)
    show "\<forall>(l, c) \<in> set (zip [2..<18] N_ROUNDS_P). l < j_lv J \<and> c < length (net_consts J)"
      using rp l0 len size by fastforce
  qed (use c(2,3) len size l0 in \<open>auto simp: zeros_def\<close>)
  have loads: "runs (load_consts ?ps) s (\<lambda>u. st J S {} W u)"
    by (rule runs_mono [OF runs_loads [OF s ps]]) simp
  have call: "runs (call_constants POSEIDON_C_0 205 tc 21 ?n) u (\<lambda>w. st J S {} W w \<and> ?loaded (lvar w))"
    if u: "st J S {} W u" for u
  proof -
    have "21 + ?n \<le> j_lv J" using size by (simp add: l)
    from runs_call [OF u jobD(5) [OF J] t_width branches_C_ok branches_args(1) _ c(1) this]
    show ?thesis unfolding POSEIDON_C_0_def cc(1) by (rule runs_mono) auto
  qed
  have last: "runs (seqM (other_tables tc)) w (\<lambda>u. st J S {} W u \<and> partial_consts p (lvar u))"
    if w: "st J S {} W w \<and> ?loaded (lvar w)" for w
  proof (rule runs_mono)
    show "runs (seqM (other_tables tc)) w (\<lambda>u. st J S {} W u \<and> (\<forall>i < 21 + ?n. lvar u i = lvar w i))"
      using local_other_tables [OF J c(1)] w unfolding local_part_def by blast
    show "st J S {} W u \<and> partial_consts p (lvar u)" if "st J S {} W u \<and> (\<forall>i < 21 + ?n. lvar u i = lvar w i)" for u
      using partial_consts_loaded [where cs = "net_consts J", OF c(4) cc(2,3), of "lvar u"] that w by simp
  qed
  define rs where "rs = other_tables tc"
  have "pex_locals t np tc npc = load_consts ?ps # call_constants POSEIDON_C_0 205 tc 21 ?n # rs"
    by (simp add: pex_locals_def rs_def)
  moreover have "runs (seqM (load_consts ?ps # call_constants POSEIDON_C_0 205 tc 21 ?n # rs)) s
      (\<lambda>u. st J S {} W u \<and> partial_consts p (lvar u))"
    unfolding runs_seq_Cons
    by (rule runs_mono [OF loads], rule runs_mono [OF call], assumption) (use last in \<open>simp only: rs_def\<close>)
  ultimately show ?thesis by simp
qed

end

end
