(* ===== verification/Leaf_Contracts.thy ===== *)
theory Leaf_Contracts
  imports Poseidon_Layout
begin

text \<open>
  What the composite templates need of \<open>circuit.dat\<close> and of the table of run functions, and the
  contracts of the leaf templates in the form in which their callers use them.
\<close>

section \<open>The circuit data\<close>

text \<open>
  The small constants that the composite templates use, with their values in \<open>circuit.dat\<close>: the
  widths that the constant functions compare with, the numbers of partial rounds and the depth of
  the Merkle tree.
\<close>

definition network_constants :: "(nat \<times> int) list" where
  "network_constants =
     zip [457, 460, 89, 465, 468, 455, 107, 475, 478, 456, 108, 485, 458, 490, 109, 495] (map int [2..<18]) @
     [(473, 56), (603, 57), (503, 20)]"

definition circuit_data_ok :: "Circom_Circuit \<Rightarrow> bool" where
  "circuit_data_ok circ \<longleftrightarrow>
     length (circuitConstants circ) = unat get_size_of_constants \<and>
     (\<forall>c \<in> set (circuitConstants circ). fok c) \<and>
     (\<forall>(i, v) \<in> set (small_constants @ network_constants). small (circuitConstants circ ! i) v) \<and>
     (\<forall>k < 137. k \<notin> {1, 67, 68, 69} \<longrightarrow>
        io_field circ (of_nat k) 0 0 \<and> io_field circ (of_nat k) 1 (if k < 70 then 4 else 3))"

lemma data_consts: "circuit_data_ok circ \<Longrightarrow> circuit ctx = circ \<Longrightarrow> circuit_consts_ok ctx"
  unfolding circuit_data_ok_def circuit_consts_ok_def set_append by blast

lemma data_length: "circuit_data_ok circ \<Longrightarrow> length (circuitConstants circ) = 25024"
  by (simp add: circuit_data_ok_def circuit_sizes)

lemma data_fok: "circuit_data_ok circ \<Longrightarrow> k < 25024 \<Longrightarrow> fok (circuitConstants circ ! k)"
  by (simp add: circuit_data_ok_def circuit_sizes)

lemma data_small:
  assumes "circuit_data_ok circ"
    "(i, v) \<in> set ([(88, 0), (89, 4), (90, 1), (457, 2), (460, 3)] @ network_constants)"
  shows "small (circuitConstants circ ! i) v"
proof -
  have "(i, v) \<in> set (small_constants @ network_constants)"
    using assms(2) unfolding small_constants_def set_append by blast
  then show ?thesis using assms(1) unfolding circuit_data_ok_def by blast
qed

lemma data_width_args: "circuit_data_ok circ \<Longrightarrow> width_args_ok (circuitConstants circ)"
proof -
  assume c: "circuit_data_ok circ"
  have "small (circuitConstants circ ! (width_args ! i)) (int (i + 2))" if "i < length width_args" for i
  proof -
    have l: "length width_args = 16" by (simp add: width_args_def)
    have "zip width_args (map int [2..<18]) ! i \<in> set (zip width_args (map int [2..<18]))"
      by (rule nth_mem) (use that l in simp)
    moreover have "zip width_args (map int [2..<18]) ! i = (width_args ! i, int (i + 2))"
      using that l by (simp add: add.commute del: upt_rec_numeral)
    ultimately have "(width_args ! i, int (i + 2)) \<in> set (zip width_args (map int [2..<18]))" by simp
    then show ?thesis
      by (intro data_small [OF c]) (simp only: network_constants_def width_args_def set_append Un_iff simp_thms)
  qed
  moreover have "small (circuitConstants circ ! 88) 0" by (rule data_small [OF c]) simp
  ultimately show ?thesis using data_length [OF c] by (simp add: width_args_ok_def)
qed

text \<open>The tables of round constants and matrices of the two permutations.\<close>

definition circuit_const :: "Circom_Circuit \<Rightarrow> nat \<Rightarrow> int" where
  "circuit_const circ i = fval (circuitConstants circ ! i)"

definition poseidon4 :: "Circom_Circuit \<Rightarrow> params" where
  "poseidon4 circ =
     \<lparr>p_t = 4, p_np = 56, p_C = circuit_const circ,
      p_S = (\<lambda>i. circuit_const circ (mixs4_table ! i)),
      p_M = (\<lambda>i. circuit_const circ (mat_M4 ! i)), p_P = (\<lambda>i. circuit_const circ (mat_P4 ! i))\<rparr>"

definition poseidon3 :: "Circom_Circuit \<Rightarrow> params" where
  "poseidon3 circ =
     \<lparr>p_t = 3, p_np = 57, p_C = (\<lambda>i. circuit_const circ (841 + i)),
      p_S = (\<lambda>i. circuit_const circ (mixs3_table ! i)),
      p_M = (\<lambda>i. circuit_const circ (mat_M3 ! i)), p_P = (\<lambda>i. circuit_const circ (mat_P3 ! i))\<rparr>"

lemma cst_circuit: "circuit ctx = circ \<Longrightarrow> cst ctx i = circuit_const circ i"
  by (simp add: cst_def circuit_const_def)

section \<open>The run functions\<close>

text \<open>The entries of the table that are called through it: the layers of the two permutations.\<close>

definition leaf_table :: "runner list \<Rightarrow> bool" where
  "leaf_table ft \<longleftrightarrow> 137 \<le> length ft \<and>
     map ((!) ft) ark4_ids = ark4_runs \<and> map ((!) ft) ark3_ids = ark3_runs \<and>
     take 56 (drop 8 ft) = mixs4_runs \<and> take 57 (drop 77 ft) = mixs3_runs \<and>
     ft ! 3 = Mix_3_run \<and> ft ! 7 = Mix_7_run \<and> ft ! 72 = Mix_72_run \<and> ft ! 76 = Mix_76_run"

lemma nth_map_eq: "map f xs = ys \<Longrightarrow> i < length xs \<Longrightarrow> f (xs ! i) = ys ! i"
  by auto

lemma nth_slice: "take n (drop a xs) = ys \<Longrightarrow> i < n \<Longrightarrow> a + n \<le> length xs \<Longrightarrow> xs ! (a + i) = ys ! i"
  by auto

lemma sigma_computes: "computes circ tid sigma_shape Sigma_1_run (\<lambda>y _. y 0 ^ 5 mod q_int)"
  by (rule leaf_computes [where n = 4]) (use sigma_run_filled in \<open>simp_all add: sigma_shape_def Sigma_1_run_def\<close>)

text \<open>What a run function of a layer does, for a component that is ready and has its inputs.\<close>

definition layer_runs :: "Circom_Circuit \<Rightarrow> nat \<Rightarrow> runner \<Rightarrow> ((nat \<Rightarrow> int) \<Rightarrow> nat \<Rightarrow> int) \<Rightarrow> bool" where
  "layer_runs circ t r G \<longleftrightarrow> (\<forall>ctx idx start x. circuit ctx = circ \<longrightarrow> component_ready ctx idx start \<longrightarrow>
     unat start + 2 * t \<le> unat get_total_signal_no \<longrightarrow> carries ctx (unat start + t) t x \<longrightarrow>
     runs (r idx) ctx (\<lambda>ctx'. carries ctx' (unat start) t (G x) \<and> only_signals ctx ctx' (unat start) t))"

lemma layer_runsI:
  assumes "\<And>ctx idx start x. circuit ctx = circ \<Longrightarrow> component_ready ctx idx start \<Longrightarrow>
      unat start + 2 * t \<le> unat get_total_signal_no \<Longrightarrow> carries ctx (unat start + t) t x \<Longrightarrow>
      runs (r idx) ctx (\<lambda>ctx'. carries ctx' (unat start) t (G x) \<and> only_signals ctx ctx' (unat start) t)"
  shows "layer_runs circ t r G"
  using assms by (simp add: layer_runs_def)

lemma pex_fun_eq:
  "pex_fun p (Ark k) = ark_layer p (ark_off p k)" "pex_fun p (SigF r j) = (\<lambda>y _. y 0 ^ 5 mod q_int)"
  "pex_fun p (SigP r) = (\<lambda>y _. y 0 ^ 5 mod q_int)" "pex_fun p (Mix k) = mix_layer p (if k = 3 then p_P p else p_M p)"
  "pex_fun p (MixS r) = sparse_round (p_S p) (p_t p) ((2 * p_t p - 1) * r)"
  "pex_fun p MixLast = (\<lambda>y _. mix_layer p (p_M p) y 0)"
  by (rule ext, simp)+

lemma layer_comp: "0 < n_comp (layer_shape t)"
  by (simp add: layer_shape_def)

text \<open>The layers of the two permutations, as functions of the tables in the circuit data.\<close>

lemma ark4_layer:
  assumes c: "circuit_data_ok circ" and k: "k < 8"
  shows "layer_runs circ 4 (ark4_runs ! k) (ark_layer (poseidon4 circ) (ark_off (poseidon4 circ) k))"
proof (rule layer_runsI)
  have off: "ark4_off ! k = ark_off (poseidon4 circ) k"
    using k by (auto simp: ark4_off_def ark_off_def poseidon4_def less_Suc_eq numeral_eq_Suc)
  show "runs ((ark4_runs ! k) idx) ctx (\<lambda>ctx'.
      carries ctx' (unat start) 4 (ark_layer (poseidon4 circ) (ark_off (poseidon4 circ) k) x) \<and>
      only_signals ctx ctx' (unat start) 4)"
    if "circuit ctx = circ" "component_ready ctx idx start" "unat start + 2 * 4 \<le> unat get_total_signal_no"
      "carries ctx (unat start + 4) 4 x" for ctx idx start x
    using ark4_correct [OF k data_consts [OF c that(1)] that(2) _ that(4)] that(3)
    by (simp add: ark_layer_def off cst_circuit [OF that(1)] poseidon4_def carries_def)
qed

lemma mix4_layer:
  assumes c: "circuit_data_ok circ" and f: "(f, ms) = (Mix_3_run, mat_M4) \<or> (f, ms) = (Mix_7_run, mat_P4)"
  shows "layer_runs circ 4 f (mix_layer (poseidon4 circ) (\<lambda>i. circuit_const circ (ms ! i)))"
proof (rule layer_runsI)
  show "runs (f idx) ctx (\<lambda>ctx'. carries ctx' (unat start) 4
        (mix_layer (poseidon4 circ) (\<lambda>i. circuit_const circ (ms ! i)) x) \<and> only_signals ctx ctx' (unat start) 4)"
    if "circuit ctx = circ" "component_ready ctx idx start" "unat start + 2 * 4 \<le> unat get_total_signal_no"
      "carries ctx (unat start + 4) 4 x" for ctx idx start x
    using mix4_correct [OF data_consts [OF c that(1)] that(2) _ that(4) f] that(3)
    by (simp add: mix_layer_def cst_circuit [OF that(1)] poseidon4_def carries_def)
qed

lemma mixs4_layer:
  assumes c: "circuit_data_ok circ" and r: "r < 56"
  shows "layer_runs circ 4 (mixs4_runs ! r) (sparse_round (p_S (poseidon4 circ)) 4 (7 * r))"
proof (rule layer_runsI)
  show "runs ((mixs4_runs ! r) idx) ctx (\<lambda>ctx'.
      carries ctx' (unat start) 4 (sparse_round (p_S (poseidon4 circ)) 4 (7 * r) x) \<and>
      only_signals ctx ctx' (unat start) 4)"
    if "circuit ctx = circ" "component_ready ctx idx start" "unat start + 2 * 4 \<le> unat get_total_signal_no"
      "carries ctx (unat start + 4) 4 x" for ctx idx start x
    using mixs4_correct [OF r data_consts [OF c that(1)] that(2) _ that(4)] that(3)
    by (simp add: cst_circuit [OF that(1)] poseidon4_def)
qed

lemma ark3_layer:
  assumes c: "circuit_data_ok circ" and k: "k < 8"
  shows "layer_runs circ 3 (ark3_runs ! k) (ark_layer (poseidon3 circ) (ark_off (poseidon3 circ) k))"
proof (rule layer_runsI)
  have off: "ark3_off ! k = ark_off (poseidon3 circ) k"
    using k by (auto simp: ark3_off_def ark_off_def poseidon3_def less_Suc_eq numeral_eq_Suc)
  show "runs ((ark3_runs ! k) idx) ctx (\<lambda>ctx'.
      carries ctx' (unat start) 3 (ark_layer (poseidon3 circ) (ark_off (poseidon3 circ) k) x) \<and>
      only_signals ctx ctx' (unat start) 3)"
    if "circuit ctx = circ" "component_ready ctx idx start" "unat start + 2 * 3 \<le> unat get_total_signal_no"
      "carries ctx (unat start + 3) 3 x" for ctx idx start x
    using ark3_correct [OF k data_consts [OF c that(1)] that(2) _ that(4)] that(3)
    by (simp add: ark_layer_def off cst_circuit [OF that(1)] poseidon3_def carries_def)
qed

lemma mix3_layer:
  assumes c: "circuit_data_ok circ" and f: "(f, ms) = (Mix_72_run, mat_M3) \<or> (f, ms) = (Mix_76_run, mat_P3)"
  shows "layer_runs circ 3 f (mix_layer (poseidon3 circ) (\<lambda>i. circuit_const circ (ms ! i)))"
proof (rule layer_runsI)
  show "runs (f idx) ctx (\<lambda>ctx'. carries ctx' (unat start) 3
        (mix_layer (poseidon3 circ) (\<lambda>i. circuit_const circ (ms ! i)) x) \<and> only_signals ctx ctx' (unat start) 3)"
    if "circuit ctx = circ" "component_ready ctx idx start" "unat start + 2 * 3 \<le> unat get_total_signal_no"
      "carries ctx (unat start + 3) 3 x" for ctx idx start x
    using mix3_correct [OF data_consts [OF c that(1)] that(2) _ that(4) f] that(3)
    by (simp add: mix_layer_def cst_circuit [OF that(1)] poseidon3_def carries_def)
qed

lemma mixs3_layer:
  assumes c: "circuit_data_ok circ" and r: "r < 57"
  shows "layer_runs circ 3 (mixs3_runs ! r) (sparse_round (p_S (poseidon3 circ)) 3 (5 * r))"
proof (rule layer_runsI)
  show "runs ((mixs3_runs ! r) idx) ctx (\<lambda>ctx'.
      carries ctx' (unat start) 3 (sparse_round (p_S (poseidon3 circ)) 3 (5 * r) x) \<and>
      only_signals ctx ctx' (unat start) 3)"
    if "circuit ctx = circ" "component_ready ctx idx start" "unat start + 2 * 3 \<le> unat get_total_signal_no"
      "carries ctx (unat start + 3) 3 x" for ctx idx start x
    using mixs3_correct [OF r data_consts [OF c that(1)] that(2) _ that(4)] that(3)
    by (simp add: cst_circuit [OF that(1)] poseidon3_def)
qed

lemma mixlast_computes:
  assumes c: "circuit_data_ok circ"
    and f: "(f, t, ms) = (MixLast_67_run, 4, mat_M4) \<or> (f, t, ms) = (MixLast_137_run, 3, mat_M3)"
    and p: "p_t p = t" "p_M p = (\<lambda>i. circuit_const circ (ms ! i))"
  shows "computes circ tid (last_shape t) f (\<lambda>y _. mix_layer p (p_M p) y 0)"
proof (rule plain_leaf_computes)
  show "runs (f idx) ctx (\<lambda>ctx'. carries ctx' (unat start) (n_out (last_shape t))
      (\<lambda>_. mix_layer p (p_M p) x 0) \<and> only_signals ctx ctx' (unat start) (n_out (last_shape t)))"
    if "circuit ctx = circ" "component_ready ctx idx start"
      "unat start + n_sig (last_shape t) \<le> unat get_total_signal_no"
      "carries ctx (unat start + in_at (last_shape t)) (n_in (last_shape t)) x" for ctx idx start x
    using mixlast_correct [OF data_consts [OF c that(1)] that(2), of t x f ms] that(3,4) f p
    by (simp add: mix_layer_def cst_circuit [OF that(1)] last_shape_def)
qed (use f in \<open>auto simp: last_shape_def\<close>)

text \<open>What a slot calls satisfies the contract of the slot, for the two widths.\<close>

lemma layer_slot:
  assumes "layer_runs circ t r G" "t = 3 \<or> t = 4" "leaf_table ft" "ft ! k = r" "k < 137"
  shows "computes circ (of_nat k) (layer_shape t) (by_table ft) G"
proof (rule by_table_computes)
  show "computes circ (of_nat k) (layer_shape t) (ft ! unat (of_nat k :: u32)) G"
    using assms by (auto simp: unat_of_nat_u32 layer_shape_def layer_runs_def intro!: plain_leaf_computes)
qed (use assms in \<open>simp_all add: unat_of_nat_u32 leaf_table_def layer_shape_def\<close>)

lemma bounded_ids: "list_all (\<lambda>m. m < 137) (ark4_ids @ ark3_ids)" "length ark4_ids = 8" "length ark3_ids = 8"
  by (simp_all add: ark4_ids_def ark3_ids_def)

lemma slots4_compute:
  assumes c: "circuit_data_ok circ" and ft: "leaf_table ft" and \<kappa>: "pex_slot 4 56 \<kappa>"
  shows "computes circ (pex_tmpl 4 \<kappa>) (pex_shp 4 \<kappa>) (pex_runner ft MixLast_67_run \<kappa>)
    (pex_fun (poseidon4 circ) \<kappa>)"
proof (cases \<kappa>)
  case (Ark k)
  have k: "k < 8" using \<kappa> Ark by simp
  have "ft ! (ark4_ids ! k) = ark4_runs ! k" using ft k nth_map_eq [of "(!) ft" ark4_ids ark4_runs k] bounded_ids
    by (simp add: leaf_table_def)
  moreover have "ark4_ids ! k < 137" using bounded_ids k by (simp add: list_all_iff)
  ultimately show ?thesis using Ark layer_slot [OF ark4_layer [OF c k] _ ft] by (simp add: pex_fun_eq)
next
  case (Mix k)
  have "ft ! 3 = Mix_3_run" "ft ! 7 = Mix_7_run" using ft by (simp_all add: leaf_table_def)
  then show ?thesis
    using Mix layer_slot [OF mix4_layer [OF c, of _ mat_M4] _ ft, of _ 3] layer_slot [OF mix4_layer [OF c, of _ mat_P4] _ ft, of _ 7]
    by (simp add: pex_fun_eq poseidon4_def)
next
  case (MixS r)
  have r: "r < 56" using \<kappa> MixS by simp
  have "ft ! (8 + r) = mixs4_runs ! r" using ft r nth_slice [of 56 8 ft mixs4_runs r] by (simp add: leaf_table_def)
  from layer_slot [OF mixs4_layer [OF c r] _ ft this] r MixS show ?thesis by (simp add: pex_fun_eq poseidon4_def)
next
  case MixLast
  then show ?thesis using mixlast_computes [OF c, of MixLast_67_run 4 mat_M4 "poseidon4 circ"]
    by (simp add: pex_fun_eq poseidon4_def)
qed (use sigma_computes in \<open>simp_all add: pex_fun_eq\<close>)

lemma slots3_compute:
  assumes c: "circuit_data_ok circ" and ft: "leaf_table ft" and \<kappa>: "pex_slot 3 57 \<kappa>"
  shows "computes circ (pex_tmpl 3 \<kappa>) (pex_shp 3 \<kappa>) (pex_runner ft MixLast_137_run \<kappa>)
    (pex_fun (poseidon3 circ) \<kappa>)"
proof (cases \<kappa>)
  case (Ark k)
  have k: "k < 8" using \<kappa> Ark by simp
  have "ft ! (ark3_ids ! k) = ark3_runs ! k" using ft k nth_map_eq [of "(!) ft" ark3_ids ark3_runs k] bounded_ids
    by (simp add: leaf_table_def)
  moreover have "ark3_ids ! k < 137" using bounded_ids k by (simp add: list_all_iff)
  ultimately show ?thesis using Ark layer_slot [OF ark3_layer [OF c k] _ ft] by (simp add: pex_fun_eq)
next
  case (Mix k)
  have "ft ! 72 = Mix_72_run" "ft ! 76 = Mix_76_run" using ft by (simp_all add: leaf_table_def)
  then show ?thesis
    using Mix layer_slot [OF mix3_layer [OF c, of _ mat_M3] _ ft, of _ 72] layer_slot [OF mix3_layer [OF c, of _ mat_P3] _ ft, of _ 76]
    by (simp add: pex_fun_eq poseidon3_def)
next
  case (MixS r)
  have r: "r < 57" using \<kappa> MixS by simp
  have "ft ! (77 + r) = mixs3_runs ! r" using ft r nth_slice [of 57 77 ft mixs3_runs r] by (simp add: leaf_table_def)
  from layer_slot [OF mixs3_layer [OF c r] _ ft this] r MixS show ?thesis by (simp add: pex_fun_eq poseidon3_def)
next
  case MixLast
  then show ?thesis using mixlast_computes [OF c, of MixLast_137_run 3 mat_M3 "poseidon3 circ"]
    by (simp add: pex_fun_eq poseidon3_def)
qed (use sigma_computes in \<open>simp_all add: pex_fun_eq\<close>)

end
