(* ===== verification/Poseidon_Contract.thy ===== *)
theory Poseidon_Contract
  imports Poseidon_Ends Poseidon_Locals Leaf_Contracts
begin

text \<open>
  The whole body of \<open>PoseidonEx\<close> and the contract of its run function, for the two widths of the
  circuit; then the contract of \<open>Poseidon\<close>.
\<close>

context pex
begin

lemma runs_pex_body:
  assumes J: "pex_job t np tc npc p (hash_in (x (t - 1)) x) ft ml J"
    and s: "st J {} {} (own_inputs (pex_shape t np) x) s"
    and crs: "creators_ok arks Ark 8" "creators_ok mixes Mix 7" "creators_ok mixSs MixS np"
      "creators_ok [mixLast] (\<lambda>_. MixLast) 1"
    and c: "width_args_ok (net_consts J)" "tc < 25024" "npc < 25024" "nInputs < 25024"
      "\<And>k. k < 25024 \<Longrightarrow> fok (net_consts J ! k)"
    and cc: "branch_consts (POSEIDON_C_branches ! (t - 2)) = [cc..<cc + (8 * t + np)]" "cc + 8 * t + np \<le> 25024"
      "\<And>i. i < 8 * t + np \<Longrightarrow> p_C p i = fval (net_consts J ! (cc + i))"
  shows "runs (seqM (pex_body t np tc npc nInputs arks mixes mixSs mixLast ml ft)) s (\<lambda>u. \<exists>F W. st J slots F W u \<and>
    (\<forall>\<kappa>\<in>slots. \<forall>j < n_in (pex_shp t \<kappa>). (\<kappa>, j) \<in> F) \<and> (\<forall>i < pex_own t. W i \<noteq> None) \<and>
    W 0 = Some (permutation_out p (hash_in (x (t - 1)) x)))"
proof -
  let ?r = "lv_r t np" and ?j = "lv_j t np" and ?x = "hash_in (x (t - 1)) x"
  let ?W = "own_inputs (pex_shape t np) x"
  let ?F1 = "{} \<union> fed (\<lambda>_. Ark 0) (\<lambda>j. j) t"
  let ?F2 = "(?F1 \<union> full_done 0 4) \<union> part_done np"
  let ?F3 = "?F2 \<union> full_done 4 3"
  let ?F4 = "?F3 \<union> fed (SigF 7) (\<lambda>_. 0) t \<union> fed (\<lambda>_. MixLast) (\<lambda>j. j) t"
  let ?Q = "\<lambda>u. partial_consts p (lvar u)"
  note kpc = keeps_partial_consts [of p] and done_iff = full_done_iff full_done_Ark part_done_iff
  have params: "runs (load_consts [(0, nInputs), (1, 90)]) s (st J {} {} ?W)"
    by (rule runs_mono [OF runs_loads [OF s]]) (use c(1,4) jobD(8) [OF J] positions in \<open>auto simp: width_args_ok_def\<close>)
  have create: "runs (seqM (pex_create t np arks mixes mixSs mixLast)) u (st J slots {} ?W)"
    if "st J {} {} ?W u" for u
    by (rule runs_mono [OF runs_pex_create [OF that crs]]) simp
  have locals: "runs (seqM (pex_locals t np tc npc)) u (\<lambda>u. st J slots {} ?W u \<and> ?Q u)" if "st J slots {} ?W u" for u
    by (rule runs_pex_locals [OF J that c(1-3,5) cc])
  have inputs: "runs (seqM (pex_inputs t tc ?r ft)) u (\<lambda>u. st J slots ?F1 ?W u \<and> ?Q u)"
    if "st J slots {} ?W u \<and> ?Q u" for u
    by (rule runs_pex_inputs [OF J kpc]) (use that in \<open>auto simp: own_inputs_def pex_shape_def\<close>)
  have first: "runs (seqM (full_rounds t np tc 0 0 [op2 Fr_sub 0 (lv ?r) (con 90)] ?r ?j ft)) u
      (\<lambda>u. st J slots (?F1 \<union> full_done 0 3) ?W u \<and> ?Q u)" if u: "st J slots ?F1 ?W u \<and> ?Q u" for u
  proof (rule runs_full_rounds [OF J kpc _ conjunct1 [OF u] conjunct2 [OF u], where ?\<kappa>0.0 = "Ark 0"])
    show "index_after [op2 Fr_sub 0 (lv ?r) (con 90)] (ixs [(1, exp_at 0)] (at_mix t np)) s (at_mix t np + (0 + r - 1))"
      if "st J slots F W s" "counter s ?r r" "0 < r" "r < 3" for s F W r
      using index_pred [OF that(1), of ?r "r - 1" "at_mix t np"] that(2-4) jobD(2,7) [OF J] by simp
    show "pex_fun p (Ark 0) (pex_ins p ?x (Ark 0)) j = pex_ins p ?x (SigF 0 j) 0" for j
      using pex_flow(1) [of p ?x j 0] by simp
  qed auto
  have middle: "runs (seqM (middle_round t np tc ?r ft)) u (\<lambda>u. st J slots (?F1 \<union> full_done 0 4) ?W u \<and> ?Q u)"
    if "st J slots (?F1 \<union> full_done 0 3) ?W u \<and> ?Q u" for u
    by (rule runs_middle_round [OF J kpc]) (use that in auto)
  have partial: "runs (seqM (partial_rounds t np tc npc ?r ?j ft)) u (\<lambda>u. st J slots ?F2 ?W u \<and> ?Q u)"
    if "st J slots (?F1 \<union> full_done 0 4) ?W u \<and> ?Q u" for u
    by (rule runs_partial_rounds [OF J]) (use that in \<open>auto simp: full_done_iff\<close>)
  have second: "runs (seqM (full_rounds t np tc 4 (at_mixS t np + np - 1)
      [op2 Fr_add 1 (con 89) (lv ?r), op2 Fr_sub 0 (exp_at 1) (con 90)] ?r ?j ft)) u
      (\<lambda>u. st J slots ?F3 ?W u \<and> ?Q u)" if u: "st J slots ?F2 ?W u \<and> ?Q u" for u
  proof (rule runs_full_rounds [OF J kpc _ conjunct1 [OF u] conjunct2 [OF u], where ?\<kappa>0.0 = "MixS (np - 1)"])
    show "index_after [op2 Fr_add 1 (con 89) (lv ?r), op2 Fr_sub 0 (exp_at 1) (con 90)]
        (ixs [(1, exp_at 0)] (at_mix t np)) s (at_mix t np + (4 + r - 1))"
      if "st J slots F W s" "counter s ?r r" "0 < r" "r < 3" for s F W r
      using index_pred4 [OF that(1,2), of "at_mix t np"] that(3,4) jobD(2,4,7) [OF J] by (simp add: add.commute)
    show "pex_fun p (MixS (np - 1)) (pex_ins p ?x (MixS (np - 1))) j = pex_ins p ?x (SigF 4 j) 0" for j
      using pex_flow(4) [of "np - 1" p ?x j 0] jobD(12) [OF J] t_pos(2) by simp
    show "at_mixS t np + np - 1 = pex_num t np (MixS (np - 1))" using t_pos(2) by (simp add: at_mixS_def)
  qed (use t_pos(2) in \<open>auto simp: done_iff\<close>)
  have last: "runs (seqM (last_round t np tc ?r ?j ml)) u (st J slots ?F4 (?W(0 \<mapsto> permutation_out p ?x)))"
    if "st J slots ?F3 ?W u \<and> ?Q u" for u
    by (rule runs_last_round [OF J]) (use that in \<open>auto simp: done_iff\<close>)
  have all: "(\<kappa>, j) \<in> ?F4" if "\<kappa> \<in> slots" "j < n_in (pex_shp t \<kappa>)" for \<kappa> j
    using that by (cases \<kappa>) (auto simp: slots_def done_iff)
  show ?thesis
    unfolding pex_body_def Let_def runs_seq_append runs_seq_Cons [of "load_consts _"] runs_seq_Nil
    apply (rule runs_mono [OF params], rule runs_mono [OF create], assumption)
    apply (rule runs_mono [OF locals], assumption, rule runs_mono [OF inputs], assumption)
    apply (rule runs_mono [OF first], assumption, rule runs_mono [OF middle], assumption)
    apply (rule runs_mono [OF partial], assumption, rule runs_mono [OF second], assumption)
    apply (rule runs_mono [OF last], assumption)
    apply (rule exI [of _ ?F4], rule exI [of _ "?W(0 \<mapsto> permutation_out p ?x)"])
    using all by (auto simp: own_inputs_def pex_shape_def pex_own_def)
qed

lemma pex_computes:
  assumes pc: "pex_circuit t np tc npc p ft ml circ"
    and crs: "creators_ok arks Ark 8" "creators_ok mixes Mix 7" "creators_ok mixSs MixS np"
      "creators_ok [mixLast] (\<lambda>_. MixLast) 1"
    and c: "width_args_ok (circuitConstants circ)" "tc < 25024" "npc < 25024" "nInputs < 25024"
      "\<And>k. k < 25024 \<Longrightarrow> fok (circuitConstants circ ! k)"
    and cc: "branch_consts (POSEIDON_C_branches ! (t - 2)) = [cc..<cc + (8 * t + np)]" "cc + 8 * t + np \<le> 25024"
      "\<And>i. i < 8 * t + np \<Longrightarrow> p_C p i = fval (circuitConstants circ ! (cc + i))"
  shows "computes circ tid (pex_shape t np) (run_template 3 (lv_j t np + 1) (pex_nslots t np)
      (pex_body t np tc npc nInputs arks mixes mixSs mixLast ml ft))
    (\<lambda>x _. permutation_out p (hash_in (x (t - 1)) x))"
proof (rule composite_computes [where V = "\<lambda>x. pex_ins p (hash_in (x (t - 1)) x)" and Gs = "pex_fun p"])
  fix J :: "pslot job" and s x
  assume J: "circuit (j_init J) = circ" "j_ins J = pex_ins p (hash_in (x (t - 1)) x)" "j_fun J = pex_fun p" "j_exp J = 3"
    "j_lv J = lv_j t np + 1" and s: "st J {} {} (own_inputs (pex_shape t np) x) s"
  have "pex_job t np tc npc p (hash_in (x (t - 1)) x) ft ml J" using pc J by (simp add: pex_job_def)
  from runs_pex_body [OF this s crs _ c(2-4) _ cc(1,2)] c(1,5) cc(3) J(1)
  have *: "runs (seqM (pex_body t np tc npc nInputs arks mixes mixSs mixLast ml ft)) s (\<lambda>u. \<exists>F W. st J slots F W u \<and>
    (\<forall>\<kappa>\<in>slots. \<forall>j < n_in (pex_shp t \<kappa>). (\<kappa>, j) \<in> F) \<and> (\<forall>i < pex_own t. W i \<noteq> None) \<and>
    W 0 = Some (permutation_out p (hash_in (x (t - 1)) x)))"
    by simp
  show "runs (seqM (pex_body t np tc npc nInputs arks mixes mixSs mixLast ml ft)) s
    (\<lambda>u. \<exists>F W. st J {\<kappa>. pex_slot t np \<kappa>} F W u \<and>
      (\<forall>\<kappa>\<in>{\<kappa>. pex_slot t np \<kappa>}. \<forall>j < n_in (pex_shp t \<kappa>). (\<kappa>, j) \<in> F) \<and>
      (\<forall>i < pex_own t. W i \<noteq> None) \<and> (\<forall>i < n_out (pex_shape t np). W i = Some (permutation_out p (hash_in (x (t - 1)) x))))"
    by (rule runs_mono [OF * [unfolded slots_def]]) (simp add: pex_shape_def)
qed (simp_all add: pex_shape_def pex_sizes)

end

text \<open>The two widths of the circuit.\<close>

interpretation pex4: pex 4 56
  by unfold_locales simp

interpretation pex3: pex 3 57
  by unfold_locales simp

lemma layered_fields:
  assumes c: "circuit_data_ok circ" and \<kappa>: "layered \<kappa>"
  shows "pex_slot 4 56 \<kappa> \<Longrightarrow> io_field circ (pex_tmpl 4 \<kappa>) 0 0 \<and> io_field circ (pex_tmpl 4 \<kappa>) 1 4"
    "pex_slot 3 57 \<kappa> \<Longrightarrow> io_field circ (pex_tmpl 3 \<kappa>) 0 0 \<and> io_field circ (pex_tmpl 3 \<kappa>) 1 3"
proof -
  have "k < 137 \<longrightarrow> k \<notin> {1, 67, 68, 69} \<longrightarrow>
      io_field circ (of_nat k) 0 0 \<and> io_field circ (of_nat k) 1 (if k < 70 then 4 else 3)" for k
    using c by (simp only: circuit_data_ok_def) blast
  note all = this [rule_format]
  have io: "io_field circ (of_nat k) 0 0 \<and> io_field circ (of_nat k) 1 4" if "k = 0 \<or> 2 \<le> k \<and> k < 67" for k
    using all [of k] that by auto
  have io3: "io_field circ (of_nat k) 0 0 \<and> io_field circ (of_nat k) 1 3" if "70 \<le> k \<and> k < 137" for k
    using all [of k] that by auto
  have "list_all (\<lambda>k. k = 0 \<or> 2 \<le> k \<and> k < 67) ark4_ids" "list_all (\<lambda>k. 70 \<le> k \<and> k < 137) ark3_ids"
    by (simp_all add: ark4_ids_def ark3_ids_def)
  then have ark: "ark4_ids ! k = 0 \<or> 2 \<le> ark4_ids ! k \<and> ark4_ids ! k < 67" "70 \<le> ark3_ids ! k \<and> ark3_ids ! k < 137"
    if "k < 8" for k
    using that by (simp_all add: list_all_length ark4_ids_def ark3_ids_def)
  show "pex_slot 4 56 \<kappa> \<Longrightarrow> io_field circ (pex_tmpl 4 \<kappa>) 0 0 \<and> io_field circ (pex_tmpl 4 \<kappa>) 1 4"
    using \<kappa> io [OF ark(1)] io [of 3] io [of 7] io [of "8 + _"] by (cases \<kappa>) auto
  show "pex_slot 3 57 \<kappa> \<Longrightarrow> io_field circ (pex_tmpl 3 \<kappa>) 0 0 \<and> io_field circ (pex_tmpl 3 \<kappa>) 1 3"
    using \<kappa> io3 [OF ark(2)] io3 [of 72] io3 [of 76] io3 [of "77 + _"] by (cases \<kappa>) auto
qed

lemma pex_circuits:
  assumes c: "circuit_data_ok circ" and ft: "leaf_table ft"
  shows "pex_circuit 4 56 89 473 (poseidon4 circ) ft MixLast_67_run circ"
    "pex_circuit 3 57 460 603 (poseidon3 circ) ft MixLast_137_run circ"
  using data_small [OF c] data_length [OF c] slots4_compute [OF c ft] slots3_compute [OF c ft] layered_fields [OF c]
  by (simp_all add: pex_circuit_def poseidon4_def poseidon3_def network_constants_def)

end
