(* ===== verification/Poseidon_Template.thy ===== *)
theory Poseidon_Template
  imports Poseidon_Contract
begin

text \<open>
  The contracts of the generated functions: \<open>PoseidonEx_68_run\<close> and \<open>PoseidonEx_138_run\<close> compute the
  permutation, \<open>Poseidon_69_run\<close> and \<open>Poseidon_139_run\<close> the hash of three and of two inputs.
\<close>

section \<open>\<open>PoseidonEx\<close>\<close>

lemmas creator_lists = arks_4_def mixes_4_def mixSs_4_def arks_3_def mixes_3_def mixSs_3_def

lemma creators_okI:
  assumes "crs = map (\<lambda>k. create_component (pex_tmpl t (\<kappa> k)) tn (of_nat t) 0) [0..<n]"
  shows "length crs = n \<and> (\<forall>k < n. \<exists>tn. crs ! k = create_component (pex_tmpl t (\<kappa> k)) tn (of_nat t) 0)"
  using assms by auto

lemma creators4:
  "pex4.creators_ok arks_4 Ark 8" "pex4.creators_ok mixes_4 Mix 7" "pex4.creators_ok mixSs_4 MixS 56"
  "pex4.creators_ok [MixLast_67_create] (\<lambda>_. MixLast) 1"
  unfolding pex4.creators_ok_def
  by (rule creators_okI [where tn = "''Ark''"], simp add: arks_4_def ark4_ids_def create_defs upt_rec,
      rule creators_okI [where tn = "''Mix''"], simp add: mixes_4_def create_defs upt_rec,
      rule creators_okI [where tn = "''MixS''"], simp add: mixSs_4_def create_defs upt_rec,
      rule creators_okI [where tn = "''MixLast''"], simp add: create_defs)

lemma creators3:
  "pex3.creators_ok arks_3 Ark 8" "pex3.creators_ok mixes_3 Mix 7" "pex3.creators_ok mixSs_3 MixS 57"
  "pex3.creators_ok [MixLast_137_create] (\<lambda>_. MixLast) 1"
  unfolding pex3.creators_ok_def
  by (rule creators_okI [where tn = "''Ark''"], simp add: arks_3_def ark3_ids_def create_defs upt_rec,
      rule creators_okI [where tn = "''Mix''"], simp add: mixes_3_def create_defs upt_rec,
      rule creators_okI [where tn = "''MixS''"], simp add: mixSs_3_def create_defs upt_rec,
      rule creators_okI [where tn = "''MixLast''"], simp add: create_defs)

lemma round_constants:
  "branch_consts (POSEIDON_C_branches ! (4 - 2)) = [0..<0 + (8 * 4 + 56)]"
  "branch_consts (POSEIDON_C_branches ! (3 - 2)) = [841..<841 + (8 * 3 + 57)]"
  using inlined_tables(1,2) by (simp_all add: POSEIDON_C_branches_def)

lemma pex_locals_size: "lv_j 4 56 = 542" "lv_j 3 57 = 412" "pex_nslots 4 56 = 160" "pex_nslots 3 57 = 154"
  by (simp_all add: lv_j_def lv_r_def at_P_def at_M_def at_S_def pex_nslots_def)

lemma PoseidonEx_68_computes:
  assumes "circuit_data_ok circ" "leaf_table ft"
  shows "computes circ tid (pex_shape 4 56) (PoseidonEx_68_run ft)
    (\<lambda>x _. permutation_out (poseidon4 circ) (hash_in (x 3) x))"
  using pex4.pex_computes [OF pex_circuits(1) [OF assms] creators4 data_width_args [OF assms(1)] _ _ _
      data_fok [OF assms(1)] round_constants(1), of 460 tid]
  by (simp add: PoseidonEx_68_run_def pex_locals_size poseidon4_def circuit_const_def)

lemma PoseidonEx_138_computes:
  assumes "circuit_data_ok circ" "leaf_table ft"
  shows "computes circ tid (pex_shape 3 57) (PoseidonEx_138_run ft)
    (\<lambda>x _. permutation_out (poseidon3 circ) (hash_in (x 2) x))"
  using pex3.pex_computes [OF pex_circuits(2) [OF assms] creators3 data_width_args [OF assms(1)] _ _ _
      data_fok [OF assms(1)] round_constants(2), of 457 tid]
  by (simp add: PoseidonEx_138_run_def pex_locals_size poseidon3_def circuit_const_def)

section \<open>\<open>Poseidon\<close>\<close>

text \<open>The hash does not depend on elements past the width.\<close>

lemma mix_layer_cong: "(\<And>j. j < p_t p \<Longrightarrow> x j = y j) \<Longrightarrow> mix_layer p M x = mix_layer p M y"
  by (rule ext) (simp add: mix_layer_def)

lemma permutation_out_cong:
  assumes "\<And>j. j < p_t p \<Longrightarrow> x j = y j"
  shows "permutation_out p x = permutation_out p y"
proof -
  have "first_state p x 1 = first_state p y 1"
    using assms by (auto simp: first_state_def full_round_def ark_layer_def sbox_def intro!: mix_layer_cong)
  then have "first_state p x 3 = first_state p y 3"
    by (simp add: first_state_def numeral_3_eq_3)
  then show ?thesis by (simp add: permutation_out_def second_state_def partial_state_def)
qed

text \<open>
  The network of \<open>Poseidon\<close> with \<open>n\<close> inputs has one slot. The permutation's input \<open>n\<close> is the initial
  state; the others are the inputs of the hash.
\<close>

definition poseidon_shape :: "nat \<Rightarrow> nat \<Rightarrow> shape" where
  "poseidon_shape n np = \<lparr>n_in = n, in_at = 1, n_out = 1, n_sig = n + 1 + pex_nsig (n + 1) np,
     n_comp = 1 + pex_ncomp (n + 1) np, n_sub = 1\<rparr>"

locale poseidon =
  fixes n np :: nat and tid :: u32
  assumes widths: "n = 3 \<and> np = 56 \<or> n = 2 \<and> np = 57"

sublocale poseidon \<subseteq> network "{()}" "\<lambda>_. 0" "\<lambda>_. 1" "\<lambda>_. n + 1" "\<lambda>_. pex_shape (n + 1) np" "\<lambda>_. tid"
  1 "n + 1" "1 + pex_ncomp (n + 1) np" "n + 1 + pex_nsig (n + 1) np"
  by unfold_locales (use widths in \<open>auto simp: pex_shape_def pex_sizes\<close>)

context poseidon
begin

lemma shape_fields [simp]:
  "n_in (pex_shape t np) = t" "in_at (pex_shape t np) = 1" "n_out (pex_shape t np) = 1"
  "n_sig (pex_shape t np) = pex_nsig t np"
  by (simp_all add: pex_shape_def)

lemma runs_poseidon_body:
  assumes J: "j_ins J = (\<lambda>_ j. if j = n then 0 else x j)" "j_fun J = (\<lambda>_ y _. permutation_out p (hash_in (y n) y))"
      "j_exp J = 2" "j_lv J = 2"
    and c: "cval J 88 0" "cval J 90 1" "cval J nInputs n" "fok (circuitConstants (circuit (j_init J)) ! 88)"
    and p: "p_t p = n + 1"
    and cr: "cr = create_component tid ''PoseidonEx'' (of_nat (n + 1)) (pex_nslots (n + 1) np)"
    and r: "computes (circuit (j_init J)) tid (pex_shape (n + 1) np) r (j_fun J ())"
    and s: "st J {} {} (own_inputs (poseidon_shape n np) x) s"
  shows "runs (seqM (poseidon_body n nInputs cr r)) s (\<lambda>u. \<exists>F W. st J {()} F W u \<and>
    (\<forall>j < n + 1. ((), j) \<in> F) \<and> (\<forall>i < n + 1. W i \<noteq> None) \<and> W 0 = Some (poseidon_hash p x))"
proof -
  let ?W = "own_inputs (poseidon_shape n np) x"
  let ?F = "\<lambda>i. {((), n)} \<union> fed (\<lambda>_. ()) (\<lambda>j. j) i"
  have nsig: "n + 1 < pex_nsig (n + 1) np" using widths by (auto simp: pex_nsig_def)
  have k0: "ixs [] 0 s = Inr (int 0)" for s by (rule ixs_lit)
  have params: "runs (load_consts [(0, nInputs)]) s (st J {} {} ?W)"
    by (rule runs_mono [OF runs_loads [OF s]]) (use c(3) J(4) in \<open>simp_all add: cval_def\<close>)
  have create: "runs (create_sub cr 0 (n + 1) 0 ''pEx'') u (st J {()} {} ?W)" if u: "st J {} {} ?W u" for u
    by (rule runs_mono [OF runs_create_sub [OF u, of "()" 0 "n + 1" 0 cr "''PoseidonEx''"]])
      (simp_all add: cr pex_shape_def)
  have init: "runs (sub_input (ixs [] 0) (sub_addr (ixs [] (n + 1))) [] (con 88) r) u (st J {()} (?F 0) ?W)"
    if u: "st J {()} {} ?W u" for u
  proof -
    have z: "con 88 u = Inr (circuitConstants (circuit (j_init J)) ! 88)" "small (circuitConstants (circuit (j_init J)) ! 88) 0"
      using c(1) by (simp_all add: cval_def con_eq stD(6) [OF u])
    have "runs (sub_input (ixs [] 0) (sub_addr (ixs [] (n + 1))) [] (con 88) r) u
        (\<lambda>w. st J {()} (insert ((), n) {}) ?W w \<and> lvar w = lvar u)"
    proof (rule runs_feed [where k = "ixs [] 0", OF u _ k0 _ _ _ _ r])
      show "points (sub_addr (ixs [] (n + 1))) J u () (in_at (pex_shape (n + 1) np) + n)"
        by (rule points_sub_addr [OF u]) (use nsig in \<open>simp_all add: ixs_lit\<close>)
      show "source [] (con 88) u (j_ins J () n)"
        using z c(4) J(1) small_fval [OF z(2)] by (simp add: gives_def)
    qed simp_all
    then show ?thesis by (rule runs_mono) simp
  qed
  have inputs: "runs (seqM (for_loop 1 nInputs
      [sub_input (ixs [] 0) (sub_addr (ixs [(1, lv 1)] 1)) [] (sig_ix (ixs [(1, lv 1)] 1)) r])) u
      (\<lambda>w. st J {()} (?F n) ?W w \<and> True)" if u: "st J {()} (?F 0) ?W u" for u
    unfolding for_loop_def
  proof (rule runs_feed_for [OF c(3,1,2)])
    fix i w assume i: "i < n" and w: "st J {()} ({((), n)} \<union> fed (\<lambda>_. ()) (\<lambda>j. j) i) ?W w" and k: "counter w 1 i"
    have ix: "ixs [(1, lv 1)] 1 w = Inr (int (1 + i))" by (rule ixs_counter1 [OF k]) simp
    have "runs (sub_input (ixs [] 0) (sub_addr (ixs [(1, lv 1)] 1)) [] (sig_ix (ixs [(1, lv 1)] 1)) r) w
        (\<lambda>t. st J {()} (insert ((), i) (?F i)) ?W t \<and> lvar t = lvar w)"
    proof (rule runs_feed [where k = "ixs [] 0", OF w _ k0 _ _ _ _ r])
      show "points (sub_addr (ixs [(1, lv 1)] 1)) J w () (in_at (pex_shape (n + 1) np) + i)"
        by (rule points_sub_addr [OF w]) (use ix i nsig in simp_all)
      have "gives (sig_ix (ixs [(1, lv 1)] 1)) w (x i)"
        by (rule gives_own [where ix = "ixs [(1, lv 1)] 1", OF w ix]) (use i in \<open>simp_all add: own_inputs_def poseidon_shape_def\<close>)
      then show "source [] (sig_ix (ixs [(1, lv 1)] 1)) w (j_ins J () i)" using i J(1) by simp
    qed (use i in auto)
    then show "runs (seqM [sub_input (ixs [] 0) (sub_addr (ixs [(1, lv 1)] 1)) [] (sig_ix (ixs [(1, lv 1)] 1)) r]) w
        (\<lambda>t. st J {()} (insert ((), i) ({((), n)} \<union> fed (\<lambda>_. ()) (\<lambda>j. j) i)) ?W t \<and> lvar t = lvar w)"
      by (simp add: wp)
  qed (use u J widths in auto)
  have hash: "j_fun J () (j_ins J ()) 0 = poseidon_hash p x"
    using J(1,2) p by (auto simp: poseidon_hash_def hash_in_def intro!: permutation_out_cong)
  have out: "runs (block (to_sig (ixs [] 0)) [] (from_sub (ixs [] 0) out0)) u
      (st J {()} (?F n) (?W(0 \<mapsto> poseidon_hash p x)))" if u: "st J {()} (?F n) ?W u \<and> True" for u
  proof -
    have u: "st J {()} (?F n) ?W u" using u by simp
    have "gives (from_sub (ixs [] 0) out0) u (j_fun J () (j_ins J ()) 0)"
      by (rule gives_from_sub [OF u _ k0])
        (use points_sub_addr [where ix = "ixs [] 0", OF u, of "()" 0] nsig in \<open>auto simp: out0_def ixs_lit less_Suc_eq\<close>)
    then have "source [] (from_sub (ixs [] 0) out0) u (poseidon_hash p x)" by (simp add: hash)
    from runs_own_write [where ix = "ixs [] 0", OF u k0 _ this] show ?thesis by (rule runs_mono) (blast | simp)+
  qed
  show ?thesis
    unfolding poseidon_body_def runs_seq_append runs_seq_Cons [of "load_consts _"] runs_seq_Cons [of "create_sub _ _ _ _ _"]
      runs_seq_Cons [of "sub_input _ _ _ _ _"] runs_seq_Cons [of "block _ _ _"] runs_seq_Nil
    apply (rule runs_mono [OF params], rule runs_mono [OF create], assumption)
    apply (rule runs_mono [OF init], assumption, rule runs_mono [OF inputs], assumption)
    apply (rule runs_mono [OF out], assumption)
    apply (rule exI [of _ "?F n"], rule exI [of _ "?W(0 \<mapsto> poseidon_hash p x)"])
    by (auto simp: less_Suc_eq own_inputs_def poseidon_shape_def)
qed

lemma poseidon_computes:
  assumes c: "circuit_data_ok circ" "nInputs < 25024" "small (circuitConstants circ ! nInputs) (int n)" and p: "p_t p = n + 1"
    and cr: "cr = create_component tid ''PoseidonEx'' (of_nat (n + 1)) (pex_nslots (n + 1) np)"
    and r: "computes circ tid (pex_shape (n + 1) np) r (\<lambda>x _. permutation_out p (hash_in (x n) x))"
  shows "computes circ tid' (poseidon_shape n np) (run_template 2 2 1 (poseidon_body n nInputs cr r)) (\<lambda>x _. poseidon_hash p x)"
proof (rule composite_computes [where V = "\<lambda>x _ j. if j = n then 0 else x j" and Gs = "\<lambda>_ y _. permutation_out p (hash_in (y n) y)"])
  fix J :: "unit job" and s x
  assume J: "circuit (j_init J) = circ" "j_ins J = (\<lambda>_ j. if j = n then 0 else x j)"
    "j_fun J = (\<lambda>_ y _. permutation_out p (hash_in (y n) y))" "j_exp J = 2" "j_lv J = 2"
    and s: "st J {} {} (own_inputs (poseidon_shape n np) x) s"
  have cs: "cval J 88 0" "cval J 90 1" "cval J nInputs n" "fok (circuitConstants (circuit (j_init J)) ! 88)"
    using data_fok [OF c(1), of 88] data_small [OF c(1), of 88 0] data_small [OF c(1), of 90 1] data_length [OF c(1)] c(2,3) J(1) by (simp_all add: cval_def)
  show "runs (seqM (poseidon_body n nInputs cr r)) s (\<lambda>u. \<exists>F W. st J {()} F W u \<and>
      (\<forall>\<kappa>\<in>{()}. \<forall>j < n_in (pex_shape (n + 1) np). (\<kappa>, j) \<in> F) \<and>
      (\<forall>i < n + 1. W i \<noteq> None) \<and> (\<forall>i < n_out (poseidon_shape n np). W i = Some (poseidon_hash p x)))"
    by (rule runs_mono [OF runs_poseidon_body [OF J(2-5) cs p cr _ s]])
      (use r J(1,3) in \<open>simp_all add: poseidon_shape_def\<close>)
qed (simp_all add: poseidon_shape_def)

end

interpretation hash3: poseidon 3 56 68
  by unfold_locales simp

interpretation hash2: poseidon 2 57 138
  by unfold_locales simp

lemma Poseidon_69_computes:
  assumes "circuit_data_ok circ" "leaf_table ft"
  shows "computes circ tid (poseidon_shape 3 56) (Poseidon_69_run ft) (\<lambda>x _. poseidon_hash (poseidon4 circ) x)"
  unfolding Poseidon_69_run_def
  by (rule hash3.poseidon_computes [OF assms(1)])
    (use PoseidonEx_68_computes [OF assms] data_small [OF assms(1), of 460 3] in
      \<open>simp_all add: poseidon4_def PoseidonEx_68_create_def pex_nslots_def\<close>)

lemma Poseidon_139_computes:
  assumes "circuit_data_ok circ" "leaf_table ft"
  shows "computes circ tid (poseidon_shape 2 57) (Poseidon_139_run ft) (\<lambda>x _. poseidon_hash (poseidon3 circ) x)"
  unfolding Poseidon_139_run_def
  by (rule hash2.poseidon_computes [OF assms(1)])
    (use PoseidonEx_138_computes [OF assms] data_small [OF assms(1), of 457 2] in
      \<open>simp_all add: poseidon3_def PoseidonEx_138_create_def pex_nslots_def\<close>)

end
