(* ===== verification/Transaction.thy ===== *)
theory Transaction
  imports Poseidon
begin

text \<open>
  The templates \<open>MerkleProof_141\<close> and \<open>Transaction_142\<close> of \<open>circuit_cpp/circuit.cpp\<close>, the table
  \<open>_functionTable\<close> and the entry point \<open>run\<close>.
\<close>

section \<open>\<open>MerkleProof\<close>\<close>

text \<open>
  \<open>lvar[0]\<close> is the number of levels, \<open>lvar[1]\<close> the loop counter. Own signals: the root, the leaf,
  20 siblings from 2 on, 20 selectors from 22 on, and the 21 hashes along the path from 42 on.
\<close>

definition merkle_level :: "runner list \<Rightarrow> frame stmt list" where
  "merkle_level ft =
     [sub_input (ixs [(1, lv 1)] 20) (sub_addr (ixs [] 2)) [] (sig_ix (ixs [(1, lv 1)] 42)) MultiMux1_140_run,
      sub_input (ixs [(1, lv 1)] 20) (sub_addr (ixs [] 3)) [] (sig_ix (ixs [(1, lv 1)] 2)) MultiMux1_140_run,
      sub_input (ixs [(1, lv 1)] 20) (sub_addr (ixs [] 4)) [] (sig_ix (ixs [(1, lv 1)] 2)) MultiMux1_140_run,
      sub_input (ixs [(1, lv 1)] 20) (sub_addr (ixs [] 5)) [] (sig_ix (ixs [(1, lv 1)] 42)) MultiMux1_140_run,
      sub_input (ixs [(1, lv 1)] 20) (sub_addr (ixs [] 6)) [] (sig_ix (ixs [(1, lv 1)] 22)) MultiMux1_140_run,
      sub_input (ixs [(1, lv 1)] 0) (sub_addr (ixs [] 1)) []
        (from_sub (ixs [(1, lv 1)] 20) (sub_addr (ixs [] 0))) (Poseidon_139_run ft),
      sub_input (ixs [(1, lv 1)] 0) (sub_addr (ixs [] 2)) []
        (from_sub (ixs [(1, lv 1)] 20) (sub_addr (ixs [] 1))) (Poseidon_139_run ft),
      block (to_sig (ixs [(1, lv 1)] 43)) [] (from_sub (ixs [(1, lv 1)] 0) (sub_addr (ixs [] 0)))]"

definition merkle_body :: "runner list \<Rightarrow> frame stmt list" where
  "merkle_body ft =
     [load_consts [(0, 503)],
      create_array Poseidon_139_create 0 63 0 ''hashers'' [20] 20 767 156,
      create_array MultiMux1_140_create 20 15403 3120 ''mux'' [20] 20 7 1,
      block (to_sig (ixs [] 42)) [] (sig_ix (ixs [] 1))] @
     for_loop 1 503 (merkle_level ft) @
     [block (to_sig (ixs [] 0)) [] (sig_ix (ixs [] 62))]"

definition MerkleProof_141_run :: "runner list \<Rightarrow> runner" where
  "MerkleProof_141_run ft = run_template 2 2 40 (merkle_body ft)"

section \<open>\<open>Transaction\<close>\<close>

text \<open>
  \<open>lvar[3]\<close> and \<open>lvar[4]\<close> are the sums of the amounts, but \<open>lvar[4]\<close> is the counter of the first loop
  before; \<open>lvar[5]\<close> is the counter of the loop over the levels and of the second loop. Own signals:
  the root, 4 nullifiers from 1 on, 4 output commitments from 5 on, amounts, secrets and recipients of
  the inputs from 9, 13 and 17 on, 4 times 20 siblings from 21 on and selectors from 101 on, and
  amounts, secrets and recipients of the outputs from 181, 185 and 189 on.
\<close>

definition transaction_create :: "frame stmt list" where
  "transaction_create =
     [create_array Poseidon_69_create 0 193 0 ''inCommitmentHasher'' [4] 4 934 162,
      create_array Poseidon_139_create 4 3929 648 ''inNullifierHasher'' [4] 4 767 156,
      create_array MerkleProof_141_create 8 6997 1272 ''inTree'' [4] 4 15543 3141,
      create_array Poseidon_69_create 12 69169 13836 ''outCommitmentHasher'' [4] 4 934 162]"

text \<open>Lines 75 to 86 of the template: the commitment and the nullifier of an input.\<close>

definition input_hashes :: "runner list \<Rightarrow> frame stmt list" where
  "input_hashes ft =
     [sub_input (ixs [(1, lv 4)] 0) (sub_addr (ixs [] 1)) [] (sig_ix (ixs [(1, lv 4)] 9)) (Poseidon_69_run ft),
      sub_input (ixs [(1, lv 4)] 0) (sub_addr (ixs [] 2)) [] (sig_ix (ixs [(1, lv 4)] 13)) (Poseidon_69_run ft),
      sub_input (ixs [(1, lv 4)] 0) (sub_addr (ixs [] 3)) [] (sig_ix (ixs [(1, lv 4)] 17)) (Poseidon_69_run ft),
      sub_input (ixs [(1, lv 4)] 4) (sub_addr (ixs [] 1)) []
        (from_sub (ixs [(1, lv 4)] 0) (sub_addr (ixs [] 0))) (Poseidon_139_run ft),
      sub_input (ixs [(1, lv 4)] 4) (sub_addr (ixs [] 2)) [] (sig_ix (ixs [(1, lv 4)] 13)) (Poseidon_139_run ft)]"

definition nullifier_check :: "frame stmt list" where
  "nullifier_check =
     [op2 Fr_eq 0 (from_sub (ixs [(1, lv 4)] 4) (sub_addr (ixs [] 0))) (sig_ix (ixs [(1, lv 4)] 1)),
      assertM ''line 86'' (isTrueE 0)]"

text \<open>Lines 89 to 98: the Merkle proof of the input, and its amount added to the sum.\<close>

definition input_path :: "runner list \<Rightarrow> frame stmt list" where
  "input_path ft =
     sub_input (ixs [(1, lv 4)] 8) (sub_addr (ixs [] 1)) []
        (from_sub (ixs [(1, lv 4)] 0) (sub_addr (ixs [] 0))) (MerkleProof_141_run ft) #
     for_loop 5 503
       [sub_input (ixs [(1, lv 4)] 8) (sub_addr (ixs [(1, lv 5)] 2)) []
          (sig_ix (ixs [(20, lv 4), (1, lv 5)] 21)) (MerkleProof_141_run ft),
        sub_input (ixs [(1, lv 4)] 8) (sub_addr (ixs [(1, lv 5)] 22)) []
          (sig_ix (ixs [(20, lv 4), (1, lv 5)] 101)) (MerkleProof_141_run ft)]"

definition root_check :: "frame stmt list" where
  "root_check =
     [op2 Fr_eq 0 (from_sub (ixs [(1, lv 4)] 8) (sub_addr (ixs [] 0))) (sig_ix (ixs [] 0)),
      assertM ''line 95'' (isTrueE 0)]"

definition input_sum :: "frame stmt list" where
  "input_sum = [block (to_lvar 3) [op2 Fr_add 0 (lv 3) (sig_ix (ixs [(1, lv 4)] 9))] (exp_at 0)]"

text \<open>Lines 108 to 117: the commitment of an output, and its amount added to the sum.\<close>

definition output_hash :: "runner list \<Rightarrow> frame stmt list" where
  "output_hash ft =
     [sub_input (ixs [(1, lv 5)] 12) (sub_addr (ixs [] 1)) [] (sig_ix (ixs [(1, lv 5)] 181)) (Poseidon_69_run ft),
      sub_input (ixs [(1, lv 5)] 12) (sub_addr (ixs [] 2)) [] (sig_ix (ixs [(1, lv 5)] 185)) (Poseidon_69_run ft),
      sub_input (ixs [(1, lv 5)] 12) (sub_addr (ixs [] 3)) [] (sig_ix (ixs [(1, lv 5)] 189)) (Poseidon_69_run ft)]"

definition commitment_check :: "frame stmt list" where
  "commitment_check =
     [op2 Fr_eq 0 (from_sub (ixs [(1, lv 5)] 12) (sub_addr (ixs [] 0))) (sig_ix (ixs [(1, lv 5)] 5)),
      assertM ''line 114'' (isTrueE 0)]"

definition output_sum :: "frame stmt list" where
  "output_sum = [block (to_lvar 4) [op2 Fr_add 0 (lv 4) (sig_ix (ixs [(1, lv 5)] 181))] (exp_at 0)]"

definition balance_check :: "frame stmt list" where
  "balance_check = [op2 Fr_eq 0 (lv 3) (lv 4), assertM ''line 121'' (isTrueE 0)]"

definition transaction_body :: "runner list \<Rightarrow> frame stmt list" where
  "transaction_body ft =
     [load_consts [(0, 503), (1, 89), (2, 89)]] @
     transaction_create @
     [load_consts [(3, 88)]] @
     for_loop 4 89 (input_hashes ft @ nullifier_check @ input_path ft @ root_check @ input_sum) @
     [load_consts [(4, 88)]] @
     for_loop 5 89 (output_hash ft @ commitment_check @ output_sum) @
     balance_check"

definition Transaction_142_run :: "runner list \<Rightarrow> runner" where
  "Transaction_142_run ft = run_template 2 6 16 (transaction_body ft)"

section \<open>The table of run functions and the entry point\<close>

text \<open>
  The entries of the table call through the table again. \<open>table_to d\<close> is the table for \<open>d\<close> levels of
  such calls; the calls below the last level do not return. Only leaf templates are called through the
  table, so \<open>_functionTable\<close> with two levels behaves as the one of the code.
\<close>

definition functionTable_with :: "runner list \<Rightarrow> runner list" where
  "functionTable_with ft =
    [Ark_0_run, Sigma_1_run, Ark_2_run, Mix_3_run, Ark_4_run, Ark_5_run, Ark_6_run, Mix_7_run,
     MixS_8_run, MixS_9_run, MixS_10_run, MixS_11_run, MixS_12_run, MixS_13_run, MixS_14_run,
     MixS_15_run, MixS_16_run, MixS_17_run, MixS_18_run, MixS_19_run, MixS_20_run, MixS_21_run,
     MixS_22_run, MixS_23_run, MixS_24_run, MixS_25_run, MixS_26_run, MixS_27_run, MixS_28_run,
     MixS_29_run, MixS_30_run, MixS_31_run, MixS_32_run, MixS_33_run, MixS_34_run, MixS_35_run,
     MixS_36_run, MixS_37_run, MixS_38_run, MixS_39_run, MixS_40_run, MixS_41_run, MixS_42_run,
     MixS_43_run, MixS_44_run, MixS_45_run, MixS_46_run, MixS_47_run, MixS_48_run, MixS_49_run,
     MixS_50_run, MixS_51_run, MixS_52_run, MixS_53_run, MixS_54_run, MixS_55_run, MixS_56_run,
     MixS_57_run, MixS_58_run, MixS_59_run, MixS_60_run, MixS_61_run, MixS_62_run, MixS_63_run,
     Ark_64_run, Ark_65_run, Ark_66_run, MixLast_67_run, PoseidonEx_68_run ft,
     Poseidon_69_run ft, Ark_70_run, Ark_71_run, Mix_72_run, Ark_73_run, Ark_74_run,
     Ark_75_run, Mix_76_run, MixS_77_run, MixS_78_run, MixS_79_run, MixS_80_run, MixS_81_run,
     MixS_82_run, MixS_83_run, MixS_84_run, MixS_85_run, MixS_86_run, MixS_87_run, MixS_88_run,
     MixS_89_run, MixS_90_run, MixS_91_run, MixS_92_run, MixS_93_run, MixS_94_run, MixS_95_run,
     MixS_96_run, MixS_97_run, MixS_98_run, MixS_99_run, MixS_100_run, MixS_101_run,
     MixS_102_run, MixS_103_run, MixS_104_run, MixS_105_run, MixS_106_run, MixS_107_run,
     MixS_108_run, MixS_109_run, MixS_110_run, MixS_111_run, MixS_112_run, MixS_113_run,
     MixS_114_run, MixS_115_run, MixS_116_run, MixS_117_run, MixS_118_run, MixS_119_run,
     MixS_120_run, MixS_121_run, MixS_122_run, MixS_123_run, MixS_124_run, MixS_125_run,
     MixS_126_run, MixS_127_run, MixS_128_run, MixS_129_run, MixS_130_run, MixS_131_run,
     MixS_132_run, MixS_133_run, Ark_134_run, Ark_135_run, Ark_136_run, MixLast_137_run,
     PoseidonEx_138_run ft, Poseidon_139_run ft, MultiMux1_140_run, MerkleProof_141_run ft,
     Transaction_142_run ft]"

primrec table_to :: "nat \<Rightarrow> runner list" where
  "table_to 0 = replicate 143 (\<lambda>_ _. None)"
| "table_to (Suc d) = functionTable_with (table_to d)"

definition functionTable :: "runner list" where
  "functionTable = table_to 2"

definition run_circuit :: "Circom_CalcWit stmt" where
  "run_circuit = seqM [Transaction_142_create 1 0 ''main'' 0, Transaction_142_run functionTable 0]"

end
