(* ===== verification/Merkle_Correct.thy ===== *)
theory Merkle_Correct
  imports Poseidon_Template Transaction
begin

text \<open>
  \<open>MerkleProof\<close> computes the root of a path: the reference is a fold over the levels, with the node
  of a level on the left or on the right as the selector says.
\<close>

section \<open>Reference\<close>

definition arg2 :: "int \<Rightarrow> int \<Rightarrow> nat \<Rightarrow> int" where
  "arg2 a b i = (if i = 0 then a else b)"

definition mux_out :: "(nat \<Rightarrow> int) \<Rightarrow> nat \<Rightarrow> int" where
  "mux_out y i = ((y (2 * i + 1) - y (2 * i)) * y 4 + y (2 * i)) mod q_int"

definition mux_in :: "int \<Rightarrow> int \<Rightarrow> int \<Rightarrow> nat \<Rightarrow> int" where
  "mux_in node sib sel i = [node, sib, sib, node, sel] ! i"

definition merkle_node :: "params \<Rightarrow> int \<Rightarrow> int \<Rightarrow> int \<Rightarrow> int" where
  "merkle_node p node sib sel = poseidon_hash p (mux_out (mux_in node sib sel))"

primrec merkle_hash :: "params \<Rightarrow> (nat \<Rightarrow> int) \<Rightarrow> (nat \<Rightarrow> int) \<Rightarrow> int \<Rightarrow> nat \<Rightarrow> int" where
  "merkle_hash p sib sel leaf 0 = leaf"
| "merkle_hash p sib sel leaf (Suc i) = merkle_node p (merkle_hash p sib sel leaf i) (sib i) (sel i)"

lemma poseidon_hash_cong:
  assumes "\<And>i. i + 1 < p_t p \<Longrightarrow> x i = y i"
  shows "poseidon_hash p x = poseidon_hash p y"
  unfolding poseidon_hash_def
  by (rule permutation_out_cong) (use assms in \<open>auto simp: hash_in_def\<close>)

text \<open>With a bit as the selector, a level hashes the node and its sibling in the order of the bit.\<close>

lemma merkle_node_bit:
  assumes "p_t p = 3" "sel = 0 \<or> sel = 1" "0 \<le> node" "node < q_int" "0 \<le> sib" "sib < q_int"
  shows "merkle_node p node sib sel = poseidon_hash p (if sel = 0 then arg2 node sib else arg2 sib node)"
  unfolding merkle_node_def
proof (rule poseidon_hash_cong)
  fix i assume "i + 1 < p_t p"
  then have "i = 0 \<or> i = 1" using assms(1) by auto
  then show "mux_out (mux_in node sib sel) i = (if sel = 0 then arg2 node sib else arg2 sib node) i"
    using assms(2-6) by (auto simp: mux_out_def mux_in_def arg2_def)
qed

section \<open>The layout\<close>

datatype mslot = Hasher nat | Mux nat

fun mk_num :: "mslot \<Rightarrow> nat" where "mk_num (Hasher i) = i" | "mk_num (Mux i) = 20 + i"
fun mk_comp :: "mslot \<Rightarrow> nat" where "mk_comp (Hasher i) = 1 + i * 156" | "mk_comp (Mux i) = 3121 + i"
fun mk_sig :: "mslot \<Rightarrow> nat" where "mk_sig (Hasher i) = 63 + i * 767" | "mk_sig (Mux i) = 15403 + i * 7"
fun mk_tmpl :: "mslot \<Rightarrow> u32" where "mk_tmpl (Hasher i) = 139" | "mk_tmpl (Mux i) = 140"

definition mux_shape :: shape where
  "mux_shape = \<lparr>n_in = 5, in_at = 2, n_out = 2, n_sig = 7, n_comp = 1, n_sub = 0\<rparr>"

fun mk_shp :: "mslot \<Rightarrow> shape" where "mk_shp (Hasher i) = poseidon_shape 2 57" | "mk_shp (Mux i) = mux_shape"

definition mk_slots :: "mslot set" where "mk_slots = Hasher ` {..<20} \<union> Mux ` {..<20}"

definition merkle_shape :: shape where
  "merkle_shape = \<lparr>n_in = 41, in_at = 1, n_out = 1, n_sig = 15543, n_comp = 3141, n_sub = 40\<rparr>"

lemma hash_shapes [simp]:
  "n_in (poseidon_shape n np) = n" "in_at (poseidon_shape n np) = 1" "n_out (poseidon_shape n np) = 1"
  "n_sig (poseidon_shape 2 57) = 767" "n_comp (poseidon_shape 2 57) = 156"
  "n_sig (poseidon_shape 3 56) = 934" "n_comp (poseidon_shape 3 56) = 162" "n_sub (poseidon_shape n np) = 1"
  by (simp_all add: poseidon_shape_def pex_sizes)

lemma mux_shape_fields [simp]:
  "n_in mux_shape = 5" "in_at mux_shape = 2" "n_out mux_shape = 2" "n_sig mux_shape = 7" "n_comp mux_shape = 1"
  "n_sub mux_shape = 0"
  by (simp_all add: mux_shape_def)

lemma merkle_shape_fields [simp]:
  "n_in merkle_shape = 41" "in_at merkle_shape = 1" "n_out merkle_shape = 1" "n_sig merkle_shape = 15543"
  "n_comp merkle_shape = 3141" "n_sub merkle_shape = 40"
  by (simp_all add: merkle_shape_def)

interpretation merkle: network mk_slots mk_num mk_comp mk_sig mk_shp mk_tmpl 40 63 3141 15543
proof
  show "\<exists>\<kappa>\<in>mk_slots. mk_num \<kappa> = i" if "i < 40" for i
    using that by (cases "i < 20") (auto simp: mk_slots_def intro: bexI [of _ "Hasher i"] bexI [of _ "Mux (i - 20)"])
  show "\<exists>\<kappa>\<in>mk_slots. mk_sig \<kappa> \<le> i \<and> i < mk_sig \<kappa> + n_sig (mk_shp \<kappa>)" if i: "63 \<le> i" "i < 15543" for i
  proof -
    consider "i < 63 + 767 * 20" | "15403 \<le> i" "i < 15403 + 7 * 20" using i by linarith
    then show ?thesis
    proof cases
      case 1
      from i(1) this obtain k where "k < 20" "63 + 767 * k \<le> i" "i < 63 + 767 * k + 767" by (rule in_strip)
      then show ?thesis by (intro bexI [of _ "Hasher k"]) (simp_all add: mk_slots_def mult.commute)
    next
      case 2
      then obtain k where "k < 20" "15403 + 7 * k \<le> i" "i < 15403 + 7 * k + 7" by (rule in_strip)
      then show ?thesis by (intro bexI [of _ "Mux k"]) (simp_all add: mk_slots_def mult.commute)
    qed
  qed
qed (auto simp: mk_slots_def)

text \<open>The values along the path, when the inputs of the template are \<open>x\<close>.\<close>

definition path_hash :: "params \<Rightarrow> (nat \<Rightarrow> int) \<Rightarrow> nat \<Rightarrow> int" where
  "path_hash p x i = merkle_hash p (\<lambda>k. x (1 + k)) (\<lambda>k. x (21 + k)) (x 0) i"

fun mk_ins :: "params \<Rightarrow> (nat \<Rightarrow> int) \<Rightarrow> mslot \<Rightarrow> nat \<Rightarrow> int" where
  "mk_ins p x (Mux i) = mux_in (path_hash p x i) (x (1 + i)) (x (21 + i))"
| "mk_ins p x (Hasher i) = mux_out (mux_in (path_hash p x i) (x (1 + i)) (x (21 + i)))"

fun mk_fun :: "params \<Rightarrow> mslot \<Rightarrow> (nat \<Rightarrow> int) \<Rightarrow> nat \<Rightarrow> int" where
  "mk_fun p (Mux i) y = mux_out y"
| "mk_fun p (Hasher i) y = (\<lambda>_. poseidon_hash p y)"

lemma path_hash_Suc: "path_hash p x (Suc i) = mk_fun p (Hasher i) (mk_ins p x (Hasher i)) 0"
  by (simp add: path_hash_def merkle_node_def)

section \<open>The run\<close>

text \<open>What is fed and written after \<open>n\<close> levels.\<close>

definition levels_done :: "nat \<Rightarrow> (mslot \<times> nat) set" where
  "levels_done n = {(\<kappa>, j). (\<exists>i < n. \<kappa> = Mux i \<and> j < 5 \<or> \<kappa> = Hasher i \<and> j < 2)}"

definition path_signals :: "params \<Rightarrow> (nat \<Rightarrow> int) \<Rightarrow> nat \<Rightarrow> nat \<rightharpoonup> int" where
  "path_signals p x n i = (if 42 \<le> i \<and> i \<le> 42 + n then Some (path_hash p x (i - 42)) else own_inputs merkle_shape x i)"

lemma levels_done_Suc:
  "levels_done (Suc n) = insert (Hasher n, 1) (insert (Hasher n, 0) (insert (Mux n, 4) (insert (Mux n, 3)
     (insert (Mux n, 2) (insert (Mux n, 1) (insert (Mux n, 0) (levels_done n)))))))"
  by (auto simp: levels_done_def less_Suc_eq numeral_eq_Suc)

lemma path_signals_Suc: "path_signals p x (Suc n) = (path_signals p x n)(43 + n \<mapsto> path_hash p x (Suc n))"
  by (rule ext) (auto simp: path_signals_def)

lemma path_signals_at:
  "i \<le> n \<Longrightarrow> path_signals p x n (42 + i) = Some (path_hash p x i)"
  "i < 20 \<Longrightarrow> path_signals p x n (2 + i) = Some (x (1 + i))"
  "i < 20 \<Longrightarrow> path_signals p x n (22 + i) = Some (x (21 + i))"
  by (simp_all add: path_signals_def own_inputs_def)

lemma less5: "k < 5 \<longleftrightarrow> k = 0 \<or> k = 1 \<or> k = 2 \<or> k = 3 \<or> k = 4" and less2: "k < 2 \<longleftrightarrow> k = 0 \<or> k = 1" for k :: nat
  by auto

lemma runs_merkle_level:
  assumes s: "merkle.st J mk_slots (levels_done i) (path_signals p x i) s" and i: "i < 20" "counter s 1 i"
    and J: "j_ins J = mk_ins p x" "j_fun J = mk_fun p"
    and r: "computes (circuit (j_init J)) 140 mux_shape MultiMux1_140_run mux_out"
      "computes (circuit (j_init J)) 139 (poseidon_shape 2 57) (Poseidon_139_run ft) (\<lambda>y _. poseidon_hash p y)"
  shows "runs (seqM (merkle_level ft)) s
    (\<lambda>u. merkle.st J mk_slots (levels_done (Suc i)) (path_signals p x (Suc i)) u \<and> lvar u = lvar s)"
proof -
  let ?W = "path_signals p x i" and ?L = "levels_done i"
  let ?M = "ixs [(1, lv 1)] 20" and ?H = "ixs [(1, lv 1)] 0"
  have new: "(Mux i, j) \<notin> ?L" "(Hasher i, j) \<notin> ?L" for j by (auto simp: levels_done_def)
  have sl: "Mux i \<in> mk_slots" "Hasher i \<in> mk_slots" using i(1) by (simp_all add: mk_slots_def)
  have mf: "j_fun J (Mux i) = mux_out" "j_fun J (Hasher i) = (\<lambda>y _. poseidon_hash p y)"
    by (simp_all add: J(2) fun_eq_iff)
  have cu: "counter u 1 i" if "merkle.st J mk_slots F W u" "lvar u = lvar s" for F W u
    using i(2) that merkle.stD(4) [OF that(1)] merkle.stD(4) [OF s] by (auto intro: counter_cong)
  have ixM: "?M u = Inr (int (mk_num (Mux i)))" and ixH: "?H u = Inr (int (mk_num (Hasher i)))"
    if "counter u 1 i" for u
    using ixs_counter1 [OF that, of "20 + i" 1 20] ixs_counter1 [OF that, of i 1 0] by simp_all
  have mux: "runs (sub_input ?M (sub_addr (ixs [] n)) [] (sig_ix (ixs [(1, lv 1)] a)) MultiMux1_140_run) u
      (\<lambda>t. merkle.st J mk_slots (insert (Mux i, j) F) ?W t \<and> lvar t = lvar s)"
    if "merkle.st J mk_slots F ?W u \<and> lvar u = lvar s" "(Mux i, j) \<notin> F" "j < 5 \<and> a + i < 63 \<and> n = 2 + j"
      "?W (a + i) = Some (j_ins J (Mux i) j)" for F u j a n
    using merkle.runs_feed_own [where k = ?M and ix = "ixs [] n" and ix' = "ixs [(1, lv 1)] a",
        OF conjunct1 [OF that(1)] sl(1) ixM _ _ that(2) _ _ _ that(4)] that(1,3) cu r(1) mf(1)
      ixs_counter1 [OF cu, of _ _ _ "a + i" 1 a]
    by (auto simp: ixs_lit)
  have hash: "runs (sub_input ?H (sub_addr (ixs [] n)) [] (from_sub ?M (sub_addr (ixs [] j))) (Poseidon_139_run ft)) u
      (\<lambda>t. merkle.st J mk_slots (insert (Hasher i, j) F) ?W t \<and> lvar t = lvar s)"
    if "merkle.st J mk_slots F ?W u \<and> lvar u = lvar s" "(Hasher i, j) \<notin> F" "\<And>k. k < 5 \<Longrightarrow> (Mux i, k) \<in> F"
      "j < 2 \<and> n = 1 + j" for F u j n
    using merkle.runs_feed_out [where k = ?H and ix = "ixs [] n" and k' = ?M and ix' = "ixs [] j",
        OF conjunct1 [OF that(1)] sl(2) ixH _ _ that(2) _ sl(1) ixM _ _ _] that(1,3,4) cu r(2) mf J
    by (auto simp: ixs_lit)
  have out: "runs (block (to_sig (ixs [(1, lv 1)] 43)) [] (from_sub ?H (sub_addr (ixs [] 0)))) u
      (\<lambda>t. merkle.st J mk_slots F (path_signals p x (Suc i)) t \<and> lvar t = lvar s)"
    if u: "merkle.st J mk_slots F ?W u \<and> lvar u = lvar s" and "\<And>k. k < 2 \<Longrightarrow> (Hasher i, k) \<in> F" for F u
  proof -
    have "counter u 1 i" using cu u by blast
    then have ix: "ixs [(1, lv 1)] 43 u = Inr (int (43 + i))" "?H u = Inr (int (mk_num (Hasher i)))"
      using ixs_counter1 [of u 1 i "43 + i" 1 43] ixH by simp_all
    have "gives (from_sub ?H (sub_addr (ixs [] 0))) u (j_fun J (Hasher i) (j_ins J (Hasher i)) 0)"
      by (rule merkle.gives_from_sub [where k = ?H, OF conjunct1 [OF u] sl(2) ix(2)])
        (use that(2) merkle.points_sub_addr [where ix = "ixs [] 0", OF conjunct1 [OF u] sl(2) ixs_lit] in auto)
    then have "source [] (from_sub ?H (sub_addr (ixs [] 0))) u (path_hash p x (Suc i))"
      by (simp add: path_hash_Suc J)
    from merkle.runs_own_write [where ix = "ixs [(1, lv 1)] 43", OF conjunct1 [OF u] ix(1) _ this] i(1) u
    show ?thesis by (simp add: path_signals_Suc)
  qed
  have W: "?W (42 + i) = Some (j_ins J (Mux i) 0)" "?W (2 + i) = Some (j_ins J (Mux i) 1)"
    "?W (2 + i) = Some (j_ins J (Mux i) 2)" "?W (42 + i) = Some (j_ins J (Mux i) 3)"
    "?W (22 + i) = Some (j_ins J (Mux i) 4)"
    using i(1) path_signals_at [of i] by (simp_all add: J mux_in_def)
  have s0: "merkle.st J mk_slots ?L ?W s \<and> lvar s = lvar s" using s by simp
  note m = W [THEN mux [rotated 3]] and h = hash [where j = 0] hash [where j = 1]
  show ?thesis
    unfolding merkle_level_def runs_seq_Cons runs_seq_Nil levels_done_Suc
    apply (rule runs_mono, rule m(1), rule s0, simp add: new, use i(1) in simp)
    apply (rule runs_mono, rule m(2), assumption, simp add: new, use i(1) in simp)
    apply (rule runs_mono, rule m(3), assumption, simp add: new, use i(1) in simp)
    apply (rule runs_mono, rule m(4), assumption, simp add: new, use i(1) in simp)
    apply (rule runs_mono, rule m(5), assumption, simp add: new, use i(1) in simp)
    apply (rule runs_mono, rule h(1), assumption, simp add: new, fastforce simp: less5, simp)
    apply (rule runs_mono, rule h(2), assumption, simp add: new, fastforce simp: less5, simp)
    apply (rule runs_mono, rule out, assumption, fastforce simp: less2)
    apply simp
    done
qed

lemma path_signals_0: "path_signals p x 0 = (own_inputs merkle_shape x)(42 \<mapsto> x 0)"
  by (rule ext) (simp add: path_signals_def path_hash_def)

lemma runs_merkle_body:
  assumes s: "merkle.st J {} {} (own_inputs merkle_shape x) s"
    and J: "j_ins J = mk_ins p x" "j_fun J = mk_fun p" "j_exp J = 2" "j_lv J = 2"
    and c: "cval J 88 0" "cval J 90 1" "cval J 503 20"
    and r: "computes (circuit (j_init J)) 140 mux_shape MultiMux1_140_run mux_out"
      "computes (circuit (j_init J)) 139 (poseidon_shape 2 57) (Poseidon_139_run ft) (\<lambda>y _. poseidon_hash p y)"
  shows "runs (seqM (merkle_body ft)) s (\<lambda>u. \<exists>F W. merkle.st J mk_slots F W u \<and>
    (\<forall>\<kappa>\<in>mk_slots. \<forall>j < n_in (mk_shp \<kappa>). (\<kappa>, j) \<in> F) \<and> (\<forall>i < 63. W i \<noteq> None) \<and>
    W 0 = Some (path_hash p x 20))"
proof -
  let ?W = "own_inputs merkle_shape x"
  have params: "runs (load_consts [(0, 503)]) s (merkle.st J {} {} ?W)"
    by (rule runs_mono [OF merkle.runs_loads [OF s]]) (use c(3) J(4) in \<open>simp_all add: cval_def\<close>)
  have hashers: "runs (create_array Poseidon_139_create 0 63 0 ''hashers'' [20] 20 767 156) u
      (merkle.st J (Hasher ` {..<20}) {} ?W)" if u: "merkle.st J {} {} ?W u" for u
    by (rule runs_mono [OF merkle.runs_create_array [OF u, where \<kappa> = Hasher and tn = "''Poseidon''"]])
      (auto simp: mk_slots_def Poseidon_139_create_def)
  have muxes: "runs (create_array MultiMux1_140_create 20 15403 3120 ''mux'' [20] 20 7 1) u
      (merkle.st J mk_slots {} ?W)" if u: "merkle.st J (Hasher ` {..<20}) {} ?W u" for u
    by (rule runs_mono [OF merkle.runs_create_array [OF u, where \<kappa> = Mux and tn = "''MultiMux1''"]])
      (auto simp: mk_slots_def MultiMux1_140_create_def)
  have own: "source [] (sig_ix (ixs [] i)) u y"
    if "merkle.st J mk_slots F W u" "i < 63" "W i = Some y" for F W u i y
    using merkle.gives_own [where ix = "ixs [] i", OF that(1) ixs_lit that(2) _ that(3)] that(2) by simp
  have first: "runs (block (to_sig (ixs [] 42)) [] (sig_ix (ixs [] 1))) u
      (merkle.st J mk_slots (levels_done 0) (path_signals p x 0))" if u: "merkle.st J mk_slots {} ?W u" for u
  proof -
    have "?W 1 = Some (x 0)" by (simp add: own_inputs_def)
    from merkle.runs_own_write [where ix = "ixs [] 42", OF u ixs_lit _ own [OF u _ this]]
    have "runs (block (to_sig (ixs [] 42)) [] (sig_ix (ixs [] 1))) u
        (\<lambda>t. merkle.st J mk_slots {} (path_signals p x 0) t \<and> lvar t = lvar u)"
      by (simp add: path_signals_0)
    then show ?thesis by (rule runs_mono) (simp add: levels_done_def)
  qed
  have levels: "runs (seqM (for_loop 1 503 (merkle_level ft))) u
      (\<lambda>u. merkle.st J mk_slots (levels_done 20) (path_signals p x 20) u \<and> True)"
    if u: "merkle.st J mk_slots (levels_done 0) (path_signals p x 0) u" for u
    unfolding for_loop_def
  proof (rule merkle.runs_net_for [where F = levels_done and W = "path_signals p x" and P = "\<lambda>_ _. True", OF c(3,1,2)])
    fix i t v assume i: "i < 20" and t: "merkle.st J mk_slots (levels_done i) (path_signals p x i) t"
      and v: "lvar t 1 = Some v" "small v (int i)"
    have "counter t 1 i" using v J(4) merkle.stD(4) [OF t] by (simp add: counter_def)
    from runs_merkle_level [OF t i this J(1,2) r]
    show "runs (seqM (merkle_level ft)) t (\<lambda>u. merkle.st J mk_slots (levels_done (Suc i)) (path_signals p x (Suc i)) u \<and>
        True \<and> lvar u 1 = Some v)"
      by (rule runs_mono) (use v in simp)
  qed (use u J in simp_all)
  have last: "runs (block (to_sig (ixs [] 0)) [] (sig_ix (ixs [] 62))) u
      (merkle.st J mk_slots (levels_done 20) ((path_signals p x 20)(0 \<mapsto> path_hash p x 20)))"
    if u: "merkle.st J mk_slots (levels_done 20) (path_signals p x 20) u \<and> True" for u
  proof -
    have "path_signals p x 20 62 = Some (path_hash p x 20)" by (simp add: path_signals_def)
    from merkle.runs_own_write [where ix = "ixs [] 0", OF conjunct1 [OF u] ixs_lit _ own [OF conjunct1 [OF u] _ this]]
    show ?thesis by (rule runs_mono) simp_all
  qed
  have all: "(\<kappa>, j) \<in> levels_done 20" if "\<kappa> \<in> mk_slots" "j < n_in (mk_shp \<kappa>)" for \<kappa> j
    using that by (auto simp: mk_slots_def levels_done_def)
  show ?thesis
    unfolding merkle_body_def runs_seq_append runs_seq_Cons [of "load_consts _"] runs_seq_Cons [of "create_array _ _ _ _ _ _ _ _ _"]
      runs_seq_Cons [of "block _ _ _"] runs_seq_Nil
    apply (rule runs_mono [OF params], rule runs_mono [OF hashers], assumption)
    apply (rule runs_mono [OF muxes], assumption, rule runs_mono [OF first], assumption)
    apply (rule runs_mono [OF levels], assumption, rule runs_mono [OF last], assumption)
    apply (rule exI [of _ "levels_done 20"], rule exI [of _ "(path_signals p x 20)(0 \<mapsto> path_hash p x 20)"])
    using all by (auto simp: path_signals_def own_inputs_def)
qed

lemma mux_computes: "circuit_data_ok circ \<Longrightarrow> computes circ tid mux_shape MultiMux1_140_run mux_out"
  unfolding MultiMux1_140_run_def
  by (rule plain_leaf_computes)
    (use multimux_run [OF consts_width(3) [OF data_consts]] in \<open>auto simp: mux_out_def [abs_def]\<close>)

lemma MerkleProof_141_computes:
  assumes c: "circuit_data_ok circ" and ft: "leaf_table ft"
  shows "computes circ tid merkle_shape (MerkleProof_141_run ft) (\<lambda>x _. path_hash (poseidon3 circ) x 20)"
  unfolding MerkleProof_141_run_def
proof (rule merkle.composite_computes [where V = "mk_ins (poseidon3 circ)" and Gs = "mk_fun (poseidon3 circ)"])
  fix J :: "mslot job" and s x
  assume J: "circuit (j_init J) = circ" "j_ins J = mk_ins (poseidon3 circ) x" "j_fun J = mk_fun (poseidon3 circ)"
    "j_exp J = 2" "j_lv J = 2" and s: "merkle.st J {} {} (own_inputs merkle_shape x) s"
  have cs: "cval J 88 0" "cval J 90 1" "cval J 503 20"
    using data_small [OF c] data_length [OF c] J(1) by (simp_all add: cval_def network_constants_def)
  from runs_merkle_body [OF s J(2-5) cs] mux_computes [OF c] Poseidon_139_computes [OF c ft] J(1)
  show "runs (seqM (merkle_body ft)) s (\<lambda>t. \<exists>F W. merkle.st J mk_slots F W t \<and>
      (\<forall>\<kappa>\<in>mk_slots. \<forall>j<n_in (mk_shp \<kappa>). (\<kappa>, j) \<in> F) \<and>
      (\<forall>i < 63. W i \<noteq> None) \<and> (\<forall>i<n_out merkle_shape. W i = Some (path_hash (poseidon3 circ) x 20)))"
    by simp
qed simp_all

end
