(* ===== verification/Transaction_Correct.thy ===== *)
theory Transaction_Correct
  imports Merkle_Correct
begin

text \<open>
  \<open>Transaction\<close> accepts its inputs exactly when they satisfy the constraints of the template, and
  stops with a failed assertion otherwise.
\<close>

section \<open>The constraints\<close>

definition arg3 :: "int \<Rightarrow> int \<Rightarrow> int \<Rightarrow> nat \<Rightarrow> int" where
  "arg3 a b c i = (if i = 0 then a else if i = 1 then b else c)"

definition commitment :: "Circom_Circuit \<Rightarrow> int \<Rightarrow> int \<Rightarrow> int \<Rightarrow> int" where
  "commitment circ amount secret recipient = poseidon_hash (poseidon4 circ) (arg3 amount secret recipient)"

definition nullifier :: "Circom_Circuit \<Rightarrow> int \<Rightarrow> int \<Rightarrow> int" where
  "nullifier circ c secret = poseidon_hash (poseidon3 circ) (arg2 c secret)"

text \<open>The 193 inputs are \<open>x\<close>, in the order of the signals.\<close>

definition in_commit :: "Circom_Circuit \<Rightarrow> (nat \<Rightarrow> int) \<Rightarrow> nat \<Rightarrow> int" where
  "in_commit circ x i = commitment circ (x (9 + i)) (x (13 + i)) (x (17 + i))"

definition in_root :: "Circom_Circuit \<Rightarrow> (nat \<Rightarrow> int) \<Rightarrow> nat \<Rightarrow> int" where
  "in_root circ x i =
     merkle_hash (poseidon3 circ) (\<lambda>k. x (21 + 20 * i + k)) (\<lambda>k. x (101 + 20 * i + k)) (in_commit circ x i) 20"

definition out_commit :: "Circom_Circuit \<Rightarrow> (nat \<Rightarrow> int) \<Rightarrow> nat \<Rightarrow> int" where
  "out_commit circ x i = commitment circ (x (181 + i)) (x (185 + i)) (x (189 + i))"

definition input_ok :: "Circom_Circuit \<Rightarrow> (nat \<Rightarrow> int) \<Rightarrow> nat \<Rightarrow> bool" where
  "input_ok circ x i \<longleftrightarrow>
     nullifier circ (in_commit circ x i) (x (13 + i)) = x (1 + i) \<and> in_root circ x i = x 0"

definition output_ok :: "Circom_Circuit \<Rightarrow> (nat \<Rightarrow> int) \<Rightarrow> nat \<Rightarrow> bool" where
  "output_ok circ x i \<longleftrightarrow> out_commit circ x i = x (5 + i)"

definition sum_from :: "(nat \<Rightarrow> int) \<Rightarrow> nat \<Rightarrow> nat \<Rightarrow> int" where
  "sum_from x a n = (\<Sum>i<n. x (a + i)) mod q_int"

definition transaction_ok :: "Circom_Circuit \<Rightarrow> (nat \<Rightarrow> int) \<Rightarrow> bool" where
  "transaction_ok circ x \<longleftrightarrow>
     (\<forall>i < 4. input_ok circ x i) \<and> (\<forall>i < 4. output_ok circ x i) \<and> sum_from x 9 4 = sum_from x 181 4"

definition refused :: "Circom_Circuit \<Rightarrow> (nat \<Rightarrow> int) \<Rightarrow> cerr \<Rightarrow> bool" where
  "refused circ x e \<longleftrightarrow> \<not> transaction_ok circ x \<and>
     e \<in> AssertFailed ` {''line 86'', ''line 95'', ''line 114'', ''line 121''}"

section \<open>The layout\<close>

datatype tslot = InHash nat | InNull nat | InTree nat | OutHash nat

fun tx_num :: "tslot \<Rightarrow> nat" where
  "tx_num (InHash i) = i" | "tx_num (InNull i) = 4 + i" | "tx_num (InTree i) = 8 + i" | "tx_num (OutHash i) = 12 + i"

fun tx_comp :: "tslot \<Rightarrow> nat" where
  "tx_comp (InHash i) = 1 + i * 162" | "tx_comp (InNull i) = 649 + i * 156"
| "tx_comp (InTree i) = 1273 + i * 3141" | "tx_comp (OutHash i) = 13837 + i * 162"

fun tx_sig :: "tslot \<Rightarrow> nat" where
  "tx_sig (InHash i) = 193 + i * 934" | "tx_sig (InNull i) = 3929 + i * 767"
| "tx_sig (InTree i) = 6997 + i * 15543" | "tx_sig (OutHash i) = 69169 + i * 934"

fun tx_shp :: "tslot \<Rightarrow> shape" where
  "tx_shp (InHash i) = poseidon_shape 3 56" | "tx_shp (InNull i) = poseidon_shape 2 57"
| "tx_shp (InTree i) = merkle_shape" | "tx_shp (OutHash i) = poseidon_shape 3 56"

fun tx_tmpl :: "tslot \<Rightarrow> u32" where
  "tx_tmpl (InHash i) = 69" | "tx_tmpl (InNull i) = 139" | "tx_tmpl (InTree i) = 141" | "tx_tmpl (OutHash i) = 69"

definition tx_slots :: "tslot set" where
  "tx_slots = InHash ` {..<4} \<union> InNull ` {..<4} \<union> InTree ` {..<4} \<union> OutHash ` {..<4}"

definition tx_shape :: shape where
  "tx_shape = \<lparr>n_in = 193, in_at = 0, n_out = 0, n_sig = 72905, n_comp = 14485, n_sub = 16\<rparr>"

interpretation tx: network tx_slots tx_num tx_comp tx_sig tx_shp tx_tmpl 16 193 14485 72905
proof
  show "\<exists>\<kappa>\<in>tx_slots. tx_num \<kappa> = i" if "i < 16" for i
  proof -
    have "tx_num (InHash i) = i" "4 \<le> i \<Longrightarrow> tx_num (InNull (i - 4)) = i" "8 \<le> i \<Longrightarrow> tx_num (InTree (i - 8)) = i"
      "12 \<le> i \<Longrightarrow> tx_num (OutHash (i - 12)) = i" by simp_all
    moreover have "InHash i \<in> tx_slots \<or> 4 \<le> i \<and> InNull (i - 4) \<in> tx_slots \<or> 8 \<le> i \<and> InTree (i - 8) \<in> tx_slots \<or>
        12 \<le> i \<and> OutHash (i - 12) \<in> tx_slots"
      using that by (auto simp: tx_slots_def)
    ultimately show ?thesis by blast
  qed
  show "\<exists>\<kappa>\<in>tx_slots. tx_sig \<kappa> \<le> i \<and> i < tx_sig \<kappa> + n_sig (tx_shp \<kappa>)" if i: "193 \<le> i" "i < 72905" for i
  proof -
    consider "i < 193 + 934 * 4" | "3929 \<le> i" "i < 3929 + 767 * 4" | "6997 \<le> i" "i < 6997 + 15543 * 4" |
      "69169 \<le> i" "i < 69169 + 934 * 4"
      using i by linarith
    then show ?thesis
    proof cases
      case 1
      from i(1) this obtain k where "k < 4" "193 + 934 * k \<le> i" "i < 193 + 934 * k + 934" by (rule in_strip)
      then show ?thesis by (intro bexI [of _ "InHash k"]) (simp_all add: tx_slots_def mult.commute)
    next
      case 2
      from this obtain k where "k < 4" "3929 + 767 * k \<le> i" "i < 3929 + 767 * k + 767" by (rule in_strip)
      then show ?thesis by (intro bexI [of _ "InNull k"]) (simp_all add: tx_slots_def mult.commute)
    next
      case 3
      from this obtain k where "k < 4" "6997 + 15543 * k \<le> i" "i < 6997 + 15543 * k + 15543" by (rule in_strip)
      then show ?thesis by (intro bexI [of _ "InTree k"]) (simp_all add: tx_slots_def mult.commute)
    next
      case 4
      from this obtain k where "k < 4" "69169 + 934 * k \<le> i" "i < 69169 + 934 * k + 934" by (rule in_strip)
      then show ?thesis by (intro bexI [of _ "OutHash k"]) (simp_all add: tx_slots_def mult.commute)
    qed
  qed
qed (auto simp: tx_slots_def)

fun tx_ins :: "Circom_Circuit \<Rightarrow> (nat \<Rightarrow> int) \<Rightarrow> tslot \<Rightarrow> nat \<Rightarrow> int" where
  "tx_ins circ x (InHash i) = arg3 (x (9 + i)) (x (13 + i)) (x (17 + i))"
| "tx_ins circ x (InNull i) = arg2 (in_commit circ x i) (x (13 + i))"
| "tx_ins circ x (InTree i) =
     (\<lambda>j. if j = 0 then in_commit circ x i else if j < 21 then x (21 + 20 * i + (j - 1)) else x (101 + 20 * i + (j - 21)))"
| "tx_ins circ x (OutHash i) = arg3 (x (181 + i)) (x (185 + i)) (x (189 + i))"

fun tx_fun :: "Circom_Circuit \<Rightarrow> tslot \<Rightarrow> (nat \<Rightarrow> int) \<Rightarrow> nat \<Rightarrow> int" where
  "tx_fun circ (InHash i) y = (\<lambda>_. poseidon_hash (poseidon4 circ) y)"
| "tx_fun circ (InNull i) y = (\<lambda>_. poseidon_hash (poseidon3 circ) y)"
| "tx_fun circ (InTree i) y = (\<lambda>_. path_hash (poseidon3 circ) y 20)"
| "tx_fun circ (OutHash i) y = (\<lambda>_. poseidon_hash (poseidon4 circ) y)"

lemma merkle_hash_cong:
  "(\<And>k. k < n \<Longrightarrow> sib k = sib' k \<and> sel k = sel' k) \<Longrightarrow> merkle_hash p sib sel leaf n = merkle_hash p sib' sel' leaf n"
  by (induction n) simp_all

lemma tx_values:
  "tx_fun circ (InHash i) (tx_ins circ x (InHash i)) 0 = in_commit circ x i"
  "tx_fun circ (InNull i) (tx_ins circ x (InNull i)) 0 = nullifier circ (in_commit circ x i) (x (13 + i))"
  "tx_fun circ (InTree i) (tx_ins circ x (InTree i)) 0 = in_root circ x i"
  "tx_fun circ (OutHash i) (tx_ins circ x (OutHash i)) 0 = out_commit circ x i"
  by (auto simp: in_commit_def commitment_def nullifier_def out_commit_def in_root_def path_hash_def intro!: merkle_hash_cong)

section \<open>A check\<close>

lemma outcome_check:
  assumes "gives a s x" "gives b s y" "0 < expaux_size s"
  shows "outcome (seqM [op2 Fr_eq 0 a b, assertM m (isTrueE 0)]) s
    (\<lambda>u. (\<exists>e. u = s\<lparr>expaux := e\<rparr>) \<and> x = y) (\<lambda>e. x \<noteq> y \<and> e = AssertFailed m)"
proof -
  obtain v w where v: "a s = Inr v" "fok v" "fval v = x" and w: "b s = Inr w" "fok w" "fval w = y"
    using assms(1,2) by (auto elim!: givesE)
  let ?u = "s\<lparr>expaux := (expaux s)(0 \<mapsto> Fr_eq v w)\<rparr>"
  have "runs (op2 Fr_eq 0 a b) s (\<lambda>u. u = ?u)" using v w assms(3) by (simp add: wp)
  moreover have "isTrueE 0 ?u = Inr (x = y)"
    using assms(3) v w Fr_req_iff [OF v(2) w(2)] by (simp add: isTrueE_def exp_at_eq Fr_eq_def)
  then have "outcome (assertM m (isTrueE 0)) ?u (\<lambda>u. (\<exists>e. u = s\<lparr>expaux := e\<rparr>) \<and> x = y) (\<lambda>e. x \<noteq> y \<and> e = AssertFailed m)"
    by (auto simp: outcome_assert)
  ultimately show ?thesis by (auto simp: outcome_seq intro: outcome_runs)
qed

section \<open>Steps\<close>

fun tx_runner :: "runner list \<Rightarrow> tslot \<Rightarrow> runner" where
  "tx_runner ft (InHash i) = Poseidon_69_run ft" | "tx_runner ft (InNull i) = Poseidon_139_run ft"
| "tx_runner ft (InTree i) = MerkleProof_141_run ft" | "tx_runner ft (OutHash i) = Poseidon_69_run ft"

definition tx_job :: "Circom_Circuit \<Rightarrow> (nat \<Rightarrow> int) \<Rightarrow> runner list \<Rightarrow> tslot job \<Rightarrow> bool" where
  "tx_job circ x ft J \<longleftrightarrow>
     circuit_data_ok circ \<and> leaf_table ft \<and> circuit (j_init J) = circ \<and> j_ins J = tx_ins circ x \<and>
     j_fun J = tx_fun circ \<and> j_exp J = 2 \<and> j_lv J = 6"

lemma tx_jobD:
  assumes "tx_job circ x ft J"
  shows "circuit (j_init J) = circ" "j_ins J = tx_ins circ x" "j_fun J = tx_fun circ" "j_exp J = 2" "j_lv J = 6"
    "cval J 88 0" "cval J 90 1" "cval J 89 4" "cval J 503 20" "fok (circuitConstants circ ! 88)"
    "length (circuitConstants circ) = 25024"
  using assms data_small [of circ 88 0] data_small [of circ 90 1] data_small [of circ 89 4] data_small [of circ 503 20]
    data_length [of circ] data_fok [of circ 88]
  by (simp_all add: tx_job_def cval_def network_constants_def)

lemma tx_computes:
  assumes "tx_job circ x ft J"
  shows "computes (circuit (j_init J)) (tx_tmpl \<kappa>) (tx_shp \<kappa>) (tx_runner ft \<kappa>) (j_fun J \<kappa>)"
proof -
  have c: "circuit_data_ok circ" "leaf_table ft" using assms by (simp_all add: tx_job_def)
  have "tx_fun circ (InHash i) = (\<lambda>y _. poseidon_hash (poseidon4 circ) y)"
    "tx_fun circ (InNull i) = (\<lambda>y _. poseidon_hash (poseidon3 circ) y)"
    "tx_fun circ (InTree i) = (\<lambda>y _. path_hash (poseidon3 circ) y 20)"
    "tx_fun circ (OutHash i) = (\<lambda>y _. poseidon_hash (poseidon4 circ) y)" for i
    by (simp_all add: fun_eq_iff)
  then show ?thesis
    using Poseidon_69_computes [OF c] Poseidon_139_computes [OF c] MerkleProof_141_computes [OF c] tx_jobD(1,3) [OF assms]
    by (cases \<kappa>) simp_all
qed

abbreviation tx_st :: "(nat \<Rightarrow> int) \<Rightarrow> tslot job \<Rightarrow> (tslot \<times> nat) set \<Rightarrow> frame \<Rightarrow> bool" where
  "tx_st x J F \<equiv> tx.st J tx_slots F (own_inputs tx_shape x)"

lemma tx_own: "i < 193 \<Longrightarrow> own_inputs tx_shape x i = Some (x i)"
  by (simp add: own_inputs_def tx_shape_def)

lemma tx_counter:
  "tx.st J S F W u \<Longrightarrow> tx.st J S' F' W' s \<Longrightarrow> lvar u k = lvar s k \<Longrightarrow> counter s k i \<Longrightarrow> counter u k i"
  using tx.stD(4) [of J S F W u] tx.stD(4) [of J S' F' W' s] by (auto intro: counter_cong)

lemma tx_gives_own:
  assumes "tx_st x J F s" "ix s = Inr (int i)" "i < 193"
  shows "gives (sig_ix ix) s (x i)"
  using tx.gives_own [where ix = ix, OF assms _ tx_own [OF assms(3)]] assms(3) by simp

lemma tx_gives_out:
  assumes J: "tx_job circ x ft J" and s: "tx_st x J F s" and \<kappa>: "\<kappa> \<in> tx_slots" "k s = Inr (int (tx_num \<kappa>))"
    and all: "\<And>j. j < n_in (tx_shp \<kappa>) \<Longrightarrow> (\<kappa>, j) \<in> F"
  shows "gives (from_sub k (sub_addr (ixs [] 0))) s (tx_fun circ \<kappa> (tx_ins circ x \<kappa>) 0)"
proof -
  have "0 < n_out (tx_shp \<kappa>)" "0 < n_sig (tx_shp \<kappa>)" by (cases \<kappa>; simp add: merkle_shape_def poseidon_shape_def)+
  then show ?thesis
    using tx.gives_from_sub [where k = k, OF s \<kappa> _ _ all, of _ 0] tx.points_sub_addr [where ix = "ixs [] 0", OF s \<kappa>(1) ixs_lit]
      tx_jobD(2,3) [OF J] by simp
qed

lemma tx_feed_own:
  assumes J: "tx_job circ x ft J" and s: "tx_st x J F s" and \<kappa>: "\<kappa> \<in> tx_slots" "k s = Inr (int (tx_num \<kappa>))" "(\<kappa>, j) \<notin> F"
    and j: "j < n_in (tx_shp \<kappa>)" "ix s = Inr (int (1 + j))"
    and src: "ix' s = Inr (int i)" "i < 193 \<and> x i = tx_ins circ x \<kappa> j" and r: "r = tx_runner ft \<kappa>"
  shows "runs (sub_input k (sub_addr ix) [] (sig_ix ix') r) s (\<lambda>t. tx_st x J (insert (\<kappa>, j) F) t \<and> lvar t = lvar s)"
proof (rule tx.runs_feed_own [where k = k and ix = ix and ix' = ix', OF s \<kappa>(1,2) _ j(1) \<kappa>(3) _ src(1)])
  show "ix s = Inr (int (in_at (tx_shp \<kappa>) + j))" using j(2) by (cases \<kappa>) simp_all
qed (use tx_computes [OF J] src(2) r tx_own [of i x] tx_jobD(2) [OF J] in auto)

lemma tx_feed_out:
  assumes J: "tx_job circ x ft J" and s: "tx_st x J F s" and \<kappa>: "\<kappa> \<in> tx_slots" "k s = Inr (int (tx_num \<kappa>))" "(\<kappa>, j) \<notin> F"
    and j: "j < n_in (tx_shp \<kappa>)" "ix s = Inr (int (1 + j))"
    and src: "\<kappa>' \<in> tx_slots" "k' s = Inr (int (tx_num \<kappa>'))" "\<And>j. j < n_in (tx_shp \<kappa>') \<Longrightarrow> (\<kappa>', j) \<in> F"
      "tx_fun circ \<kappa>' (tx_ins circ x \<kappa>') 0 = tx_ins circ x \<kappa> j" and r: "r = tx_runner ft \<kappa>"
  shows "runs (sub_input k (sub_addr ix) [] (from_sub k' (sub_addr (ixs [] 0))) r) s
    (\<lambda>t. tx_st x J (insert (\<kappa>, j) F) t \<and> lvar t = lvar s)"
proof (rule tx.runs_feed_out [where k = k and ix = ix and k' = k' and ix' = "ixs [] 0", OF s \<kappa>(1,2) _ j(1) \<kappa>(3) _ src(1,2) ixs_lit _ src(3)])
  show "ix s = Inr (int (in_at (tx_shp \<kappa>) + j))" using j(2) by (cases \<kappa>) simp_all
  show "0 < n_out (tx_shp \<kappa>')" by (cases \<kappa>') (simp_all add: merkle_shape_def)
qed (use tx_computes [OF J] src(4) r tx_jobD(2,3) [OF J] in auto)

text \<open>The same for slots and signals numbered by a loop counter.\<close>

lemma tx_index:
  assumes "tx_st x J F u \<and> lvar u = lvar s" "tx_st x J G s" "counter s m i"
  shows "ixs [(1, lv m)] a u = Inr (int (a + i))"
  by (rule ixs_counter1 [OF tx_counter [OF conjunct1 [OF assms(1)] assms(2) _ assms(3)]]) (simp_all add: assms(1))

lemma tx_feed_own_at:
  assumes J: "tx_job circ x ft J" and s: "tx_st x J G s" "counter s m i" and u: "tx_st x J F u \<and> lvar u = lvar s"
    and \<kappa>: "(\<kappa>, j) \<notin> F" "\<kappa> \<in> tx_slots" "r = tx_runner ft \<kappa>"
      "b + i = tx_num \<kappa> \<and> j < n_in (tx_shp \<kappa>) \<and> n = 1 + j \<and> a + i < 193 \<and> x (a + i) = tx_ins circ x \<kappa> j"
  shows "runs (sub_input (ixs [(1, lv m)] b) (sub_addr (ixs [] n)) [] (sig_ix (ixs [(1, lv m)] a)) r) u
    (\<lambda>t. tx_st x J (insert (\<kappa>, j) F) t \<and> lvar t = lvar s)"
proof -
  have "runs (sub_input (ixs [(1, lv m)] b) (sub_addr (ixs [] n)) [] (sig_ix (ixs [(1, lv m)] a)) r) u
      (\<lambda>t. tx_st x J (insert (\<kappa>, j) F) t \<and> lvar t = lvar u)"
    by (rule tx_feed_own [where k = "ixs [(1, lv m)] b" and ix = "ixs [] n" and ix' = "ixs [(1, lv m)] a" and i = "a + i",
        OF J conjunct1 [OF u] \<kappa>(2) _ \<kappa>(1) _ _ tx_index [OF u s] _ \<kappa>(3)])
      (use tx_index [OF u s, of b] \<kappa>(4) in \<open>simp_all add: ixs_lit\<close>)
  then show ?thesis using u by simp
qed

lemma tx_feed_out_at:
  assumes J: "tx_job circ x ft J" and s: "tx_st x J G s" "counter s m i" and u: "tx_st x J F u \<and> lvar u = lvar s"
    and \<kappa>: "(\<kappa>, j) \<notin> F" "\<kappa> \<in> tx_slots" "\<kappa>' \<in> tx_slots" "r = tx_runner ft \<kappa>" "\<And>k. k < n_in (tx_shp \<kappa>') \<Longrightarrow> (\<kappa>', k) \<in> F"
      "b + i = tx_num \<kappa> \<and> b' + i = tx_num \<kappa>' \<and> j < n_in (tx_shp \<kappa>) \<and> n = 1 + j \<and>
       tx_fun circ \<kappa>' (tx_ins circ x \<kappa>') 0 = tx_ins circ x \<kappa> j"
  shows "runs (sub_input (ixs [(1, lv m)] b) (sub_addr (ixs [] n)) [] (from_sub (ixs [(1, lv m)] b') (sub_addr (ixs [] 0))) r) u
    (\<lambda>t. tx_st x J (insert (\<kappa>, j) F) t \<and> lvar t = lvar s)"
proof -
  have "runs (sub_input (ixs [(1, lv m)] b) (sub_addr (ixs [] n)) [] (from_sub (ixs [(1, lv m)] b') (sub_addr (ixs [] 0))) r) u
      (\<lambda>t. tx_st x J (insert (\<kappa>, j) F) t \<and> lvar t = lvar u)"
    by (rule tx_feed_out [where k = "ixs [(1, lv m)] b" and ix = "ixs [] n" and k' = "ixs [(1, lv m)] b'",
        OF J conjunct1 [OF u] \<kappa>(2) _ \<kappa>(1) _ _ \<kappa>(3) _ \<kappa>(5) _ \<kappa>(4)])
      (use tx_index [OF u s, of b] tx_index [OF u s, of b'] \<kappa>(6) in \<open>simp_all add: ixs_lit\<close>)
  then show ?thesis using u by simp
qed

section \<open>One input\<close>

definition inputs_done :: "nat \<Rightarrow> (tslot \<times> nat) set" where
  "inputs_done n = {(\<kappa>, j). \<exists>i < n. \<kappa> = InHash i \<and> j < 3 \<or> \<kappa> = InNull i \<and> j < 2 \<or> \<kappa> = InTree i \<and> j < 41}"

definition hashes_done :: "nat \<Rightarrow> (tslot \<times> nat) set" where
  "hashes_done i = {(\<kappa>, j). \<kappa> = InHash i \<and> j < 3 \<or> \<kappa> = InNull i \<and> j < 2}"

definition path_done :: "nat \<Rightarrow> nat \<Rightarrow> (tslot \<times> nat) set" where
  "path_done i n = {(\<kappa>, j). \<kappa> = InTree i \<and> (j \<le> n \<or> 21 \<le> j \<and> j < 21 + n)}"

lemma less3: "k < 3 \<longleftrightarrow> k = 0 \<or> k = 1 \<or> k = 2" for k :: nat
  by auto

lemma inputs_done_Suc: "inputs_done (Suc i) = inputs_done i \<union> hashes_done i \<union> path_done i 20"
  by (auto simp: inputs_done_def hashes_done_def path_done_def less_Suc_eq)

lemma hashes_done_eq:
  "F \<union> hashes_done i = insert (InNull i, 1) (insert (InNull i, 0) (insert (InHash i, 2) (insert (InHash i, 1)
     (insert (InHash i, 0) F))))"
  by (auto simp: hashes_done_def less3 less2)

lemma path_done_Suc: "n < 20 \<Longrightarrow> F \<union> path_done i (Suc n) = insert (InTree i, 21 + n) (insert (InTree i, 1 + n) (F \<union> path_done i n))"
  by (auto simp: path_done_def)

lemma runs_input_hashes:
  assumes J: "tx_job circ x ft J" and s: "tx_st x J (inputs_done i) s" and i: "i < 4" "counter s 4 i"
  shows "runs (seqM (input_hashes ft)) s (\<lambda>t. tx_st x J (inputs_done i \<union> hashes_done i) t \<and> lvar t = lvar s)"
proof -
  have sl: "InHash i \<in> tx_slots" "InNull i \<in> tx_slots" using i(1) by (auto simp: tx_slots_def)
  note own = tx_feed_own_at [OF J s i(2)]
  note out = tx_feed_out_at [OF J s i(2)]
  have new: "(InHash i, j) \<notin> inputs_done i" "(InNull i, j) \<notin> inputs_done i" for j by (auto simp: inputs_done_def)
  have s0: "tx_st x J (inputs_done i) s \<and> lvar s = lvar s" using s by simp
  show ?thesis
    unfolding input_hashes_def runs_seq_Cons runs_seq_Nil hashes_done_eq
    apply (rule runs_mono, rule own [of _ s "InHash i" 0], rule s0, simp add: new, rule sl, simp, use i(1) in \<open>simp add: arg3_def\<close>)
    apply (rule runs_mono, rule own [of _ _ "InHash i" 1], assumption, simp add: new, rule sl, simp, use i(1) in \<open>simp add: arg3_def\<close>)
    apply (rule runs_mono, rule own [of _ _ "InHash i" 2], assumption, simp add: new, rule sl, simp, use i(1) in \<open>simp add: arg3_def\<close>)
    apply (rule runs_mono, rule out [of _ _ "InNull i" 0 "InHash i"], assumption, simp add: new, rule sl, rule sl, simp,
        fastforce simp: less3, use tx_values(1) in \<open>simp add: arg2_def\<close>)
    apply (rule runs_mono, rule own [of _ _ "InNull i" 1], assumption, simp add: new, rule sl, simp, use i(1) in \<open>simp add: arg2_def\<close>)
    apply simp
    done
qed

lemma runs_input_path:
  assumes J: "tx_job circ x ft J" and s: "tx_st x J (inputs_done i \<union> hashes_done i) s" and i: "i < 4" "counter s 4 i"
  shows "runs (seqM (input_path ft)) s (\<lambda>t. tx_st x J (inputs_done (Suc i)) t \<and>
    lvar t 3 = lvar s 3 \<and> lvar t 4 = lvar s 4)"
proof -
  let ?F = "inputs_done i \<union> hashes_done i"
  have sl: "InTree i \<in> tx_slots" "InHash i \<in> tx_slots" using i(1) by (auto simp: tx_slots_def)
  have leaf: "runs (sub_input (ixs [(1, lv 4)] 8) (sub_addr (ixs [] 1)) []
        (from_sub (ixs [(1, lv 4)] 0) (sub_addr (ixs [] 0))) (MerkleProof_141_run ft)) s
      (\<lambda>t. tx_st x J (insert (InTree i, 0) ?F) t \<and> lvar t = lvar s)"
    by (rule tx_feed_out_at [OF J s i(2) _ _ sl])
      (use s tx_values(1) in \<open>auto simp: inputs_done_def hashes_done_def\<close>)
  have start: "insert (InTree i, 0) ?F = ?F \<union> path_done i 0" by (auto simp: path_done_def)
  have path: "runs (seqM (for_loop 5 503
       [sub_input (ixs [(1, lv 4)] 8) (sub_addr (ixs [(1, lv 5)] 2)) []
          (sig_ix (ixs [(20, lv 4), (1, lv 5)] 21)) (MerkleProof_141_run ft),
        sub_input (ixs [(1, lv 4)] 8) (sub_addr (ixs [(1, lv 5)] 22)) []
          (sig_ix (ixs [(20, lv 4), (1, lv 5)] 101)) (MerkleProof_141_run ft)])) u
      (\<lambda>t. tx_st x J (?F \<union> path_done i 20) t \<and> lvar t 3 = lvar s 3 \<and> lvar t 4 = lvar s 4)"
    if u: "tx_st x J (insert (InTree i, 0) ?F) u \<and> lvar u = lvar s" for u
    unfolding for_loop_def
  proof (rule tx.runs_net_for [where F = "\<lambda>j. ?F \<union> path_done i j" and W = "\<lambda>_. own_inputs tx_shape x"
        and P = "\<lambda>_ l. l 3 = lvar s 3 \<and> l 4 = lvar s 4", OF tx_jobD(9,6,7) [OF J]])
    fix j t v assume j: "j < 20" and t: "tx_st x J (?F \<union> path_done i j) t" and l: "lvar t 3 = lvar s 3 \<and> lvar t 4 = lvar s 4"
      and v: "lvar t 5 = Some v" "small v (int j)"
    have c: "counter w 4 i" "counter w 5 j" if "tx_st x J F w" "lvar w = lvar t" for F w
      using tx_counter [OF that(1) s, of 4 i] that l i(2) v tx.stD(4) [OF that(1)] tx_jobD(5) [OF J]
      by (auto simp: counter_def)
    have new: "(InTree i, 1 + j) \<notin> ?F \<union> path_done i j" "(InTree i, 21 + j) \<notin> insert (InTree i, 1 + j) (?F \<union> path_done i j)"
      using j by (auto simp: inputs_done_def hashes_done_def path_done_def)
    have feed: "runs (sub_input (ixs [(1, lv 4)] 8) (sub_addr (ixs [(1, lv 5)] n)) []
          (sig_ix (ixs [(20, lv 4), (1, lv 5)] a)) (MerkleProof_141_run ft)) w
        (\<lambda>t. tx_st x J (insert (InTree i, k) F) t \<and> lvar t = lvar w)"
      if w: "tx_st x J F w" "lvar w = lvar t" and "(InTree i, k) \<notin> F"
        "k < 41 \<and> n + j = 1 + k \<and> a + 20 * i + j < 193 \<and> x (a + 20 * i + j) = tx_ins circ x (InTree i) k"
      for F w k n a
    proof (rule tx_feed_own [where k = "ixs [(1, lv 4)] 8" and ix = "ixs [(1, lv 5)] n" and i = "a + 20 * i + j",
          OF J w(1) sl(1) _ that(3)])
      show "ixs [(1, lv 4)] 8 w = Inr (int (tx_num (InTree i)))" by (rule ixs_counter1 [OF c(1) [OF w]]) simp
      show "ixs [(1, lv 5)] n w = Inr (int (1 + k))" by (rule ixs_counter1 [OF c(2) [OF w]]) (use that(4) in simp)
      show "ixs [(20, lv 4), (1, lv 5)] a w = Inr (int (a + 20 * i + j))" by (rule ixs_counter2 [OF c [OF w]]) simp
    qed (use that(4) in simp_all)
    have "runs (sub_input (ixs [(1, lv 4)] 8) (sub_addr (ixs [(1, lv 5)] 2)) []
          (sig_ix (ixs [(20, lv 4), (1, lv 5)] 21)) (MerkleProof_141_run ft)) t
        (\<lambda>w. tx_st x J (insert (InTree i, 1 + j) (?F \<union> path_done i j)) w \<and> lvar w = lvar t)"
      by (rule feed [OF t refl new(1)]) (use j i(1) in simp)
    moreover have "runs (sub_input (ixs [(1, lv 4)] 8) (sub_addr (ixs [(1, lv 5)] 22)) []
          (sig_ix (ixs [(20, lv 4), (1, lv 5)] 101)) (MerkleProof_141_run ft)) w
        (\<lambda>w. tx_st x J (?F \<union> path_done i (Suc j)) w \<and> (lvar w 3 = lvar s 3 \<and> lvar w 4 = lvar s 4) \<and> lvar w 5 = Some v)"
      if "tx_st x J (insert (InTree i, 1 + j) (?F \<union> path_done i j)) w \<and> lvar w = lvar t" for w
      unfolding path_done_Suc [OF j]
      by (rule runs_mono [OF feed [OF conjunct1 [OF that] conjunct2 [OF that] new(2)]]) (use j i(1) that l v in auto)
    ultimately show "runs (seqM
       [sub_input (ixs [(1, lv 4)] 8) (sub_addr (ixs [(1, lv 5)] 2)) []
          (sig_ix (ixs [(20, lv 4), (1, lv 5)] 21)) (MerkleProof_141_run ft),
        sub_input (ixs [(1, lv 4)] 8) (sub_addr (ixs [(1, lv 5)] 22)) []
          (sig_ix (ixs [(20, lv 4), (1, lv 5)] 101)) (MerkleProof_141_run ft)]) t
      (\<lambda>w. tx_st x J (?F \<union> path_done i (Suc j)) w \<and> (lvar w 3 = lvar s 3 \<and> lvar w 4 = lvar s 4) \<and> lvar w 5 = Some v)"
      unfolding runs_seq_Cons runs_seq_Nil by (rule runs_mono)
  qed (use u start tx_jobD [OF J] in simp_all)
  show ?thesis
    unfolding input_path_def runs_seq_Cons [of "sub_input _ _ _ _ _"] inputs_done_Suc
    by (rule runs_mono [OF leaf path])
qed

section \<open>The checks and the sums\<close>

lemma outcome_check_st:
  assumes J: "tx_job circ x ft J" and s: "tx_st x J F s" and g: "gives a s v" "gives b s w"
  shows "outcome (seqM [op2 Fr_eq 0 a b, assertM m (isTrueE 0)]) s
    (\<lambda>u. tx_st x J F u \<and> lvar u = lvar s \<and> v = w) (\<lambda>e. v \<noteq> w \<and> e = AssertFailed m)"
  by (rule outcome_mono [OF outcome_check [OF g]]) (use s tx_jobD(4) [OF J] tx.stD(3) [OF s] in auto)

definition holds_sum :: "(nat \<rightharpoonup> FrElement) \<Rightarrow> nat \<Rightarrow> int \<Rightarrow> bool" where
  "holds_sum l k y \<longleftrightarrow> (\<exists>v. l k = Some v \<and> fok v \<and> fval v = y)"

lemma sum_from_Suc: "sum_from x a (Suc n) = (sum_from x a n + x (a + n)) mod q_int"
  by (simp add: sum_from_def mod_simps)

lemma runs_sum:
  assumes J: "tx_job circ x ft J" and s: "tx_st x J F s" "holds_sum (lvar s) k (sum_from x a n)" "k < 6"
    and ix: "ix s = Inr (int (a + n))" "a + n < 193"
  shows "runs (block (to_lvar k) [op2 Fr_add 0 (lv k) (sig_ix ix)] (exp_at 0)) s
    (\<lambda>u. tx_st x J F u \<and> holds_sum (lvar u) k (sum_from x a (Suc n)) \<and> (\<forall>j. j \<noteq> k \<longrightarrow> lvar u j = lvar s j))"
proof -
  obtain v where v: "lvar s k = Some v" "fok v" "fval v = sum_from x a n" using s(2) by (auto simp: holds_sum_def)
  obtain w where w: "sig_ix ix s = Inr w" "fok w" "fval w = x (a + n)"
    using tx_gives_own [where ix = ix, OF s(1) ix] by (auto elim: givesE)
  have "lv k s = Inr v" using v(1) s(3) tx.stD(4) [OF s(1)] tx_jobD(5) [OF J] by (simp add: lv_eq)
  then show ?thesis
    using s(1,3) w v fr.add_ok [OF v(2) w(2)] fr.add_val [OF v(2) w(2)] tx.stD(3,4) [OF s(1)] tx_jobD(4,5) [OF J]
    by (simp add: wp exp_at_eq holds_sum_def sum_from_Suc)
qed

lemma refusedI:
  "\<not> input_ok circ x i \<Longrightarrow> i < 4 \<Longrightarrow> m = ''line 86'' \<or> m = ''line 95'' \<Longrightarrow> refused circ x (AssertFailed m)"
  "\<not> output_ok circ x i \<Longrightarrow> i < 4 \<Longrightarrow> refused circ x (AssertFailed ''line 114'')"
  "sum_from x 9 4 \<noteq> sum_from x 181 4 \<Longrightarrow> refused circ x (AssertFailed ''line 121'')"
  by (auto simp: refused_def transaction_ok_def)

text \<open>The check of the nullifier, the check of the root and the sum, for the input under the counter.\<close>

lemma tx_index4:
  assumes J: "tx_job circ x ft J" and u: "tx_st x J F u" "lvar u 4 = Some v" "small v (int i)"
  shows "ixs [(1, lv 4)] a u = Inr (int (a + i))"
  by (rule ixs_counter1) (use u tx.stD(4) [OF u(1)] tx_jobD(5) [OF J] in \<open>auto simp: counter_def\<close>)

lemma outcome_nullifier:
  assumes J: "tx_job circ x ft J" and i: "i < 4" and u: "tx_st x J (inputs_done i \<union> hashes_done i) u"
    and l: "lvar u 4 = Some v" "small v (int i)"
  shows "outcome (seqM nullifier_check) u
    (\<lambda>w. tx_st x J (inputs_done i \<union> hashes_done i) w \<and> lvar w = lvar u \<and>
      nullifier circ (in_commit circ x i) (x (13 + i)) = x (1 + i)) (refused circ x)"
proof -
  have sl: "InNull i \<in> tx_slots" using i by (simp add: tx_slots_def)
  have k: "ixs [(1, lv 4)] 4 u = Inr (int (tx_num (InNull i)))" "ixs [(1, lv 4)] 1 u = Inr (int (1 + i))"
    using tx_index4 [OF J u l, of 4] tx_index4 [OF J u l, of 1] by simp_all
  have "gives (from_sub (ixs [(1, lv 4)] 4) (sub_addr (ixs [] 0))) u (nullifier circ (in_commit circ x i) (x (13 + i)))"
    using tx_gives_out [where k = "ixs [(1, lv 4)] 4", OF J u sl k(1)] tx_values(2) [of circ i x]
    by (simp add: hashes_done_def)
  moreover have "gives (sig_ix (ixs [(1, lv 4)] 1)) u (x (1 + i))"
    by (rule tx_gives_own [where ix = "ixs [(1, lv 4)] 1", OF u k(2)]) (use i in simp)
  ultimately show ?thesis
    unfolding nullifier_check_def
    by (rule outcome_mono [OF outcome_check_st [OF J u]]) (use i refusedI(1) in \<open>auto simp: input_ok_def\<close>)
qed

lemma outcome_root:
  assumes J: "tx_job circ x ft J" and i: "i < 4" and u: "tx_st x J (inputs_done (Suc i)) u"
    and l: "lvar u 4 = Some v" "small v (int i)"
  shows "outcome (seqM root_check) u
    (\<lambda>w. tx_st x J (inputs_done (Suc i)) w \<and> lvar w = lvar u \<and> in_root circ x i = x 0) (refused circ x)"
proof -
  have sl: "InTree i \<in> tx_slots" using i by (simp add: tx_slots_def)
  have k: "ixs [(1, lv 4)] 8 u = Inr (int (tx_num (InTree i)))" using tx_index4 [OF J u l, of 8] by simp
  have "gives (from_sub (ixs [(1, lv 4)] 8) (sub_addr (ixs [] 0))) u (in_root circ x i)"
    using tx_gives_out [where k = "ixs [(1, lv 4)] 8", OF J u sl k] tx_values(3) [of circ i x]
    by (simp add: inputs_done_def less_Suc_eq)
  moreover have "gives (sig_ix (ixs [] 0)) u (x 0)" by (rule tx_gives_own [where ix = "ixs [] 0", OF u ixs_lit]) simp
  ultimately show ?thesis
    unfolding root_check_def
    by (rule outcome_mono [OF outcome_check_st [OF J u]]) (use i refusedI(1) in \<open>auto simp: input_ok_def\<close>)
qed

lemma runs_input_sum:
  assumes J: "tx_job circ x ft J" and i: "i < 4" and u: "tx_st x J F u"
    and l: "lvar u 4 = Some v" "small v (int i)" "holds_sum (lvar u) 3 (sum_from x 9 i)"
  shows "runs (seqM input_sum) u
    (\<lambda>w. tx_st x J F w \<and> holds_sum (lvar w) 3 (sum_from x 9 (Suc i)) \<and> lvar w 4 = Some v)"
  unfolding input_sum_def runs_seq_Cons runs_seq_Nil
  by (rule runs_mono [OF runs_sum [where ix = "ixs [(1, lv 4)] 9", OF J u l(3) _ tx_index4 [OF J u l(1,2)]]])
    (use l i in auto)

lemma input_round:
  assumes J: "tx_job circ x ft J" and i: "i < 4" and s: "tx_st x J (inputs_done i) s"
    and l: "holds_sum (lvar s) 3 (sum_from x 9 i)" "lvar s 4 = Some v" "small v (int i)"
  shows "outcome (seqM (input_hashes ft @ nullifier_check @ input_path ft @ root_check @ input_sum)) s
    (\<lambda>u. tx_st x J (inputs_done (Suc i)) u \<and> holds_sum (lvar u) 3 (sum_from x 9 (Suc i)) \<and> input_ok circ x i \<and>
      lvar u 4 = Some v) (refused circ x)"
proof -
  let ?Q = "\<lambda>u. tx_st x J (inputs_done (Suc i)) u \<and> holds_sum (lvar u) 3 (sum_from x 9 (Suc i)) \<and> input_ok circ x i \<and>
      lvar u 4 = Some v"
  have c: "counter u 4 i" if "tx_st x J F u" "lvar u 4 = lvar s 4" for F u
    using that l(2,3) tx.stD(4) [OF that(1)] tx_jobD(5) [OF J] by (auto simp: counter_def)
  have tail: "outcome (seqM root_check) w (\<lambda>t. outcome (seqM input_sum) t ?Q (refused circ x)) (refused circ x)"
    if w: "tx_st x J (inputs_done (Suc i)) w" "lvar w 4 = Some v" "holds_sum (lvar w) 3 (sum_from x 9 i)"
      and null: "nullifier circ (in_commit circ x i) (x (13 + i)) = x (1 + i)" for w
    by (rule outcome_mono [OF outcome_root [OF J i w(1,2) l(3)]])
      (use w null l(3) in \<open>auto simp: input_ok_def intro!: outcome_runs [OF runs_input_sum [OF J i]]\<close>)
  have path: "outcome (seqM (input_path ft)) u (\<lambda>t. outcome (seqM root_check) t
      (\<lambda>t. outcome (seqM input_sum) t ?Q (refused circ x)) (refused circ x)) (refused circ x)"
    if u: "tx_st x J (inputs_done i \<union> hashes_done i) u" "lvar u = lvar s"
      and null: "nullifier circ (in_commit circ x i) (x (13 + i)) = x (1 + i)" for u
    by (rule outcome_runs [OF runs_input_path [OF J u(1) i c [OF u(1)]]])
      (use u l null tail in \<open>auto simp: holds_sum_def\<close>)
  show ?thesis
    unfolding outcome_seq_append
  proof (rule outcome_runs [OF runs_input_hashes [OF J s i c [OF s refl]]])
    fix u assume u: "tx_st x J (inputs_done i \<union> hashes_done i) u \<and> lvar u = lvar s"
    show "outcome (seqM nullifier_check) u (\<lambda>t. outcome (seqM (input_path ft)) t (\<lambda>t. outcome (seqM root_check) t
      (\<lambda>t. outcome (seqM input_sum) t ?Q (refused circ x)) (refused circ x)) (refused circ x)) (refused circ x)"
      by (rule outcome_mono [OF outcome_nullifier [OF J i conjunct1 [OF u] _ l(3)]]) (use u l(2) path in auto)
  qed
qed

section \<open>One output\<close>

definition outputs_done :: "nat \<Rightarrow> (tslot \<times> nat) set" where
  "outputs_done n = inputs_done 4 \<union> {(\<kappa>, j). \<exists>i < n. \<kappa> = OutHash i \<and> j < 3}"

lemma outputs_done_Suc:
  "outputs_done (Suc i) = insert (OutHash i, 2) (insert (OutHash i, 1) (insert (OutHash i, 0) (outputs_done i)))"
  by (auto simp: outputs_done_def less3 less_Suc_eq)

lemma runs_output_hash:
  assumes J: "tx_job circ x ft J" and s: "tx_st x J (outputs_done i) s" and i: "i < 4" "counter s 5 i"
  shows "runs (seqM (output_hash ft)) s (\<lambda>t. tx_st x J (outputs_done (Suc i)) t \<and> lvar t = lvar s)"
proof -
  have sl: "OutHash i \<in> tx_slots" using i(1) by (auto simp: tx_slots_def)
  note own = tx_feed_own_at [OF J s i(2)]
  have new: "(OutHash i, j) \<notin> outputs_done i" for j by (auto simp: outputs_done_def inputs_done_def)
  have s0: "tx_st x J (outputs_done i) s \<and> lvar s = lvar s" using s by simp
  show ?thesis
    unfolding output_hash_def runs_seq_Cons runs_seq_Nil outputs_done_Suc
    apply (rule runs_mono, rule own [of _ s "OutHash i" 0], rule s0, simp add: new, rule sl, simp, use i(1) in \<open>simp add: arg3_def\<close>)
    apply (rule runs_mono, rule own [of _ _ "OutHash i" 1], assumption, simp add: new, rule sl, simp, use i(1) in \<open>simp add: arg3_def\<close>)
    apply (rule runs_mono, rule own [of _ _ "OutHash i" 2], assumption, simp add: new, rule sl, simp, use i(1) in \<open>simp add: arg3_def\<close>)
    apply simp
    done
qed

lemma output_round:
  assumes J: "tx_job circ x ft J" and i: "i < 4" and s: "tx_st x J (outputs_done i) s"
    and l: "holds_sum (lvar s) 3 y" "holds_sum (lvar s) 4 (sum_from x 181 i)" "lvar s 5 = Some v" "small v (int i)"
  shows "outcome (seqM (output_hash ft @ commitment_check @ output_sum)) s
    (\<lambda>u. tx_st x J (outputs_done (Suc i)) u \<and> holds_sum (lvar u) 3 y \<and> holds_sum (lvar u) 4 (sum_from x 181 (Suc i)) \<and>
      output_ok circ x i \<and> lvar u 5 = Some v) (refused circ x)"
proof -
  have sl: "OutHash i \<in> tx_slots" using i by (auto simp: tx_slots_def)
  have c: "counter u 5 i" if "tx_st x J F u" "lvar u = lvar s" for F u
    using that l(3,4) tx.stD(4) [OF that(1)] tx_jobD(5) [OF J] by (auto simp: counter_def)
  have ix: "ixs [(1, lv 5)] a u = Inr (int (a + i))" if "tx_st x J F u" "lvar u = lvar s" for a F u
    by (rule ixs_counter1 [OF c [OF that]]) simp
  have hash: "runs (seqM (output_hash ft)) s (\<lambda>u. tx_st x J (outputs_done (Suc i)) u \<and> lvar u = lvar s)"
    by (rule runs_output_hash [OF J s i c [OF s refl]])
  have check: "outcome (seqM commitment_check) u
      (\<lambda>w. (tx_st x J (outputs_done (Suc i)) w \<and> lvar w = lvar s) \<and> output_ok circ x i) (refused circ x)"
    if u: "tx_st x J (outputs_done (Suc i)) u \<and> lvar u = lvar s" for u
  proof -
    note st = conjunct1 [OF u]
    have k: "ixs [(1, lv 5)] 12 u = Inr (int (tx_num (OutHash i)))" "ixs [(1, lv 5)] 5 u = Inr (int (5 + i))"
      using ix [OF st, of 12] ix [OF st, of 5] u by simp_all
    have "gives (from_sub (ixs [(1, lv 5)] 12) (sub_addr (ixs [] 0))) u (out_commit circ x i)"
      using tx_gives_out [where k = "ixs [(1, lv 5)] 12", OF J st sl k(1)] tx_values(4) [of circ i x]
      by (simp add: outputs_done_def less_Suc_eq)
    moreover have "gives (sig_ix (ixs [(1, lv 5)] 5)) u (x (5 + i))"
      by (rule tx_gives_own [where ix = "ixs [(1, lv 5)] 5", OF st k(2)]) (use i in simp)
    ultimately show ?thesis
      unfolding commitment_check_def
      by (rule outcome_mono [OF outcome_check_st [OF J st]])
        (use u i refusedI(2) in \<open>auto simp: output_ok_def\<close>)
  qed
  have sum: "runs (seqM output_sum) u (\<lambda>w. tx_st x J (outputs_done (Suc i)) w \<and> holds_sum (lvar w) 3 y \<and>
      holds_sum (lvar w) 4 (sum_from x 181 (Suc i)) \<and> lvar w 5 = Some v)"
    if u: "tx_st x J (outputs_done (Suc i)) u \<and> lvar u = lvar s" for u
    unfolding output_sum_def runs_seq_Cons runs_seq_Nil
    by (rule runs_mono [OF runs_sum [where ix = "ixs [(1, lv 5)] 181", OF J conjunct1 [OF u] _ _ ix [OF conjunct1 [OF u] conjunct2 [OF u]]]])
      (use u l i in \<open>auto simp: holds_sum_def\<close>)
  show ?thesis
    unfolding outcome_seq_append
    by (rule outcome_runs [OF hash], rule outcome_mono [OF check], assumption)
      (auto intro!: outcome_runs [OF sum])
qed

section \<open>The whole template\<close>

lemma runs_transaction_create:
  assumes J: "tx_job circ x ft J" and s: "tx.st J {} {} W s"
  shows "runs (seqM transaction_create) s (tx.st J tx_slots {} W)"
proof -
  let ?S1 = "InHash ` {..<4}" and ?S2 = "InHash ` {..<4} \<union> InNull ` {..<4}"
  let ?S3 = "?S2 \<union> InTree ` {..<4}"
  have 1: "runs (create_array Poseidon_69_create 0 193 0 ''inCommitmentHasher'' [4] 4 934 162) u (tx.st J ?S1 {} W)"
    if u: "tx.st J {} {} W u" for u
    by (rule runs_mono [OF tx.runs_create_array [OF u, where \<kappa> = InHash and tn = "''Poseidon''"]])
      (auto simp: tx_slots_def Poseidon_69_create_def)
  have 2: "runs (create_array Poseidon_139_create 4 3929 648 ''inNullifierHasher'' [4] 4 767 156) u (tx.st J ?S2 {} W)"
    if u: "tx.st J ?S1 {} W u" for u
    by (rule runs_mono [OF tx.runs_create_array [OF u, where \<kappa> = InNull and tn = "''Poseidon''"]])
      (auto simp: tx_slots_def Poseidon_139_create_def)
  have 3: "runs (create_array MerkleProof_141_create 8 6997 1272 ''inTree'' [4] 4 15543 3141) u (tx.st J ?S3 {} W)"
    if u: "tx.st J ?S2 {} W u" for u
    by (rule runs_mono [OF tx.runs_create_array [OF u, where \<kappa> = InTree and tn = "''MerkleProof''"]])
      (auto simp: tx_slots_def MerkleProof_141_create_def)
  have 4: "runs (create_array Poseidon_69_create 12 69169 13836 ''outCommitmentHasher'' [4] 4 934 162) u (tx.st J tx_slots {} W)"
    if u: "tx.st J ?S3 {} W u" for u
    by (rule runs_mono [OF tx.runs_create_array [OF u, where \<kappa> = OutHash and tn = "''Poseidon''"]])
      (auto simp: tx_slots_def Poseidon_69_create_def)
  show ?thesis
    unfolding transaction_create_def runs_seq_Cons runs_seq_Nil
    by (rule runs_mono [OF 1 [OF s]], rule runs_mono [OF 2], assumption, rule runs_mono [OF 3], assumption,
        rule runs_mono [OF 4], assumption)
qed

text \<open>The loops over the inputs and over the outputs, and the comparison of the two sums.\<close>

lemma outcome_inputs:
  assumes J: "tx_job circ x ft J" and u: "tx_st x J {} u \<and> holds_sum (lvar u) 3 (sum_from x 9 0)"
  shows "outcome (seqM (for_loop 4 89 (input_hashes ft @ nullifier_check @ input_path ft @ root_check @ input_sum))) u
    (\<lambda>w. tx_st x J (inputs_done 4) w \<and> holds_sum (lvar w) 3 (sum_from x 9 4) \<and> (\<forall>k < 4. input_ok circ x k))
    (refused circ x)"
  unfolding for_loop_def
proof (rule tx.outcome_net_for [where F = inputs_done and W = "\<lambda>_. own_inputs tx_shape x"
      and P = "\<lambda>i l. holds_sum l 3 (sum_from x 9 i) \<and> (\<forall>k < i. input_ok circ x k)", OF tx_jobD(8,6,7) [OF J]])
  fix i t v assume "i < 4" "tx_st x J (inputs_done i) t" "lvar t 4 = Some v" "small v (int i)"
    "holds_sum (lvar t) 3 (sum_from x 9 i) \<and> (\<forall>k < i. input_ok circ x k)"
  then show "outcome (seqM (input_hashes ft @ nullifier_check @ input_path ft @ root_check @ input_sum)) t
      (\<lambda>u. tx_st x J (inputs_done (Suc i)) u \<and> (holds_sum (lvar u) 3 (sum_from x 9 (Suc i)) \<and>
        (\<forall>k < Suc i. input_ok circ x k)) \<and> lvar u 4 = Some v) (refused circ x)"
    by (intro outcome_mono [OF input_round [OF J]]) (auto simp: less_Suc_eq)
qed (use u tx_jobD [OF J] in \<open>auto simp: inputs_done_def holds_sum_def\<close>)

lemma outcome_outputs:
  assumes J: "tx_job circ x ft J" and u: "tx_st x J (inputs_done 4) u" "holds_sum (lvar u) 3 (sum_from x 9 4)"
      "holds_sum (lvar u) 4 (sum_from x 181 0)"
  shows "outcome (seqM (for_loop 5 89 (output_hash ft @ commitment_check @ output_sum))) u
    (\<lambda>w. tx_st x J (outputs_done 4) w \<and> holds_sum (lvar w) 3 (sum_from x 9 4) \<and>
      holds_sum (lvar w) 4 (sum_from x 181 4) \<and> (\<forall>k < 4. output_ok circ x k)) (refused circ x)"
  unfolding for_loop_def
proof (rule tx.outcome_net_for [where F = outputs_done and W = "\<lambda>_. own_inputs tx_shape x"
      and P = "\<lambda>i l. holds_sum l 3 (sum_from x 9 4) \<and> holds_sum l 4 (sum_from x 181 i) \<and> (\<forall>k < i. output_ok circ x k)",
      OF tx_jobD(8,6,7) [OF J]])
  fix i t v assume "i < 4" "tx_st x J (outputs_done i) t" "lvar t 5 = Some v" "small v (int i)"
    "holds_sum (lvar t) 3 (sum_from x 9 4) \<and> holds_sum (lvar t) 4 (sum_from x 181 i) \<and> (\<forall>k < i. output_ok circ x k)"
  then show "outcome (seqM (output_hash ft @ commitment_check @ output_sum)) t
      (\<lambda>u. tx_st x J (outputs_done (Suc i)) u \<and> (holds_sum (lvar u) 3 (sum_from x 9 4) \<and>
        holds_sum (lvar u) 4 (sum_from x 181 (Suc i)) \<and> (\<forall>k < Suc i. output_ok circ x k)) \<and> lvar u 5 = Some v)
      (refused circ x)"
    by (intro outcome_mono [OF output_round [OF J]]) (auto simp: less_Suc_eq)
qed (use u tx_jobD [OF J] in \<open>auto simp: outputs_done_def holds_sum_def\<close>)

lemma outcome_balance:
  assumes J: "tx_job circ x ft J" and u: "tx_st x J (outputs_done 4) u" "holds_sum (lvar u) 3 (sum_from x 9 4)"
      "holds_sum (lvar u) 4 (sum_from x 181 4)"
  shows "outcome (seqM balance_check) u
    (\<lambda>w. tx_st x J (outputs_done 4) w \<and> lvar w = lvar u \<and> sum_from x 9 4 = sum_from x 181 4) (refused circ x)"
proof -
  have "gives (lv k) u y" if "holds_sum (lvar u) k y" "k < 6" for k y
    using that tx.stD(4) [OF u(1)] tx_jobD(5) [OF J] by (auto simp: holds_sum_def gives_def lv_eq)
  then have g: "gives (lv 3) u (sum_from x 9 4)" "gives (lv 4) u (sum_from x 181 4)" using u(2,3) by simp_all
  show ?thesis
    unfolding balance_check_def
    by (rule outcome_mono [OF outcome_check_st [OF J u(1) g]]) (use refusedI(3) in auto)
qed

text \<open>A sum is cleared before its loop.\<close>

lemma runs_clear_sum:
  assumes J: "tx_job circ x ft J" and u: "tx_st x J F u" "k < 6"
  shows "runs (load_consts [(k, 88)]) u
    (\<lambda>w. tx_st x J F w \<and> lvar w = (lvar u)(k \<mapsto> circuitConstants circ ! 88))"
  by (rule runs_mono [OF tx.runs_loads [OF u(1)]])
    (use u(2) tx_jobD [OF J] in \<open>simp_all add: fun_eq_iff map_add_def\<close>)

lemma cleared_sum: "tx_job circ x ft J \<Longrightarrow> holds_sum (l(k \<mapsto> circuitConstants circ ! 88)) k (sum_from x a 0)"
  using tx_jobD(1,6,10) small_fval [of "circuitConstants circ ! 88" 0]
  by (fastforce simp: holds_sum_def sum_from_def cval_def)

lemma outcome_output_part:
  assumes J: "tx_job circ x ft J"
    and u: "tx_st x J (inputs_done 4) u \<and> holds_sum (lvar u) 3 (sum_from x 9 4) \<and> (\<forall>k < 4. input_ok circ x k)"
  shows "outcome (seqM (load_consts [(4, 88)] # for_loop 5 89 (output_hash ft @ commitment_check @ output_sum) @
      balance_check)) u
    (\<lambda>w. tx_st x J (outputs_done 4) w \<and> transaction_ok circ x) (refused circ x)"
  unfolding outcome_seq(2) outcome_seq_append
proof (rule outcome_runs [OF runs_clear_sum [OF J conjunct1 [OF u]]])
  fix w assume w: "tx_st x J (inputs_done 4) w \<and> lvar w = (lvar u)(4 \<mapsto> circuitConstants circ ! 88)"
  have "outcome (seqM (for_loop 5 89 (output_hash ft @ commitment_check @ output_sum))) w
    (\<lambda>w. tx_st x J (outputs_done 4) w \<and> holds_sum (lvar w) 3 (sum_from x 9 4) \<and>
      holds_sum (lvar w) 4 (sum_from x 181 4) \<and> (\<forall>k < 4. output_ok circ x k)) (refused circ x)"
    by (rule outcome_outputs [OF J]) (use w u cleared_sum [OF J, of "lvar u" 4 181] in \<open>simp_all add: holds_sum_def\<close>)
  then show "outcome (seqM (for_loop 5 89 (output_hash ft @ commitment_check @ output_sum))) w
      (\<lambda>t. outcome (seqM balance_check) t (\<lambda>w. tx_st x J (outputs_done 4) w \<and> transaction_ok circ x) (refused circ x))
      (refused circ x)"
    by (rule outcome_mono) (use u in \<open>auto simp: transaction_ok_def intro: outcome_mono [OF outcome_balance [OF J]]\<close>)
qed simp

lemma outcome_transaction_body:
  assumes J: "tx_job circ x ft J" and s: "tx.st J {} {} (own_inputs tx_shape x) s"
  shows "outcome (seqM (transaction_body ft)) s
    (\<lambda>u. tx_st x J (outputs_done 4) u \<and> transaction_ok circ x) (refused circ x)"
proof -
  have params: "runs (load_consts [(0, 503), (1, 89), (2, 89)]) s (tx.st J {} {} (own_inputs tx_shape x))"
    by (rule runs_mono [OF tx.runs_loads [OF s]]) (use tx_jobD [OF J] in simp_all)
  have middle: "outcome (seqM (load_consts [(3, 88)] #
      for_loop 4 89 (input_hashes ft @ nullifier_check @ input_path ft @ root_check @ input_sum) @
      load_consts [(4, 88)] # for_loop 5 89 (output_hash ft @ commitment_check @ output_sum) @ balance_check)) u
      (\<lambda>w. tx_st x J (outputs_done 4) w \<and> transaction_ok circ x) (refused circ x)"
    if u: "tx_st x J {} u" for u
    unfolding outcome_seq(2) [of "load_consts [(3, 88)]"] outcome_seq_append [of "for_loop 4 _ _"]
    by (rule outcome_runs [OF runs_clear_sum [OF J u]], simp, rule outcome_mono [OF outcome_inputs [OF J]])
      (use cleared_sum [OF J, of "lvar u" 3 9] outcome_output_part [OF J] in simp_all)
  have body: "transaction_body ft = load_consts [(0, 503), (1, 89), (2, 89)] # transaction_create @
      load_consts [(3, 88)] # for_loop 4 89 (input_hashes ft @ nullifier_check @ input_path ft @ root_check @ input_sum) @
      load_consts [(4, 88)] # for_loop 5 89 (output_hash ft @ commitment_check @ output_sum) @ balance_check"
    by (simp add: transaction_body_def)
  show ?thesis
    unfolding body outcome_seq(2) [of "load_consts [(0, 503), (1, 89), (2, 89)]"] outcome_seq_append [of transaction_create]
    by (rule outcome_runs [OF params], rule outcome_runs [OF runs_transaction_create [OF J]], assumption, rule middle)
qed

end
