(* ===== verification/Circuit_Run.thy ===== *)
theory Circuit_Run
  imports Transaction_Correct
begin

text \<open>
  The whole circuit: \<open>run\<close> on a calculator whose inputs are in place, with the table of run
  functions, and the runs that the assignment of the last input starts.
\<close>

section \<open>The transaction template\<close>

lemma tx_shape_sizes: "n_sig tx_shape = 72905" "n_comp tx_shape = 14485" "n_out tx_shape = 0"
  by (simp_all add: tx_shape_def)

text \<open>
  What an accepted run leaves in the signals from \<open>start\<close> on: all of them are written, the inputs
  are what they were, and the outputs of the subcomponents are commitments, nullifiers and roots.
\<close>

definition witness_signals :: "Circom_Circuit \<Rightarrow> (nat \<Rightarrow> int) \<Rightarrow> nat \<Rightarrow> Circom_CalcWit \<Rightarrow> bool" where
  "witness_signals circ x start ctx \<longleftrightarrow> filled ctx start 72905 \<and> carries ctx start 193 x \<and>
     (\<forall>i < 4. carries ctx (start + tx_sig (InHash i)) 1 (\<lambda>_. in_commit circ x i) \<and>
       carries ctx (start + tx_sig (InNull i)) 1 (\<lambda>_. nullifier circ (in_commit circ x i) (x (13 + i))) \<and>
       carries ctx (start + tx_sig (InTree i)) 1 (\<lambda>_. in_root circ x i) \<and>
       carries ctx (start + tx_sig (OutHash i)) 1 (\<lambda>_. out_commit circ x i))"

lemma leaves_witness:
  assumes "tx.leaves start (\<lambda>\<kappa>. tx_fun circ \<kappa> (tx_ins circ x \<kappa>)) (\<lambda>W. W = own_inputs tx_shape x \<and> R) ctx"
  shows "witness_signals circ x start ctx \<and> R"
proof -
  have slots: "InHash i \<in> tx_slots" "InNull i \<in> tx_slots" "InTree i \<in> tx_slots" "OutHash i \<in> tx_slots" if "i < 4" for i
    using that by (simp_all add: tx_slots_def)
  have "carries ctx start 193 x"
    by (rule tx.leaves_outputs [OF assms]) (simp_all add: own_inputs_def tx_shape_def)
  moreover have out: "carries ctx (start + tx_sig \<kappa>) 1 (\<lambda>_. y)"
    if "\<kappa> \<in> tx_slots" "n_out (tx_shp \<kappa>) = 1" "tx_fun circ \<kappa> (tx_ins circ x \<kappa>) 0 = y" for \<kappa> y
    using assms that by (force simp: tx.leaves_def carries_def)
  ultimately show ?thesis
    using assms unfolding witness_signals_def tx.leaves_def
    by (intro conjI allI impI out slots tx_values) (auto simp: merkle_shape_def)
qed

lemma Transaction_142_outcome:
  assumes c: "circuit_data_ok circ" and ft: "leaf_table ft"
    and a: "circuit ctx = circ" "clean ctx" "fits tx_shape idx start" "placed tid n start (componentMemory ctx idx)"
      "subcomponents (componentMemory ctx idx) = Live (replicate 16 0)" "carries ctx start 193 x"
  shows "outcome (Transaction_142_run ft idx) ctx (\<lambda>ctx'.
    changes {start..<start + 72905} {idx..<idx + 14485} ctx ctx' \<and> clean ctx' \<and>
    placed tid n start (componentMemory ctx' idx) \<and> witness_signals circ x start ctx' \<and>
    transaction_ok circ x) (refused circ x)"
proof -
  let ?Q = "\<lambda>x W. W = own_inputs tx_shape x \<and> transaction_ok circ x"
  have "outcome (run_template 2 6 16 (transaction_body ft) idx) ctx (\<lambda>ctx'.
      changes {start..<start + n_sig tx_shape} {idx..<idx + n_comp tx_shape} ctx ctx' \<and> clean ctx' \<and>
      placed tid n start (componentMemory ctx' idx) \<and>
      tx.leaves start (\<lambda>\<kappa>. tx_fun circ \<kappa> (tx_ins circ x \<kappa>)) (?Q x) ctx') (refused circ x)"
  proof (rule tx.composite_outcome [where V = "tx_ins circ" and Gs = "tx_fun circ" and Q = ?Q
        and E = "refused circ" and circ = circ])
    fix J :: "tslot job" and s x
    assume J: "circuit (j_init J) = circ" "j_ins J = tx_ins circ x" "j_fun J = tx_fun circ" "j_exp J = 2" "j_lv J = 6"
      and s: "tx.st J {} {} (own_inputs tx_shape x) s"
    have j: "tx_job circ x ft J" using c ft J by (simp add: tx_job_def)
    have fed: "(\<kappa>, j) \<in> outputs_done 4" if "\<kappa> \<in> tx_slots" "j < n_in (tx_shp \<kappa>)" for \<kappa> j
      using that by (auto simp: tx_slots_def outputs_done_def inputs_done_def)
    show "outcome (seqM (transaction_body ft)) s (\<lambda>t. \<exists>F W. tx.st J tx_slots F W t \<and>
        (\<forall>\<kappa>\<in>tx_slots. \<forall>j<n_in (tx_shp \<kappa>). (\<kappa>, j) \<in> F) \<and> (\<forall>i < 193. W i \<noteq> None) \<and> ?Q x W) (refused circ x)"
      by (rule outcome_mono [OF outcome_transaction_body [OF j s]])
        (use fed in \<open>force simp: tx_shape_def own_inputs_def\<close>)
  qed (use a in \<open>simp_all add: tx_shape_def\<close>)
  then show ?thesis
    unfolding Transaction_142_run_def by (rule outcome_mono) (simp add: tx_shape_sizes, blast dest: leaves_witness)
qed

section \<open>The table of run functions\<close>

lemma functionTable_with_leaves: "leaf_table (functionTable_with ft)"
  by (simp add: leaf_table_def functionTable_with_def ark4_ids_def ark3_ids_def ark4_runs_def ark3_runs_def
      mixs4_runs_def mixs3_runs_def)

text \<open>The calls from \<open>run\<close> go through the table at most one level deep.\<close>

definition run_circuit_with :: "runner list \<Rightarrow> Circom_CalcWit stmt" where
  "run_circuit_with ft = seqM [Transaction_142_create 1 0 ''main'' 0, Transaction_142_run ft 0]"

lemma run_circuit_eq: "run_circuit = run_circuit_with (table_to 2)"
  by (simp add: run_circuit_def run_circuit_with_def functionTable_def)

lemma outcome_run_circuit_with:
  assumes c: "circuit_data_ok (circuit ctx)" and ft: "leaf_table ft" and a: "clean ctx" "carries ctx 1 193 x"
  shows "outcome (run_circuit_with ft) ctx
    (\<lambda>ctx'. changes {1..<72906} {0..<14485} ctx ctx' \<and> clean ctx' \<and> witness_signals (circuit ctx) x 1 ctx' \<and>
      transaction_ok (circuit ctx) x)
    (refused (circuit ctx) x)"
proof -
  let ?c = "(componentMemory ctx 0)\<lparr>templateId := Some 142, templateName := ''Transaction'', signalStart := Some 1,
    inputCounter := Some 193, componentName := ''main'', idFather := Some 0, subcomponents := Live (replicate 16 0)\<rparr>"
  let ?ctx = "ctx\<lparr>componentMemory := (componentMemory ctx)(0 := ?c)\<rparr>"
  have create: "runs (Transaction_142_create 1 0 ''main'' 0) ctx (\<lambda>u. u = ?ctx)"
    by (simp add: Transaction_142_create_def create_component_def wp comp_upd_def circuit_sizes)
  have "outcome (Transaction_142_run ft 0) ?ctx (\<lambda>ctx'.
      changes {1..<1 + 72905} {0..<0 + 14485} ?ctx ctx' \<and> clean ctx' \<and>
      placed 142 193 1 (componentMemory ctx' 0) \<and> witness_signals (circuit ctx) x 1 ctx' \<and> transaction_ok (circuit ctx) x) (refused (circuit ctx) x)"
  proof (rule Transaction_142_outcome [OF c ft])
    show "clean ?ctx" using a(1) by (auto simp: clean_def no_sync_def)
    show "carries ?ctx 1 193 x" using a(2) by (simp add: carries_def)
  qed (simp_all add: fits_def tx_shape_def circuit_sizes placed_def)
  moreover have "changes {1..<72906} {0..<14485} ctx ctx'" if "changes {1..<72906} {0..<14485} ?ctx ctx'" for ctx'
  proof -
    have "changes {} {0} ctx ?ctx"
      by (rule changesI [where sv = "signalValues ctx" and cm = "(componentMemory ctx)(0 := ?c)"]) simp_all
    from changes_trans [OF this that] show ?thesis by simp
  qed
  ultimately show ?thesis
    unfolding run_circuit_with_def outcome_seq
    by (intro outcome_runs [OF create]) (auto elim!: outcome_mono)
qed

text \<open>What \<open>run\<close> decides on a calculator whose inputs carry \<open>x\<close>, for every depth of the table from one on.\<close>

lemma run_circuit_with_decides:
  assumes "circuit_data_ok (circuit ctx)" "leaf_table ft" "clean ctx" "carries ctx 1 193 x"
  shows "(\<exists>ctx'. run_circuit_with ft ctx = Some (Inr ctx')) \<longleftrightarrow> transaction_ok (circuit ctx) x"
    and "\<not> transaction_ok (circuit ctx) x \<Longrightarrow>
      \<exists>m \<in> {''line 86'', ''line 95'', ''line 114'', ''line 121''}. run_circuit_with ft ctx = Some (Inl (AssertFailed m))"
    and "run_circuit_with ft ctx = Some (Inr ctx') \<Longrightarrow>
      changes {1..<72906} {0..<14485} ctx ctx' \<and> clean ctx' \<and> witness_signals (circuit ctx) x 1 ctx'"
  using outcome_run_circuit_with [OF assms]
  by (auto simp: outcome_def refused_def split: option.splits sum.splits)

lemma deep_table_leaves: "leaf_table (table_to (Suc d))"
  by (simp add: functionTable_with_leaves)

lemma functionTable_leaves: "leaf_table functionTable"
  by (simp add: functionTable_def numeral_2_eq_2 functionTable_with_leaves)

section \<open>The assignment of the inputs\<close>

text \<open>An assignment: the hash of a name, an index and a value; \<open>targets\<close> gives the number of its input.\<close>

type_synonym assignment = "u64 \<times> u32 \<times> FrElement"

definition feed :: "Circom_CalcWit stmt \<Rightarrow> assignment list \<Rightarrow> Circom_CalcWit stmt" where
  "feed run as = seqM (map (\<lambda>(h, i, v). setInputSignal run h i v) as)"

fun targets :: "Circom_Circuit \<Rightarrow> (nat \<Rightarrow> int) \<Rightarrow> assignment \<Rightarrow> nat \<Rightarrow> bool" where
  "targets circ x (h, i, v) k \<longleftrightarrow> fok v \<and> fval v = x k \<and>
     (case lookup_spec (InputHashMap circ) h of
        Inl e \<Rightarrow> False
      | Inr pos \<Rightarrow> pos < length (InputHashMap circ) \<and> ucast i < signalsize (InputHashMap circ ! pos) \<and>
          unat (ucast (signalid (InputHashMap circ ! pos) + ucast i) :: u32) = Suc k)"

text \<open>The first signal is \<open>v0\<close>; the inputs in \<open>D\<close> are assigned, with the values that \<open>x\<close> gives them.\<close>

definition loaded :: "Circom_Circuit \<Rightarrow> FrElement option \<Rightarrow> (nat \<Rightarrow> int) \<Rightarrow> nat set \<Rightarrow> Circom_CalcWit \<Rightarrow> bool" where
  "loaded circ v0 x D ctx \<longleftrightarrow>
     circuit ctx = circ \<and> signalValues ctx 0 = v0 \<and> clean ctx \<and> D \<subseteq> {..<193} \<and> length (inputSignalAssigned ctx) = 193 \<and>
     (\<forall>k < 193. inputSignalAssigned ctx ! k \<longleftrightarrow> k \<in> D) \<and>
     inputSignalAssignedCounter ctx = of_nat (193 - card D) \<and> (\<forall>k \<in> D. carries ctx (Suc k) 1 (\<lambda>_. x k))"

lemma loaded_all: "loaded circ v0 x {..<193} ctx \<Longrightarrow> clean ctx \<and> circuit ctx = circ \<and> carries ctx 1 193 x"
  by (auto simp: loaded_def intro: tx.carries_each)

lemma new_loaded: "Circom_CalcWit_new g circ m = Inr ctx \<Longrightarrow> loaded circ (signalValues ctx 0) x {} ctx"
  by (auto simp: loaded_def Circom_CalcWit_new_def bindR_def circuit_sizes clean_def no_sync_def
      Circom_Component_new_def split: sum.splits)

text \<open>The first signal is the constant one.\<close>

lemma new_one:
  assumes "gmp_spec g"
  obtains ctx where "Circom_CalcWit_new g circ m = Inr ctx" "carries ctx 0 1 (\<lambda>_. 1)"
proof -
  have "returns (Fr_str2element g ''1'' 10) (numeral_val 10 ''1'' mod q_int)"
    by (rule Fr_str2element_returns) (simp_all add: assms numeral_in_def digit_of_def)
  then have "returns (Fr_str2element g ''1'' 10) 1" by (simp add: numeral_val_def digit_of_def q_int_def)
  then obtain e where "Fr_str2element g ''1'' 10 = Inr e" "fok e" "fval e = 1" by (auto simp: returns_def)
  then show ?thesis by (auto simp: Circom_CalcWit_new_def bindR_def carries_def intro!: that)
qed

lemma counter_step:
  assumes "n < 193"
  shows "(of_nat (193 - n) :: u32) \<noteq> 0" "of_nat (193 - n) - 1 = (of_nat (193 - Suc n) :: u32)"
    "(of_nat (193 - Suc n) :: u32) = 0 \<longleftrightarrow> n = 192"
proof -
  have u: "unat (of_nat m :: u32) = m" if "m \<le> 193" for m using that by (intro unat_of_nat_u32) simp
  show "(of_nat (193 - n) :: u32) \<noteq> 0" using u [of "193 - n"] assms by (metis diff_le_self unat_0 zero_less_diff less_irrefl)
  have "193 - n = Suc (193 - Suc n)" using assms by simp
  then show "of_nat (193 - n) - 1 = (of_nat (193 - Suc n) :: u32)" by (simp only: of_nat_Suc add_diff_cancel_left')
  show "(of_nat (193 - Suc n) :: u32) = 0 \<longleftrightarrow> n = 192"
  proof
    assume "(of_nat (193 - Suc n) :: u32) = 0"
    then have "193 - Suc n = 0" using u [of "193 - Suc n"] by simp
    then show "n = 192" using assms by simp
  qed simp
qed

lemma loaded_card: "loaded circ v0 x D ctx \<Longrightarrow> k < 193 \<Longrightarrow> k \<notin> D \<Longrightarrow> card D < 193"
proof -
  assume l: "loaded circ v0 x D ctx" and k: "k < 193" "k \<notin> D"
  have "D \<subset> {..<193}" using l k by (auto simp: loaded_def)
  then show ?thesis using psubset_card_mono [of "{..<193}" D] by simp
qed

lemma set_input:
  assumes t: "table_size_ok (InputHashMap circ)" and l: "loaded circ v0 x D ctx"
    and a: "targets circ x (h, i, v) k" "k < 193" "k \<notin> D"
  obtains ctx' where "loaded circ v0 x (insert k D) ctx'" "signalValues ctx' = (signalValues ctx)(Suc k \<mapsto> v)"
    "setInputSignal run h i v ctx = (if card D = 192 then run ctx' else Some (Inr ctx'))"
proof -
  note L = l [unfolded loaded_def]
  obtain pos where pos: "lookup_spec (InputHashMap circ) h = Inr pos" "pos < length (InputHashMap circ)"
      "ucast i < signalsize (InputHashMap circ ! pos)"
      "unat (ucast (signalid (InputHashMap circ ! pos) + ucast i) :: u32) = Suc k"
    using a(1) by (auto split: sum.splits)
  have v: "fok v" "fval v = x k" using a(1) by simp_all
  have n: "card D < 193" by (rule loaded_card [OF l a(2,3)])
  define si where "si = (ucast (signalid (InputHashMap circ ! pos) + ucast i) :: u32)"
  have si: "unat si = Suc k" "unat (si - 1) = k" "uint si = int (Suc k)"
  proof -
    show "unat si = Suc k" using pos(4) by (simp add: si_def)
    then have "si \<noteq> 0" by auto
    then show "unat (si - 1) = k" using \<open>unat si = Suc k\<close> by (simp add: unat_minus_one)
    show "uint si = int (Suc k)" using \<open>unat si = Suc k\<close> by (simp only: uint_nat)
  qed
  have addr: "nat (1 + int k) = Suc k" by simp
  let ?ctx = "ctx\<lparr>signalValues := (signalValues ctx)(Suc k \<mapsto> v), inputSignalAssigned := (inputSignalAssigned ctx)[k := True],
    inputSignalAssignedCounter := inputSignalAssignedCounter ctx - 1\<rparr>"
  have assign: "assign_input ctx pos i v = Inr ?ctx"
    using L pos(2,3) a(2,3) si
    by (simp add: assign_input_def entry_at_def read_list_def bindR_def si_def [symmetric] Let_def circuit_sizes arr_write_def not_le addr)
  have c: "inputSignalAssignedCounter ?ctx = of_nat (193 - Suc (card D))" "inputSignalAssignedCounter ctx \<noteq> 0"
    using L counter_step [OF n] by simp_all
  have fin: "finite D" using L finite_subset by auto
  have "loaded circ v0 x (insert k D) ?ctx"
    using L a(2,3) v fin counter_step(2) [OF n] by (auto simp: loaded_def clean_def carries_def nth_list_update)
  moreover have "setInputSignal run h i v ctx = (if card D = 192 then run ?ctx else Some (Inr ?ctx))"
    using c assign lookup_eq_spec [of ctx h] t L pos(1) counter_step(3) [OF n]
    by (simp add: setInputSignal_def tryRunCircuit_def)
  ultimately show ?thesis by (intro that [of ?ctx]) simp_all
qed

text \<open>An incomplete sequence of assignments only fills its inputs.\<close>

lemma feed_Nil: "feed run [] ctx = Some (Inr ctx)"
  by (simp add: feed_def seqM.simps)

lemma feed_Cons: "feed run ((h, i, v) # as) ctx = (case setInputSignal run h i v ctx of
    None \<Rightarrow> None | Some (Inl e) \<Rightarrow> Some (Inl e) | Some (Inr t) \<Rightarrow> feed run as t)"
  unfolding feed_def list.map prod.case seqM.simps by (simp split: option.splits sum.splits)

lemma feed_fills:
  assumes t: "table_size_ok (InputHashMap circ)"
    and "loaded circ v0 x D ctx" "list_all2 (targets circ x) as ks" "distinct ks" "set ks \<inter> D = {}" "set ks \<union> D \<subset> {..<193}"
  shows "\<exists>ctx'. loaded circ v0 x (set ks \<union> D) ctx' \<and> feed run as ctx = Some (Inr ctx')"
  using assms(2-)
proof (induction as arbitrary: D ctx ks)
  case (Cons a as)
  obtain h i v where a: "a = (h, i, v)" by (cases a)
  obtain k ks' where ks: "ks = k # ks'" "targets circ x (h, i, v) k" "list_all2 (targets circ x) as ks'"
    using Cons.prems(2) a by (auto simp: list_all2_Cons1)
  have k: "k < 193" "k \<notin> D" using Cons.prems(4,5) ks(1) by auto
  have "insert k D \<subset> {..<193}" using Cons.prems(5) ks(1) by auto
  then have "card (insert k D) < 193" using psubset_card_mono [of "{..<193::nat}" "insert k D"] by simp
  moreover have "finite D" using Cons.prems(1) finite_subset by (auto simp: loaded_def)
  ultimately have "card D \<noteq> 192" using k(2) by simp
  then obtain ctx' where ctx': "loaded circ v0 x (insert k D) ctx'" "setInputSignal run h i v ctx = Some (Inr ctx')"
    using set_input [OF t Cons.prems(1) ks(2) k] by metis
  have "\<exists>u. loaded circ v0 x (set ks' \<union> insert k D) u \<and> feed run as ctx' = Some (Inr u)"
    by (rule Cons.IH [OF ctx'(1) ks(3)]) (use Cons.prems(3-5) ks(1) k in auto)
  then show ?case using ctx'(2) a ks(1) by (simp add: feed_Cons)
qed (auto simp: feed_Nil)

lemma feed_append: "feed run (as @ bs) ctx = (case feed run as ctx of
    None \<Rightarrow> None | Some (Inl e) \<Rightarrow> Some (Inl e) | Some (Inr t) \<Rightarrow> feed run bs t)"
proof (induction as arbitrary: ctx)
  case (Cons a as)
  obtain h i v where "a = (h, i, v)" by (cases a)
  then show ?case using Cons by (simp add: feed_Cons split: option.splits sum.splits)
qed (simp add: feed_Nil)

text \<open>Whatever the order of the assignments, the last one runs the circuit on the values.\<close>

lemma feed_runs:
  assumes t: "table_size_ok (InputHashMap circ)" and l: "loaded circ v0 x {} ctx"
    and a: "list_all2 (targets circ x) as ks" "distinct ks" "set ks = {..<193}"
  shows "\<exists>ctx'. loaded circ v0 x {..<193} ctx' \<and> feed run as ctx = run ctx'"
proof -
  have "0 \<in> set ks" unfolding a(3) by simp
  then have "ks \<noteq> []" by auto
  then obtain ks' k where ks: "ks = ks' @ [k]" by (metis append_butlast_last_id)
  obtain as' bs where "as = as' @ bs" "list_all2 (targets circ x) as' ks'" "list_all2 (targets circ x) bs [k]"
    using a(1) unfolding ks list_all2_append2 by blast
  then obtain b where as: "as = as' @ [b]" "list_all2 (targets circ x) as' ks'" "targets circ x b k"
    unfolding list_all2_Cons2 list_all2_Nil2 by blast
  obtain h i v where b: "b = (h, i, v)" by (cases b)
  have k: "insert k (set ks') = {..<193}" "k \<notin> set ks'" "distinct ks'"
    using a(2,3) by (simp_all add: ks)
  have D: "set ks' = {..<193} - {k}" using k(1,2) by blast
  have "k \<in> {..<193}" unfolding k(1) [symmetric] by blast
  then have k193: "k < 193" by simp
  have "set ks' \<union> {} \<subset> {..<193}" unfolding D using \<open>k \<in> {..<193}\<close> by blast
  from feed_fills [OF t l as(2) k(3) _ this, of run]
  obtain u where u: "loaded circ v0 x (set ks') u" "feed run as' ctx = Some (Inr u)" by auto
  have "card (set ks') = 192" using k193 by (simp add: D)
  then obtain ctx' where "loaded circ v0 x (insert k (set ks')) ctx'" "setInputSignal run h i v u = run ctx'"
    using set_input [OF t u(1) as(3) [unfolded b] k193 k(2), of run] by metis
  moreover have "feed run as ctx = setInputSignal run h i v u"
    using u(2) by (simp add: as(1) b feed_append feed_Cons feed_Nil split: option.splits sum.splits)
  ultimately show ?thesis unfolding k(1) by auto
qed

end
