(* ===== verification/Transaction_Limits.thy ===== *)
theory Transaction_Limits
  imports Circuit_Run
begin

text \<open>
  What an accepted transaction does and does not guarantee: the amounts balance as integers only when
  they are small; the four inputs may be one note; the path of a note can be forged.
\<close>

section \<open>Values\<close>

lemma q_pos: "0 < q_int"
  by (simp add: q_int_def)

lemma poseidon_hash_range: "0 \<le> poseidon_hash p x \<and> poseidon_hash p x < q_int"
  by (simp add: poseidon_hash_def permutation_out_def mix_layer_def q_pos)

definition in_field :: "int \<Rightarrow> bool" where
  "in_field v \<longleftrightarrow> 0 \<le> v \<and> v < q_int"

section \<open>The balance\<close>

lemma carries_in_field: "carries ctx a n x \<Longrightarrow> i < n \<Longrightarrow> in_field (x i)"
proof -
  assume "carries ctx a n x" "i < n"
  then obtain e where "x i = fval e" unfolding carries_def by metis
  then show "in_field (x i)" by (cases e) (simp_all add: in_field_def q_pos)
qed

lemma sum_below: "\<forall>i < n. x (a + i) < (b :: int) \<Longrightarrow> 0 < n \<Longrightarrow> (\<Sum>i<n. x (a + i)) < int n * b"
proof (induction n)
  case (Suc n)
  then show ?case by (cases n) (auto simp: algebra_simps intro: add_strict_mono)
qed simp

lemma balance_of_small:
  assumes "transaction_ok circ x" "\<forall>i < 4. 0 \<le> x (9 + i) \<and> x (9 + i) < 2 ^ 251" "\<forall>i < 4. 0 \<le> x (181 + i) \<and> x (181 + i) < 2 ^ 251"
  shows "(\<Sum>i<4. x (9 + i)) = (\<Sum>i<4. x (181 + i))"
proof -
  have small: "(\<Sum>i<4. x (a + i)) mod q_int = (\<Sum>i<4. x (a + i))"
    if "\<forall>i < 4. 0 \<le> x (a + i) \<and> x (a + i) < 2 ^ 251" for a
  proof (rule mod_pos_pos_trivial)
    show "0 \<le> (\<Sum>i<4. x (a + i))" using that by (intro sum_nonneg) simp
    have "(\<Sum>i<4. x (a + i)) < int 4 * 2 ^ 251" by (rule sum_below) (use that in simp_all)
    also have "\<dots> < q_int" by (simp add: q_int_def)
    finally show "(\<Sum>i<4. x (a + i)) < q_int" .
  qed
  show ?thesis
    using assms(1) small [OF assms(2)] small [OF assms(3)] by (simp add: transaction_ok_def sum_from_def)
qed

section \<open>One note as all inputs\<close>

text \<open>A note with a path, and what it takes to present it as each of the four inputs.\<close>

record coin =
  amount :: int
  secret :: int
  recipient :: int

definition note_commitment :: "Circom_Circuit \<Rightarrow> coin \<Rightarrow> int" where
  "note_commitment circ n = commitment circ (amount n) (secret n) (recipient n)"

definition same_note_inputs ::
    "Circom_Circuit \<Rightarrow> coin \<Rightarrow> (nat \<Rightarrow> int) \<Rightarrow> (nat \<Rightarrow> int) \<Rightarrow> (nat \<Rightarrow> coin) \<Rightarrow> nat \<Rightarrow> int" where
  "same_note_inputs circ n sib sel outs i =
     (if i = 0 then merkle_hash (poseidon3 circ) sib sel (note_commitment circ n) 20
      else if i < 5 then nullifier circ (note_commitment circ n) (secret n)
      else if i < 9 then note_commitment circ (outs (i - 5))
      else if i < 13 then amount n else if i < 17 then secret n else if i < 21 then recipient n
      else if i < 101 then sib ((i - 21) mod 20) else if i < 181 then sel ((i - 101) mod 20)
      else if i < 185 then amount (outs (i - 181)) else if i < 189 then secret (outs (i - 185))
      else recipient (outs (i - 189)))"

lemma same_note_ok:
  assumes "(\<Sum>i<4. amount (outs i)) mod q_int = 4 * amount n mod q_int"
  shows "transaction_ok circ (same_note_inputs circ n sib sel outs)"
proof -
  let ?x = "same_note_inputs circ n sib sel outs"
  have c: "in_commit circ ?x i = note_commitment circ n" if "i < 4" for i
    using that by (simp add: in_commit_def same_note_inputs_def note_commitment_def)
  have r: "in_root circ ?x i = ?x 0" if "i < 4" for i
  proof -
    have "in_root circ ?x i = merkle_hash (poseidon3 circ) sib sel (note_commitment circ n) 20"
      unfolding in_root_def c [OF that]
      by (rule merkle_hash_cong) (use that in \<open>auto simp: same_note_inputs_def mult.commute\<close>)
    then show ?thesis by (simp add: same_note_inputs_def)
  qed
  have s: "(\<Sum>i<4. ?x (9 + i)) = 4 * amount n" "(\<Sum>i<4. ?x (181 + i)) = (\<Sum>i<4. amount (outs i))"
    by (simp_all add: same_note_inputs_def)
  have "input_ok circ ?x i" if "i < 4" for i
    using that r [OF that] c [OF that] by (simp add: input_ok_def) (simp add: same_note_inputs_def)
  moreover have "output_ok circ ?x i" if "i < 4" for i
    using that by (simp add: output_ok_def out_commit_def same_note_inputs_def note_commitment_def)
  ultimately show ?thesis using assms s by (simp add: transaction_ok_def sum_from_def)
qed

section \<open>Forged paths\<close>

text \<open>
  A path from any leaf to a given root: the first level selects the two children that a genuine path
  hashes there.
\<close>

lemma merkle_hash_from:
  "merkle_hash p sib sel leaf (Suc n) =
    merkle_hash p (\<lambda>k. sib (Suc k)) (\<lambda>k. sel (Suc k)) (merkle_node p leaf (sib 0) (sel 0)) n"
  by (induction n) simp_all

lemma forged_path:
  assumes p: "p_t p = 3" and n: "0 < n"
    and free: "coprime (mux_out (mux_in leaf (sib 0) (sel 0)) 0 + mux_out (mux_in leaf (sib 0) (sel 0)) 1 - 2 * c) q_int"
  obtains s b where "in_field s" "in_field b"
    "merkle_hash p (sib(0 := s)) (sel(0 := b)) c n = merkle_hash p sib sel leaf n"
proof -
  define l where "l = mux_out (mux_in leaf (sib 0) (sel 0)) 0"
  define r where "r = mux_out (mux_in leaf (sib 0) (sel 0)) 1"
  have b: "0 \<le> l" "l < q_int" "0 \<le> r" "r < q_int" by (simp_all add: l_def r_def mux_out_def q_pos)
  obtain s d where s: "0 \<le> s" "s < q_int" "0 \<le> d" "d < q_int"
      "((s - c) * d + c) mod q_int = l" "((c - s) * d + s) mod q_int = r"
    using selector_for_children [OF b, of c] free by (auto simp: l_def r_def)
  have node: "merkle_node p c s d = merkle_node p leaf (sib 0) (sel 0)"
    unfolding merkle_node_def
  proof (rule poseidon_hash_cong)
    fix i assume "i + 1 < p_t p"
    then have i: "i = 0 \<or> i = 1" using p by auto
    have "mux_out (mux_in c s d) 0 = l" "mux_out (mux_in c s d) 1 = r"
      using s(5,6) by (simp_all add: mux_out_def mux_in_def)
    then show "mux_out (mux_in c s d) i = mux_out (mux_in leaf (sib 0) (sel 0)) i"
      using i by (auto simp: l_def r_def)
  qed
  obtain m where m: "n = Suc m" using n by (cases n) auto
  have "merkle_hash p (sib(0 := s)) (sel(0 := d)) c n = merkle_hash p sib sel leaf n"
    unfolding m merkle_hash_from by (simp add: node)
  then show ?thesis using that [of s d] s by (simp add: in_field_def)
qed

end
