(* ===== verification/Calc_Machine.thy ===== *)
theory Calc_Machine
  imports Circuit_Run Transaction_Limits
begin

text \<open>
  The calculator of \<open>circuit_cpp/calcwit.cpp\<close> as a state machine. Its client makes calls of
  \<open>setInputSignal\<close> in any order with any hashes, indices and elements, wrong ones included. The
  specification is a machine that collects the values of the inputs, each once, and takes the last
  one only when the values satisfy the constraints of the transaction.
\<close>

section \<open>The machine and its specification\<close>

text \<open>The states that successful calls reach from a new calculator.\<close>

inductive calculator :: "gmp \<Rightarrow> Circom_Circuit \<Rightarrow> Circom_CalcWit \<Rightarrow> bool" for g :: gmp and circ :: Circom_Circuit where
  created: "Circom_CalcWit_new g circ maxTh = Inr ctx \<Longrightarrow> calculator g circ ctx"
| assigned: "calculator g circ ctx \<Longrightarrow> fok v \<Longrightarrow> setInputSignal run_circuit h i v ctx = Some (Inr ctx') \<Longrightarrow>
    calculator g circ ctx'"

type_synonym inputs = "nat \<Rightarrow> int option"

definition input_values :: "inputs \<Rightarrow> nat \<Rightarrow> int" where
  "input_values m k = (case m k of None \<Rightarrow> 0 | Some y \<Rightarrow> y)"

inductive collect :: "Circom_Circuit \<Rightarrow> inputs \<Rightarrow> inputs \<Rightarrow> bool" for circ :: Circom_Circuit where
  take: "k < 193 \<Longrightarrow> m k = None \<Longrightarrow> in_field y \<Longrightarrow>
    dom (m(k \<mapsto> y)) = {..<193} \<longrightarrow> transaction_ok circ (input_values (m(k \<mapsto> y))) \<Longrightarrow> collect circ m (m(k \<mapsto> y))"

inductive collected :: "Circom_Circuit \<Rightarrow> inputs \<Rightarrow> bool" for circ :: Circom_Circuit where
  none: "collected circ Map.empty"
| more: "collected circ m \<Longrightarrow> collect circ m m' \<Longrightarrow> collected circ m'"

inductive_cases collectE: "collect circ m m'"

text \<open>
  What a state of the calculator stands for. An incomplete one has written the inputs it has and
  the constant signal, nothing else, and its components wait; a complete one holds the witness.
\<close>

definition represents :: "Circom_Circuit \<Rightarrow> inputs \<Rightarrow> Circom_CalcWit \<Rightarrow> bool" where
  "represents circ m ctx \<longleftrightarrow> (\<exists>v0. loaded circ v0 (input_values m) (dom m) ctx) \<and>
     (if dom m = {..<193} then transaction_ok circ (input_values m) \<and> witness_signals circ (input_values m) 1 ctx
      else \<forall>a. a \<notin> insert 0 (Suc ` dom m) \<longrightarrow> signalValues ctx a = None)"

section \<open>One call\<close>

lemma loaded_cong:
  assumes "loaded circ v0 x D ctx" "\<And>k. k \<in> D \<Longrightarrow> x k = y k"
  shows "loaded circ v0 y D ctx"
  using assms by (auto simp: loaded_def carries_def)

lemma represents_dom: "represents circ m ctx \<Longrightarrow> dom m \<subseteq> {..<193}"
  by (auto simp: represents_def loaded_def)

lemma represents_counter:
  assumes "represents circ m ctx"
  shows "unat (inputSignalAssignedCounter ctx) = 193 - card (dom m)"
    and "inputSignalAssignedCounter ctx = 0 \<longleftrightarrow> dom m = {..<193}"
proof -
  have d: "dom m \<subseteq> {..<193}" by (rule represents_dom [OF assms])
  then have "card (dom m) \<le> 193" using card_mono [of "{..<193}" "dom m"] by simp
  show u: "unat (inputSignalAssignedCounter ctx) = 193 - card (dom m)"
    using assms by (auto simp: represents_def loaded_def intro: unat_of_nat_u32)
  have "card (dom m) = 193 \<longleftrightarrow> dom m = {..<193}" using card_subset_eq [OF _ d] by auto
  then show "inputSignalAssignedCounter ctx = 0 \<longleftrightarrow> dom m = {..<193}"
    using u \<open>card (dom m) \<le> 193\<close> by (auto simp: unat_eq_zero [symmetric])
qed

lemma new_represents: "Circom_CalcWit_new g circ maxTh = Inr ctx \<Longrightarrow> represents circ Map.empty ctx"
proof -
  have "(0 :: nat) \<in> {..<193}" by simp
  then have "{} \<noteq> {..<193 :: nat}" by blast
  then show "Circom_CalcWit_new g circ maxTh = Inr ctx \<Longrightarrow> represents circ Map.empty ctx"
    using new_loaded [of g circ maxTh ctx "input_values Map.empty"]
    by (auto simp: represents_def Circom_CalcWit_new_def bindR_def split: sum.splits)
qed

text \<open>
  A call fails, for one of the reasons of the code, or it names an input that is still open; with
  the table of the circuit file arbitrary, any entry may lead to any input.
\<close>

lemma call_names:
  assumes t: "table_size_ok (InputHashMap circ)" and m: "represents circ m ctx" and v: "fok v"
    and nf: "\<nexists>e. setInputSignal run h i v ctx = Some (Inl e)"
  obtains k where "k < 193" "m k = None" "targets circ (input_values (m(k \<mapsto> fval v))) (h, i, v) k"
proof -
  obtain v0 where l: "loaded circ v0 (input_values m) (dom m) ctx" using m by (auto simp: represents_def)
  note L = l [unfolded loaded_def]
  have c: "inputSignalAssignedCounter ctx \<noteq> 0" using nf by (auto simp: setInputSignal_def)
  obtain pos where pos: "lookup_spec (InputHashMap circ) h = Inr pos"
    using nf [unfolded setInputSignal_def] c lookup_eq_spec [of ctx h] t L
    by (cases "lookup_spec (InputHashMap circ) h") auto
  define x where "x = InputHashMap circ ! pos"
  define si where "si = (ucast (signalid x + ucast i) :: u32)"
  define k where "k = unat (si - 1)"
  obtain c' where a: "assign_input ctx pos i v = Inr c'"
    using nf [unfolded setInputSignal_def] c lookup_eq_spec [of ctx h] t L pos
    by (cases "assign_input ctx pos i v") auto
  have p: "pos < length (InputHashMap circ)" "ucast i < signalsize x"
    using a L by (auto simp: assign_input_def entry_at_def read_list_def bindR_def x_def split: if_splits)
  have k: "k < 193" "\<not> inputSignalAssigned ctx ! k"
    using a p L
    by (auto simp: assign_input_def entry_at_def read_list_def bindR_def Let_def circuit_sizes not_le k_def si_def
        x_def split: if_splits)
  have "unat si = Suc k"
  proof -
    have "si \<noteq> 0" using k(1) by (auto simp: k_def unsigned_minus_1_eq_mask mask_eq_exp_minus_1)
    then show ?thesis using unat_minus_one [of si] by (simp add: k_def unat_gt_0)
  qed
  then have "targets circ (input_values (m(k \<mapsto> fval v))) (h, i, v) k"
    using pos p v by (simp add: input_values_def si_def x_def)
  moreover have "m k = None" using L k by auto
  ultimately show ?thesis using that k(1) by blast
qed

lemma represents_filled:
  assumes "represents circ m ctx" "m k = None" "k < 193" "dom (m(k \<mapsto> y)) = {..<193}"
  shows "card (dom m) = 192"
proof -
  have "dom m = {..<193} - {k}" using assms(2-4) by auto
  then show ?thesis using assms(3) by simp
qed

text \<open>Every call returns, and a successful one is a step of the specification.\<close>

lemma call_outcome:
  assumes c: "circuit_data_ok circ" and t: "table_size_ok (InputHashMap circ)"
    and m: "represents circ m ctx" and v: "fok v"
  shows "(\<exists>e. setInputSignal run_circuit h i v ctx = Some (Inl e)) \<or>
    (\<exists>k ctx'. setInputSignal run_circuit h i v ctx = Some (Inr ctx') \<and>
      collect circ m (m(k \<mapsto> fval v)) \<and> represents circ (m(k \<mapsto> fval v)) ctx')"
proof (cases "\<exists>e. setInputSignal run_circuit h i v ctx = Some (Inl e)")
  case False
  then obtain k where k: "k < 193" "m k = None" "targets circ (input_values (m(k \<mapsto> fval v))) (h, i, v) k"
    using call_names [OF t m v] by blast
  define n where "n = m(k \<mapsto> fval v)"
  have dn: "dom n = insert k (dom m)" "k \<notin> dom m" using k(2) by (auto simp: n_def)
  obtain v0 where l: "loaded circ v0 (input_values m) (dom m) ctx" using m by (auto simp: represents_def)
  have "loaded circ v0 (input_values n) (dom m) ctx"
    by (rule loaded_cong [OF l]) (use k(2) in \<open>auto simp: input_values_def n_def\<close>)
  from set_input [OF t this k(3) [folded n_def] k(1) dn(2)]
  obtain u where u: "loaded circ v0 (input_values n) (dom n) u" "signalValues u = (signalValues ctx)(Suc k \<mapsto> v)"
    "setInputSignal run_circuit h i v ctx = (if card (dom m) = 192 then run_circuit u else Some (Inr u))"
    unfolding dn(1) by metis
  have f: "in_field (fval v)" using v fval_bounds [of v] by (simp add: in_field_def)
  show ?thesis
  proof (cases "dom n = {..<193}")
    case True
    have C: "carries u 1 193 (input_values n)" "circuit u = circ" "clean u" using loaded_all u(1) True by simp_all
    have "setInputSignal run_circuit h i v ctx = run_circuit u"
      using u(3) represents_filled [OF m k(2,1) True [unfolded n_def]] by simp
    moreover from this obtain ctx' where ctx': "run_circuit u = Some (Inr ctx')"
      using False outcome_run_circuit_with [OF _ deep_table_leaves [of 1] C(3,1)] c C(2)
      by (auto simp: run_circuit_eq numeral_2_eq_2 outcome_def split: option.splits sum.splits)
    moreover have w: "changes {1..<72906} {0..<14485} u ctx'" "clean ctx'" "witness_signals circ (input_values n) 1 ctx'"
        "transaction_ok circ (input_values n)"
      using outcome_run_circuit_with [OF _ deep_table_leaves [of 1] C(3,1)] c C(2) ctx'
      by (simp_all add: run_circuit_eq numeral_2_eq_2 outcome_def)
    moreover have "represents circ n ctx'"
    proof -
      have "carries ctx' (Suc j) 1 (\<lambda>_. input_values n j)" if "j < 193" for j
        using w(3) that by (auto simp: witness_signals_def carries_def)
      then have "loaded circ v0 (input_values n) (dom n) ctx'"
        using u(1) w(1,2) True by (auto simp: loaded_def changes_def)
      then show ?thesis using w(3,4) True unfolding represents_def by auto
    qed
    moreover have "collect circ m n" unfolding n_def by (rule collect.take) (use k f w(4) n_def in auto)
    ultimately show ?thesis by (intro disjI2 exI [of _ k] exI [of _ ctx']) (simp add: n_def)
  next
    case False
    have "card (dom m) \<noteq> 192"
    proof
      assume "card (dom m) = 192"
      then have "card (dom n) = 193" using dn represents_dom [OF m] finite_subset [of "dom m" "{..<193}"] by simp
      then show False using card_subset_eq [of "{..<193}" "dom n"] represents_dom [OF m] dn k(1) False by simp
    qed
    then have "setInputSignal run_circuit h i v ctx = Some (Inr u)" using u(3) by simp
    moreover have "collect circ m n" unfolding n_def by (rule collect.take) (use k f False n_def in auto)
    moreover have "represents circ n u"
      using u(1,2) False m dn k(2) represents_dom [OF m] k(1) by (auto simp: represents_def split: if_splits)
    ultimately show ?thesis by (intro disjI2 exI [of _ k] exI [of _ u]) (simp add: n_def)
  qed
qed blast

lemma collect_counter:
  assumes "represents circ m ctx" "collect circ m (m(k \<mapsto> y))" "represents circ (m(k \<mapsto> y)) ctx'"
  shows "unat (inputSignalAssignedCounter ctx) = Suc (unat (inputSignalAssignedCounter ctx'))"
proof -
  obtain j z where j: "m(k \<mapsto> y) = m(j \<mapsto> z)" "j < 193" "m j = None" using assms(2) by (elim collectE) blast
  have d: "dom (m(k \<mapsto> y)) = insert j (dom m)" "j \<notin> dom m" using j by auto
  then have "insert j (dom m) \<subseteq> {..<193}" "finite (dom m)"
    using represents_dom [OF assms(3)] finite_subset [OF represents_dom [OF assms(1)]] by auto
  then have "Suc (card (dom m)) \<le> 193" using card_mono [of "{..<193}" "insert j (dom m)"] d(2) by simp
  then show ?thesis
    using represents_counter(1) [OF assms(1)] represents_counter(1) [OF assms(3)] d \<open>finite (dom m)\<close> by simp
qed

lemma reachable_represents:
  assumes "circuit_data_ok circ" "table_size_ok (InputHashMap circ)" "calculator g circ ctx"
  shows "\<exists>m. collected circ m \<and> represents circ m ctx"
  using assms(3)
proof induction
  case (created maxTh ctx)
  then show ?case using new_represents collected.none by blast
next
  case (assigned ctx v h i ctx')
  then obtain m where m: "collected circ m" "represents circ m ctx" by blast
  show ?case
    using call_outcome [OF assms(1,2) m(2) assigned.hyps(2), of h i] assigned.hyps(3) collected.more [OF m(1)] by auto
qed

text \<open>Sequences of assignments lead to states of the machine.\<close>

lemma feed_calculator:
  assumes "calculator g circ ctx" "\<forall>(h, i, v) \<in> set as. fok v" "feed run_circuit as ctx = Some (Inr ctx')"
  shows "calculator g circ ctx'"
  using assms
proof (induction as arbitrary: ctx)
  case (Cons a as)
  obtain h i v where a: "a = (h, i, v)" by (cases a)
  then obtain u where u: "setInputSignal run_circuit h i v ctx = Some (Inr u)" "feed run_circuit as u = Some (Inr ctx')"
    using Cons.prems(3) by (auto simp: feed_Cons split: option.splits sum.splits)
  have "calculator g circ u" by (rule calculator.assigned [OF Cons.prems(1) _ u(1)]) (use Cons.prems(2) a in simp)
  then show ?case using Cons.IH u(2) Cons.prems(2) by simp
qed (simp add: feed_Nil)

lemma complete_reachable:
  assumes c: "circuit_data_ok circ" "table_size_ok (InputHashMap circ)" "Circom_CalcWit_new g circ maxTh = Inr ctx"
    and a: "list_all2 (targets circ x) as ks" "distinct ks" "set ks = {..<193}" and ok: "transaction_ok circ x"
  shows "\<exists>ctx'. calculator g circ ctx' \<and> inputSignalAssignedCounter ctx' = 0"
proof -
  obtain u where u: "loaded circ (signalValues ctx 0) x {..<193} u" "feed run_circuit as ctx = run_circuit u"
    using feed_runs [OF c(2) new_loaded [OF c(3)] a] by blast
  note A = loaded_all [OF u(1)]
  note D = run_circuit_with_decides [OF _ deep_table_leaves [of 1], of u x]
  obtain ctx' where r: "run_circuit u = Some (Inr ctx')"
    using D(1) A c(1) ok by (auto simp: run_circuit_eq numeral_2_eq_2)
  then have "changes {1..<72906} {0..<14485} u ctx'"
    using D(3) A c(1) by (simp add: run_circuit_eq numeral_2_eq_2)
  then have "inputSignalAssignedCounter ctx' = 0" using u(1) by (auto simp: changes_def loaded_def)
  moreover have "\<forall>(h, i, v) \<in> set as. fok v"
    using a(1) by (auto simp: list_all2_conv_all_nth in_set_conv_nth) (metis targets.simps)
  ultimately show ?thesis using feed_calculator [OF calculator.created [OF c(3)]] u(2) r by auto
qed

end
