(* ===== verification/Program_Run.thy ===== *)
theory Program_Run
  imports Circuit_Run Main_IO
begin

text \<open>
  The program from the files to the file: a circuit file is read back as the circuit it was written
  from, the JSON input is a sequence of assignments, and the witness file of an accepted run.
\<close>

section \<open>The circuit file\<close>

text \<open>The layout of the file: input table, witness list, constants, then the field maps as words.\<close>

definition hash_info_bytes :: "HashSignalInfo \<Rightarrow> u8 list" where
  "hash_info_bytes h = le_bytes 8 (uint (hash h)) @ le_bytes 8 (uint (signalid h)) @ le_bytes 8 (uint (signalsize h))"

definition u64_bytes :: "u64 \<Rightarrow> u8 list" where "u64_bytes w = le_bytes 8 (uint w)"
definition u32_bytes :: "u32 \<Rightarrow> u8 list" where "u32_bytes w = le_bytes 4 (uint w)"

definition def_words :: "IOFieldDef \<Rightarrow> u32 list" where
  "def_words d = [io_offset d, io_len d] @ io_lengths d @ [io_size d, io_busId d]"

definition pair_words :: "IOFieldDefPair \<Rightarrow> u32 list" where
  "pair_words p = pair_len p # concat (map def_words (pair_defs p))"

definition pair_ok :: "IOFieldDefPair \<Rightarrow> bool" where
  "pair_ok p \<longleftrightarrow> unat (pair_len p) = length (pair_defs p) \<and>
     (\<forall>d \<in> set (pair_defs p). unat (io_len d) = length (io_lengths d))"

definition dat_file :: "HashSignalInfo list \<Rightarrow> u64 list \<Rightarrow> FrElement list \<Rightarrow> (u32 \<times> IOFieldDefPair) list \<Rightarrow> u8 list" where
  "dat_file hs ws cs es =
     concat (map hash_info_bytes hs) @ concat (map u64_bytes ws) @ concat (map element_bytes cs) @
     concat (map (\<lambda>e. u32_bytes (fst e)) es) @ concat (map u32_bytes (concat (map (\<lambda>e. pair_words (snd e)) es)))"

lemma parse_defs_words:
  "\<forall>d \<in> set ds. unat (io_len d) = length (io_lengths d) \<Longrightarrow>
    parse_defs (length ds) (concat (map def_words ds) @ rest) = Inr (ds, rest)"
proof (induction ds)
  case (Cons d ds)
  then show ?case by (simp add: def_words_def bindR_def)
qed simp

lemma parse_pair_words: "pair_ok p \<Longrightarrow> parse_pair (pair_words p @ rest) = Inr (p, rest)"
  using parse_defs_words [of "pair_defs p" rest] by (simp add: parse_pair_def pair_words_def pair_ok_def bindR_def)

lemma parse_io_map_words:
  "\<forall>e \<in> set es. pair_ok (snd e) \<Longrightarrow>
    parse_io_map (map fst es) (concat (map (\<lambda>e. pair_words (snd e)) es) @ rest) m = Inr (m ++ map_of (rev es), rest)"
proof (induction es arbitrary: m)
  case (Cons e es)
  have "m(fst e \<mapsto> snd e) ++ map_of (rev es) = m ++ map_of (rev (e # es))"
    by (cases e) (simp add: map_add_def fun_eq_iff split: option.splits)
  then show ?case using Cons by (simp add: parse_pair_words bindR_def)
qed simp

lemma bytes_lengths [simp]:
  "length (hash_info_bytes h) = 24" "length (u64_bytes w) = 8" "length (u32_bytes v) = 4"
  by (simp_all add: hash_info_bytes_def u64_bytes_def u32_bytes_def)

lemma u64_of_written: "u64_of (le_bytes 8 (uint w) @ bs) = w"
  using uint_bounded [of w] by (simp add: u64_of_def le_val_le_bytes)

lemma written_read_back:
  "hash_info_of (hash_info_bytes h) = h" "u64_of (u64_bytes w) = w" "u32_of (u32_bytes v) = v"
  using u64_of_written [of w "[]"] u64_of_written [of "signalsize h" "[]"] u32_of_bytes [of "uint v" "[]"]
  by (simp_all add: hash_info_of_def hash_info_bytes_def u64_of_written u64_bytes_def u32_bytes_def)

lemma concat_length: "(\<And>x. length (f x) = k) \<Longrightarrow> length (concat (map f xs)) = k * length xs"
  by (induction xs) auto

lemma slice_mid: "length a = i \<Longrightarrow> length b = n \<Longrightarrow> slice (a @ b @ c) i n = Inr b"
  by (simp add: slice_def)

lemma read_back: "(\<And>x. length (f x) = k) \<Longrightarrow> (\<And>x. g (f x) = h x) \<Longrightarrow>
    map g (chunks k (length xs) (concat (map f xs))) = map h xs"
  by (simp add: chunks_concat)

lemma loadCircuit_dat_file:
  assumes n: "length hs = 256" "length ws = 48610" "length cs = 25024" "length es = 133"
    and p: "\<forall>e \<in> set es. pair_ok (snd e)"
  shows "loadCircuit (dat_file hs ws cs es) =
    Inr \<lparr>InputHashMap = hs, witness2SignalList = ws, circuitConstants = cs,
         templateInsId2IOSignalInfo = map_of (rev es), busInsId2FieldInfo = Some []\<rparr>"
proof -
  let ?h = "concat (map hash_info_bytes hs)" and ?w = "concat (map u64_bytes ws)" and ?c = "concat (map element_bytes cs)"
  let ?i = "concat (map (\<lambda>e. u32_bytes (fst e)) es)" and ?m = "concat (map (\<lambda>e. pair_words (snd e)) es)"
  let ?d = "concat (map u32_bytes ?m)" and ?f = "dat_file hs ws cs es"
  have len: "length ?h = 6144" "length ?w = 388880" "length ?c = 1000960" "length ?i = 532" "length ?d = 4 * length ?m"
    using concat_length [of hash_info_bytes 24 hs] concat_length [of u64_bytes 8 ws] concat_length [of element_bytes 40 cs]
      concat_length [of "\<lambda>e. u32_bytes (fst e)" 4 es] concat_length [of u32_bytes 4 ?m] n by simp_all
  have f: "?f = ?h @ ?w @ ?c @ ?i @ ?d" by (simp add: dat_file_def)
  have lf: "length ?f = 1396516 + 4 * length ?m" unfolding f using len by simp
  have s: "slice ?f 0 6144 = Inr ?h" "slice ?f 6144 388880 = Inr ?w" "slice ?f 395024 1000960 = Inr ?c"
      "slice ?f 1395984 532 = Inr ?i"
    using slice_mid [of "[]" 0 ?h 6144 "?w @ ?c @ ?i @ ?d"] slice_mid [of ?h 6144 ?w 388880 "?c @ ?i @ ?d"]
      slice_mid [of "?h @ ?w" 395024 ?c 1000960 "?i @ ?d"] slice_mid [of "?h @ ?w @ ?c" 1395984 ?i 532 ?d] len
    by (simp_all add: f)
  have d: "drop 1396516 ?f = ?d" unfolding f using len by simp
  have io: "map u32_of (chunks 4 133 ?i) = map fst es" "map u32_of (chunks 4 (length ?m) ?d) = ?m"
    using read_back [of "\<lambda>e. u32_bytes (fst e)" 4 u32_of fst es] read_back [of u32_bytes 4 u32_of "\<lambda>w. w" ?m] n(4)
    by (simp_all add: written_read_back)
  have rest: "map hash_info_of (chunks 24 256 ?h) = hs" "map u64_of (chunks 8 48610 ?w) = ws"
      "map element_of (chunks 40 25024 ?c) = cs"
    using read_back [of hash_info_bytes 24 hash_info_of "\<lambda>h. h" hs] read_back [of u64_bytes 8 u64_of "\<lambda>w. w" ws]
      constants_roundtrip [of cs] n by (simp_all add: written_read_back)
  have "(length ?f - 1396516) div 4 = length ?m" "length ?f mod 4 = 0" unfolding lf by simp_all
  then show ?thesis
    using s d io rest parse_io_map_words [OF p, of "[]" Map.empty]
    by (simp add: loadCircuit_def circuit_sizes bindR_def Let_def)
qed

lemma chunks_length [simp]: "length (chunks k n bs) = n"
  by (induction n arbitrary: bs) simp_all

lemma loadCircuit_lengths:
  assumes "loadCircuit bdata = Inr circ"
  shows "length (InputHashMap circ) = 256" "length (witness2SignalList circ) = 48610" "length (circuitConstants circ) = 25024"
  using assms by (auto simp: loadCircuit_def Let_def bindR_def circuit_sizes split: sum.splits if_splits prod.splits)

section \<open>The input file\<close>

text \<open>
  The assignments that a JSON input stands for: each name of the flattened input with its values in
  order, when the circuit has an input of this name and of this size.
\<close>

definition member_assignments ::
    "Circom_Circuit \<Rightarrow> gmp \<Rightarrow> (json \<Rightarrow> string) \<Rightarrow> string \<times> json \<Rightarrow> cerr + assignment list" where
  "member_assignments circ g number_text kv =
     (case kv of (key, value) \<Rightarrow>
        bindR (json2FrElements g number_text value []) (\<lambda>v.
        bindR (lookup_spec (InputHashMap circ) (fnv1a key)) (\<lambda>pos.
          if length v = unat (ucast (signalsize (InputHashMap circ ! pos)) :: u32)
          then Inr (map (\<lambda>(i, e). (fnv1a key, of_nat i, e)) (enumerate 0 v))
          else Inl (RuntimeError (''Error loading signal '' @ key)))))"

fun all_assignments ::
    "Circom_Circuit \<Rightarrow> gmp \<Rightarrow> (json \<Rightarrow> string) \<Rightarrow> (string \<times> json) list \<Rightarrow> cerr + assignment list" where
  "all_assignments circ g number_text [] = Inr []"
| "all_assignments circ g number_text (kv # kvs) =
     bindR (member_assignments circ g number_text kv) (\<lambda>as.
     bindR (all_assignments circ g number_text kvs) (\<lambda>bs. Inr (as @ bs)))"

definition json_assignments ::
    "Circom_Circuit \<Rightarrow> gmp \<Rightarrow> (json \<Rightarrow> string) \<Rightarrow> json \<Rightarrow> cerr + assignment list" where
  "json_assignments circ g number_text jin =
     bindR (qualify_input '''' jin []) (all_assignments circ g number_text)"

lemma set_values_feed:
  "set_values run h i vs ctx = feed run (map (\<lambda>(i, e). (h, of_nat i, e)) (enumerate i vs)) ctx"
  by (induction vs arbitrary: i ctx) (simp_all add: feed_Nil feed_Cons split: option.splits sum.splits)

lemma load_signal_feed:
  assumes "member_assignments (circuit ctx) g nt kv = Inr as" "table_size_ok (InputHashMap (circuit ctx))"
  shows "load_signal g nt run kv ctx = feed run as ctx"
proof (cases kv)
  case (Pair key w)
  obtain v where v: "json2FrElements g nt w [] = Inr v"
    using assms(1) Pair by (cases "json2FrElements g nt w []") (simp_all add: member_assignments_def bindR_def)
  obtain pos where pos: "lookup_spec (InputHashMap (circuit ctx)) (fnv1a key) = Inr pos"
    using assms(1) Pair v
    by (cases "lookup_spec (InputHashMap (circuit ctx)) (fnv1a key)") (simp_all add: member_assignments_def bindR_def)
  have p: "getInputSignalHashPosition ctx (fnv1a key) = Some (Inr pos)"
    using lookup_eq_spec [OF assms(2), of "fnv1a key"] pos by simp
  then have "pos < length (InputHashMap (circuit ctx))" using dir.sound [OF assms(2)] by blast
  then have sz: "getInputSignalSize ctx (fnv1a key) = Some (Inr (signalsize (InputHashMap (circuit ctx) ! pos)))"
    using p by (simp add: getInputSignalSize_def entry_at_def read_list_def bindR_def)
  show ?thesis
    using assms(1) Pair v pos sz
    by (auto simp: member_assignments_def load_signal_def bindR_def set_values_feed split: if_splits)
qed

text \<open>As long as the table stays the same, loading the members is assigning their values.\<close>

lemma load_members_feed:
  assumes "all_assignments circ g nt kvs = Inr as" "table_size_ok (InputHashMap circ)" "circuit ctx = circ"
    and "\<And>n ctx'. feed run (take n as) ctx = Some (Inr ctx') \<Longrightarrow> circuit ctx' = circ"
  shows "seqM (map (load_signal g nt run) kvs) ctx = feed run as ctx"
  using assms(1,3,4)
proof (induction kvs arbitrary: as ctx)
  case (Cons kv kvs)
  obtain bs cs where as: "member_assignments circ g nt kv = Inr bs" "all_assignments circ g nt kvs = Inr cs" "as = bs @ cs"
    using Cons.prems(1) by (auto simp: bindR_def split: sum.splits)
  have l: "load_signal g nt run kv ctx = feed run bs ctx"
    by (rule load_signal_feed) (use as(1) Cons.prems(2) assms(2) in simp_all)
  have step: "seqM (map (load_signal g nt run) kvs) t = feed run cs t" if t: "feed run bs ctx = Some (Inr t)" for t
  proof (rule Cons.IH [OF as(2)])
    show "circuit t = circ" using Cons.prems(3) [of "length bs" t] t as(3) by simp
    show "circuit ctx' = circ" if "feed run (take n cs) t = Some (Inr ctx')" for n ctx'
      using Cons.prems(3) [of "length bs + n" ctx'] t that as(3) by (simp add: feed_append)
  qed
  show ?case
    using step by (simp add: as(3) feed_append l seqM.simps split: option.splits sum.splits)
qed (simp add: feed_Nil seqM.simps)

section \<open>The program\<close>

text \<open>Every prefix of a complete sequence of assignments leaves the circuit alone.\<close>

lemma prefix_keeps_circuit:
  assumes t: "circuit_data_ok circ" "table_size_ok (InputHashMap circ)" and l: "loaded circ v0 x {} ctx"
    and a: "list_all2 (targets circ x) as ks" "distinct ks" "set ks = {..<193}"
    and r: "feed run_circuit (take n as) ctx = Some (Inr ctx')"
  shows "circuit ctx' = circ"
proof -
  have p: "list_all2 (targets circ x) (take n as) (take n ks)" "distinct (take n ks)" using a(1,2) by simp_all
  show ?thesis
  proof (cases "set (take n ks) = {..<193}")
    case True
    obtain u where u: "loaded circ v0 x {..<193} u" "run_circuit u = Some (Inr ctx')"
      using feed_runs [OF t(2) l p True, of run_circuit] r by auto
    have "changes {1..<72906} {0..<14485} u ctx'"
      using run_circuit_with_decides(3) [of u "table_to 2" x ctx'] loaded_all [OF u(1)] t(1) deep_table_leaves [of 1] u(2)
      by (simp add: run_circuit_eq numeral_2_eq_2)
    then show ?thesis using loaded_all [OF u(1)] changesD(1) by metis
  next
    case False
    then have "set (take n ks) \<union> {} \<subset> {..<193}" using a(3) set_take_subset [of n ks] by blast
    from feed_fills [OF t(2) l p _ this, of run_circuit] show ?thesis using r by (auto simp: loaded_def)
  qed
qed

lemma loadJson_feed:
  assumes t: "circuit_data_ok circ" "table_size_ok (InputHashMap circ)" and l: "loaded circ v0 x {} ctx"
    and j: "json_assignments circ g nt jin = Inr as"
    and a: "list_all2 (targets circ x) as ks" "distinct ks" "set ks = {..<193}"
  shows "loadJson g nt run_circuit jin ctx = feed run_circuit as ctx"
proof -
  obtain kvs where kvs: "qualify_input '''' jin [] = Inr kvs" "all_assignments circ g nt kvs = Inr as"
    using j by (auto simp: json_assignments_def bindR_def split: sum.splits)
  have "0 \<in> set ks" unfolding a(3) by simp
  then have "as \<noteq> []" using a(1) by auto
  then have "kvs \<noteq> []" using kvs(2) by auto
  moreover have "seqM (map (load_signal g nt run_circuit) kvs) ctx = feed run_circuit as ctx"
    by (rule load_members_feed [OF kvs(2) t(2)])
      (use l prefix_keeps_circuit [OF t l a] in \<open>auto simp: loaded_def\<close>)
  ultimately show ?thesis using kvs(1) by (simp add: loadJson_def)
qed

text \<open>The signals whose values the inputs determine by name: the constant, the inputs and the hashes.\<close>

fun named_signals :: "Circom_Circuit \<Rightarrow> (nat \<Rightarrow> int) \<Rightarrow> (nat \<times> int) list" where
  "named_signals circ x =
     (0, 1) # map (\<lambda>k. (Suc k, x k)) [0..<193] @
     concat (map (\<lambda>i. [(Suc (tx_sig (InHash i)), in_commit circ x i),
       (Suc (tx_sig (InNull i)), nullifier circ (in_commit circ x i) (x (13 + i))),
       (Suc (tx_sig (InTree i)), in_root circ x i),
       (Suc (tx_sig (OutHash i)), out_commit circ x i)]) [0..<4])"

declare named_signals.simps [simp del]

text \<open>An entry of the witness list that stands for a named signal.\<close>

definition entry_named :: "Circom_Circuit \<Rightarrow> (nat \<Rightarrow> int) \<Rightarrow> nat \<Rightarrow> int \<Rightarrow> bool" where
  "entry_named circ x i y \<longleftrightarrow> i < length (witness2SignalList circ) \<and>
     (unat (witness2SignalList circ ! i), y) \<in> set (named_signals circ x)"

lemma witness_signals_named:
  assumes "witness_signals circ x 1 ctx" "carries ctx 0 1 (\<lambda>_. 1)" "(s, y) \<in> set (named_signals circ x)"
  shows "carries ctx s 1 (\<lambda>_. y)"
proof -
  have x: "carries ctx (Suc k) 1 (\<lambda>_. x k)" if "k < 193" for k
    using assms(1) that by (simp add: witness_signals_def carries_def)
  from assms(3) show ?thesis
    using assms(1,2) x by (auto simp: named_signals.simps witness_signals_def)
qed

lemma program_outcome:
  assumes g: "gmp_spec g" and b: "loadCircuit bdata = Inr circ"
    and d: "circuit_data_ok circ"
    and w: "\<forall>s \<in> set (witness2SignalList circ). unat s < 72906"
    and j: "json_assignments circ g nt jin = Inr as"
    and a: "list_all2 (targets circ x) as ks" "distinct ks" "set ks = {..<193}"
  shows "transaction_ok circ x \<Longrightarrow> \<exists>ctx. witness_ok ctx \<and> circuit ctx = circ \<and> carries ctx 0 1 (\<lambda>_. 1) \<and>
      witness_signals circ x 1 ctx \<and> main_program g nt run_circuit bdata jin = Some (writeBinWitness ctx)"
    and "\<not> transaction_ok circ x \<Longrightarrow> \<exists>m \<in> {''line 86'', ''line 95'', ''line 114'', ''line 121''}.
      main_program g nt run_circuit bdata jin = Some (Inl (AssertFailed m))"
proof -
  have t: "circuit_data_ok circ" "table_size_ok (InputHashMap circ)"
    using d loadCircuit_lengths(1) [OF b] by (simp_all add: table_size_ok_def circuit_sizes)
  obtain c0 where c0: "Circom_CalcWit_new g circ 32 = Inr c0" "carries c0 0 1 (\<lambda>_. 1)" by (rule new_one [OF g])
  note l = new_loaded [OF c0(1), of x]
  obtain u where u: "loaded circ (signalValues c0 0) x {..<193} u" "feed run_circuit as c0 = run_circuit u"
    using feed_runs [OF t(2) l a] by blast
  have load: "loadJson g nt run_circuit jin c0 = run_circuit u"
    using loadJson_feed [OF t l j a] u(2) by simp
  have start: "bindR (loadCircuit bdata) (\<lambda>circuit. Circom_CalcWit_new g circuit 32) = Inr c0"
    using b c0(1) by (simp add: bindR_def)
  note U = loaded_all [OF u(1)]
  have cu: "circuit u = circ" "clean u" "carries u 1 193 x" using U by simp_all
  have ft: "leaf_table (table_to 2)" using deep_table_leaves [of 1] by (simp only: numeral_2_eq_2 One_nat_def)
  note D = run_circuit_with_decides [of u "table_to 2" x, unfolded cu(1), OF t(1) ft cu(2,3)]
  show "\<exists>m \<in> {''line 86'', ''line 95'', ''line 114'', ''line 121''}.
      main_program g nt run_circuit bdata jin = Some (Inl (AssertFailed m))" if "\<not> transaction_ok circ x"
  proof -
    have "\<exists>m \<in> {''line 86'', ''line 95'', ''line 114'', ''line 121''}. run_circuit u = Some (Inl (AssertFailed m))"
      unfolding run_circuit_eq by (rule D(2) [OF that])
    then show ?thesis
    proof (rule bexE)
      fix m assume "m \<in> {''line 86'', ''line 95'', ''line 114'', ''line 121''}" "run_circuit u = Some (Inl (AssertFailed m))"
      then show ?thesis unfolding main_program_def start by (intro bexI [of _ m]) (simp_all only: sum.case option.case load)
    qed
  qed
  show "\<exists>ctx. witness_ok ctx \<and> circuit ctx = circ \<and> carries ctx 0 1 (\<lambda>_. 1) \<and> witness_signals circ x 1 ctx \<and>
      main_program g nt run_circuit bdata jin = Some (writeBinWitness ctx)" if ok: "transaction_ok circ x"
  proof -
    obtain v where v: "run_circuit u = Some (Inr v)" using D(1) ok unfolding run_circuit_eq by blast
    then have ch: "changes {1..<72906} {0..<14485} u v" and ws: "witness_signals circ x 1 v"
      using D(3) unfolding run_circuit_eq by blast+
    have c: "circuit v = circ" "inputSignalAssignedCounter v = 0"
      using ch u(1) by (auto simp: changes_def loaded_def)
    have "signalValues v 0 = signalValues u 0" by (rule changesD(2) [OF ch]) simp
    then have one: "carries v 0 1 (\<lambda>_. 1)" using u(1) c0(2) by (simp add: loaded_def carries_def)
    have sig: "\<exists>e. signalValues v n = Some e \<and> fok e" if "n < 72906" for n
    proof (cases n)
      case 0 then show ?thesis using one by (auto simp: carries_def)
    next
      case (Suc k) then show ?thesis using ws that by (auto simp: witness_signals_def filled_def)
    qed
    have "witness_ok v"
      using w sig c(1) loadCircuit_lengths(2) [OF b] by (simp add: witness_ok_def circuit_sizes)
    then show ?thesis
      using one ws c unfolding main_program_def start
      by (intro exI [of _ v]) (simp add: load v getRemaingInputsToBeSet_def)
  qed
qed

text \<open>The values of the named signals in the witness file.\<close>

lemma entries_of_named:
  assumes "witness_ok ctx" "circuit ctx = circ" "carries ctx 0 1 (\<lambda>_. 1)" "witness_signals circ x 1 ctx"
    "writeBinWitness ctx = Inr file" "entry_named circ x i y"
  shows "read_entry file i = y"
proof -
  have "i < unat get_size_of_witness" using assms(1,2,6) by (simp add: witness_ok_def entry_named_def)
  then have "read_entry file i = witness_val ctx i" by (rule read_entry_written [OF assms(1,5)])
  moreover have "carries ctx (unat (witness2SignalList circ ! i)) 1 (\<lambda>_. y)"
    using witness_signals_named [OF assms(4,3)] assms(6) by (simp add: entry_named_def)
  ultimately show ?thesis using assms(2) by (auto simp: witness_val_def carries_def)
qed

lemma written_length:
  assumes "witness_ok ctx"
  shows "\<exists>file. writeBinWitness ctx = Inr file \<and> length file = 76 + 32 * 48610"
proof -
  let ?f = "\<lambda>j. le_bytes 32 (witness_val ctx j)"
  have "length (concat (map ?f [0..<unat get_size_of_witness])) = 32 * length [0..<unat get_size_of_witness]"
    by (rule concat_length) simp
  then show ?thesis using writeBinWitness_eq [OF assms] header_length by (simp add: circuit_sizes del: upt_rec_numeral)
qed

lemma input_entry_named:
  assumes "i < length (witness2SignalList circ)" "unat (witness2SignalList circ ! i) = Suc k" "k < 193"
  shows "entry_named circ x i (x k)"
  using assms by (auto simp: entry_named_def named_signals.simps simp del: upt_rec_numeral)

end
