(* ===== verification/Circuit_Examples.thy ===== *)
theory Circuit_Examples
  imports Examples Calc_Machine Program_Run
begin

text \<open>
  A circuit file with all the small constants and field maps in place, an input table in which one
  name covers all the inputs, and calculators whose inputs carry given values.
\<close>

definition full_const :: "nat \<Rightarrow> FrElement" where
  "full_const i = (case map_of network_constants i of Some v \<Rightarrow> Fr_SHORT (word_of_int v) | None \<Rightarrow> demo_const i)"

definition full_fields :: "u32 \<Rightarrow> IOFieldDefPair" where
  "full_fields t =
     \<lparr>pair_len = 2, pair_defs =
       [\<lparr>io_offset = 0, io_len = 0, io_lengths = [], io_size = 1, io_busId = 0\<rparr>,
        \<lparr>io_offset = of_nat (if unat t < 70 then 4 else 3), io_len = 0, io_lengths = [], io_size = 1, io_busId = 0\<rparr>]\<rparr>"

definition full_table :: "HashSignalInfo list" where
  "full_table = (replicate 256 \<lparr>hash = 0, signalid = 0, signalsize = 0\<rparr>)
     [197 := \<lparr>hash = 11769310039851165637, signalid = 1, signalsize = 193\<rparr>]"

definition full_circuit :: Circom_Circuit where
  "full_circuit =
     \<lparr>InputHashMap = full_table, witness2SignalList = replicate 48610 5,
      circuitConstants = map full_const [0..<25024],
      templateInsId2IOSignalInfo = (\<lambda>t. Some (full_fields t)), busInsId2FieldInfo = None\<rparr>"

lemma constants_agree:
  "list_all (\<lambda>(i, v). map_of network_constants i = None \<or> map_of network_constants i = Some v) small_constants"
  by (simp add: small_constants_def mixs4_oc_def mixs3_oc_def network_constants_def upt_rec cong: if_weak_cong)

lemma network_agree:
  "list_all (\<lambda>(i, v). map_of network_constants i = Some v \<and> i < 25024 \<and> fits32 v) network_constants"
  by (simp add: network_constants_def upt_rec fits32_def)

lemma full_const_small:
  assumes "(i, v) \<in> set (small_constants @ network_constants)"
  shows "small (map full_const [0..<25024] ! i) v"
proof -
  have "i < 25024 \<and> (map_of network_constants i = Some v \<or> map_of network_constants i = None \<and> find_const demo_tree i = v) \<and>
    fits32 v"
    using assms demo_tree_ok constants_agree network_agree unfolding list_all_iff set_append by fast
  then show ?thesis by (auto simp: full_const_def demo_const_def smallI)
qed

lemma full_circuit_ok: "circuit_data_ok full_circuit"
  unfolding circuit_data_ok_def
proof (intro conjI allI impI ballI)
  show "length (circuitConstants full_circuit) = unat get_size_of_constants"
    by (simp add: full_circuit_def circuit_sizes)
  show "fok c" if "c \<in> set (circuitConstants full_circuit)" for c
    using that by (auto simp: full_circuit_def full_const_def demo_const_def split: option.splits)
  show "case p of (i, v) \<Rightarrow> small (circuitConstants full_circuit ! i) v"
    if "p \<in> set (small_constants @ network_constants)" for p
  proof (cases p)
    case (Pair i v)
    then show ?thesis using full_const_small [of i v] that by (simp only: full_circuit_def Circom_Circuit.simps prod.case)
  qed
  fix k :: nat assume k: "k < 137" "k \<notin> {1, 67, 68, 69}"
  show "io_field full_circuit (of_nat k) 0 0"
    by (simp add: io_field_def full_circuit_def full_fields_def)
  have "unat (of_nat k :: u32) = k" using k(1) by (intro unat_of_nat_u32) simp
  then show "io_field full_circuit (of_nat k) 1 (if k < 70 then 4 else 3)"
    by (simp add: io_field_def full_circuit_def full_fields_def)
qed

section \<open>Calculators whose inputs carry given values\<close>

definition element_with :: "int \<Rightarrow> FrElement" where
  "element_with v = Fr_LONG (FrRaw (word_of_int v) (word_of_int (v div 2 ^ 64)) (word_of_int (v div 2 ^ 128))
     (word_of_int (v div 2 ^ 192)))"

lemma element_with_val:
  assumes "in_field v"
  shows "fok (element_with v)" "fval (element_with v) = v"
proof -
  have v: "0 \<le> v" "v < 2 ^ 256" using assms by (simp_all add: in_field_def q_int_def)
  have top: "v div 2 ^ 192 < 2 ^ 64" using zdiv_mono1 [of v "2 ^ 256 - 1" "2 ^ 192"] v by simp
  define a b c where "a = v div 2 ^ 64" and "b = v div 2 ^ 128" and "c = v div 2 ^ 192"
  have abc: "b = a div 2 ^ 64" "c = b div 2 ^ 64"
    unfolding a_def b_def c_def by (simp_all add: zdiv_zmult2_eq [symmetric])
  let ?K = "18446744073709551616 :: int"
  have "a = b * ?K + a mod ?K" "b = c * ?K + b mod ?K" unfolding abc by simp_all
  moreover have "v = a * ?K + v mod ?K" by (simp add: a_def)
  moreover have "c mod ?K = c" using top v by (simp add: c_def pos_imp_zdiv_nonneg_iff)
  moreover have "rval (FrRaw (word_of_int v) (word_of_int a) (word_of_int b) (word_of_int c)) =
      v mod ?K + ?K * (a mod ?K) + 340282366920938463463374607431768211456 * (b mod ?K) +
      6277101735386680763835789423207666416102355444464034512896 * (c mod ?K)"
    by (simp add: uint_word_of_int)
  ultimately have "rval (FrRaw (word_of_int v) (word_of_int a) (word_of_int b) (word_of_int c)) = v"
    by linarith
  then show "fok (element_with v)" "fval (element_with v) = v"
    using assms by (simp_all add: element_with_def in_field_def a_def b_def c_def del: rval.simps)
qed

definition full_ctx :: "(nat \<Rightarrow> int) \<Rightarrow> Circom_CalcWit" where
  "full_ctx x =
     \<lparr>inputSignalAssigned = replicate 193 True, inputSignalAssignedCounter = 0, circuit = full_circuit,
      signalValues = (\<lambda>i. if 1 \<le> i \<and> i < 194 then Some (element_with (x (i - 1))) else None),
      componentMemory = (\<lambda>_. Circom_Component_new), maxThread = 32, numThread = 0\<rparr>"

lemma full_ctx_circuit [simp]: "circuit (full_ctx x) = full_circuit"
  by (simp add: full_ctx_def)

lemma full_ctx_clean: "clean (full_ctx x)"
  by (simp add: clean_def no_sync_def full_ctx_def Circom_Component_new_def)

lemma full_ctx_carries: "\<forall>i < 193. in_field (x i) \<Longrightarrow> carries (full_ctx x) 1 193 x"
  by (simp add: carries_def full_ctx_def element_with_val)

lemma in_field_small: "0 \<le> v \<Longrightarrow> v < 1000000 \<Longrightarrow> in_field v"
  by (simp add: in_field_def q_int_def)

text \<open>The commitment, nullifier and root of a demonstration note lie in the field.\<close>

definition demo_coin :: coin where
  "demo_coin = \<lparr>amount = 5, secret = 6, recipient = 7\<rparr>"

lemma hashes_in_field:
  "in_field (commitment circ a b c)" "in_field (nullifier circ a b)" "in_field (merkle_node p a b d)"
  using poseidon_hash_range by (simp_all add: in_field_def commitment_def nullifier_def merkle_node_def)

lemma same_note_in_field:
  assumes "\<forall>k < 20. in_field (sib k) \<and> in_field (sel k)"
  shows "\<forall>i < 193. in_field (same_note_inputs circ demo_coin sib sel (\<lambda>_. demo_coin) i)"
proof -
  have "in_field (merkle_hash (poseidon3 circ) sib sel (note_commitment circ demo_coin) 20)"
    by (simp add: numeral_eq_Suc hashes_in_field)
  then show ?thesis
    using assms by (simp add: same_note_inputs_def note_commitment_def hashes_in_field demo_coin_def in_field_small)
qed

text \<open>All inputs have the name of the one entry; with the value one each, these are \<open>full_inputs\<close>.\<close>

definition inputs_of :: "FrElement list \<Rightarrow> assignment list" where
  "inputs_of es = map (\<lambda>(i, e). (11769310039851165637, of_nat i, e)) (enumerate 0 es)"

definition full_inputs :: "assignment list" where
  "full_inputs = inputs_of (replicate 193 (Fr_SHORT 1))"

lemma full_table_lookup: "lookup_spec full_table 11769310039851165637 = Inr 197"
  by (simp add: lookup_spec_def full_table_def slot_def home_def circuit_sizes find_upt_step [of 0])

lemma inputs_target:
  assumes "InputHashMap circ = full_table" "list_all2 (\<lambda>e v. fok e \<and> fval e = v) es (map x [0..<193])"
  shows "list_all2 (targets circ x) (inputs_of es) [0..<193]"
proof -
  have len: "length es = 193" using list_all2_lengthD [OF assms(2)] by simp
  have t: "targets circ x (11769310039851165637, of_nat n, es ! n) n" if n: "n < 193" for n
  proof -
    have e: "fok (es ! n)" "fval (es ! n) = x n" using list_all2_nthD2 [OF assms(2), of n] n by (simp_all del: upt_rec_numeral)
    have u: "unat (of_nat n :: u32) = n" using n by (intro unat_of_nat_u32) simp
    have "(ucast (of_nat n :: u32) :: u64) = of_nat n" using u by (metis of_nat_unat)
    moreover have "unat (of_nat n :: u64) = n" using n by (intro unat_of_nat_u64) simp
    moreover have "unat (ucast (1 + of_nat n :: u64) :: u32) = Suc n"
    proof -
      have "unat (of_nat (Suc n) :: u64) = Suc n" using n by (intro unat_of_nat_u64) simp
      then show ?thesis using n by (simp add: unsigned_ucast_eq take_bit_nat_eq_self)
    qed
    ultimately show ?thesis
      using n e assms(1) by (simp add: full_table_lookup word_less_nat_alt) (simp add: full_table_def word_less_nat_alt)
  qed
  show ?thesis
    unfolding inputs_of_def list_all2_map1
    by (rule list_all2_all_nthI) (use t len in \<open>simp_all add: nth_enumerate_eq del: upt_rec_numeral targets.simps\<close>)
qed

lemma full_inputs_target: "list_all2 (targets full_circuit (\<lambda>_. 1)) full_inputs [0..<193]"
  unfolding full_inputs_def
  by (rule inputs_target) (auto simp: full_circuit_def list_all2_conv_all_nth q_int_def simp del: upt_rec_numeral)

lemma full_table_ok: "table_size_ok (InputHashMap full_circuit)"
  by (simp add: table_size_ok_def full_circuit_def full_table_def circuit_sizes)

lemma full_new: "\<exists>ctx. Circom_CalcWit_new gmp_ref full_circuit 32 = Inr ctx"
proof -
  have "returns (Fr_str2element gmp_ref ''1'' 10) (numeral_val 10 ''1'' mod q_int)"
    by (rule Fr_str2element_returns) (simp_all add: gmp_ref_spec numeral_in_def digit_of_def)
  then show ?thesis by (auto simp: returns_def Circom_CalcWit_new_def bindR_def)
qed

text \<open>Two neighbouring children, one of which is the commitment itself.\<close>

lemma adjacent_coprime:
  assumes "in_field c"
  shows "coprime (mux_out (mux_in ((c + 1) mod q_int) c 0) 0 + mux_out (mux_in ((c + 1) mod q_int) c 0) 1 - 2 * c) q_int"
proof -
  have "mux_out (mux_in ((c + 1) mod q_int) c 0) 0 = (c + 1) mod q_int" "mux_out (mux_in ((c + 1) mod q_int) c 0) 1 = c"
    using assms by (simp_all add: mux_out_def mux_in_def in_field_def)
  moreover have "(c + 1) mod q_int - c = 1 \<or> (c + 1) mod q_int - c = 1 - q_int"
    using assms by (cases "c + 1 = q_int") (auto simp: in_field_def mod_pos_pos_trivial)
  moreover have "coprime (1 - q_int) q_int"
  proof (rule coprimeI)
    fix d assume "d dvd 1 - q_int" "d dvd q_int"
    then have "d dvd (1 - q_int) + q_int" by (rule dvd_add)
    then show "is_unit d" by simp
  qed
  ultimately show ?thesis by auto
qed

definition full_frame :: frame where
  "full_frame = \<lparr>f_ctx = full_ctx (\<lambda>_. 1), ctx_index = 0, mySignalStart = 1, expaux_size = 2, lvar_size = 6,
     expaux = Map.empty, lvar = Map.empty\<rparr>"

section \<open>Files\<close>

text \<open>A circuit file, the circuit it holds, and an input file with decimal numbers.\<close>

definition file_fields :: "(u32 \<times> IOFieldDefPair) list" where
  "file_fields = map (\<lambda>k. (of_nat k, full_fields (of_nat k))) ([0] @ [2..<67] @ [70..<137])"

definition full_file :: "u8 list" where
  "full_file = dat_file full_table (replicate 48610 5) (map full_const [0..<25024]) file_fields"

definition file_circuit :: Circom_Circuit where
  "file_circuit = full_circuit\<lparr>templateInsId2IOSignalInfo := map_of (rev file_fields), busInsId2FieldInfo := Some []\<rparr>"

lemma full_file_loads: "loadCircuit full_file = Inr file_circuit"
  unfolding full_file_def
  by (subst loadCircuit_dat_file)
    (auto simp: full_table_def file_fields_def file_circuit_def full_circuit_def full_fields_def pair_ok_def
      simp del: upt_rec_numeral)

lemma word_small: "k < 137 \<Longrightarrow> unat (of_nat k :: u32) = k"
  by (rule unat_of_nat_u32) simp

lemma file_fields_at:
  assumes "k < 137" "k \<notin> {1, 67, 68, 69}"
  shows "map_of (rev file_fields) (of_nat k) = Some (full_fields (of_nat k))"
proof (rule map_of_is_SomeI)
  have "inj_on (of_nat :: nat \<Rightarrow> u32) {..<137}"
    by (rule inj_onI) (metis lessThan_iff word_small)
  moreover have "set ([0] @ [2..<67] @ [70..<137]) \<subseteq> {..<137}" by (auto simp del: upt_rec_numeral)
  ultimately have "inj_on (of_nat :: nat \<Rightarrow> u32) (set ([0] @ [2..<67] @ [70..<137]))" by (rule inj_on_subset)
  moreover have "distinct ([0] @ [2..<67] @ [70..<137])" by (auto simp del: upt_rec_numeral)
  ultimately have "distinct (map (of_nat :: nat \<Rightarrow> u32) ([0] @ [2..<67] @ [70..<137]))" by (simp only: distinct_map)
  moreover have "map fst file_fields = map of_nat ([0] @ [2..<67] @ [70..<137])"
    by (simp add: file_fields_def comp_def del: upt_rec_numeral)
  ultimately show "distinct (map fst (rev file_fields))" by (simp only: rev_map [symmetric] distinct_rev)
  show "(of_nat k, full_fields (of_nat k)) \<in> set (rev file_fields)"
    unfolding file_fields_def set_rev set_map
    by (rule image_eqI [OF refl]) (use assms in \<open>auto simp del: upt_rec_numeral\<close>)
qed

lemma file_circuit_ok: "circuit_data_ok file_circuit"
proof -
  have "io_field file_circuit (of_nat k) i o' = io_field full_circuit (of_nat k) i o'"
    if "k < 137" "k \<notin> {1, 67, 68, 69}" for k i o'
    using file_fields_at [OF that] by (simp add: io_field_def file_circuit_def full_circuit_def)
  then show ?thesis
    using full_circuit_ok by (simp add: circuit_data_ok_def file_circuit_def full_circuit_def)
qed

lemma decimal_prefix:
  assumes "numeral_in 10 s"
  shows "split_prefix s = (s, 10)"
proof -
  have "c \<notin> {CHR ''b'', CHR ''B'', CHR ''o'', CHR ''O'', CHR ''x'', CHR ''X''}" if "c \<in> set s" for c
    using assms that by (auto simp: numeral_in_def digit_of_def)
  then show ?thesis by (cases s; cases "tl s") (auto simp: split_prefix_def)
qed

definition numbers :: "(nat \<Rightarrow> int) \<Rightarrow> json" where
  "numbers x = J_object [(''root'', J_array (map (\<lambda>k. J_string (digits10 (nat (x k)))) [0..<193]))]"

lemma check_rest_strings: "check_rest p T_integer (map (\<lambda>k. J_string (f k)) ks) = Inr T_integer"
  by (induction ks) (simp_all add: leaf_type_def bindR_def)

lemma numbers_qualified:
  "qualify_input '''' (numbers x) [] = Inr [(''root'', J_array (map (\<lambda>k. J_string (digits10 (nat (x k)))) [0..<193]))]"
proof -
  have u: "[0..<193] = 0 # [1..<193]" by (subst upt_conv_Cons) simp_all
  show ?thesis
    unfolding numbers_def u
    by (simp add: qualify_input.simps member_name_def leaf_type_def bindR_def check_rest_strings obj_set_def del: upt_rec_numeral)
qed

lemma numbers_assigned:
  assumes "InputHashMap circ = full_table" "\<forall>i < 193. in_field (x i)"
  obtains es where "json_assignments circ gmp_ref nt (numbers x) = Inr (inputs_of es)"
    "list_all2 (\<lambda>e v. fok e \<and> fval e = v) es (map x [0..<193])"
proof -
  let ?vs = "map (\<lambda>k. J_string (digits10 (nat (x k)))) [0..<193]"
  have "returns (string2Fr gmp_ref (digits10 (nat (x k)))) (x k)" if "k < 193" for k
    using string2Fr_numeral [OF gmp_ref_spec decimal_prefix [OF digits10_numeral] digits10_numeral, of "nat (x k)"] assms(2) that
    by (simp add: digits10_val in_field_def)
  then have "list_all2 (\<lambda>v y. \<exists>s. v = J_string s \<and> returns (string2Fr gmp_ref s) y) ?vs (map x [0..<193])"
    by (auto simp: list_all2_conv_all_nth simp del: upt_rec_numeral)
  from json2Fr_strings [OF this, of nt "[]"] obtain es where
    es: "json2FrElements_list gmp_ref nt ?vs [] = Inr es" "list_all2 (\<lambda>e v. fok e \<and> fval e = v) es (map x [0..<193])"
    by auto
  have "length es = 193" using list_all2_lengthD [OF es(2)] by simp
  moreover have "fnv1a ''root'' = 11769310039851165637" by (simp add: fnv1a_def fnv1a_step_def)
  moreover have "signalsize (full_table ! 197) = 193" by (simp add: full_table_def)
  ultimately have "json_assignments circ gmp_ref nt (numbers x) = Inr (inputs_of es)"
    using es(1) assms(1) numbers_qualified [of x]
    by (simp add: json_assignments_def member_assignments_def bindR_def full_table_lookup inputs_of_def del: upt_rec_numeral)
  then show ?thesis using es(2) by (rule that)
qed

lemma full_entries_in_range: "\<forall>s \<in> set (witness2SignalList file_circuit). unat s < 72906"
  by (simp add: file_circuit_def full_circuit_def)

lemma complete_calculator: "\<exists>ctx. calculator gmp_ref file_circuit ctx \<and> inputSignalAssignedCounter ctx = 0"
proof -
  let ?x = "same_note_inputs file_circuit demo_coin (\<lambda>_. 1) (\<lambda>_. 0) (\<lambda>_. demo_coin)"
  have t: "InputHashMap file_circuit = full_table" by (simp add: file_circuit_def full_circuit_def)
  have "\<forall>i < 193. in_field (?x i)" by (rule same_note_in_field) (simp add: in_field_small)
  then obtain es where es: "list_all2 (\<lambda>e v. fok e \<and> fval e = v) es (map ?x [0..<193])"
    by (rule numbers_assigned [OF t])
  obtain ctx where "Circom_CalcWit_new gmp_ref file_circuit 32 = Inr ctx" by (rule new_one [OF gmp_ref_spec])
  moreover have "table_size_ok (InputHashMap file_circuit)" using full_table_ok by (simp add: file_circuit_def)
  moreover have "transaction_ok file_circuit ?x" by (rule same_note_ok) simp
  ultimately show ?thesis
    using complete_reachable [OF file_circuit_ok _ _ inputs_target [OF t es]] atLeast0LessThan
    by (auto simp del: upt_rec_numeral)
qed

end
