(* ===== verification/Layer_Tables.thy ===== *)
theory Layer_Tables
  imports Leaf_Contracts
begin

text \<open>
  The generated code has the constants of the permutation twice: \<open>PoseidonEx\<close> calls the functions of
  constants and keeps what they return in its local array, while the layers that it calls load theirs
  from their own texts. Both are the same: the layers compute the permutation of the returned tables.
\<close>

section \<open>What the functions return for the two widths\<close>

lemma called_tables:
  assumes "small a w" "width_args_ok (consts_of s)"
  shows "POSEIDON_C_0 m (call_frame 205 a s) = width_table POSEIDON_C_branches w m (consts_of s)"
    "POSEIDON_S_1 m (call_frame 2245 a s) = width_table POSEIDON_S_branches w m (consts_of s)"
    "POSEIDON_M_2 m (call_frame 579 a s) = width_table POSEIDON_M_branches w m (consts_of s)"
    "POSEIDON_P_3 m (call_frame 579 a s) = width_table POSEIDON_P_branches w m (consts_of s)"
  unfolding POSEIDON_C_0_def POSEIDON_S_1_def POSEIDON_M_2_def POSEIDON_P_3_def
  by (intro called_width branches_C_ok branches_S_ok branches_M_ok branches_P_ok branches_args assms; simp)+

lemma width_4:
  "width_table POSEIDON_C_branches 4 m cs = Some (Inr (map ((!) cs) (take m [0..<88])))"
  "width_table POSEIDON_S_branches 4 m cs = Some (Inr (map ((!) cs) (take m mixs4_table)))"
  "width_table POSEIDON_M_branches 4 m cs = Some (Inr (map ((!) cs) (take m mat_M4)))"
  "width_table POSEIDON_P_branches 4 m cs = Some (Inr (map ((!) cs) (take m mat_P4)))"
  by (simp_all add: width_table_def POSEIDON_C_branches_def POSEIDON_M_branches_def POSEIDON_P_branches_def
      POSEIDON_S_branches_def inlined_tables inlined_sparse_tables del: upt_rec_numeral)

lemma width_3:
  "width_table POSEIDON_C_branches 3 m cs = Some (Inr (map ((!) cs) (take m [841..<922])))"
  "width_table POSEIDON_S_branches 3 m cs = Some (Inr (map ((!) cs) (take m mixs3_table)))"
  "width_table POSEIDON_M_branches 3 m cs = Some (Inr (map ((!) cs) (take m mat_M3)))"
  "width_table POSEIDON_P_branches 3 m cs = Some (Inr (map ((!) cs) (take m mat_P3)))"
  by (simp_all add: width_table_def POSEIDON_C_branches_def POSEIDON_M_branches_def POSEIDON_P_branches_def
      POSEIDON_S_branches_def inlined_tables inlined_sparse_tables del: upt_rec_numeral)

section \<open>Parameters with the same tables\<close>

definition same_tables :: "params \<Rightarrow> params \<Rightarrow> bool" where
  "same_tables p p' \<longleftrightarrow> p_t p = p_t p' \<and> p_np p = p_np p' \<and>
     (\<forall>i < 8 * p_t p + p_np p. p_C p i = p_C p' i) \<and> (\<forall>i < (2 * p_t p - 1) * p_np p. p_S p i = p_S p' i) \<and>
     (\<forall>i < p_t p * p_t p. p_M p i = p_M p' i) \<and> (\<forall>i < p_t p * p_t p. p_P p i = p_P p' i)"

lemma computes_cong:
  assumes "computes circ tid sh r G" "\<And>x i. i < n_out sh \<Longrightarrow> G x i = G' x i"
  shows "computes circ tid sh r G'"
proof -
  have "carries ctx start (n_out sh) (G x) = carries ctx start (n_out sh) (G' x)" for ctx start x
    using assms(2) by (simp add: carries_def)
  then show ?thesis using assms(1) by (simp add: computes_def)
qed

lemma row_index: "j < t \<Longrightarrow> i < t \<Longrightarrow> t * j + i < t * t" for t :: nat
proof -
  assume "j < t" "i < t"
  then have "t * j + i < t * j + t" "t * (j + 1) \<le> t * t" by (simp_all del: mult_Suc_right add: mult_le_mono2)
  then show ?thesis by simp
qed

lemma same_mix:
  assumes "p_t p = p_t p'" "\<And>i. i < p_t p * p_t p \<Longrightarrow> M i = M' i" "i < p_t p"
  shows "mix_layer p M x i = mix_layer p' M' x i"
proof -
  have "(\<Sum>j<p_t p. M (p_t p * j + i) * x j) = (\<Sum>j<p_t p'. M' (p_t p' * j + i) * x j)"
    using assms row_index by (intro sum.cong) auto
  then show ?thesis by (simp add: mix_layer_def)
qed

lemma same_sparse:
  assumes "\<And>i. i < (2 * t - 1) * n \<Longrightarrow> S i = S' i" "i < t" "r < n"
  shows "sparse_round S t ((2 * t - 1) * r) x i = sparse_round S' t ((2 * t - 1) * r) x i"
proof -
  have "(2 * t - 1) * r + k < (2 * t - 1) * n" if "k < 2 * t - 1" for k
  proof -
    have "(2 * t - 1) * (r + 1) \<le> (2 * t - 1) * n" using assms(3) by (intro mult_le_mono2) simp
    then show ?thesis using that by simp
  qed
  then have S: "S ((2 * t - 1) * r + k) = S' ((2 * t - 1) * r + k)" if "k < 2 * t - 1" for k
    using assms(1) that by blast
  have "(\<Sum>j<t. S ((2 * t - 1) * r + j) * x j) = (\<Sum>j<t. S' ((2 * t - 1) * r + j) * x j)"
    using S by (intro sum.cong) auto
  moreover have "S ((2 * t - 1) * r + t + i - 1) = S' ((2 * t - 1) * r + t + i - 1)" if "i \<noteq> 0"
  proof -
    have "(2 * t - 1) * r + (t + i - 1) = (2 * t - 1) * r + t + i - 1" "t + i - 1 < 2 * t - 1" using that assms(2) by simp_all
    then show ?thesis using S by metis
  qed
  ultimately show ?thesis by (auto simp: sparse_round_def)
qed

lemma same_slot:
  assumes "same_tables p p'" "pex_slot (p_t p) (p_np p) \<kappa>" "i < n_out (pex_shp (p_t p) \<kappa>)" "p_t p = 3 \<or> p_t p = 4"
  shows "pex_fun p \<kappa> x i = pex_fun p' \<kappa> x i"
proof (cases \<kappa>)
  case (Ark k)
  have "ark_off p k + i < 8 * p_t p + p_np p" "ark_off p k = ark_off p' k"
    using assms Ark by (auto simp: ark_off_def layer_shape_def same_tables_def)
  then show ?thesis using assms(1) Ark by (simp add: ark_layer_def same_tables_def)
next
  case (Mix k)
  then show ?thesis
    using assms same_mix [of p p' "p_M p" "p_M p'" i x] same_mix [of p p' "p_P p" "p_P p'" i x]
    by (simp add: same_tables_def layer_shape_def)
next
  case (MixS r)
  then show ?thesis
    using assms same_sparse [of "p_t p" "p_np p" "p_S p" "p_S p'" i r x] by (simp add: same_tables_def layer_shape_def)
next
  case MixLast
  then show ?thesis
    using assms same_mix [of p p' "p_M p" "p_M p'" 0 x] by (auto simp: same_tables_def)
qed simp_all

section \<open>The permutation of four lists\<close>

definition permutation_of :: "nat \<Rightarrow> nat \<Rightarrow> FrElement list \<Rightarrow> FrElement list \<Rightarrow> FrElement list \<Rightarrow> FrElement list \<Rightarrow> params" where
  "permutation_of t np C S M P =
     \<lparr>p_t = t, p_np = np, p_C = (\<lambda>i. fval (C ! i)), p_S = (\<lambda>i. fval (S ! i)),
      p_M = (\<lambda>i. fval (M ! i)), p_P = (\<lambda>i. fval (P ! i))\<rparr>"

lemma returned_lengths:
  "length mat_M4 = 16" "length mat_P4 = 16" "length mat_M3 = 9" "length mat_P3 = 9"
  "length mixs4_table = 392" "length mixs3_table = 285"
  by (simp_all add: mat_M4_def mat_P4_def mat_M3_def mat_P3_def mixs4_table_def mixs3_table_def del: upt_rec_numeral)

lemma same_returned_4:
  "same_tables (poseidon4 circ) (permutation_of 4 56 (map ((!) (circuitConstants circ)) [0..<88])
     (map ((!) (circuitConstants circ)) mixs4_table) (map ((!) (circuitConstants circ)) mat_M4)
     (map ((!) (circuitConstants circ)) mat_P4))"
  by (simp add: same_tables_def poseidon4_def permutation_of_def circuit_const_def returned_lengths del: upt_rec_numeral)

lemma same_returned_3:
  "same_tables (poseidon3 circ) (permutation_of 3 57 (map ((!) (circuitConstants circ)) [841..<922])
     (map ((!) (circuitConstants circ)) mixs3_table) (map ((!) (circuitConstants circ)) mat_M3)
     (map ((!) (circuitConstants circ)) mat_P3))"
  by (simp add: same_tables_def poseidon3_def permutation_of_def circuit_const_def returned_lengths del: upt_rec_numeral)

lemma slots_of_same_tables:
  assumes "circuit_data_ok circ" "leaf_table ft" "pex_slot (p_t p) (p_np p) \<kappa>"
    and "same_tables (poseidon4 circ) p \<and> ml = MixLast_67_run \<or> same_tables (poseidon3 circ) p \<and> ml = MixLast_137_run"
  shows "computes circ (pex_tmpl (p_t p) \<kappa>) (pex_shp (p_t p) \<kappa>) (pex_runner ft ml \<kappa>) (pex_fun p \<kappa>)"
  using assms(4)
proof
  assume s: "same_tables (poseidon4 circ) p \<and> ml = MixLast_67_run"
  then have t: "p_t p = 4" "p_np p = 56" "p_t (poseidon4 circ) = 4" "p_np (poseidon4 circ) = 56"
    by (auto simp: same_tables_def poseidon4_def)
  show ?thesis
    using computes_cong [OF slots4_compute [OF assms(1,2)]] same_slot [of "poseidon4 circ" p \<kappa>] s assms(3) by (simp add: t)
next
  assume s: "same_tables (poseidon3 circ) p \<and> ml = MixLast_137_run"
  then have t: "p_t p = 3" "p_np p = 57" "p_t (poseidon3 circ) = 3" "p_np (poseidon3 circ) = 57"
    by (auto simp: same_tables_def poseidon3_def)
  show ?thesis
    using computes_cong [OF slots3_compute [OF assms(1,2)]] same_slot [of "poseidon3 circ" p \<kappa>] s assms(3) by (simp add: t)
qed

end
