(* ===== verification/Input_Frame.thy ===== *)
theory Input_Frame
  imports Main_IO Transaction
begin

text \<open>
  The circuit leaves the bookkeeping of the inputs alone. Whatever the circuit file holds, a statement of
  the generated code that returns has changed no flag or counter of the assigned inputs, and has
  unwritten no signal; this is shown once along the syntax of statements and then for every \<open>_create\<close>
  and \<open>_run\<close> function, for the table and for \<open>run\<close>.
\<close>

section \<open>Statements that stay in a relation\<close>

definition stays :: "('s \<Rightarrow> 's \<Rightarrow> bool) \<Rightarrow> 's stmt \<Rightarrow> bool" where
  "stays R c \<longleftrightarrow> (\<forall>s t. c s = Some (Inr t) \<longrightarrow> R s t)"

lemma staysI: "(\<And>s t. c s = Some (Inr t) \<Longrightarrow> R s t) \<Longrightarrow> stays R c"
  by (simp add: stays_def)

lemma staysD: "stays R c \<Longrightarrow> c s = Some (Inr t) \<Longrightarrow> R s t"
  by (simp add: stays_def)

locale guarantee =
  fixes R :: "'s \<Rightarrow> 's \<Rightarrow> bool"
  assumes refl: "R s s" and trans: "R s t \<Longrightarrow> R t u \<Longrightarrow> R s u"
begin

lemma seq: "list_all (stays R) cs \<Longrightarrow> stays R (seqM cs)"
proof (induction cs)
  case Nil
  then show ?case by (simp add: stays_def seqM.simps refl)
next
  case (Cons c cs)
  then have c: "stays R c" and cs: "stays R (seqM cs)" by simp_all
  show ?case
  proof (rule staysI)
    fix s u assume "seqM (c # cs) s = Some (Inr u)"
    then obtain t where "c s = Some (Inr t)" "seqM cs t = Some (Inr u)"
      by (auto simp: seqM.simps split: option.splits sum.splits)
    then show "R s u" using staysD [OF c] staysD [OF cs] trans by blast
  qed
qed

lemma skip: "stays R skipM"
  by (simp add: stays_def skipM_def refl)

lemma throw: "stays R (throwM e)"
  by (simp add: stays_def throwM_def)

lemma lift: "(\<And>s t. f s = Inr t \<Longrightarrow> R s t) \<Longrightarrow> stays R (liftM f)"
  by (simp add: stays_def liftM_def)

lemma branch: "stays R c \<Longrightarrow> stays R d \<Longrightarrow> stays R (ifM b c d)"
  by (auto simp: stays_def ifM_def split: sum.splits if_splits)

lemma assertion: "stays R (assertM msg b)"
  unfolding assertM_def by (intro branch skip throw)

lemma repeat: "(\<And>i. stays R (body i)) \<Longrightarrow> stays R (forM n body)"
  unfolding forM_def by (intro seq) (simp add: list_all_iff)

lemma loop:
  assumes c: "stays R c"
  shows "stays R (whileM b c)"
proof (rule staysI)
  fix s t assume t: "whileM b c s = Some (Inr t)"
  have "c = c \<longrightarrow> (\<forall>u. Inr t = (Inr u :: cerr + 's) \<longrightarrow> R s u)"
  proof (rule whileM.raw_induct [where P = "\<lambda>b' c' s r. c' = c \<longrightarrow> (\<forall>t. r = Inr t \<longrightarrow> R s t)", OF _ t], intro impI allI)
    fix w b' c' s r t
    assume IH: "\<And>b' c' s r. w b' c' s = Some r \<Longrightarrow> c' = c \<longrightarrow> (\<forall>t. r = Inr t \<longrightarrow> R s t)"
      and r: "(case b' s of Inl e \<Rightarrow> Some (Inl e)
        | Inr t \<Rightarrow> if t then Option.bind (c' s) (case_sum (\<lambda>e. Some (Inl e)) (w b' c')) else Some (Inr s)) = Some r"
      and c': "c' = c" "r = Inr t"
    show "R s t"
    proof (cases "b' s = Inr True")
      case True
      then obtain y where y: "c s = Some y" "case_sum (\<lambda>e. Some (Inl e)) (w b' c) y = Some (Inr t)"
        using r c' by (auto simp: bind_eq_Some_conv)
      then obtain u where u: "c s = Some (Inr u)" "w b' c u = Some (Inr t)" by (cases y) simp_all
      then show ?thesis using staysD [OF c u(1)] IH [OF u(2)] trans by blast
    next
      case False
      then show ?thesis using r c' refl by (auto split: sum.splits if_splits)
    qed
  qed
  then show "R s t" by blast
qed

end

section \<open>The bookkeeping of the inputs\<close>

definition same_inputs :: "Circom_CalcWit \<Rightarrow> Circom_CalcWit \<Rightarrow> bool" where
  "same_inputs c c' \<longleftrightarrow> inputSignalAssigned c' = inputSignalAssigned c \<and>
     inputSignalAssignedCounter c' = inputSignalAssignedCounter c \<and> dom (signalValues c) \<subseteq> dom (signalValues c')"

definition frame_inputs :: "frame \<Rightarrow> frame \<Rightarrow> bool" where
  "frame_inputs s t \<longleftrightarrow> same_inputs (f_ctx s) (f_ctx t)"

interpretation on_calc: guarantee same_inputs
  by unfold_locales (auto simp: same_inputs_def)

interpretation on_frame: guarantee frame_inputs
  by unfold_locales (auto simp: frame_inputs_def same_inputs_def)

abbreviation calc_stays :: "Circom_CalcWit stmt \<Rightarrow> bool" where "calc_stays \<equiv> stays same_inputs"
abbreviation frame_stays :: "frame stmt \<Rightarrow> bool" where "frame_stays \<equiv> stays frame_inputs"

lemma same_inputs_inv: "inputs_inv c \<Longrightarrow> same_inputs c c' \<Longrightarrow> inputs_inv c'"
  unfolding inputs_inv_def same_inputs_def by (auto simp: dom_def) blast

lemma frame_inputs_local [simp]: "frame_inputs s (s\<lparr>expaux := e\<rparr>)" "frame_inputs s (s\<lparr>lvar := l\<rparr>)"
  by (simp_all add: frame_inputs_def on_calc.refl)

named_theorems stay "the statements that leave the bookkeeping of the inputs alone"

lemmas [stay] = on_calc.skip on_calc.throw on_frame.assertion
lemmas [stay] = on_frame.seq on_frame.branch on_frame.loop on_calc.seq on_calc.repeat on_frame.repeat

lemma store_stays: "store d v s = Inr t \<Longrightarrow> frame_inputs s t"
  by (cases d) (auto simp: frame_inputs_def same_inputs_def store.simps arr_write_def bindR_def sigs_def split: if_splits)

lemma op2_stays [stay]: "frame_stays (op2 f i a b)"
  unfolding op2_def by (rule on_frame.lift) (auto simp: bindR_def split: sum.splits)

lemma copyM_stays [stay]: "frame_stays (copyM d a)"
  unfolding copyM_def by (rule on_frame.lift) (auto simp: bindR_def intro: store_stays split: sum.splits)

lemma block_stays [stay]: "list_all frame_stays cs \<Longrightarrow> frame_stays (block d cs a)"
  using on_frame.seq [of "cs @ [copyM _ a]"] copyM_stays
  by (fastforce simp: stays_def block_def split: sum.splits)

lemma load_consts_stays [stay]: "frame_stays (load_consts ps)"
  unfolding load_consts_def load_const_def by (intro on_frame.seq) (simp add: list_all_iff block_stays)

lemma count_loop_stays [stay]: "list_all frame_stays body \<Longrightarrow> list_all frame_stays (count_loop k c1 cn body)"
  by (simp add: count_loop_def stay)

lemma for_loop_stays [stay]: "list_all frame_stays body \<Longrightarrow> list_all frame_stays (for_loop k cn body)"
  by (simp add: for_loop_def stay)

lemma copyn_stays [stay]: "frame_stays (copyn dst src n)"
  unfolding copyn_def by (intro on_frame.repeat copyM_stays)

lemma call_constants_stays [stay]: "frame_stays (call_constants f sz c dst n)"
  by (auto simp: stays_def call_constants_def store_cells_def frame_inputs_def same_inputs_def
      split: sum.splits option.splits if_splits)

lemma on_ctx_stays [stay]: "calc_stays c \<Longrightarrow> frame_stays (on_ctx c)"
  by (auto simp: stays_def on_ctx_def frame_inputs_def split: option.splits sum.splits)

section \<open>Components\<close>

lemma comp_upd_stays: "comp_upd i f c = Inr c' \<Longrightarrow> same_inputs c c'"
  by (auto simp: comp_upd_def same_inputs_def split: if_splits)

lemma create_component_stays [stay]: "calc_stays (create_component tid tn n k so co nm f)"
  unfolding create_component_def by (rule on_calc.lift) (rule comp_upd_stays)

lemma set_sub_stays: "set_sub idx i v c = Inr c' \<Longrightarrow> same_inputs c c'"
  by (auto simp: set_sub_def bindR_def intro: comp_upd_stays split: sum.splits heap_ptr.splits if_splits)

lemma release_stays: "release_memory_component pos c = Inr c' \<Longrightarrow> same_inputs c c'"
  by (auto simp: release_memory_component_def bindR_def on_calc.refl intro: comp_upd_stays split: sum.splits if_splits)

lemma release_subcomponents_stays [stay]: "calc_stays (release_subcomponents n idx)"
  unfolding release_subcomponents_def release_one_def
  by (intro on_calc.repeat on_calc.lift)
    (auto simp: bindR_def on_calc.refl intro: release_stays split: sum.splits heap_ptr.splits if_splits)

lemma run_template_stays [stay]:
  assumes "list_all frame_stays body"
  shows "calc_stays (run_template nexp nlvar nsub body idx)"
proof (rule staysI)
  fix c c' assume "run_template nexp nlvar nsub body idx c = Some (Inr c')"
  then obtain start t where "seqM body \<lparr>f_ctx = c, ctx_index = idx, mySignalStart = start, expaux_size = nexp,
      lvar_size = nlvar, expaux = Map.empty, lvar = Map.empty\<rparr> = Some (Inr t)"
    "release_subcomponents nsub idx (f_ctx t) = Some (Inr c')"
    by (auto simp: run_template_def split: sum.splits option.splits)
  then show "same_inputs c c'"
    using staysD [OF on_frame.seq [OF assms]] staysD [OF release_subcomponents_stays] on_calc.trans
    by (fastforce simp: frame_inputs_def)
qed

text \<open>A creator, and a run function, for every component it may be called for.\<close>

definition creator_stays :: "creator \<Rightarrow> bool" where
  "creator_stays cr \<longleftrightarrow> (\<forall>so co nm f. calc_stays (cr so co nm f))"

definition runner_stays :: "runner \<Rightarrow> bool" where
  "runner_stays r \<longleftrightarrow> (\<forall>idx. calc_stays (r idx))"

lemma creator_component_stays [stay]: "creator_stays (create_component tid tn n k)"
  by (simp add: creator_stays_def create_component_stays)

lemma runner_template_stays [stay]: "list_all frame_stays body \<Longrightarrow> runner_stays (run_template nexp nlvar nsub body)"
  by (simp add: runner_stays_def run_template_stays)

lemma create_at_stays [stay]: "creator_stays cr \<Longrightarrow> frame_stays (create_at cr i so co nm)"
proof (rule staysI)
  fix s t assume cr: "creator_stays cr" and t: "create_at cr i so co nm s = Some (Inr t)"
  have "calc_stays (liftM (set_sub (ctx_index s) i co))" by (rule on_calc.lift) (rule set_sub_stays)
  then have "frame_stays (seqM [on_ctx (cr so co nm (of_nat (ctx_index s))), on_ctx (liftM (set_sub (ctx_index s) i co))])"
    using cr by (simp add: stay creator_stays_def)
  then show "frame_inputs s t" using t by (simp add: create_at_def stays_def)
qed

lemma create_sub_stays [stay]: "creator_stays cr \<Longrightarrow> frame_stays (create_sub cr i so co nm)"
  using create_at_stays [of cr] by (fastforce simp: stays_def create_sub_def)

lemma create_loop_stays: "creator_stays cr \<Longrightarrow> frame_stays (create_loop cr nm dims a ss cs n i so co)"
proof (induction n arbitrary: i so co)
  case 0
  then show ?case by (simp add: on_frame.skip)
next
  case (Suc n)
  show ?case
  proof (rule staysI)
    fix s t assume "create_loop cr nm dims a ss cs (Suc n) i so co s = Some (Inr t)"
    then obtain pos where "seqM [create_at cr (a + i) so co (nm @ pos),
        create_loop cr nm dims a ss cs n (i + 1) (so + of_nat ss) (co + of_nat cs)] s = Some (Inr t)"
      by (auto split: sum.splits)
    moreover have "frame_stays (seqM [create_at cr (a + i) so co (nm @ pos),
        create_loop cr nm dims a ss cs n (i + 1) (so + of_nat ss) (co + of_nat cs)])"
      using Suc by (intro on_frame.seq) (simp add: create_at_stays)
    ultimately show "frame_inputs s t" by (rule staysD [rotated])
  qed
qed

lemma create_array_stays [stay]: "creator_stays cr \<Longrightarrow> frame_stays (create_array cr a so co nm dims n ss cs)"
  using create_loop_stays [of cr] by (fastforce simp: stays_def create_array_def)

lemma create_each_stays [stay]: "list_all creator_stays crs \<Longrightarrow> list_all frame_stays (create_each crs a so st co nm)"
  by (simp add: create_each_def list_all_iff create_sub_stays)

lemma input_arrived_stays: "runner_stays r \<Longrightarrow> calc_stays (input_arrived r j)"
proof (rule staysI)
  fix c c' assume r: "runner_stays r" and c': "input_arrived r j c = Some (Inr c')"
  then obtain n where "seqM [liftM (comp_upd j (\<lambda>c. c\<lparr>inputCounter := Some (n - 1)\<rparr>)),
      (if n - 1 = 0 then r j else skipM)] c = Some (Inr c')"
    by (auto simp: input_arrived_def split: sum.splits)
  moreover have "calc_stays (seqM [liftM (comp_upd j (\<lambda>c. c\<lparr>inputCounter := Some (n - 1)\<rparr>)),
      (if n - 1 = 0 then r j else skipM)])"
    using r by (intro on_calc.seq) (auto simp: runner_stays_def on_calc.skip intro: on_calc.lift comp_upd_stays)
  ultimately show "same_inputs c c'" by (rule staysD [rotated])
qed

lemma sub_input_stays [stay]:
  assumes cs: "list_all frame_stays cs" and r: "runner_stays r"
  shows "frame_stays (sub_input k A cs a r)"
proof (rule staysI)
  have run: "frame_stays (run_sub r i)" for i
    using on_ctx_stays [OF input_arrived_stays [OF r]] by (fastforce simp: stays_def run_sub_def split: sum.splits)
  fix s t assume "sub_input k A cs a r s = Some (Inr t)"
  then obtain i where "seqM [block (to_addr A i) cs a, run_sub r i] s = Some (Inr t)"
    by (auto simp: sub_input_def split: sum.splits)
  moreover have "frame_stays (seqM [block (to_addr A i) cs a, run_sub r i])"
    using cs run by (intro on_frame.seq) (simp add: block_stays)
  ultimately show "frame_inputs s t" by (rule staysD [rotated])
qed

lemma by_table_stays [stay]: "list_all runner_stays ft \<Longrightarrow> runner_stays (by_table ft)"
  by (fastforce simp: runner_stays_def stays_def by_table_def bindR_def of_member_def read_list_def list_all_length
      split: sum.splits option.splits if_splits)

section \<open>The generated functions\<close>

lemma leaf_bodies_stay [stay]:
  "list_all frame_stays sigma_body" "list_all frame_stays (ark_body t tc nc cc rc off)"
  "list_all frame_stays (mix_body t tc ms)" "list_all frame_stays (mixlast_body t tc ms)"
  "list_all frame_stays (mixs_body t tc ms n rc off oc)" "list_all frame_stays multimux_body"
  by (simp_all add: sigma_body_def ark_body_def mix_body_def mixlast_body_def mixs_body_def multimux_body_def
      dot_body_def stay)

lemma leaf_runs_stay:
  "list_all runner_stays ark4_runs" "list_all runner_stays ark3_runs"
  "list_all runner_stays mixs4_runs" "list_all runner_stays mixs3_runs"
  unfolding ark4_runs_map ark3_runs_map mixs4_runs_map mixs3_runs_map list_all_iff
  by (auto intro!: runner_template_stays leaf_bodies_stay)

lemma single_runs_stay [stay]:
  "runner_stays Sigma_1_run" "runner_stays Mix_3_run" "runner_stays Mix_7_run" "runner_stays Mix_72_run"
  "runner_stays Mix_76_run" "runner_stays MixLast_67_run" "runner_stays MixLast_137_run" "runner_stays MultiMux1_140_run"
  by (simp_all add: Sigma_1_run_def Mix_3_run_def Mix_7_run_def Mix_72_run_def Mix_76_run_def MixLast_67_run_def
      MixLast_137_run_def MultiMux1_140_run_def stay)

lemma creators_stay [stay]:
  "list_all creator_stays arks_4" "list_all creator_stays mixes_4" "list_all creator_stays mixSs_4"
  "list_all creator_stays arks_3" "list_all creator_stays mixes_3" "list_all creator_stays mixSs_3"
  "creator_stays Sigma_1_create" "creator_stays MixLast_67_create" "creator_stays MixLast_137_create"
  "creator_stays PoseidonEx_68_create" "creator_stays PoseidonEx_138_create" "creator_stays Poseidon_69_create"
  "creator_stays Poseidon_139_create" "creator_stays MultiMux1_140_create" "creator_stays MerkleProof_141_create"
  "creator_stays Transaction_142_create"
  by (simp_all add: create_defs creator_component_stays arks_4_def mixes_4_def mixSs_4_def arks_3_def mixes_3_def mixSs_3_def)

lemma pex_body_stays [stay]:
  assumes "list_all creator_stays arks" "list_all creator_stays mixes" "list_all creator_stays mixSs"
    "creator_stays ml" "runner_stays ml_run" "list_all runner_stays ft"
  shows "list_all frame_stays (pex_body t np tc npc n arks mixes mixSs ml ml_run ft)"
proof -
  have "list_all frame_stays (pex_create t np arks mixes mixSs ml)"
    using assms by (simp add: pex_create_def stay)
  moreover have "list_all frame_stays (matrix f a t tc)" for f a
    by (simp add: matrix_def stay list.pred_map comp_def list_all_iff)
  then have "list_all frame_stays (pex_locals t np tc npc)"
    by (simp add: pex_locals_def stay)
  moreover have "list_all frame_stays (full_rounds t np tc r0 prev cs k l ft)" if "list_all frame_stays cs" for r0 prev cs k l
    using assms that by (simp add: full_rounds_def full_sigmas_def full_arks_def full_mixes_def stay)
  moreover have "list_all frame_stays (partial_rounds t np tc npc k l ft)" for k l
    using assms by (simp add: partial_rounds_def partial_sigmas_def partial_mixes_def stay)
  ultimately show ?thesis
    using assms by (simp add: pex_body_def pex_inputs_def middle_round_def last_round_def Let_def stay)
qed

lemma composite_runs_stay [stay]:
  assumes "list_all runner_stays ft"
  shows "runner_stays (PoseidonEx_68_run ft)" "runner_stays (PoseidonEx_138_run ft)"
    "runner_stays (Poseidon_69_run ft)" "runner_stays (Poseidon_139_run ft)" "runner_stays (MerkleProof_141_run ft)"
    "runner_stays (Transaction_142_run ft)"
proof -
  show p: "runner_stays (PoseidonEx_68_run ft)" "runner_stays (PoseidonEx_138_run ft)"
    using assms by (simp_all add: PoseidonEx_68_run_def PoseidonEx_138_run_def stay)
  then show q: "runner_stays (Poseidon_69_run ft)" "runner_stays (Poseidon_139_run ft)"
    by (simp_all add: Poseidon_69_run_def Poseidon_139_run_def poseidon_body_def stay)
  then show m: "runner_stays (MerkleProof_141_run ft)"
    by (simp add: MerkleProof_141_run_def merkle_body_def merkle_level_def stay)
  show "runner_stays (Transaction_142_run ft)"
    using q m by (simp add: Transaction_142_run_def transaction_body_def transaction_create_def input_hashes_def
        nullifier_check_def input_path_def root_check_def input_sum_def output_hash_def commitment_check_def
        output_sum_def balance_check_def stay)
qed

lemma table_stays: "list_all runner_stays ft \<Longrightarrow> list_all runner_stays (functionTable_with ft)"
  using leaf_runs_stay by (simp add: functionTable_with_def ark4_runs_def ark3_runs_def mixs4_runs_def mixs3_runs_def stay)

lemma functionTable_stays: "list_all runner_stays functionTable"
proof -
  have "list_all runner_stays (table_to d)" for d
  proof (induction d)
    case 0
    show ?case by (simp add: list_all_iff runner_stays_def stays_def)
  next
    case (Suc d)
    then show ?case by (simp add: table_stays)
  qed
  then show ?thesis by (simp add: functionTable_def)
qed

lemma run_circuit_stays: "calc_stays run_circuit"
  unfolding run_circuit_def using creators_stay(16) composite_runs_stay(6) [OF functionTable_stays]
  by (intro on_calc.seq) (simp add: creator_stays_def runner_stays_def)

lemma run_circuit_keeps_inv: "inputs_inv c \<Longrightarrow> run_circuit c = Some (Inr c') \<Longrightarrow> inputs_inv c'"
  using same_inputs_inv staysD [OF run_circuit_stays] by blast

text \<open>So \<open>run\<close> agrees with any statement that agrees with it on complete inputs.\<close>

lemma run_circuit_agrees: "(\<And>c. inputs_complete c \<Longrightarrow> run c = run_circuit c) \<Longrightarrow> agree_complete run_circuit run"
  using run_circuit_keeps_inv by (simp add: agree_complete_def)

lemma main_program_agrees:
  assumes "agree_complete run run'"
  shows "main_program g number_text run bdata jin = main_program g number_text run' bdata jin"
proof (cases "bindR (loadCircuit bdata) (\<lambda>circuit. Circom_CalcWit_new g circuit 32)")
  case (Inl e)
  then show ?thesis by (simp add: main_program_def)
next
  case (Inr ctx)
  then obtain c where "Circom_CalcWit_new g c 32 = Inr ctx"
    by (auto simp: bindR_def split: sum.splits)
  then have "inputs_inv ctx" by (rule CalcWit_new_inv)
  then show ?thesis using loadJson_agree [OF assms] Inr by (simp add: main_program_def)
qed

end
