(* ===== verification/Fr_Bits.thy ===== *)
theory Fr_Bits
  imports Fr_Field
begin

text \<open>
  The bitwise operations and the shifts of \<open>circuit_cpp/fr.asm\<close>: \<open>Fr_band\<close>, \<open>Fr_bor\<close>, \<open>Fr_bxor\<close>,
  \<open>Fr_bnot\<close>, \<open>Fr_shl\<close> and \<open>Fr_shr\<close>, with the four-limb routines \<open>rawShl\<close> and \<open>rawShr\<close> that they
  call. They work on the 254 bits of the integer below \<open>q\<close> that an element stands for. The result
  is a place of its own; \<open>Fr_Memory\<close> says what \<open>Fr_bnot\<close> does when it is the operand.
\<close>

unbundle bit_operations_syntax

section \<open>Limbs\<close>

text \<open>Limb \<open>i\<close> is the word at byte offset \<open>8 * i\<close>; \<open>limbs\<close> stores four of them.\<close>

fun limb :: "FrRaw \<Rightarrow> nat \<Rightarrow> u64" where
  "limb (FrRaw a b c d) i = [a, b, c, d] ! i"

definition limbs :: "(nat \<Rightarrow> u64) \<Rightarrow> FrRaw" where
  "limbs f = FrRaw (f 0) (f 1) (f 2) (f 3)"

definition lboMask :: u64 where
  "lboMask = 0x3FFFFFFFFFFFFFFF"

text \<open>The top limb is cut to the 62 bits of \<open>lboMask\<close>; the result is reduced by at most one \<open>q\<close>.\<close>

definition cut_top :: "FrRaw \<Rightarrow> FrRaw" where
  "cut_top r = limbs (\<lambda>i. if i = 3 then limb r i AND lboMask else limb r i)"

section \<open>Shifts of four limbs\<close>

text \<open>
  Limb \<open>i\<close> of the result: \<open>w\<close> is the number of whole limbs (\<open>r8\<close>), \<open>b\<close> the number of bits (\<open>cl\<close>),
  not zero; \<open>r9\<close> and \<open>r10\<close> are the masks of the two parts.
\<close>

definition shr_limb :: "FrRaw \<Rightarrow> nat \<Rightarrow> nat \<Rightarrow> nat \<Rightarrow> u64" where
  "shr_limb a w b i =
     (let r9 = push_bit (64 - b) 1 - 1; r10 = NOT r9
      in if w < 3 - i then (drop_bit b (limb a (i + w)) AND r9) OR (push_bit (64 - b) (limb a (i + w + 1)) AND r10)
         else if w = 3 - i then drop_bit b (limb a (i + w)) AND r9
         else 0)"

definition shl_limb :: "FrRaw \<Rightarrow> nat \<Rightarrow> nat \<Rightarrow> nat \<Rightarrow> u64" where
  "shl_limb a w b i =
     (let r10 = push_bit b 1 - 1; r9 = NOT r10
      in if w < i then (push_bit b (limb a (i - w)) AND r9) OR (drop_bit (64 - b) (limb a (i - w - 1)) AND r10)
         else if w = i then push_bit b (limb a (i - w)) AND r9
         else 0)"

definition rawShr :: "FrRaw \<Rightarrow> nat \<Rightarrow> FrRaw" where
  "rawShr a n =
     (if n = 0 then Fr_rawCopy a
      else if 254 \<le> n then Fr_rawZero
      else
        let w = n div 64; b = n mod 64
        in if b = 0 then limbs (\<lambda>i. if w \<le> 3 - i then limb a (i + w) else 0)
           else limbs (shr_limb a w b))"

definition rawShl :: "FrRaw \<Rightarrow> nat \<Rightarrow> FrRaw" where
  "rawShl a n =
     (if n = 0 then Fr_rawCopy a
      else if 254 \<le> n then Fr_rawZero
      else
        let w = n div 64; b = n mod 64
        in if b = 0 then reduce_once (cut_top (limbs (\<lambda>i. if w \<le> i then limb a (i - w) else 0)))
           else reduce_once (cut_top (limbs (shl_limb a w b))))"

section \<open>Bits of the value\<close>

lemma limb_limbs: "i < 4 \<Longrightarrow> limb (limbs f) i = f i"
  by (auto simp: limbs_def less_Suc_eq numeral_eq_Suc)

lemma four_cases: "i < 4 \<Longrightarrow> i = 0 \<or> i = 1 \<or> i = 2 \<or> i = (3 :: nat)"
  by auto

lemma rval_concat:
  "rval (FrRaw a b c d) = concat_bit 64 (uint a) (concat_bit 64 (uint b) (concat_bit 64 (uint c) (uint d)))"
proof -
  have "uint x mod 18446744073709551616 = uint x" for x :: u64 using uint64_bounds [of x] by simp
  then show ?thesis by (simp add: concat_bit_eq take_bit_eq_mod push_bit_eq_mult)
qed

lemma strip_64: "64 * k \<le> m \<Longrightarrow> m < 64 * k + 64 \<Longrightarrow> m div 64 = k \<and> m mod 64 = m - 64 * k" for m k :: nat
  by (simp add: div_nat_eqI minus_mult_div_eq_mod [symmetric])

lemma bit_rval: "bit (rval r) m \<longleftrightarrow> m < 256 \<and> bit (limb r (m div 64)) (m mod 64)"
proof -
  obtain a b c d where r: "r = FrRaw a b c d" by (cases r)
  define k j where "k = m div 64" and "j = m mod 64"
  then have m: "m = 64 * k + j" "j < 64" by simp_all
  have "take_bit 256 (rval r) = rval r" using rval_bounds [of r] by (simp add: take_bit_int_eq_self)
  then have top: "\<not> bit (rval r) n" if "256 \<le> n" for n using that by (metis bit_take_bit_iff not_less)
  consider "k = 0" | "k = 1" | "k = 2" | "k = 3" | "4 \<le> k" by linarith
  then have "bit (rval r) (64 * k + j) \<longleftrightarrow> 64 * k + j < 256 \<and> bit (limb r k) j"
  proof cases
    case 5 then show ?thesis using top [of "64 * k + j"] by auto
  qed (use m(2) in \<open>simp_all add: r rval_concat bit_concat_bit_iff bit_uint_iff del: rval.simps\<close>)
  then show ?thesis unfolding m(1) [symmetric] by (simp add: k_def j_def)
qed

lemma bit_limbs: "bit (rval (limbs f)) m \<longleftrightarrow> m < 256 \<and> bit (f (m div 64)) (m mod 64)"
proof (cases "m < 256")
  case True
  then have "m div 64 < 4" by (simp add: less_mult_imp_div_less)
  then show ?thesis using True by (simp add: bit_rval limb_limbs)
qed (simp add: bit_rval)

lemma lboMask_bits: "bit lboMask i \<longleftrightarrow> i < 62"
proof -
  have "lboMask = mask 62" by (simp add: lboMask_def mask_eq_exp_minus_1)
  show ?thesis unfolding \<open>lboMask = mask 62\<close> by (auto simp: bit_simps)
qed

lemma cut_top_val: "rval (cut_top r) = take_bit 254 (rval r)"
proof (rule bit_eqI)
  fix m :: nat
  have "m < 192 \<Longrightarrow> m div 64 < 3" by (simp add: less_mult_imp_div_less)
  moreover have "192 \<le> m \<Longrightarrow> m < 256 \<Longrightarrow> m div 64 = 3 \<and> m mod 64 = m - 192" using strip_64 [of 3 m] by simp
  ultimately show "bit (rval (cut_top r)) m \<longleftrightarrow> bit (take_bit 254 (rval r)) m"
    by (cases "m < 192"; cases "m < 256") (auto simp: cut_top_def bit_limbs limb_limbs bit_rval bit_take_bit_iff bit_and_iff lboMask_bits)
qed

lemma reduce_cut: "rval (reduce_once (cut_top r)) = take_bit 254 (rval r) mod q_int"
proof -
  have "take_bit 254 (rval r) < 2 ^ 254" by (rule take_bit_int_less_exp)
  then have "rval (cut_top r) < 2 * q_int" by (simp add: cut_top_val q_int_def)
  then show ?thesis by (simp add: reduce_once_mod cut_top_val)
qed

section \<open>Values of the shifts\<close>

lemma ones_mask: "push_bit k 1 - 1 = (mask k :: u64)"
  by (simp add: mask_eq_exp_minus_1)

lemma shr_limb_masks:
  "shr_limb a w b i =
     (if w < 3 - i then (drop_bit b (limb a (i + w)) AND mask (64 - b)) OR
        (push_bit (64 - b) (limb a (i + w + 1)) AND NOT (mask (64 - b)))
      else if w = 3 - i then drop_bit b (limb a (i + w)) AND mask (64 - b) else 0)"
  by (simp only: shr_limb_def Let_def ones_mask)

lemma shl_limb_masks:
  "shl_limb a w b i =
     (if w < i then (push_bit b (limb a (i - w)) AND NOT (mask b)) OR (drop_bit (64 - b) (limb a (i - w - 1)) AND mask b)
      else if w = i then push_bit b (limb a (i - w)) AND NOT (mask b) else 0)"
  by (simp only: shl_limb_def Let_def ones_mask)

lemma bit_at: "i < 4 \<Longrightarrow> j < 64 \<Longrightarrow> bit (rval a) (64 * i + j) \<longleftrightarrow> bit (limb a i) j"
  by (simp add: bit_rval)

lemma bit_past: "4 \<le> i \<Longrightarrow> \<not> bit (rval a) (64 * i + j)"
  by (simp add: bit_rval)

lemma shr_limb_bit:
  assumes "i < 4" "j < 64" "0 < b" "b < 64"
  shows "bit (shr_limb a w b i) j \<longleftrightarrow> bit (rval a) (64 * i + j + (64 * w + b))"
proof (cases "j + b < 64")
  case True
  have e: "64 * i + j + (64 * w + b) = 64 * (i + w) + (b + j)" by simp
  show ?thesis
    unfolding e using True assms bit_at [of "i + w" "b + j" a] bit_past [of "i + w" a "b + j"]
    by (auto simp: shr_limb_masks bit_simps not_less)
next
  case False
  have e: "64 * i + j + (64 * w + b) = 64 * (i + w + 1) + (j + b - 64)" using False by simp
  show ?thesis
    unfolding e using False assms bit_at [of "i + w + 1" "j + b - 64" a] bit_past [of "i + w + 1" a "j + b - 64"]
    by (auto simp: shr_limb_masks bit_simps not_less)
qed

lemma shl_limb_bit:
  assumes "i < 4" "j < 64" "0 < b" "b < 64"
  shows "bit (shl_limb a w b i) j \<longleftrightarrow> 64 * w + b \<le> 64 * i + j \<and> bit (rval a) (64 * i + j - (64 * w + b))"
proof (cases "b \<le> j")
  case True
  have "64 * w + b \<le> 64 * i + j \<longleftrightarrow> w \<le> i" using True assms by auto
  moreover have "64 * i + j - (64 * w + b) = 64 * (i - w) + (j - b)" if "w \<le> i" using that True by simp
  ultimately show ?thesis
    using True assms bit_at [of "i - w" "j - b" a] by (auto simp: shl_limb_masks bit_simps not_less)
next
  case False
  have "64 * w + b \<le> 64 * i + j \<longleftrightarrow> w < i" using False assms by auto
  moreover have "64 * i + j - (64 * w + b) = 64 * (i - w - 1) + (64 + j - b)" if "w < i" using that False assms by simp
  ultimately show ?thesis
    using False assms bit_at [of "i - w - 1" "64 + j - b" a] by (auto simp: shl_limb_masks bit_simps not_less)
qed

lemma div_mod_64: "64 * (m div 64) + m mod 64 = m" for m :: nat
  by simp

lemma rawShr_val:
  assumes "n < 254"
  shows "rval (rawShr a n) = drop_bit n (rval a)"
proof (cases "n = 0")
  case False
  define w b where "w = n div 64" and "b = n mod 64"
  then have n: "n = 64 * w + b" "b < 64" by simp_all
  show ?thesis
  proof (rule bit_eqI)
    fix m :: nat
    define i j where "i = m div 64" and "j = m mod 64"
    then have m: "m = 64 * i + j" "j < 64" by simp_all
    have i: "m < 256 \<longleftrightarrow> i < 4" using m by auto
    have d: "bit (drop_bit n (rval a)) m \<longleftrightarrow> bit (rval a) (m + n)" by (simp add: bit_drop_bit_eq add.commute)
    have out: "\<not> bit (rval a) (m + n)" if "\<not> i < 4" using that i by (simp add: bit_rval)
    show "bit (rval (rawShr a n)) m \<longleftrightarrow> bit (drop_bit n (rval a)) m"
    proof (cases "b = 0")
      case True
      then have r: "rawShr a n = limbs (\<lambda>i. if w \<le> 3 - i then limb a (i + w) else 0)"
        using False assms unfolding rawShr_def Let_def w_def [symmetric] b_def [symmetric] by simp
      have e: "m + n = 64 * (i + w) + j" using m n True by simp
      show ?thesis
        using m(2) i bit_at [of "i + w" j a] bit_past [of "i + w" a j]
        unfolding d r e bit_limbs i_def [symmetric] j_def [symmetric] by (cases "i < 4") auto
    next
      case nz: False
      then have r: "rawShr a n = limbs (shr_limb a w b)"
        using False assms by (simp add: rawShr_def w_def b_def Let_def)
      have e: "m + n = 64 * i + j + (64 * w + b)" using m n by simp
      show ?thesis
        using m(2) i n(2) nz out shr_limb_bit [of i j b a w]
        unfolding d r bit_limbs i_def [symmetric] j_def [symmetric] e by auto
    qed
  qed
qed (simp add: rawShr_def Fr_rawCopy_def)

lemma rawShl_val:
  assumes "n < 254" "rval a < q_int"
  shows "rval (rawShl a n) = take_bit 254 (push_bit n (rval a)) mod q_int"
proof (cases "n = 0")
  case True
  have "take_bit 254 (rval a) = rval a"
    using assms(2) rval_bounds [of a] by (intro take_bit_int_eq_self) (simp_all add: q_int_def)
  then show ?thesis using True assms(2) rval_bounds [of a] by (simp add: rawShl_def Fr_rawCopy_def)
next
  case False
  define w b where "w = n div 64" and "b = n mod 64"
  then have n: "n = 64 * w + b" "b < 64" by simp_all
  define f where "f = (if b = 0 then \<lambda>i. if w \<le> i then limb a (i - w) else 0 else shl_limb a w b)"
  have r: "rawShl a n = reduce_once (cut_top (limbs f))"
    using False assms unfolding rawShl_def f_def Let_def w_def [symmetric] b_def [symmetric] by simp
  have "take_bit 254 (rval (limbs f)) = take_bit 254 (push_bit n (rval a))"
  proof (rule bit_eqI)
    fix m :: nat
    define i j where "i = m div 64" and "j = m mod 64"
    then have m: "m = 64 * i + j" "j < 64" by simp_all
    have d: "bit (push_bit n (rval a)) m \<longleftrightarrow> n \<le> m \<and> bit (rval a) (m - n)" by (simp add: bit_push_bit_iff)
    have "bit (rval (limbs f)) m \<longleftrightarrow> bit (push_bit n (rval a)) m" if "m < 254"
    proof (cases "b = 0")
      case True
      have i: "i < 4" using m that by simp
      have "n \<le> m \<longleftrightarrow> w \<le> i" "w \<le> i \<Longrightarrow> m - n = 64 * (i - w) + j" using m n True by auto
      then show ?thesis
        using that i m(2) True bit_at [of "i - w" j a]
        unfolding d bit_limbs i_def [symmetric] j_def [symmetric] f_def by auto
    next
      case nz: False
      have i: "i < 4" using m that by simp
      show ?thesis
        using that i m(2) n(2) nz shl_limb_bit [of i j b a w]
        unfolding d bit_limbs i_def [symmetric] j_def [symmetric] f_def by (simp add: m(1) n(1))
    qed
    then show "bit (take_bit 254 (rval (limbs f))) m \<longleftrightarrow> bit (take_bit 254 (push_bit n (rval a))) m"
      by (auto simp: bit_take_bit_iff)
  qed
  then show ?thesis by (simp add: r reduce_cut)
qed

section \<open>Bitwise operations\<close>

text \<open>The three operations have the same text but for the instruction.\<close>

datatype bitop = BAND | BOR | BXOR

fun bits_op :: "bitop \<Rightarrow> 'a :: semiring_bit_operations \<Rightarrow> 'a \<Rightarrow> 'a" where
  "bits_op BAND x y = x AND y"
| "bits_op BOR x y = x OR y"
| "bits_op BXOR x y = x XOR y"

definition bits_l1l2 :: "bitop \<Rightarrow> FrRaw \<Rightarrow> FrRaw \<Rightarrow> FrElement" where
  "bits_l1l2 f a b = Fr_LONG (reduce_once (cut_top (limbs (\<lambda>i. bits_op f (limb a i) (limb b i)))))"

text \<open>A short operand that is not negative is read as one limb; a negative one is made long first.\<close>

definition bits_l1ns2 :: "bitop \<Rightarrow> FrRaw \<Rightarrow> 32 word \<Rightarrow> FrElement" where
  "bits_l1ns2 f l s =
     (if sint s < 0 then bits_l1l2 f l (longVal (Fr_toLongNormal (Fr_SHORT s)))
      else Fr_LONG (reduce_once (cut_top (limbs (\<lambda>i. bits_op f (if i = 0 then movsx s else 0) (limb l i))))))"

definition bits_s1l2n :: "bitop \<Rightarrow> 32 word \<Rightarrow> FrRaw \<Rightarrow> FrElement" where
  "bits_s1l2n f s l =
     (if sint s < 0 then bits_l1l2 f (longVal (Fr_toLongNormal (Fr_SHORT s))) l
      else Fr_LONG (reduce_once (cut_top (limbs (\<lambda>i. bits_op f (if i = 0 then ucast s else 0) (limb l i))))))"

definition bits_s1s2 :: "bitop \<Rightarrow> 32 word \<Rightarrow> 32 word \<Rightarrow> FrElement" where
  "bits_s1s2 f s t =
     (if 0 \<le> sint s \<and> 0 \<le> sint t then Fr_SHORT (bits_op f s t)
      else bits_l1l2 f (longVal (Fr_toLongNormal (Fr_SHORT s))) (longVal (Fr_toLongNormal (Fr_SHORT t))))"

definition bits_element :: "bitop \<Rightarrow> FrElement \<Rightarrow> FrElement \<Rightarrow> FrElement" where
  "bits_element f a b =
     (case (shortVal a, shortVal b) of
        (Some s, Some t) \<Rightarrow> bits_s1s2 f s t
      | (None, Some t) \<Rightarrow> bits_l1ns2 f (longVal (Fr_toNormal a)) t
      | (Some s, None) \<Rightarrow> bits_s1l2n f s (longVal (Fr_toNormal b))
      | (None, None) \<Rightarrow> bits_l1l2 f (longVal (Fr_toNormal a)) (longVal (Fr_toNormal b)))"

definition Fr_band :: "FrElement \<Rightarrow> FrElement \<Rightarrow> FrElement" where "Fr_band = bits_element BAND"

definition Fr_bor :: "FrElement \<Rightarrow> FrElement \<Rightarrow> FrElement" where "Fr_bor = bits_element BOR"

definition Fr_bxor :: "FrElement \<Rightarrow> FrElement \<Rightarrow> FrElement" where "Fr_bxor = bits_element BXOR"

definition bnot_raw :: "FrRaw \<Rightarrow> FrRaw" where
  "bnot_raw l = reduce_once (cut_top (limbs (\<lambda>i. NOT (limb l i))))"

definition Fr_bnot :: "FrElement \<Rightarrow> FrElement" where
  "Fr_bnot a =
     Fr_LONG (bnot_raw (longVal (if shortVal a \<noteq> None then Fr_toLongNormal a else Fr_toNormal a)))"

lemma bits_limbs_val: "rval (limbs (\<lambda>i. bits_op f (limb a i) (limb b i))) = bits_op f (rval a) (rval b)"
  by (rule bit_eqI, unfold bit_limbs, cases f) (auto simp: bit_rval bit_simps)

lemma bits_take: "take_bit n (bits_op f x y) = bits_op f (take_bit n x) (take_bit n y)" for x y :: int
  by (cases f) simp_all

lemma bits_bounds:
  assumes "0 \<le> x" "x < 2 ^ n" "0 \<le> y" "y < 2 ^ n"
  shows "0 \<le> bits_op f x y" "bits_op f x y < (2 ^ n :: int)"
proof -
  have "bits_op f x y = take_bit n (bits_op f x y)" using assms by (simp add: bits_take take_bit_int_eq_self)
  then show "0 \<le> bits_op f x y" "bits_op f x y < 2 ^ n"
    using take_bit_nonnegative [of n "bits_op f x y"] take_bit_int_less_exp [of n "bits_op f x y"] by simp_all
qed

text \<open>The value of an operation on two integers below \<open>q\<close>.\<close>

definition bits_val :: "bitop \<Rightarrow> int \<Rightarrow> int \<Rightarrow> int" where
  "bits_val f x y = bits_op f x y mod q_int"

lemma below_254: "0 \<le> x \<Longrightarrow> x < q_int \<Longrightarrow> x < 2 ^ 254"
  by (simp add: q_int_def)

lemma raw_result:
  assumes "rval r = v" "0 \<le> v" "v < 2 ^ 254"
  shows "fok (Fr_LONG (reduce_once (cut_top r))) \<and> fval (Fr_LONG (reduce_once (cut_top r))) = v mod q_int"
  using assms reduce_cut [of r] by (simp add: take_bit_int_eq_self)

lemma bits_l1l2_val:
  assumes "rval a < q_int" "rval b < q_int"
  shows "fok (bits_l1l2 f a b) \<and> fval (bits_l1l2 f a b) = bits_val f (rval a) (rval b)"
  unfolding bits_l1l2_def bits_val_def
  by (rule raw_result) (use assms rval_bounds bits_bounds [of _ 254] below_254 bits_limbs_val in auto)

lemma one_limb: "limbs (\<lambda>i. bits_op f (if i = 0 then x else 0) (limb l i)) =
    limbs (\<lambda>i. bits_op f (limb (FrRaw x 0 0 0) i) (limb l i))"
  by (simp add: limbs_def)

lemma short_limb:
  assumes "0 \<le> sint s"
  shows "uint (movsx s) = sint s" "uint (ucast s :: u64) = sint (s :: 32 word)" "sint s < q_int"
proof -
  show "uint (movsx s) = sint s" by (rule uint_movsx [OF assms])
  have "uint s = sint s"
    using assms sint32_bounds' [of s] by (simp add: uint_sint take_bit_int_eq_self)
  then show "uint (ucast s :: u64) = sint s"
    using sint32_bounds' [of s] assms by (simp add: unsigned_ucast_eq take_bit_int_eq_self)
  show "sint s < q_int" using sint32_bounds' [of s] by (simp add: q_int_def)
qed

text \<open>The three operations are those of the integers, modulo \<open>q\<close>, in every representation.\<close>

lemma sint_bits_op: "sint (bits_op f s t) = bits_op f (sint s) (sint t)" for s t :: "32 word"
  by (cases f) (simp_all add: signed_and_eq signed_or_eq signed_xor_eq)

lemma bits_s1s2_val: "fok (bits_s1s2 f s t) \<and> fval (bits_s1s2 f s t) = bits_val f (sint s mod q_int) (sint t mod q_int)"
proof (cases "0 \<le> sint s \<and> 0 \<le> sint t")
  case True
  then have "sint s mod q_int = sint s" "sint t mod q_int = sint t" using short_limb(3) by simp_all
  then show ?thesis using True by (simp add: bits_s1s2_def bits_val_def sint_bits_op)
next
  case False
  then have "bits_s1s2 f s t =
      bits_l1l2 f (longVal (Fr_toLongNormal (Fr_SHORT s))) (longVal (Fr_toLongNormal (Fr_SHORT t)))"
    unfolding bits_s1s2_def by (rule if_not_P)
  then show ?thesis
    using bits_l1l2_val [of "longVal (Fr_toLongNormal (Fr_SHORT s))" "longVal (Fr_toLongNormal (Fr_SHORT t))" f]
      longVal_toLongNormal [of "Fr_SHORT s"] longVal_toLongNormal [of "Fr_SHORT t"]
      toLongNormal_val(1) [of "Fr_SHORT s"] toLongNormal_val(1) [of "Fr_SHORT t"]
    by simp
qed

lemma bits_mixed_val:
  assumes "rval l < q_int"
  shows "fok (bits_l1ns2 f l s) \<and> fval (bits_l1ns2 f l s) = bits_val f (rval l) (sint s mod q_int)"
    and "fok (bits_s1l2n f s l) \<and> fval (bits_s1l2n f s l) = bits_val f (sint s mod q_int) (rval l)"
proof -
  have comm: "bits_op f x y = bits_op f y x" for x y :: int by (cases f) (simp_all add: ac_simps)
  have long: "rval (longVal (Fr_toLongNormal (Fr_SHORT s))) = sint s mod q_int"
      "rval (longVal (Fr_toLongNormal (Fr_SHORT s))) < q_int"
    using longVal_toLongNormal [of "Fr_SHORT s"] toLongNormal_val(1) [of "Fr_SHORT s"] by simp_all
  have pos: "fok (Fr_LONG (reduce_once (cut_top (limbs (\<lambda>i. bits_op f (if i = 0 then x else 0) (limb l i)))))) \<and>
      fval (Fr_LONG (reduce_once (cut_top (limbs (\<lambda>i. bits_op f (if i = 0 then x else 0) (limb l i)))))) =
      bits_val f (sint s mod q_int) (rval l)" if "uint x = sint s" "0 \<le> sint s" for x :: u64
    using bits_l1l2_val [of "FrRaw x 0 0 0" l f] that assms short_limb(3) [OF that(2)]
    unfolding one_limb bits_l1l2_def by (simp only: rval_limb) simp
  show "fok (bits_l1ns2 f l s) \<and> fval (bits_l1ns2 f l s) = bits_val f (rval l) (sint s mod q_int)"
    using bits_l1l2_val [OF assms long(2)] pos [of "movsx s"] short_limb(1) [of s] long(1) comm
    by (simp add: bits_l1ns2_def bits_val_def)
  show "fok (bits_s1l2n f s l) \<and> fval (bits_s1l2n f s l) = bits_val f (sint s mod q_int) (rval l)"
    using bits_l1l2_val [OF long(2) assms] pos [of "ucast s"] short_limb(2) [of s] long(1)
    by (simp add: bits_s1l2n_def)
qed

lemma long_operand:
  assumes "fok a" "shortVal a = None"
  shows "rval (longVal (Fr_toNormal a)) = fval a" "rval (longVal (Fr_toNormal a)) < q_int"
  using assms Fr_toNormal_denotes [of a] rval_bounds by (cases a; simp add: denotes_def Fr_rawFromMontgomery_mod del: rval.simps)+

lemma bits_element_val:
  assumes "fok a" "fok b"
  shows "fok (bits_element f a b) \<and> fval (bits_element f a b) = bits_val f (fval a) (fval b)"
proof (cases "shortVal a")
  case None
  note a = long_operand [OF assms(1) None]
  show ?thesis
  proof (cases "shortVal b")
    case n: None
    show ?thesis using bits_l1l2_val [OF a(2) long_operand(2) [OF assms(2) n]] a(1) long_operand(1) [OF assms(2) n] None n
      by (simp add: bits_element_def)
  next
    case (Some t)
    then show ?thesis using bits_mixed_val(1) [OF a(2)] a(1) None by (simp add: bits_element_def fval_short)
  qed
next
  case s: (Some s)
  show ?thesis
  proof (cases "shortVal b")
    case None
    then show ?thesis
      using bits_mixed_val(2) [OF long_operand(2) [OF assms(2) None]] long_operand(1) [OF assms(2) None] s
      by (simp add: bits_element_def fval_short)
  next
    case (Some t)
    then show ?thesis using bits_s1s2_val [of f s t] s by (simp add: bits_element_def fval_short)
  qed
qed

lemma bnot_raw_val:
  assumes "rval l < q_int"
  shows "rval (bnot_raw l) = (2 ^ 254 - 1 - rval l) mod q_int"
proof -
  have "take_bit 254 (rval (limbs (\<lambda>i. NOT (limb l i)))) = take_bit 254 (NOT (rval l))"
    by (rule bit_eqI, unfold bit_take_bit_iff bit_limbs) (auto simp: bit_rval bit_not_iff possible_bit_def)
  also have "\<dots> = 2 ^ 254 - 1 - rval l"
    using assms rval_bounds [of l] below_254 [of "rval l"]
    by (simp add: take_bit_not_eq_mask_diff mask_eq_exp_minus_1 take_bit_int_eq_self)
  finally show ?thesis by (simp add: bnot_raw_def reduce_cut)
qed

lemma Fr_bnot_val:
  assumes "fok a"
  shows "fok (Fr_bnot a) \<and> fval (Fr_bnot a) = (2 ^ 254 - 1 - fval a) mod q_int"
proof (cases "shortVal a")
  case None
  then show ?thesis
    using bnot_raw_val [OF long_operand(2) [OF assms None]] long_operand(1) [OF assms None] by (simp add: Fr_bnot_def)
next
  case (Some s)
  then show ?thesis
    using bnot_raw_val [OF longVal_toLongNormal [OF assms]] toLongNormal_val(1) [OF assms] by (simp add: Fr_bnot_def)
qed

section \<open>Shifts of elements\<close>

definition do_shl :: "FrElement \<Rightarrow> nat \<Rightarrow> FrElement" where
  "do_shl a n =
     (case shortVal a of
        Some s \<Rightarrow>
          if s = 0 then Fr_SHORT 0
          else
            let r = push_bit n (movsx s)
            in if sint s < 0 \<or> 31 \<le> n \<or> drop_bit 31 r \<noteq> 0 then Fr_LONG (rawShl (longVal (Fr_toLongNormal a)) n)
               else Fr_SHORT (ucast r)
      | None \<Rightarrow> Fr_LONG (rawShl (longVal (Fr_toNormal a)) n))"

definition do_shr :: "FrElement \<Rightarrow> nat \<Rightarrow> FrElement" where
  "do_shr a n =
     (case shortVal a of
        Some s \<Rightarrow>
          if s = 0 then Fr_SHORT 0
          else if sint s < 0 then Fr_LONG (rawShr (longVal (Fr_toLongNormal a)) n)
          else if 31 \<le> n then Fr_SHORT 0
          else Fr_SHORT (ucast (drop_bit n (movsx s)))
      | None \<Rightarrow> Fr_LONG (rawShr (longVal (Fr_toNormal a)) n))"

text \<open>
  The amount: a short one or a long one below 254 shifts in the direction of the operation, the
  negative of one below 254 in the other direction, and any other amount gives zero. \<open>forth\<close> and
  \<open>back\<close> are the two directions.
\<close>

definition shift_by :: "(nat \<Rightarrow> FrElement) \<Rightarrow> (nat \<Rightarrow> FrElement) \<Rightarrow> FrElement \<Rightarrow> FrElement" where
  "shift_by forth back b =
     (case shortVal b of
        Some s \<Rightarrow>
          if 0 \<le> sint s then if 254 \<le> unat s then Fr_SHORT 0 else forth (unat s)
          else if 254 \<le> unat (- s) then Fr_SHORT 0 else back (unat (- s))
      | None \<Rightarrow>
          let l = longVal (Fr_toNormal b); rcx = limb Fr_rawq 0 - limb l 0; d = fst (sub4 Fr_rawq l)
          in if limb l 0 < 254 \<and> limb l 1 = 0 \<and> limb l 2 = 0 \<and> limb l 3 = 0 then forth (unat (limb l 0))
             else if 254 \<le> rcx then Fr_SHORT 0
             else if limb d 1 \<noteq> 0 \<or> limb d 2 \<noteq> 0 \<or> limb d 3 \<noteq> 0 then Fr_SHORT 0
             else back (unat rcx))"

definition Fr_shr :: "FrElement \<Rightarrow> FrElement \<Rightarrow> FrElement" where
  "Fr_shr a b = shift_by (do_shr a) (do_shl a) b"

definition Fr_shl :: "FrElement \<Rightarrow> FrElement \<Rightarrow> FrElement" where
  "Fr_shl a b = shift_by (do_shl a) (do_shr a) b"

text \<open>The shifts of the integer below \<open>q\<close>, on 254 bits.\<close>

definition shl_val :: "int \<Rightarrow> nat \<Rightarrow> int" where "shl_val v n = take_bit 254 (push_bit n v) mod q_int"

definition shr_val :: "int \<Rightarrow> nat \<Rightarrow> int" where "shr_val v n = drop_bit n v"

definition shift_val :: "(int \<Rightarrow> nat \<Rightarrow> int) \<Rightarrow> (int \<Rightarrow> nat \<Rightarrow> int) \<Rightarrow> int \<Rightarrow> int \<Rightarrow> int" where
  "shift_val forth back v n =
     (if n < 254 then forth v (nat n) else if q_int - n < 254 then back v (nat (q_int - n)) else 0)"

lemma drop_bit_range: "0 \<le> v \<Longrightarrow> v < q_int \<Longrightarrow> 0 \<le> drop_bit n v \<and> drop_bit n v < q_int"
  using zdiv_mono2 [of v 1 "2 ^ n"] by (simp add: drop_bit_eq_div pos_imp_zdiv_nonneg_iff)

lemma small_raw:
  "rval r < 254 \<longleftrightarrow> limb r 0 < 254 \<and> limb r 1 = 0 \<and> limb r 2 = 0 \<and> limb r 3 = 0"
  "rval r < 254 \<Longrightarrow> rval r = int (unat (limb r 0))"
proof -
  obtain a b c d where r: "r = FrRaw a b c d" by (cases r)
  have u: "(x :: u64) = 0 \<longleftrightarrow> uint x = 0" "(x :: u64) < 254 \<longleftrightarrow> uint x < 254" "0 \<le> uint x" for x
    by (simp_all add: word_less_def uint_0_iff)
  have top: "x + 18446744073709551616 * y < 254 \<longleftrightarrow> x < 254 \<and> y = 0" if "0 \<le> x" "0 \<le> y" for x y :: int
    using that by (cases "y = 0") (simp, linarith)
  have "rval r = uint a + 18446744073709551616 * (uint b + 18446744073709551616 * (uint c + 18446744073709551616 * uint d))"
    by (simp add: r)
  then have "rval r < 254 \<longleftrightarrow> uint a < 254 \<and> uint b + 18446744073709551616 * (uint c + 18446744073709551616 * uint d) = 0"
    by (simp only: top u(3) add_nonneg_nonneg mult_nonneg_nonneg zero_le_numeral)
  also have "\<dots> \<longleftrightarrow> uint a < 254 \<and> uint b = 0 \<and> uint c = 0 \<and> uint d = 0"
    by (simp add: add_nonneg_eq_0_iff)
  finally have "rval r < 254 \<longleftrightarrow> uint a < 254 \<and> uint b = 0 \<and> uint c = 0 \<and> uint d = 0" .
  then show eq: "rval r < 254 \<longleftrightarrow> limb r 0 < 254 \<and> limb r 1 = 0 \<and> limb r 2 = 0 \<and> limb r 3 = 0"
    by (simp add: r u(1,2))
  show "rval r < 254 \<Longrightarrow> rval r = int (unat (limb r 0))" using eq by (simp add: r)
qed

lemma sbb_low: "fst (sbb x y False) = x - y"
  by (simp add: sbb_def)

lemma limb_sub4_0: "limb (fst (sub4 a b)) 0 = limb a 0 - limb b 0"
  by (cases a; cases b) (simp add: Let_def split_beta sbb_low)

lemma short_amount:
  assumes "0 \<le> sint s"
  shows "int (unat s) = sint (s :: 32 word)"
  using assms sint32_bounds' [of s] by (simp add: uint_sint take_bit_int_eq_self)

lemma short_amount_neg:
  assumes "sint s < 0"
  shows "int (unat (- s)) = - sint (s :: 32 word)"
proof -
  have "uint s = sint s + 2 ^ 32"
    using assms sint32_bounds' [of s] mod_pos_pos_trivial [of "sint s + 2 ^ 32" "2 ^ 32"]
    by (simp add: uint_sint take_bit_eq_mod)
  then have "uint (- s) = (- sint s - 2 ^ 32) mod 2 ^ 32" by (simp only: uint_word_ariths(4) len_bit0 len_num1) simp
  also have "\<dots> = - sint s" using assms sint32_bounds' [of s] mod_pos_pos_trivial [of "- sint s" "2 ^ 32"]
    by (simp add: mod_diff_eq [symmetric, of _ "2 ^ 32"])
  finally show ?thesis by simp
qed

lemma sint_less_2_64: "sint s < 18446744073709551616" for s :: "32 word"
  using sint32_bounds' [of s] by simp

lemma sint_ucast_small:
  assumes "uint (x :: u64) < 2 ^ 31"
  shows "sint (ucast x :: 32 word) = uint x"
proof -
  have "uint (ucast x :: 32 word) = uint x"
    using assms by (simp add: unsigned_ucast_eq take_bit_int_eq_self)
  then show ?thesis using assms by (simp add: sint_uint signed_take_bit_eq_if_positive bit_iff_odd take_bit_int_eq_self)
qed

lemma shl_long:
  assumes "rval l = v" "v < q_int" "n < 254"
  shows "fok (Fr_LONG (rawShl l n)) \<and> fval (Fr_LONG (rawShl l n)) = shl_val v n"
  using rawShl_val [OF assms(3), of l] assms by (simp add: shl_val_def)

lemma shr_long:
  assumes "rval l = v" "v < q_int" "n < 254"
  shows "fok (Fr_LONG (rawShr l n)) \<and> fval (Fr_LONG (rawShr l n)) = shr_val v n"
  using rawShr_val [OF assms(3), of l] assms drop_bit_range [of v n] rval_bounds [of l] by (simp add: shr_val_def)

lemma shift_zero: "shl_val 0 n = 0" "shr_val 0 n = 0"
  by (simp_all add: shl_val_def shr_val_def)

lemma do_shr_val:
  assumes "fok a" "n < 254"
  shows "fok (do_shr a n) \<and> fval (do_shr a n) = shr_val (fval a) n"
proof (cases "shortVal a")
  case None
  then show ?thesis using shr_long [OF _ _ assms(2)] long_operand [OF assms(1) None] by (simp add: do_shr_def)
next
  case (Some s)
  note l = shr_long [OF toLongNormal_val(1) [OF assms(1)] fval_bounds(2) assms(2)]
  show ?thesis
  proof (cases "s = 0 \<or> sint s < 0")
    case True
    then show ?thesis using l Some fval_short [OF Some] by (auto simp: do_shr_def shift_zero)
  next
    case False
    then have s: "0 \<le> sint s" "sint s < 2147483648" "fval a = sint s"
      using fval_short [OF Some] short_limb(3) [of s] sint32_bounds' [of s] by simp_all
    have d: "0 \<le> drop_bit n (sint s)" "drop_bit n (sint s) \<le> sint s"
      using zdiv_mono2 [of "sint s" 1 "2 ^ n"] s(1) by (simp_all add: drop_bit_eq_div pos_imp_zdiv_nonneg_iff)
    have "uint (drop_bit n (movsx s)) = drop_bit n (sint s)"
      using short_limb(1) [OF s(1)] by (simp add: unsigned_drop_bit_eq take_bit_int_eq_self s(1) sint_less_2_64)
    then have f: "sint (ucast (drop_bit n (movsx s)) :: 32 word) = drop_bit n (sint s)"
      using d s(2) by (subst sint_ucast_small) simp_all
    have big: "drop_bit n (sint s) = 0" if "31 \<le> n"
    proof -
      have "(2 :: int) ^ 31 \<le> 2 ^ n" using that by (rule power_increasing) simp
      then show ?thesis using s by (simp add: drop_bit_eq_div)
    qed
    show ?thesis using False Some f big d s short_limb(3) [OF s(1)] by (auto simp: do_shr_def shr_val_def)
  qed
qed

lemma do_shl_val:
  assumes "fok a" "n < 254"
  shows "fok (do_shl a n) \<and> fval (do_shl a n) = shl_val (fval a) n"
proof (cases "shortVal a")
  case None
  then show ?thesis using shl_long [OF _ _ assms(2)] long_operand [OF assms(1) None] by (simp add: do_shl_def)
next
  case (Some s)
  note l = shl_long [OF toLongNormal_val(1) [OF assms(1)] fval_bounds(2) assms(2)]
  define r where "r = push_bit n (movsx s)"
  show ?thesis
  proof (cases "s = 0 \<or> sint s < 0 \<or> 31 \<le> n \<or> drop_bit 31 r \<noteq> 0")
    case True
    then show ?thesis using l Some fval_short [OF Some] by (auto simp: do_shl_def shift_zero r_def Let_def)
  next
    case False
    then have s: "0 \<le> sint s" "sint s < 2147483648" "fval a = sint s" "n < 31"
      using fval_short [OF Some] short_limb(3) [of s] sint32_bounds' [of s] by simp_all
    have "(2 :: int) ^ n \<le> 2 ^ 31" using s(4) by (intro power_increasing) simp_all
    then have "sint s * 2 ^ n \<le> 2147483647 * 2 ^ 31" using s by (intro mult_mono) simp_all
    then have p: "0 \<le> sint s * 2 ^ n" "sint s * 2 ^ n < 2 ^ 31 * 2 ^ 31" using s by simp_all
    have "uint r = take_bit 64 (push_bit n (uint (movsx s)))" by (simp add: r_def unsigned_push_bit_eq)
    then have u: "uint r = sint s * 2 ^ n"
      using p unfolding short_limb(1) [OF s(1)] by (simp add: push_bit_eq_mult take_bit_int_eq_self)
    have "uint (drop_bit 31 r) = drop_bit 31 (uint r)" by (simp add: unsigned_drop_bit_eq bintr_uint)
    then have "drop_bit 31 (uint r) = 0" using False by simp
    then have "uint r < 2 ^ 31" using p u by (simp add: drop_bit_eq_div div_eq_0_iff)
    then have f: "sint (ucast r :: 32 word) = sint s * 2 ^ n" "sint s * 2 ^ n < 2 ^ 31"
      using sint_ucast_small u by simp_all
    have "shl_val (fval a) n = sint s * 2 ^ n"
      using p f s(3) by (simp add: shl_val_def push_bit_eq_mult take_bit_int_eq_self q_int_def)
    then show ?thesis using False Some f p by (auto simp: do_shl_def r_def Let_def q_int_def)
  qed
qed

text \<open>
  The two shifts: the amount is the integer of the second operand, in every representation, and
  \<open>q - n\<close> below 254 is \<open>n\<close> places in the other direction.
\<close>

lemma shift_by_val:
  assumes "fok b"
    and forward: "\<And>n. n < 254 \<Longrightarrow> fok (forth n) \<and> fval (forth n) = F v n"
    and backward: "\<And>n. n < 254 \<Longrightarrow> fok (back n) \<and> fval (back n) = G v n"
  shows "fok (shift_by forth back b) \<and> fval (shift_by forth back b) = shift_val F G v (fval b)"
proof (cases "shortVal b")
  case (Some s)
  show ?thesis
  proof (cases "0 \<le> sint s")
    case True
    then have f: "fval b = int (unat s)" "int (unat s) < 2147483648"
      using fval_short [OF Some] short_amount short_limb(3) sint32_bounds' [of s] by simp_all
    show ?thesis using Some True forward [of "unat s"] f(2)
      unfolding shift_by_def shift_val_def f(1) by (auto simp: q_int_def simp del: of_nat_unat)
  next
    case False
    then have m: "int (unat (- s)) = - sint s" "sint s < 0" using short_amount_neg [of s] by simp_all
    then have f: "fval b = q_int - int (unat (- s))" "int (unat (- s)) \<le> 2147483648"
      using fval_short [OF Some] sint32_bounds' [of s] mod_pos_pos_trivial [of "sint s + q_int" q_int]
      by (simp_all add: q_int_def)
    show ?thesis using Some False backward [of "unat (- s)"] f(2)
      unfolding shift_by_def shift_val_def f(1) by (auto simp: q_int_def simp del: of_nat_unat)
  qed
next
  case None
  define l where "l = longVal (Fr_toNormal b)"
  define d where "d = fst (sub4 Fr_rawq l)"
  have l: "rval l = fval b" "rval l < q_int" using long_operand [OF assms(1) None] by (simp_all add: l_def)
  have d: "rval d = q_int - fval b" using l by (simp add: d_def rval_sub4 rval_q)
  have rcx: "limb Fr_rawq 0 - limb l 0 = limb d 0" by (simp add: d_def limb_sub4_0)
  have e: "shift_by forth back b =
      (if rval l < 254 then forth (unat (limb l 0)) else if rval d < 254 then back (unat (limb d 0)) else Fr_SHORT 0)"
    using None unfolding shift_by_def Let_def l_def [symmetric] d_def [symmetric] rcx small_raw(1) by auto
  have nat_l: "nat (rval l) = unat (limb l 0)" if "rval l < 254" using small_raw(2) [OF that] by simp
  have nat_d: "nat (rval d) = unat (limb d 0)" if "rval d < 254" using small_raw(2) [OF that] by simp
  have s: "shift_val F G v (fval b) =
      (if rval l < 254 then F v (nat (rval l)) else if rval d < 254 then G v (nat (rval d)) else 0)"
    by (simp add: shift_val_def l(1) d)
  have "unat (limb r 0) < 254" if "rval r < 254" for r using small_raw(2) [OF that] that by linarith
  then show ?thesis unfolding e s
    using forward [of "unat (limb l 0)"] backward [of "unat (limb d 0)"] nat_l nat_d by auto
qed

lemma Fr_shift_vals:
  assumes "fok a" "fok b"
  shows "fok (Fr_shl a b) \<and> fval (Fr_shl a b) = shift_val shl_val shr_val (fval a) (fval b)"
    and "fok (Fr_shr a b) \<and> fval (Fr_shr a b) = shift_val shr_val shl_val (fval a) (fval b)"
  unfolding Fr_shl_def Fr_shr_def
  by (rule shift_by_val; simp add: assms do_shl_val do_shr_val)+

end
