(* ===== verification/Fr_Memory.thy ===== *)
theory Fr_Memory
  imports Fr_Bits
begin

text \<open>
  What of \<open>circuit_cpp/fr.asm\<close> depends on the places of its operands in memory: \<open>Fr_copyn\<close>, which
  copies an array of elements as 64-bit words, and \<open>Fr_bnot\<close> when its result is its operand.
\<close>

section \<open>\<open>Fr_copyn\<close>\<close>

text \<open>
  Memory as 64-bit words. \<open>rep movsq\<close> copies \<open>rcx\<close> words upwards, one at a time; an element is five
  words. The product of \<open>mul rdx\<close> is cut to the 64 bits of \<open>rax\<close>.
\<close>

fun rep_movsq :: "nat \<Rightarrow> nat \<Rightarrow> nat \<Rightarrow> (nat \<Rightarrow> u64) \<Rightarrow> (nat \<Rightarrow> u64)" where
  "rep_movsq 0 rdi rsi m = m"
| "rep_movsq (Suc rcx) rdi rsi m = rep_movsq rcx (Suc rdi) (Suc rsi) (m(rdi := m rsi))"

definition Fr_copyn :: "nat \<Rightarrow> nat \<Rightarrow> nat \<Rightarrow> (nat \<Rightarrow> u64) \<Rightarrow> (nat \<Rightarrow> u64)" where
  "Fr_copyn rdi rsi rdx m = rep_movsq (5 * rdx mod 2 ^ 64) rdi rsi m"

text \<open>The destination may overlap the source from below, not from above.\<close>

lemma rep_movsq_copies:
  assumes "rdi \<le> rsi \<or> rsi + n \<le> rdi"
  shows "rep_movsq n rdi rsi m k = (if rdi \<le> k \<and> k < rdi + n then m (rsi + (k - rdi)) else m k)"
  using assms
proof (induction n arbitrary: rdi rsi m)
  case (Suc n)
  have "Suc rdi \<le> Suc rsi \<or> Suc rsi + n \<le> Suc rdi" using Suc.prems by auto
  note step = Suc.IH [OF this, of "m(rdi := m rsi)"]
  consider "k < rdi" | "k = rdi" | "rdi < k" "k < rdi + Suc n" | "rdi + Suc n \<le> k" by linarith
  then show ?case
  proof cases
    case 3
    then have "Suc rsi + (k - Suc rdi) = rsi + (k - rdi)" "rsi + (k - rdi) \<noteq> rdi" using Suc.prems by auto
    then show ?thesis unfolding rep_movsq.simps step using 3 by simp
  qed (unfold rep_movsq.simps step, simp_all)
qed auto

lemma Fr_copyn_copies:
  assumes "5 * n < 2 ^ 64" "rdi \<le> rsi \<or> rsi + 5 * n \<le> rdi"
  shows "Fr_copyn rdi rsi n m k = (if rdi \<le> k \<and> k < rdi + 5 * n then m (rsi + (k - rdi)) else m k)"
  using rep_movsq_copies [OF assms(2)] assms(1) by (simp add: Fr_copyn_def)

lemma Fr_copyn_smears: "Fr_copyn (Suc rsi) rsi 1 m (rsi + 5) = m rsi"
proof -
  have "(5 * 1 mod 2 ^ 64 :: nat) = Suc (Suc (Suc (Suc (Suc 0))))" by simp
  then show ?thesis unfolding Fr_copyn_def by (simp only: rep_movsq.simps) simp
qed

section \<open>Elements in memory\<close>

text \<open>The struct with its three fields; the top bits of the type are the tags.\<close>

record FrStruct =
  st_short :: "32 word"
  st_type :: "32 word"
  st_long :: FrRaw

definition view :: "FrStruct \<Rightarrow> FrElement" where
  "view m =
     (if bit (st_type m) 31 then if bit (st_type m) 30 then Fr_LONGMONTGOMERY (st_long m) else Fr_LONG (st_long m)
      else if bit (st_type m) 30 then Fr_SHORTMONTGOMERY (st_short m) (st_long m) else Fr_SHORT (st_short m))"

fun put_element :: "FrElement \<Rightarrow> FrStruct \<Rightarrow> FrStruct" where
  "put_element (Fr_SHORT s) m = m\<lparr>st_short := s, st_type := 0\<rparr>"
| "put_element (Fr_SHORTMONTGOMERY s l) m = m\<lparr>st_short := s, st_type := 0x40000000, st_long := l\<rparr>"
| "put_element (Fr_LONG l) m = m\<lparr>st_type := 0x80000000, st_long := l\<rparr>"
| "put_element (Fr_LONGMONTGOMERY l) m = m\<lparr>st_type := 0xC0000000, st_long := l\<rparr>"

text \<open>
  \<open>Fr_bnot\<close> and, where one operand is in Montgomery form and the other is not, \<open>Fr_add\<close> store the
  type of the result at \<open>r\<close> before the conversion of an operand reads the type of the operand. In its
  other cases \<open>Fr_add\<close> reads what it needs of a limb before it writes the limb.
\<close>

definition bnot_mem :: "nat \<Rightarrow> nat \<Rightarrow> (nat \<Rightarrow> FrStruct) \<Rightarrow> nat \<Rightarrow> FrStruct" where
  "bnot_mem r a m =
     (let m1 = m(r := (m r)\<lparr>st_type := 0x80000000\<rparr>); e = view (m1 a);
          l = longVal (if shortVal e \<noteq> None then Fr_toLongNormal e else Fr_toNormal e)
      in m1(r := (m1 r)\<lparr>st_long := bnot_raw l\<rparr>))"

definition add_mem :: "nat \<Rightarrow> nat \<Rightarrow> nat \<Rightarrow> (nat \<Rightarrow> FrStruct) \<Rightarrow> nat \<Rightarrow> FrStruct" where
  "add_mem r a b m =
     (let m1 = m(r := (m r)\<lparr>st_type := 0xC0000000\<rparr>);
          first = (\<lambda>x. m1(r := (m1 r)\<lparr>st_long := Fr_rawAdd x (montVal (view (m1 b)))\<rparr>));
          second = (\<lambda>y. m1(r := (m1 r)\<lparr>st_long := Fr_rawAdd (montVal (view (m1 a))) y\<rparr>))
      in case (view (m a), view (m b)) of
           (Fr_LONGMONTGOMERY x, Fr_SHORT _) \<Rightarrow> first x
         | (Fr_LONGMONTGOMERY x, Fr_LONG _) \<Rightarrow> first x
         | (Fr_SHORT _, Fr_LONGMONTGOMERY y) \<Rightarrow> second y
         | (Fr_LONG _, Fr_LONGMONTGOMERY y) \<Rightarrow> second y
         | (ea, eb) \<Rightarrow> m(r := put_element (Fr_add ea eb) (m r)))"

lemma type_bits:
  "bit (0x80000000 :: 32 word) 31" "\<not> bit (0x80000000 :: 32 word) 30"
  "bit (0xC0000000 :: 32 word) 31" "bit (0xC0000000 :: 32 word) 30"
  "\<not> bit (0x40000000 :: 32 word) 31" "bit (0x40000000 :: 32 word) 30"
  by (simp_all add: bit_iff_odd_drop_bit)

lemma view_put: "view (put_element e m) = e"
  by (cases e) (simp_all add: view_def type_bits)

lemma view_tagged:
  "view (m\<lparr>st_type := 0x80000000, st_long := l\<rparr>) = Fr_LONG l"
  "view (m\<lparr>st_type := 0xC0000000, st_long := l\<rparr>) = Fr_LONGMONTGOMERY l"
  "view (m\<lparr>st_type := 0x80000000\<rparr>) = Fr_LONG (st_long m)"
  "view (m\<lparr>st_type := 0xC0000000\<rparr>) = Fr_LONGMONTGOMERY (st_long m)"
  by (simp_all add: view_def type_bits)

lemma bnot_mem_apart: "r \<noteq> a \<Longrightarrow> view (bnot_mem r a m r) = Fr_bnot (view (m a))"
  unfolding bnot_mem_def Let_def by (simp add: view_tagged Fr_bnot_def)

lemma bnot_mem_in_place: "view (bnot_mem a a m a) = Fr_LONG (bnot_raw (st_long (m a)))"
  unfolding bnot_mem_def Let_def by (simp add: view_tagged)

lemma add_mem_apart: "r \<noteq> a \<Longrightarrow> r \<noteq> b \<Longrightarrow> view (add_mem r a b m r) = Fr_add (view (m a)) (view (m b))"
  unfolding add_mem_def Let_def
  by (cases "view (m a)"; cases "view (m b)") (simp_all add: view_tagged view_put montVal_def del: put_element.simps)

lemma add_mem_in_place:
  assumes "view (m a) = Fr_LONG l" "view (m b) = Fr_LONGMONTGOMERY k"
  shows "view (add_mem a a b m a) = Fr_LONGMONTGOMERY (Fr_rawAdd l k)"
proof -
  have "st_long (m a) = l" using assms(1) by (auto simp: view_def split: if_splits)
  then show ?thesis using assms by (simp add: add_mem_def Let_def view_tagged montVal_def)
qed

lemma add_mem_same_form:
  assumes "\<forall>k. view (m a) \<noteq> Fr_LONGMONTGOMERY k \<and> view (m b) \<noteq> Fr_LONGMONTGOMERY k"
  shows "view (add_mem r a b m r) = Fr_add (view (m a)) (view (m b))"
  unfolding add_mem_def Let_def
  using assms by (cases "view (m a)"; cases "view (m b)") (simp_all add: view_put del: put_element.simps)

end
