(* ===== verification/Fr_Order.thy ===== *)
theory Fr_Order
  imports Fr_Field "HOL-Library.Product_Lexorder"
begin

text \<open>
  The comparisons of \<open>circuit_cpp/fr.asm\<close> as orders. The limb-by-limb comparison is a linear order on
  raw elements, so the lemmas of the library on \<open>linorder\<close> apply to them; the signed comparison of
  \<open>rltL1L2\<close> and \<open>rgtL1L2\<close> is the lexicographic order of the half and the limbs.
\<close>

instantiation FrRaw :: linorder
begin

definition less_FrRaw :: "FrRaw \<Rightarrow> FrRaw \<Rightarrow> bool" where
  "a < b \<longleftrightarrow> raw_lt a b"

definition less_eq_FrRaw :: "FrRaw \<Rightarrow> FrRaw \<Rightarrow> bool" where
  "a \<le> b \<longleftrightarrow> \<not> raw_lt b a" for a b :: FrRaw

instance
  by standard (auto simp: less_FrRaw_def less_eq_FrRaw_def raw_lt_iff not_less rval_inject intro: order_antisym simp del: rval.simps)

end

lemma less_rval: "a < b \<longleftrightarrow> rval a < rval b" "a \<le> b \<longleftrightarrow> rval a \<le> rval b" for a b :: FrRaw
  by (simp_all add: less_FrRaw_def less_eq_FrRaw_def raw_lt_iff not_less)

lemma reduce_once_order: "reduce_once r = (if r < Fr_rawq then r else sub_q r)"
  by (simp add: reduce_once_def less_FrRaw_def)

text \<open>The elements above \<open>half\<close> are the negative ones and come first.\<close>

definition signed_key :: "FrRaw \<Rightarrow> bool \<times> FrRaw" where
  "signed_key a = (a \<le> raw_half, a)"

lemma rltL1L2_order: "rltL1L2 a b \<longleftrightarrow> signed_key a < signed_key b"
  by (auto simp: rltL1L2_def signed_key_def less_FrRaw_def less_eq_FrRaw_def less_prod_def')

lemma rgtL1L2_order: "rgtL1L2 a b \<longleftrightarrow> signed_key b < signed_key a"
  by (auto simp: rgtL1L2_def signed_key_def less_FrRaw_def less_eq_FrRaw_def less_prod_def')

lemma signed_key_inject: "signed_key a = signed_key b \<longleftrightarrow> a = b"
  by (auto simp: signed_key_def)

text \<open>Exactly one of the two comparisons holds for raw elements that differ.\<close>

lemma long_trichotomy: "(rltL1L2 a b \<noteq> rgtL1L2 a b) \<longleftrightarrow> a \<noteq> b"
  using less_linear [of "signed_key a" "signed_key b"] unfolding rltL1L2_order rgtL1L2_order signed_key_inject
  by (auto dest: less_asym simp: signed_key_inject)

lemma rltL1L2_trans: "rltL1L2 a b \<Longrightarrow> rltL1L2 b c \<Longrightarrow> rltL1L2 a c"
  unfolding rltL1L2_order by (rule less_trans)

end
