(* ===== verification/Raw_Field.thy ===== *)
theory Raw_Field
  imports Raw_Fr
begin

text \<open>
  The constructor and the inline methods of the class \<open>RawFr\<close> of \<open>circuit_cpp/fr.hpp\<close>. An \<open>Element\<close> is
  its limb array. The overloads that return an element and those that store it in a reference have the
  same body; the ones with an \<open>int\<close> operand convert it with \<open>set\<close> first.
\<close>

definition RawFr_add :: "FrRaw \<Rightarrow> FrRaw \<Rightarrow> FrRaw" where "RawFr_add a b = Fr_rawAdd a b"

definition RawFr_sub :: "FrRaw \<Rightarrow> FrRaw \<Rightarrow> FrRaw" where "RawFr_sub a b = Fr_rawSub a b"

definition RawFr_mul :: "FrRaw \<Rightarrow> FrRaw \<Rightarrow> FrRaw" where "RawFr_mul a b = Fr_rawMMul a b"

definition RawFr_neg :: "FrRaw \<Rightarrow> FrRaw" where "RawFr_neg a = Fr_rawNeg a"

definition RawFr_square :: "FrRaw \<Rightarrow> FrRaw" where "RawFr_square a = Fr_rawMSquare a"

definition RawFr_mul1 :: "FrRaw \<Rightarrow> u64 \<Rightarrow> FrRaw" where "RawFr_mul1 a b = Fr_rawMMul1 a b"

definition RawFr_eq :: "FrRaw \<Rightarrow> FrRaw \<Rightarrow> bool" where "RawFr_eq a b = Fr_rawIsEq a b"

definition RawFr_isZero :: "FrRaw \<Rightarrow> bool" where "RawFr_isZero a = Fr_rawIsZero a"

definition RawFr_add_int_left :: "gmp \<Rightarrow> 32 word \<Rightarrow> FrRaw \<Rightarrow> cerr + FrRaw" where
  "RawFr_add_int_left g a b = bindR (RawFr_set g a) (\<lambda>a. Inr (RawFr_add a b))"

definition RawFr_sub_int_left :: "gmp \<Rightarrow> 32 word \<Rightarrow> FrRaw \<Rightarrow> cerr + FrRaw" where
  "RawFr_sub_int_left g a b = bindR (RawFr_set g a) (\<lambda>a. Inr (RawFr_sub a b))"

definition RawFr_mul_int_left :: "gmp \<Rightarrow> 32 word \<Rightarrow> FrRaw \<Rightarrow> cerr + FrRaw" where
  "RawFr_mul_int_left g a b = bindR (RawFr_set g a) (\<lambda>a. Inr (RawFr_mul a b))"

definition RawFr_add_int :: "gmp \<Rightarrow> FrRaw \<Rightarrow> 32 word \<Rightarrow> cerr + FrRaw" where
  "RawFr_add_int g a b = bindR (RawFr_set g b) (\<lambda>b. Inr (RawFr_add a b))"

definition RawFr_sub_int :: "gmp \<Rightarrow> FrRaw \<Rightarrow> 32 word \<Rightarrow> cerr + FrRaw" where
  "RawFr_sub_int g a b = bindR (RawFr_set g b) (\<lambda>b. Inr (RawFr_sub a b))"

definition RawFr_mul_int :: "gmp \<Rightarrow> FrRaw \<Rightarrow> 32 word \<Rightarrow> cerr + FrRaw" where
  "RawFr_mul_int g a b = bindR (RawFr_set g b) (\<lambda>b. Inr (RawFr_mul a b))"

text \<open>The members that the constructor sets: \<open>fZero\<close>, \<open>fOne\<close> and \<open>fNegOne\<close>.\<close>

record RawFr =
  fZero :: FrRaw
  fOne :: FrRaw
  fNegOne :: FrRaw

definition RawFr_new :: "gmp \<Rightarrow> cerr + RawFr" where
  "RawFr_new g =
     bindR (RawFr_set g 0) (\<lambda>z. bindR (RawFr_set g 1) (\<lambda>one. Inr \<lparr>fZero = z, fOne = one, fNegOne = RawFr_neg one\<rparr>))"

section \<open>The field in Montgomery form\<close>

lemma mreturns_Inr: "mreturns (Inr m) v \<longleftrightarrow> rval m < q_int \<and> mval m = v"
  by (simp add: mreturns_def)

lemma mreturns_bind:
  assumes "mreturns r v" "\<And>m. rval m < q_int \<Longrightarrow> mval m = v \<Longrightarrow> mreturns (f m) w"
  shows "mreturns (bindR r f) w"
  using assms by (auto simp: mreturns_def bindR_def)

lemma RawFr_ops:
  assumes "rval a < q_int" "rval b < q_int"
  shows "mreturns (Inr (RawFr_add a b)) ((mval a + mval b) mod q_int)"
    "mreturns (Inr (RawFr_sub a b)) ((mval a - mval b) mod q_int)"
    "mreturns (Inr (RawFr_mul a b)) (mval a * mval b mod q_int)"
    "mreturns (Inr (RawFr_neg a)) (- mval a mod q_int)"
    "mreturns (Inr (RawFr_square a)) (mval a * mval a mod q_int)"
  using assms
  by (simp_all add: mreturns_Inr RawFr_add_def RawFr_sub_def RawFr_mul_def RawFr_neg_def RawFr_square_def
      MSquare_MMul mval_MMul MMul_less)
    (simp_all add: mval_def Fr_rawAdd_mod Fr_rawSub_mod Fr_rawNeg_mod mod_simps distrib_right left_diff_distrib)

lemma RawFr_int_ops:
  assumes "gmp_spec g" "rval a < q_int"
  shows "mreturns (RawFr_add_int g a n) ((mval a + sint n) mod q_int)"
    "mreturns (RawFr_sub_int g a n) ((mval a - sint n) mod q_int)"
    "mreturns (RawFr_mul_int g a n) (mval a * sint n mod q_int)"
    "mreturns (RawFr_add_int_left g n a) ((sint n + mval a) mod q_int)"
    "mreturns (RawFr_sub_int_left g n a) ((sint n - mval a) mod q_int)"
    "mreturns (RawFr_mul_int_left g n a) (sint n * mval a mod q_int)"
  unfolding RawFr_add_int_def RawFr_sub_int_def RawFr_mul_int_def
    RawFr_add_int_left_def RawFr_sub_int_left_def RawFr_mul_int_left_def
  by (rule mreturns_bind [OF RawFr_set_returns [OF assms(1)]],
      use RawFr_ops [OF assms(2)] RawFr_ops [OF _ assms(2)] in \<open>fastforce simp: mod_simps\<close>)+

lemma RawFr_new_returns:
  assumes "gmp_spec g"
  shows "\<exists>f. RawFr_new g = Inr f \<and> mreturns (Inr (fZero f)) 0 \<and> mreturns (Inr (fOne f)) 1 \<and>
    mreturns (Inr (fNegOne f)) (q_int - 1)"
proof -
  obtain z where z: "RawFr_set g 0 = Inr z" "mreturns (Inr z) 0"
    using RawFr_set_returns [OF assms, of 0] by (auto simp: mreturns_def)
  obtain one where one: "RawFr_set g 1 = Inr one" "mreturns (Inr one) 1"
    using RawFr_set_returns [OF assms, of 1] by (auto simp: mreturns_def q_int_def)
  have "mreturns (Inr (RawFr_neg one)) (q_int - 1)"
    using RawFr_ops(4) [of one one] one(2) by (simp add: mreturns_Inr q_int_def)
  then show ?thesis using z one by (simp add: RawFr_new_def bindR_def)
qed

lemma mval_inject:
  assumes "rval a < q_int" "rval b < q_int"
  shows "mval a = mval b \<longleftrightarrow> a = b"
proof
  assume "mval a = mval b"
  then have "mval a * 2 ^ 256 mod q_int = mval b * 2 ^ 256 mod q_int" by simp
  then have "rval a * (Rinv * 2 ^ 256 mod q_int) mod q_int = rval b * (Rinv * 2 ^ 256 mod q_int) mod q_int"
    by (simp only: mval_def mod_simps mult.assoc)
  then have "rval a = rval b"
    using assms rval_bounds [of a] rval_bounds [of b] by (simp only: Rinv_inverse mult.commute [of Rinv]) simp
  then show "a = b" by (simp only: rval_inject)
qed simp

lemma RawFr_tests:
  assumes "rval a < q_int" "rval b < q_int"
  shows "RawFr_eq a b \<longleftrightarrow> mval a = mval b" "RawFr_isZero a \<longleftrightarrow> mval a = 0"
proof -
  show "RawFr_eq a b \<longleftrightarrow> mval a = mval b"
    using assms by (simp add: RawFr_eq_def Fr_rawIsEq_iff mval_inject rval_inject del: rval.simps)
  have "rval Fr_rawZero = 0" by (simp add: Fr_rawZero_def)
  then have "mval a = 0 \<longleftrightarrow> a = Fr_rawZero"
    using mval_inject [OF assms(1), of Fr_rawZero] by (simp add: mval_def q_int_def)
  then show "RawFr_isZero a \<longleftrightarrow> mval a = 0"
    by (metis RawFr_isZero_def Fr_rawIsZero_iff \<open>rval Fr_rawZero = 0\<close> rval_inject)
qed

end
