(* ===== verification/Privacy_Pallet.thy ===== *)
theory Privacy_Pallet
  imports "HOL-Library.Word"
begin

text \<open>
  The pallet \<open>pallets/zk_privacy/src/lib.rs\<close>, which is to accept the transactions that the circuit
  proves: its storage, its three calls, and a chain that executes calls of any origin in any order.
  The frame of the node is a parameter: what it takes for a signed origin, the hash function, the
  transfer of the currency and the account of the pallet. The index of commitments is \<open>u32\<close>, as in
  \<open>mock.rs\<close>.
\<close>

section \<open>Storage, events and errors\<close>

type_synonym bytes = "8 word list"

datatype 'h pallet_event =
  CommitmentAdded bytes "32 word" nat 'h
| NullifierRevealed bytes nat

datatype pallet_error =
  InvalidTransaction
| CommitmentEncryptedNoteLengthMismatch
| NullifierAlreadyRevealed
| CommitmentVerificationFailed

datatype dispatch_error = BadOrigin | CurrencyError string | Module pallet_error

text \<open>
  The events are those that the pallet deposits, in their order. \<open>currency\<close> is the state behind
  \<open>T::Currency\<close>.
\<close>

record ('h, 'c) pallet =
  NextLeafIndex :: "32 word"
  CommitmentRoot :: 'h
  NullifierSet :: "'h \<Rightarrow> nat option"
  events :: "'h pallet_event list"
  currency :: 'c

record ('o, 'a, 'h, 'c) frame_env =
  ensure_signed :: "'o \<Rightarrow> dispatch_error + 'a"
  hashing :: "bytes \<Rightarrow> 'h"
  currency_transfer :: "'a \<Rightarrow> 'a \<Rightarrow> nat \<Rightarrow> 'c \<Rightarrow> string + 'c"
  account_id :: 'a
  default_hash :: 'h

definition genesis :: "('o, 'a, 'h, 'c) frame_env \<Rightarrow> 'c \<Rightarrow> ('h, 'c) pallet" where
  "genesis env c =
     \<lparr>NextLeafIndex = 0, CommitmentRoot = default_hash env, NullifierSet = Map.empty, events = [], currency = c\<rparr>"

section \<open>Calls\<close>

type_synonym ('h, 'c) call_result = "(dispatch_error + unit) \<times> ('h, 'c) pallet"

definition deposit_event :: "'h pallet_event \<Rightarrow> ('h, 'c) pallet \<Rightarrow> ('h, 'c) pallet" where
  "deposit_event e st = st\<lparr>events := events st @ [e]\<rparr>"

definition saturating_succ :: "32 word \<Rightarrow> 32 word" where
  "saturating_succ i = (if i = - 1 then i else i + 1)"

definition shield ::
    "('o, 'a, 'h, 'c) frame_env \<Rightarrow> nat \<Rightarrow> 'o \<Rightarrow> nat \<Rightarrow> bytes \<Rightarrow> 'h \<Rightarrow> ('h, 'c) pallet \<Rightarrow> ('h, 'c) call_result" where
  "shield env current_block origin amount commitment encrypted_note st =
     (case ensure_signed env origin of
        Inl e \<Rightarrow> (Inl e, st)
      | Inr who \<Rightarrow>
          (case currency_transfer env who (account_id env) amount (currency st) of
             Inl e \<Rightarrow> (Inl (CurrencyError e), st)
           | Inr c \<Rightarrow>
               (Inr (), deposit_event (CommitmentAdded commitment (NextLeafIndex st) current_block encrypted_note)
                  (st\<lparr>currency := c\<rparr>))))"

text \<open>The block that both spending calls share.\<close>

definition reveal :: "('o, 'a, 'h, 'c) frame_env \<Rightarrow> nat \<Rightarrow> bytes \<Rightarrow> ('h, 'c) pallet \<Rightarrow> pallet_error + ('h, 'c) pallet" where
  "reveal env current_block nullifier st =
     (let nullifier_hash = hashing env nullifier
      in if NullifierSet st nullifier_hash = None
         then Inr (st\<lparr>NullifierSet := (NullifierSet st)(nullifier_hash \<mapsto> current_block)\<rparr>)
         else Inl NullifierAlreadyRevealed)"

fun add_commitments :: "nat \<Rightarrow> (bytes \<times> 'h) list \<Rightarrow> ('h, 'c) pallet \<Rightarrow> ('h, 'c) pallet" where
  "add_commitments current_block [] st = st"
| "add_commitments current_block ((commitment, encr_note) # rest) st =
     (let st1 = deposit_event (CommitmentAdded commitment (NextLeafIndex st) current_block encr_note) st
      in add_commitments current_block rest (st1\<lparr>NextLeafIndex := saturating_succ (NextLeafIndex st1)\<rparr>))"

definition private_transfer ::
    "('o, 'a, 'h, 'c) frame_env \<Rightarrow> nat \<Rightarrow> 'o \<Rightarrow> bytes \<Rightarrow> bytes list \<Rightarrow> 'h list \<Rightarrow> ('h, 'c) pallet \<Rightarrow>
      ('h, 'c) call_result" where
  "private_transfer env current_block origin nullifier new_commitments encrypted_notes st =
     (case ensure_signed env origin of
        Inl e \<Rightarrow> (Inl e, st)
      | Inr _ \<Rightarrow>
          if \<not> (nullifier = [] \<and> new_commitments = [] \<and> encrypted_notes = []) then (Inl (Module InvalidTransaction), st)
          else if length new_commitments \<noteq> length encrypted_notes
          then (Inl (Module CommitmentEncryptedNoteLengthMismatch), st)
          else (case reveal env current_block nullifier st of
                  Inl e \<Rightarrow> (Inl (Module e), st)
                | Inr st1 \<Rightarrow>
                    (Inr (), deposit_event (NullifierRevealed nullifier current_block)
                       (add_commitments current_block (zip new_commitments encrypted_notes) st1))))"

text \<open>The nullifier is inserted before the transfer, which may still fail.\<close>

definition unshield ::
    "('o, 'a, 'h, 'c) frame_env \<Rightarrow> nat \<Rightarrow> 'o \<Rightarrow> nat \<Rightarrow> bytes \<Rightarrow> ('h, 'c) pallet \<Rightarrow> ('h, 'c) call_result" where
  "unshield env current_block origin amount nullifier st =
     (case ensure_signed env origin of
        Inl e \<Rightarrow> (Inl e, st)
      | Inr who \<Rightarrow>
          if nullifier \<noteq> [] then (Inl (Module InvalidTransaction), st)
          else (case reveal env current_block nullifier st of
                  Inl e \<Rightarrow> (Inl (Module e), st)
                | Inr st1 \<Rightarrow>
                    (case currency_transfer env (account_id env) who amount (currency st1) of
                       Inl e \<Rightarrow> (Inl (CurrencyError e), st1)
                     | Inr c \<Rightarrow>
                         (Inr (), deposit_event (NullifierRevealed nullifier current_block) (st1\<lparr>currency := c\<rparr>)))))"

section \<open>The chain\<close>

datatype 'h pallet_call =
  Shield nat bytes 'h
| PrivateTransfer bytes "bytes list" "'h list"
| Unshield nat bytes

fun execute :: "('o, 'a, 'h, 'c) frame_env \<Rightarrow> nat \<Rightarrow> 'o \<Rightarrow> 'h pallet_call \<Rightarrow> ('h, 'c) pallet \<Rightarrow> ('h, 'c) call_result" where
  "execute env n origin (Shield amount commitment note) = shield env n origin amount commitment note"
| "execute env n origin (PrivateTransfer nullifier cs ns) = private_transfer env n origin nullifier cs ns"
| "execute env n origin (Unshield amount nullifier) = unshield env n origin amount nullifier"

text \<open>
  The states of a chain, with the calls executed so far and whether they succeeded. What a call
  that fails has written may stay or be dropped: that is for the frame to decide.
\<close>

inductive chain :: "('o, 'a, 'h, 'c) frame_env \<Rightarrow> 'c \<Rightarrow> ('h, 'c) pallet \<Rightarrow> ('h pallet_call \<times> bool) list \<Rightarrow> bool"
  for env :: "('o, 'a, 'h, 'c) frame_env" and c0 :: 'c where
  start: "chain env c0 (genesis env c0) []"
| succeeds: "chain env c0 st tr \<Longrightarrow> execute env n origin c st = (Inr (), st') \<Longrightarrow> chain env c0 st' (tr @ [(c, True)])"
| fails: "chain env c0 st tr \<Longrightarrow> execute env n origin c st = (Inl e, st') \<Longrightarrow> st'' \<in> {st, st'} \<Longrightarrow>
    chain env c0 st'' (tr @ [(c, False)])"

text \<open>What the chain may still become: the calls that are executed from a given state on.\<close>

inductive follows ::
    "('o, 'a, 'h, 'c) frame_env \<Rightarrow> ('h, 'c) pallet \<Rightarrow> ('h, 'c) pallet \<Rightarrow> ('h pallet_call \<times> bool) list \<Rightarrow> bool"
  for env :: "('o, 'a, 'h, 'c) frame_env" and st0 :: "('h, 'c) pallet" where
  stays: "follows env st0 st0 []"
| succeeds: "follows env st0 st tr \<Longrightarrow> execute env n origin c st = (Inr (), st') \<Longrightarrow> follows env st0 st' (tr @ [(c, True)])"
| fails: "follows env st0 st tr \<Longrightarrow> execute env n origin c st = (Inl e, st') \<Longrightarrow> st'' \<in> {st, st'} \<Longrightarrow>
    follows env st0 st'' (tr @ [(c, False)])"

fun spends :: "'h pallet_call \<times> bool \<Rightarrow> bool" where
  "spends (Shield amount commitment note, ok) = False"
| "spends (PrivateTransfer nullifier cs ns, ok) = ok"
| "spends (Unshield amount nullifier, ok) = ok"

section \<open>What the calls do\<close>

lemmas pallet_defs = shield_def private_transfer_def unshield_def reveal_def deposit_event_def Let_def

definition spent :: "('o, 'a, 'h, 'c) frame_env \<Rightarrow> ('h, 'c) pallet \<Rightarrow> bool" where
  "spent env st \<longleftrightarrow> NullifierSet st (hashing env []) \<noteq> None"

text \<open>
  No call touches the index or the root: \<open>private_transfer\<close> succeeds without commitments only. A
  call marks the empty nullifier as revealed or leaves the set alone, and a successful spend marks it.
\<close>

lemma execute_effect:
  assumes "execute env n origin c st = (r, st')"
  shows "NextLeafIndex st' = NextLeafIndex st" "CommitmentRoot st' = CommitmentRoot st"
    "NullifierSet st' = NullifierSet st \<or> \<not> spent env st \<and> NullifierSet st' = (NullifierSet st)(hashing env [] \<mapsto> n)"
    "r = Inr () \<Longrightarrow> spends (c, True) \<Longrightarrow> \<not> spent env st \<and> spent env st'"
  using assms by (cases c; auto simp: pallet_defs spent_def split: sum.splits if_splits)+

lemma execute_marks:
  assumes "execute env n origin c st = (r, st')"
  shows "dom (NullifierSet st') \<subseteq> insert (hashing env []) (dom (NullifierSet st))" "spent env st \<Longrightarrow> spent env st'"
  using execute_effect(3) [OF assms] by (auto simp: spent_def)

lemma spent_refuses: "spent env st \<Longrightarrow> spends (c, True) \<Longrightarrow> isl (fst (execute env n origin c st))"
  using execute_effect(4) [of env n origin c st] by (cases "execute env n origin c st"; cases "fst (execute env n origin c st)") auto

lemma chain_inv:
  assumes "chain env c0 st tr"
  shows "NextLeafIndex st = 0 \<and> CommitmentRoot st = default_hash env \<and> dom (NullifierSet st) \<subseteq> {hashing env []} \<and>
    length (filter spends tr) \<le> (if spent env st then 1 else 0)"
  using assms
proof induction
  case start
  then show ?case by (simp add: genesis_def)
next
  case (succeeds st tr n origin c st')
  note e = execute_effect [OF succeeds.hyps(2)] and m = execute_marks [OF succeeds.hyps(2)]
  have "spends (c, True) \<Longrightarrow> filter spends tr = []" using succeeds.IH e(4) by auto
  moreover have "dom (NullifierSet st') \<subseteq> {hashing env []}" using m(1) succeeds.IH by blast
  ultimately show ?case using succeeds.IH e(1,2,4) m(2) by (auto split: if_splits)
next
  case (fails st tr n origin c e st' st'')
  note e = execute_effect [OF fails.hyps(2)] and m = execute_marks [OF fails.hyps(2)]
  have "\<not> spends (c, False)" by (cases c) simp_all
  moreover have "dom (NullifierSet st'') \<subseteq> {hashing env []}" using m(1) fails.IH fails.hyps(3) by blast
  moreover have "spent env st \<Longrightarrow> spent env st''" using m(2) fails.hyps(3) by blast
  ultimately show ?case using fails.IH fails.hyps(3) e(1,2) by (auto split: if_splits)
qed


text \<open>A chain continues with what follows its state.\<close>

lemma chain_follows: "follows env st st' tr' \<Longrightarrow> chain env c0 st tr \<Longrightarrow> chain env c0 st' (tr @ tr')"
  by (induction rule: follows.induct)
    (simp_all add: chain.succeeds chain.fails flip: append_assoc)

text \<open>Once the empty nullifier is revealed, nothing that follows spends.\<close>

lemma nothing_spent_later: "follows env st0 st tr \<Longrightarrow> spent env st0 \<Longrightarrow> spent env st \<and> filter spends tr = []"
proof (induction rule: follows.induct)
  case (succeeds st tr n origin c st')
  have "\<not> spends (c, True)"
    using spent_refuses [of env st c n origin] succeeds.hyps(2) succeeds.IH succeeds.prems by auto
  then show ?case using succeeds execute_marks(2) [OF succeeds.hyps(2)] by simp
next
  case (fails st tr n origin c e st' st'')
  have "\<not> spends (c, False)" by (cases c) simp_all
  then show ?case using fails execute_marks(2) [OF fails.hyps(2)] by auto
qed simp

text \<open>The two outcomes of an \<open>unshield\<close> with the empty nullifier while that is not revealed.\<close>

lemma unshield_open:
  assumes "ensure_signed env origin = Inr who" "\<not> spent env st"
  shows "currency_transfer env (account_id env) who amt (currency st) = Inr c \<Longrightarrow>
      \<exists>st'. execute env n origin (Unshield amt []) st = (Inr (), st') \<and> currency st' = c \<and> spent env st'"
    and "currency_transfer env (account_id env) who amt (currency st) = Inl e \<Longrightarrow>
      \<exists>st'. execute env n origin (Unshield amt []) st = (Inl (CurrencyError e), st') \<and> currency st' = currency st \<and> spent env st'"
  using assms by (simp_all add: pallet_defs spent_def)

lemma named_transfer_refused:
  assumes "ensure_signed env origin = Inr who" "nf \<noteq> [] \<or> cs \<noteq> [] \<or> ns \<noteq> []"
  shows "execute env n origin (PrivateTransfer nf cs ns) st = (Inl (Module InvalidTransaction), st)"
  using assms by (auto simp: pallet_defs)

lemma named_unshield_refused:
  assumes "ensure_signed env origin = Inr who" "nf \<noteq> []"
  shows "execute env n origin (Unshield amt nf) st = (Inl (Module InvalidTransaction), st)"
  using assms by (simp add: pallet_defs)

end
