(* ===== verification/Spec2Isabelle.thy ===== *)
theory Spec2Isabelle
  imports Circuit_Examples Layer_Tables Input_Frame Fr_Memory Fr_Order Raw_Field Privacy_Pallet
begin

text \<open>
  A verification development for the witness calculator of the transaction circuit in
  \<open>src/parachain/pallets/zk_privacy/src/circom/circuit_cpp/\<close>.

  \<^bold>\<open>The program.\<close> The calculator reads a circuit file and a JSON file with the inputs of a private
  transaction, computes every signal of the arithmetic circuit \<open>Transaction(4, 4, 20)\<close> over the
  scalar field of BN254, and writes the witness file of a proof. Its parts, from below:
  \<^item> \<open>fr.asm\<close> does the field arithmetic. The four-limb routines \<open>Fr_raw*\<close> are add, subtract and
    Montgomery multiplication with carry chains; on top of them elements exist in four tagged
    representations (short, short with cached Montgomery form, long, long in Montgomery form).
  \<^item> \<open>fr.cpp\<close> converts between elements, GMP integers and strings, and does in GMP what is not in
    assembly (integer division, power, inverse); the class \<open>RawFr\<close> works on raw Montgomery values.
  \<^item> \<open>calcwit.cpp\<close> holds the state: signals, component memory, the flags of the inputs that have
    arrived. The last input that is assigned starts the circuit.
  \<^item> \<open>circuit.cpp\<close> is generated: a constructor and a run function for each of the 143 template
    instances, the sizes of the circuit, and the release of components.
  \<^item> \<open>main.cpp\<close> loads the circuit file, flattens the JSON object into named signals, assigns them and
    writes the witness.

  \<^bold>\<open>Theories.\<close>
  \<^item> \<open>Circ_Prelude\<close>: errors as values (\<open>cerr\<close>: assertion, exception, access out of bounds, read of
    uninitialised memory, double delete), statements as functions from a state to nothing (does not
    return), an error or a state, the loop combinators, \<open>runs\<close> (returns normally in a state with the
    property) and the collection \<open>wp\<close> of its rules.
  \<^item> \<open>Fr_Raw\<close>, \<open>Fr_Elem\<close>, \<open>Fr_Field\<close>: \<open>fr.asm\<close>. The first has the limb routines over 64-bit words
    with explicit flags and their values modulo \<open>q\<close>; the second the element routines branch by
    branch; the third proves that they are the operations of the field (\<open>denotes\<close>), states the
    contract as the locale \<open>field_ops\<close> and interprets it. \<open>Fr_Bits\<close>: the bitwise operations and
    shifts, bit by bit over the limbs. \<open>Fr_Memory\<close>: \<open>Fr_copyn\<close>, and what \<open>Fr_bnot\<close> and \<open>Fr_add\<close> do when
    their result is one of their operands; elsewhere results are places of their own, as they are in
    every call of \<open>circuit.cpp\<close>. \<open>Fr_Order\<close>: the comparisons as linear orders.
  \<^item> \<open>Bytes\<close>, \<open>Fr_Gmp\<close>, \<open>Raw_Fr\<close>, \<open>Raw_Field\<close>: \<open>fr.cpp\<close> and the class of \<open>fr.hpp\<close>. GMP is the record \<open>gmp\<close> of its functions, its documented
    behaviour is \<open>gmp_spec\<close>, and \<open>gmp_ref\<close> satisfies it.
  \<^item> \<open>Calcwit\<close>: \<open>circom.hpp\<close>, \<open>calcwit.hpp\<close>, \<open>calcwit.cpp\<close>, and the sizes and the release function of
    \<open>circuit.cpp\<close>. The locale \<open>input_directory\<close> is the contract between the input table and its
    users; it is interpreted on the lookup of the code.
  \<^item> \<open>Frame\<close>, \<open>Templates\<close>: the statements of the generated run functions (operands with checked
    indices, copies, counted loops over field elements, prologue and epilogue), and the bodies of the
    templates \<open>Ark\<close>, \<open>Sigma\<close>, \<open>Mix\<close>, \<open>MixS\<close>, \<open>MixLast\<close> and \<open>MultiMux1\<close> with what they compute.
  \<^item> \<open>Circuit_Create\<close>, \<open>Circuit_Leaf\<close>: the 143 constructors and the 137 run functions of those
    templates, each with the literals of its text.
  \<^item> \<open>Poseidon_Tables\<close>, \<open>Constant_Functions\<close>: \<open>POSEIDON_C_0\<close>, \<open>POSEIDON_S_1\<close>, \<open>POSEIDON_M_2\<close> and
    \<open>POSEIDON_P_3\<close> with the constants of every width, and what they return.
  \<^item> \<open>Compose\<close>, \<open>Poseidon\<close>, \<open>Transaction\<close>: the statements of templates with subcomponents (creation,
    giving a subcomponent an input, the decrement of its counter and the run when it reaches zero,
    reading an output, calls through the table and through the field map of the circuit file), and the
    bodies of \<open>PoseidonEx\<close>, \<open>Poseidon\<close>, \<open>MerkleProof\<close>, \<open>Transaction\<close>, \<open>_functionTable\<close> and \<open>run\<close>.
  \<^item> \<open>Network\<close>: the contract \<open>computes\<close> of a run function (from any place in the arrays it returns, its
    outputs are a function of its inputs, it writes all its signals, it touches only its own signals
    and components), and the
    locale \<open>network\<close>: the laws that the numbers, signals and slots of a template's subcomponents obey,
    and the steps of a run of such a template, proved once. It is interpreted on the layouts of the
    two \<open>PoseidonEx\<close>, the two \<open>Poseidon\<close>, \<open>MerkleProof\<close> and \<open>Transaction\<close>.
  \<^item> \<open>Poseidon_Hash\<close>: the abstract permutation and hash. \<open>Poseidon_Layout\<close>, \<open>Poseidon_Locals\<close>,
    \<open>Poseidon_Setup\<close>, \<open>Poseidon_Ends\<close>, \<open>Poseidon_Correct\<close>, \<open>Leaf_Contracts\<close>, \<open>Poseidon_Contract\<close> and
    \<open>Poseidon_Template\<close>: the templates implement it, for both widths with the same proof.
  \<^item> \<open>Merkle_Correct\<close>, \<open>Transaction_Correct\<close>: the root of a path, the constraints of a transaction
    (\<open>transaction_ok\<close>), and that the templates decide them. \<open>Circuit_Run\<close>: the whole run, and the
    assignment of the inputs that starts it. \<open>Calc_Machine\<close>: the calculator as a state machine that
    refines a collection of inputs. \<open>Transaction_Limits\<close>: what acceptance guarantees and what
    it does not.
  \<^item> \<open>Layer_Tables\<close>: the tables that the functions of constants return are those of the layers.
    \<open>Input_Frame\<close>: every statement of the run functions leaves the bookkeeping of the inputs alone, as
    the locale \<open>guarantee\<close> (a relation between states that every step keeps), interpreted on the states of
    the calculator and on the frames of a run function.
  \<^item> \<open>Main_IO\<close>: \<open>main.cpp\<close> over bytes and parsed JSON values. \<open>Program_Run\<close>: the layout of the circuit
    file and its round trip, the assignments that a JSON input stands for, and the whole program.
  \<^item> \<open>Examples\<close>, \<open>Circuit_Examples\<close>: concrete states for the witnesses.
  \<^item> \<open>Privacy_Pallet\<close>: the pallet of the parachain that is to accept what the circuit proves.

  \<^bold>\<open>State.\<close> \<open>Circom_CalcWit\<close> has the members of the class. Signals are a partial map (a signal is
  indeterminate until written) with the array bound checked at every access; members of a component
  that have no initialiser are optional; pointers to arrays are null, live or freed. A frame adds
  the local arrays \<open>expaux\<close> and \<open>lvar\<close> of a run function with their declared sizes.

  \<^bold>\<open>What the lemmas show.\<close> C1: the program, from the circuit file and the
  JSON input to the witness file. C2 and C3: the run and the assignment of the inputs in any order
  decide the transaction, fail in no other way than by its assertions, and leave every signal
  written. C4 and C5: the Poseidon and Merkle templates implement their references. C6 to C8:
  accepted small amounts balance as integers; one note may be given four times; a note that is not
  in the tree may be accepted. C9 and C10: the functions of constants, and that the layers use the
  tables that they return. C11 and C12: the
  round constants and partial rounds of the Poseidon permutation of width 4 compute the layers'
  equations modulo \<open>q\<close>, return, stay in bounds and touch only their outputs; plain theorems say the
  same of the other layers and of width 3, and of the path selector, which is right for bits and
  (\<open>multimux_forges_children\<close>) not sound for other values. C13 to C19: the arithmetic of elements is
  that of the field in every representation; \<open>Fr_toInt\<close> is right for small integers, and C19 says for
  which other values it fails or returns a wrong integer. C20 to C23: the
  bitwise operations and shifts, well-formedness of all results, and results in the place of an
  operand. C24 to C29: conversions, GMP operations, the class \<open>RawFr\<close>, exponentiation with the 32-bit loop index
  of the code. C30 to C35: the calculator starts the circuit on complete inputs only, looks names up by linear probing,
  collects each input once whatever calls its client makes, and its helpers terminate and are right.
  C36 to C38: the files. C39 and C40: the pallet lets one call spend at all, pays it any amount without a note, and refuses
  what it is for.

  \<^bold>\<open>Termination.\<close> No fuel is used in the statements. The loops of the run functions, the probing loop
  and \<open>getTrace\<close> are least fixed points in the option type, where \<open>None\<close> means that the code does not
  return; each has a theorem that it does return. The table of run functions refers to itself:
  \<open>table_to d\<close> is the table for calls nested \<open>d\<close> deep, with \<open>None\<close> beyond. Only leaf templates are
  called through the table, so a depth of one is enough; \<open>functionTable\<close> has depth two, and the lemmas
  on the whole run hold for every depth from one on.

  \<^bold>\<open>Assumptions.\<close> \<open>circuit_consts_ok\<close> states the few small constants of \<open>circuit.dat\<close> that the
  generated code uses as widths, counters and offsets; \<open>circuit_data_ok\<close> adds the constants that
  the composite templates use and the field map of the templates called through the table. The
  round constants and matrices are arbitrary, so the hash of the theorems is Poseidon with the
  constants of whatever file is loaded. \<open>gmp_spec\<close>
  is the documentation of GMP. The text of a JSON number printed from a double is a parameter.

  \<^bold>\<open>Not modelled.\<close> Opening and mapping files, the parser of JSON, the messages printed before an
  assertion fails, mutexes and threads (the generated code starts none) are left out, and so are the
  template pallet, the node and the client, in other languages. The registers and flags that a routine of
  \<open>fr.asm\<close> leaves behind, and its stack frame, are not represented.
\<close>

section \<open>The whole circuit\<close>

text \<open>
  C1. The program from its files to its file. With a circuit file that loads and holds the constants
  and field maps that the code relies on, and a JSON input that stands for one assignment of each of
  the 193 inputs, \<open>main\<close> writes a witness file exactly when the inputs satisfy the constraints. The file
  has all 48610 entries, and each entry of a named signal has its value: one, an input, or the
  commitment, nullifier or root of a note. Otherwise the program stops at one of the four assertions.
\<close>

theorem program_writes_the_witness:
  assumes "gmp_spec g" "loadCircuit bdata = Inr circ" "circuit_data_ok circ"
    "\<forall>s \<in> set (witness2SignalList circ). unat s < 72906"
    "json_assignments circ g number_text jin = Inr as" "list_all2 (targets circ x) as ks" "distinct ks" "set ks = {..<193}"
  shows "if transaction_ok circ x
    then \<exists>file. main_program g number_text run_circuit bdata jin = Some (Inr file) \<and> length file = 76 + 32 * 48610 \<and>
      (\<forall>i y. entry_named circ x i y \<longrightarrow> read_entry file i = y)
    else \<exists>m \<in> {''line 86'', ''line 95'', ''line 114'', ''line 121''}.
      main_program g number_text run_circuit bdata jin = Some (Inl (AssertFailed m))"
proof (cases "transaction_ok circ x")
  case True
  then obtain ctx where c: "witness_ok ctx" "circuit ctx = circ" "carries ctx 0 1 (\<lambda>_. 1)" "witness_signals circ x 1 ctx"
    "main_program g number_text run_circuit bdata jin = Some (writeBinWitness ctx)"
    using program_outcome(1) [OF assms] by blast
  obtain out where f: "writeBinWitness ctx = Inr out" "length out = 76 + 32 * 48610"
    using written_length [OF c(1)] by blast
  then show ?thesis using True c(5) entries_of_named [OF c(1-4) f(1)] by auto
next
  case False
  then show ?thesis using program_outcome(2) [OF assms] by simp
qed

theorem program_writes_the_witness_witness:
  "let x = same_note_inputs file_circuit demo_coin (\<lambda>_. 1) (\<lambda>_. 0) (\<lambda>_. demo_coin) in
   \<exists>file. main_program gmp_ref (\<lambda>_. []) run_circuit full_file (numbers x) = Some (Inr file) \<and>
     length file = 76 + 32 * 48610 \<and> read_entry file 7 = x 4"
proof -
  let ?x = "same_note_inputs file_circuit demo_coin (\<lambda>_. 1) (\<lambda>_. 0) (\<lambda>_. demo_coin)"
  have t: "InputHashMap file_circuit = full_table" by (simp add: file_circuit_def full_circuit_def)
  have "\<forall>i < 193. in_field (?x i)" by (rule same_note_in_field) (simp add: in_field_small)
  then obtain es where es: "json_assignments file_circuit gmp_ref (\<lambda>_. []) (numbers ?x) = Inr (inputs_of es)"
    "list_all2 (\<lambda>e v. fok e \<and> fval e = v) es (map ?x [0..<193])"
    by (rule numbers_assigned [OF t])
  have "entry_named file_circuit ?x 7 (?x 4)"
    by (rule input_entry_named) (simp_all add: file_circuit_def full_circuit_def)
  moreover have "transaction_ok file_circuit ?x" by (rule same_note_ok) simp
  ultimately show ?thesis
    using program_writes_the_witness [OF gmp_ref_spec full_file_loads file_circuit_ok _ es(1) inputs_target [OF t es(2)]]
      full_entries_in_range atLeast0LessThan by (auto simp: Let_def simp del: upt_rec_numeral)
qed

text \<open>
  C2. \<open>run\<close> decides the transaction. On a calculator whose 193 input signals carry \<open>x\<close>, with fresh
  components and the data of the circuit in place, \<open>run\<close> returns exactly when \<open>x\<close> satisfies the
  constraints: every nullifier and Merkle root of an input, every commitment of an output, and the
  balance modulo \<open>q\<close>. Otherwise it stops at one of the four assertions of the template: there is no
  access out of bounds, read of an unwritten signal, double release or endless loop in either case.
  After an accepted run every one of the 72905 signals is written, the inputs are unchanged, and the
  outputs of the top components are the commitments, nullifiers and roots.
\<close>

theorem run_decides_the_transaction:
  assumes "circuit_data_ok (circuit ctx)" "clean ctx" "carries ctx 1 193 x"
  shows "if transaction_ok (circuit ctx) x
    then runs run_circuit ctx (\<lambda>ctx'. changes {1..<72906} {0..<14485} ctx ctx' \<and> witness_signals (circuit ctx) x 1 ctx')
    else \<exists>m \<in> {''line 86'', ''line 95'', ''line 114'', ''line 121''}. run_circuit ctx = Some (Inl (AssertFailed m))"
  using run_circuit_with_decides [OF assms(1) deep_table_leaves [of 1] assms(2,3)]
  by (auto simp: run_circuit_eq numeral_2_eq_2 runs_def split: if_splits)

theorem run_decides_the_transaction_witness:
  "if transaction_ok full_circuit (\<lambda>_. 1)
    then runs run_circuit (full_ctx (\<lambda>_. 1)) (\<lambda>ctx'. changes {1..<72906} {0..<14485} (full_ctx (\<lambda>_. 1)) ctx' \<and>
      witness_signals full_circuit (\<lambda>_. 1) 1 ctx')
    else \<exists>m \<in> {''line 86'', ''line 95'', ''line 114'', ''line 121''}.
      run_circuit (full_ctx (\<lambda>_. 1)) = Some (Inl (AssertFailed m))"
proof -
  have "carries (full_ctx (\<lambda>_. 1)) 1 193 (\<lambda>_. 1)" by (rule full_ctx_carries) (simp add: in_field_small)
  from run_decides_the_transaction [OF _ full_ctx_clean this, unfolded full_ctx_circuit, OF full_circuit_ok]
  show ?thesis .
qed

text \<open>
  C3. From a new calculator, any sequence of assignments that names each of the 193 inputs once, in
  any order, ends with the decision of the transaction on the assigned values: no assignment fails on
  the way, the circuit runs at the last one, and it returns or stops at an assertion.
\<close>

theorem assigning_all_inputs_decides:
  assumes "circuit_data_ok circ" "table_size_ok (InputHashMap circ)" "Circom_CalcWit_new g circ m = Inr ctx"
    "list_all2 (targets circ x) as ks" "distinct ks" "set ks = {..<193}"
  shows "if transaction_ok circ x then \<exists>ctx'. feed run_circuit as ctx = Some (Inr ctx')
    else \<exists>m \<in> {''line 86'', ''line 95'', ''line 114'', ''line 121''}. feed run_circuit as ctx = Some (Inl (AssertFailed m))"
proof -
  obtain ctx' where c: "loaded circ (signalValues ctx 0) x {..<193} ctx'" "feed run_circuit as ctx = run_circuit ctx'"
    using feed_runs [OF assms(2) new_loaded [OF assms(3)] assms(4-6)] by blast
  then show ?thesis
    using run_circuit_with_decides [of ctx' "table_to 2" x] loaded_all [OF c(1)] assms(1) deep_table_leaves [of 1]
    by (auto simp: run_circuit_eq numeral_2_eq_2)
qed

theorem assigning_all_inputs_decides_witness:
  "\<exists>ctx. Circom_CalcWit_new gmp_ref full_circuit 32 = Inr ctx \<and>
    (if transaction_ok full_circuit (\<lambda>_. 1) then \<exists>ctx'. feed run_circuit full_inputs ctx = Some (Inr ctx')
     else \<exists>m \<in> {''line 86'', ''line 95'', ''line 114'', ''line 121''}.
       feed run_circuit full_inputs ctx = Some (Inl (AssertFailed m)))"
proof -
  obtain ctx where "Circom_CalcWit_new gmp_ref full_circuit 32 = Inr ctx" using full_new by blast
  moreover have
    "if transaction_ok full_circuit (\<lambda>_. 1) then \<exists>ctx'. feed run_circuit full_inputs ctx = Some (Inr ctx')
     else \<exists>m \<in> {''line 86'', ''line 95'', ''line 114'', ''line 121''}.
       feed run_circuit full_inputs ctx = Some (Inl (AssertFailed m))"
    by (rule assigning_all_inputs_decides [OF full_circuit_ok full_table_ok calculation full_inputs_target])
      (simp_all only: distinct_upt set_upt atLeast0LessThan)
  ultimately show ?thesis by blast
qed

text \<open>
  C4. The two Poseidon templates implement the hash: with the table of the program, \<open>Poseidon_69\<close> on
  three inputs and \<open>Poseidon_139\<close> on two inputs return, give \<open>poseidon_hash\<close> of their inputs with
  the constants of the circuit file as their output, and touch nothing but their own signals and
  components, from any place in the arrays.
\<close>

theorem poseidon_templates_refine_the_hash:
  assumes "circuit_data_ok circ"
  shows "computes circ tid (poseidon_shape 3 56) (Poseidon_69_run functionTable) (\<lambda>x _. poseidon_hash (poseidon4 circ) x) \<and>
    computes circ tid (poseidon_shape 2 57) (Poseidon_139_run functionTable) (\<lambda>x _. poseidon_hash (poseidon3 circ) x)"
  using Poseidon_69_computes [OF assms functionTable_leaves] Poseidon_139_computes [OF assms functionTable_leaves] by blast

theorem poseidon_templates_refine_the_hash_witness:
  "computes full_circuit 69 (poseidon_shape 3 56) (Poseidon_69_run functionTable)
     (\<lambda>x _. poseidon_hash (poseidon4 full_circuit) x) \<and>
   computes full_circuit 69 (poseidon_shape 2 57) (Poseidon_139_run functionTable)
     (\<lambda>x _. poseidon_hash (poseidon3 full_circuit) x)"
  by (rule poseidon_templates_refine_the_hash [OF full_circuit_ok])

text \<open>
  C5. \<open>MerkleProof_141\<close> computes the root of a path of 20 levels: the output is the fold of the level
  hash over siblings and selectors from the leaf up. When the selectors are bits, each level
  hashes the node and its sibling in the order of the bit.
\<close>

theorem merkle_proof_computes_the_root:
  assumes "circuit_data_ok circ"
  shows "computes circ tid merkle_shape (MerkleProof_141_run functionTable)
      (\<lambda>x _. merkle_hash (poseidon3 circ) (\<lambda>k. x (1 + k)) (\<lambda>k. x (21 + k)) (x 0) 20) \<and>
    (\<forall>node sib. in_field node \<and> in_field sib \<longrightarrow>
      merkle_node (poseidon3 circ) node sib 0 = poseidon_hash (poseidon3 circ) (arg2 node sib) \<and>
      merkle_node (poseidon3 circ) node sib 1 = poseidon_hash (poseidon3 circ) (arg2 sib node))"
  using MerkleProof_141_computes [OF assms functionTable_leaves, of tid] merkle_node_bit [of "poseidon3 circ"]
  by (simp add: path_hash_def in_field_def poseidon3_def)

theorem merkle_proof_computes_the_root_witness:
  "computes full_circuit 141 merkle_shape (MerkleProof_141_run functionTable)
      (\<lambda>x _. merkle_hash (poseidon3 full_circuit) (\<lambda>k. x (1 + k)) (\<lambda>k. x (21 + k)) (x 0) 20) \<and>
    merkle_node (poseidon3 full_circuit) 7 9 1 = poseidon_hash (poseidon3 full_circuit) (arg2 9 7)"
  using merkle_proof_computes_the_root [OF full_circuit_ok, of 141] in_field_small [of 7] in_field_small [of 9] by simp

text \<open>
  C6. An accepted transaction whose amounts are all below \<open>2 ^ 251\<close> balances as integers: four such
  amounts do not reach \<open>q\<close>, so no sum wraps around.
\<close>

theorem accepted_small_amounts_balance:
  assumes "circuit_data_ok (circuit ctx)" "clean ctx" "carries ctx 1 193 x" "run_circuit ctx = Some (Inr ctx')"
    "\<forall>i < 4. x (9 + i) < 2 ^ 251 \<and> x (181 + i) < 2 ^ 251"
  shows "(\<Sum>i<4. x (9 + i)) = (\<Sum>i<4. x (181 + i))"
proof (rule balance_of_small)
  show "\<forall>i < 4. 0 \<le> x (9 + i) \<and> x (9 + i) < 2 ^ 251" "\<forall>i < 4. 0 \<le> x (181 + i) \<and> x (181 + i) < 2 ^ 251"
    using assms(5) carries_in_field [OF assms(3)] by (simp_all add: in_field_def)
  show "transaction_ok (circuit ctx) x"
    using run_circuit_with_decides(1) [OF assms(1) deep_table_leaves [of 1] assms(2,3)] assms(4)
    by (simp add: run_circuit_eq numeral_2_eq_2)
qed

theorem accepted_small_amounts_balance_witness:
  "let x = same_note_inputs full_circuit demo_coin (\<lambda>_. 1) (\<lambda>_. 0) (\<lambda>_. demo_coin) in
    run_circuit (full_ctx x) \<noteq> None \<and> (\<Sum>i<4. x (9 + i)) = (\<Sum>i<4. x (181 + i))"
proof -
  let ?x = "same_note_inputs full_circuit demo_coin (\<lambda>_. 1) (\<lambda>_. 0) (\<lambda>_. demo_coin)"
  have c: "carries (full_ctx ?x) 1 193 ?x"
    by (intro full_ctx_carries same_note_in_field) (simp add: in_field_small)
  have "transaction_ok full_circuit ?x" by (rule same_note_ok) simp
  then obtain ctx' where r: "run_circuit (full_ctx ?x) = Some (Inr ctx')"
    using run_circuit_with_decides(1) [OF _ deep_table_leaves [of 1] full_ctx_clean c] full_circuit_ok
    by (auto simp: run_circuit_eq numeral_2_eq_2)
  have "(\<Sum>i<4. ?x (9 + i)) = (\<Sum>i<4. ?x (181 + i))"
    by (rule accepted_small_amounts_balance [OF _ full_ctx_clean c r])
      (use full_circuit_ok in \<open>simp_all add: same_note_inputs_def demo_coin_def\<close>)
  with r show ?thesis by simp
qed

text \<open>
  C7. The inputs of a transaction need not be different notes: the same note, with the same nullifier
  four times, counts four times. \<open>run\<close> accepts outputs worth four times the note.
\<close>

theorem one_note_counts_four_times:
  assumes "circuit_data_ok (circuit ctx)" "clean ctx"
    "carries ctx 1 193 (same_note_inputs (circuit ctx) n sib sel outs)"
    "(\<Sum>i<4. amount (outs i)) = 4 * amount n"
  shows "\<exists>ctx'. run_circuit ctx = Some (Inr ctx')"
  using run_circuit_with_decides(1) [OF assms(1) deep_table_leaves [of 1] assms(2,3)] same_note_ok [of outs n] assms(4)
  by (simp add: run_circuit_eq numeral_2_eq_2)

theorem one_note_counts_four_times_witness:
  "\<exists>ctx'. run_circuit (full_ctx (same_note_inputs full_circuit demo_coin (\<lambda>_. 1) (\<lambda>_. 0) (\<lambda>_. demo_coin))) = Some (Inr ctx')"
  by (rule one_note_counts_four_times [where n = demo_coin and sib = "\<lambda>_. 1" and sel = "\<lambda>_. 0" and outs = "\<lambda>_. demo_coin"])
    (use full_circuit_ok full_ctx_clean full_ctx_carries same_note_in_field [of "\<lambda>_. 1" "\<lambda>_. 0"] in_field_small in simp_all)

text \<open>
  C8. A note that is not in the tree is accepted. From a path that hashes to a root, one gets for any
  other note \<open>n\<close> (outside one residue class) a sibling and a selector for its first level with which
  \<open>run\<close> accepts \<open>n\<close> under the same root: the selector is not constrained to be a bit.
\<close>

theorem forged_note_is_accepted:
  assumes "circuit_data_ok circ" "(\<Sum>i<4. amount (outs i)) mod q_int = 4 * amount n mod q_int"
    "coprime (mux_out (mux_in leaf (sib 0) (sel 0)) 0 + mux_out (mux_in leaf (sib 0) (sel 0)) 1 -
      2 * note_commitment circ n) q_int"
  shows "\<exists>s b. in_field s \<and> in_field b \<and>
    (let x = same_note_inputs circ n (sib(0 := s)) (sel(0 := b)) outs in
      x 0 = merkle_hash (poseidon3 circ) sib sel leaf 20 \<and>
      (\<forall>ctx. circuit ctx = circ \<longrightarrow> clean ctx \<longrightarrow> carries ctx 1 193 x \<longrightarrow>
        (\<exists>ctx'. run_circuit ctx = Some (Inr ctx'))))"
proof -
  obtain s b where f: "in_field s" "in_field b" "merkle_hash (poseidon3 circ) (sib(0 := s)) (sel(0 := b))
      (note_commitment circ n) 20 = merkle_hash (poseidon3 circ) sib sel leaf 20"
    by (rule forged_path [where p = "poseidon3 circ" and n = 20 and sib = sib and sel = sel and c = "note_commitment circ n", OF _ _ assms(3)]) (simp_all add: poseidon3_def)
  have "\<exists>ctx'. run_circuit ctx = Some (Inr ctx')"
    if "circuit ctx = circ" "clean ctx" "carries ctx 1 193 (same_note_inputs circ n (sib(0 := s)) (sel(0 := b)) outs)" for ctx
    using run_circuit_with_decides(1) [of ctx "table_to 2", OF _ _ that(2,3)] deep_table_leaves [of 1] that(1) assms(1)
      same_note_ok [OF assms(2)] by (simp add: run_circuit_eq numeral_2_eq_2)
  then show ?thesis using f by (intro exI [of _ s] exI [of _ b]) (simp add: Let_def same_note_inputs_def)
qed

theorem forged_note_is_accepted_witness:
  "let c = note_commitment full_circuit demo_coin; leaf = (c + 1) mod q_int in
   \<exists>s b. in_field s \<and> in_field b \<and>
    (let x = same_note_inputs full_circuit demo_coin ((\<lambda>_. c)(0 := s)) ((\<lambda>_. 0)(0 := b)) (\<lambda>_. demo_coin) in
      x 0 = merkle_hash (poseidon3 full_circuit) (\<lambda>_. c) (\<lambda>_. 0) leaf 20 \<and>
      (\<forall>ctx. circuit ctx = full_circuit \<longrightarrow> clean ctx \<longrightarrow> carries ctx 1 193 x \<longrightarrow>
        (\<exists>ctx'. run_circuit ctx = Some (Inr ctx'))))"
  unfolding Let_def [of "note_commitment full_circuit demo_coin"] Let_def [of "(note_commitment full_circuit demo_coin + 1) mod q_int"]
  by (rule forged_note_is_accepted [OF full_circuit_ok _ adjacent_coprime]) (simp_all add: note_commitment_def hashes_in_field)

text \<open>
  C9. The functions \<open>POSEIDON_C_0\<close>, \<open>POSEIDON_S_1\<close>, \<open>POSEIDON_M_2\<close> and \<open>POSEIDON_P_3\<close>, called with
  a number: for a width from 2 to 17 they return the constants listed for it, cut to the size of the
  destination; any other argument fails the assertion of the constant zero.
\<close>

theorem constant_functions_by_width:
  assumes "small a w" "width_args_ok (consts_of s)"
  shows "POSEIDON_C_0 m (call_frame 205 a s) = width_table POSEIDON_C_branches w m (consts_of s) \<and>
    POSEIDON_S_1 m (call_frame 2245 a s) = width_table POSEIDON_S_branches w m (consts_of s) \<and>
    POSEIDON_M_2 m (call_frame 579 a s) = width_table POSEIDON_M_branches w m (consts_of s) \<and>
    POSEIDON_P_3 m (call_frame 579 a s) = width_table POSEIDON_P_branches w m (consts_of s)"
  using called_tables [OF assms, of m] by simp

theorem constant_functions_by_width_witness:
  "POSEIDON_C_0 3 (call_frame 205 (Fr_SHORT 4) full_frame) =
     Some (Inr (map ((!) (circuitConstants full_circuit)) [0, 1, 2])) \<and>
   POSEIDON_P_3 3 (call_frame 579 (Fr_SHORT 18) full_frame) = Some (Inl (AssertFailed ''constant''))"
proof -
  have s: "small (Fr_SHORT 4) 4" "small (Fr_SHORT 18) 18" by (simp_all add: small_def)
  have c: "consts_of full_frame = circuitConstants full_circuit" by (simp add: consts_of_def full_frame_def)
  then have w: "width_args_ok (consts_of full_frame)" using data_width_args [OF full_circuit_ok] by simp
  have "take 3 (branch_consts (POSEIDON_C_branches ! 2)) = [0, 1, 2]"
    by (simp add: POSEIDON_C_branches_def inlined_tables upt_rec)
  then show ?thesis
    using constant_functions_by_width [OF s(1) w, of 3] constant_functions_by_width [OF s(2) w, of 3]
    by (simp add: width_table_def c)
qed

text \<open>
  C10. The generated code has the constants of the permutation twice, and both agree. Whatever tables
  \<open>POSEIDON_C_0\<close>, \<open>POSEIDON_S_1\<close>, \<open>POSEIDON_M_2\<close> and \<open>POSEIDON_P_3\<close> return for a width of the circuit,
  in the sizes in which \<open>PoseidonEx\<close> asks for them: each \<open>Ark\<close>, \<open>Mix\<close> and \<open>MixS\<close> function that
  \<open>PoseidonEx\<close> calls through the table of the program at one of its places, and \<open>MixLast\<close>, computes the
  layer of exactly these tables that belongs to the place.
\<close>

theorem layers_use_the_returned_tables:
  assumes "circuit_data_ok circ" "consts_of s = circuitConstants circ" "small a (int w)"
    "(w, np, ml) = (4, 56, MixLast_67_run) \<or> (w, np, ml) = (3, 57, MixLast_137_run)"
  shows "\<exists>C S M P. POSEIDON_C_0 (8 * w + np) (call_frame 205 a s) = Some (Inr C) \<and>
    POSEIDON_S_1 ((2 * w - 1) * np) (call_frame 2245 a s) = Some (Inr S) \<and>
    POSEIDON_M_2 (w * w) (call_frame 579 a s) = Some (Inr M) \<and> POSEIDON_P_3 (w * w) (call_frame 579 a s) = Some (Inr P) \<and>
    (\<forall>\<kappa>. pex_slot w np \<kappa> \<longrightarrow> computes circ (pex_tmpl w \<kappa>) (pex_shp w \<kappa>) (pex_runner functionTable ml \<kappa>)
      (pex_fun (permutation_of w np C S M P) \<kappa>))"
  using assms(4)
proof
  let ?g = "map ((!) (circuitConstants circ))" and ?p = "permutation_of 4 56"
  assume w: "(w, np, ml) = (4, 56, MixLast_67_run)"
  then show ?thesis
    using called_tables [OF assms(3), of s] data_width_args [OF assms(1)] assms(2)
      slots_of_same_tables [OF assms(1) functionTable_leaves, of "?p (?g [0..<88]) (?g mixs4_table) (?g mat_M4) (?g mat_P4)"]
      same_returned_4 [of circ]
    by (simp add: width_4 returned_lengths permutation_of_def del: upt_rec_numeral)
next
  let ?g = "map ((!) (circuitConstants circ))" and ?p = "permutation_of 3 57"
  assume w: "(w, np, ml) = (3, 57, MixLast_137_run)"
  then show ?thesis
    using called_tables [OF assms(3), of s] data_width_args [OF assms(1)] assms(2)
      slots_of_same_tables [OF assms(1) functionTable_leaves, of "?p (?g [841..<922]) (?g mixs3_table) (?g mat_M3) (?g mat_P3)"]
      same_returned_3 [of circ]
    by (simp add: width_3 returned_lengths permutation_of_def del: upt_rec_numeral)
qed

theorem layers_use_the_returned_tables_witness:
  "\<exists>M. POSEIDON_M_2 16 (call_frame 579 (Fr_SHORT 4) full_frame) = Some (Inr M) \<and>
    computes full_circuit 3 (layer_shape 4) (by_table functionTable) (\<lambda>y i. (\<Sum>j<4. fval (M ! (4 * j + i)) * y j) mod q_int)"
proof -
  have "consts_of full_frame = circuitConstants full_circuit" by (simp add: consts_of_def full_frame_def)
  then obtain C S M P where "POSEIDON_M_2 16 (call_frame 579 (Fr_SHORT 4) full_frame) = Some (Inr M)"
    and k: "\<And>\<kappa>. pex_slot 4 56 \<kappa> \<Longrightarrow> computes full_circuit (pex_tmpl 4 \<kappa>) (pex_shp 4 \<kappa>)
      (pex_runner functionTable MixLast_67_run \<kappa>) (pex_fun (permutation_of 4 56 C S M P) \<kappa>)"
    using layers_use_the_returned_tables [OF full_circuit_ok, of full_frame "Fr_SHORT 4" 4 56 MixLast_67_run]
    by (auto simp: small_def)
  moreover have "pex_fun (permutation_of 4 56 C S M P) (Mix 0) = (\<lambda>y i. (\<Sum>j<4. fval (M ! (4 * j + i)) * y j) mod q_int)"
    by (intro ext) (simp add: mix_layer_def permutation_of_def)
  ultimately show ?thesis using k [of "Mix 0"] by auto
qed

section \<open>The Poseidon layers\<close>

text \<open>
  C11. The \<open>Ark\<close> functions of width 4: for every round of the list, a run from a created component
  with legal inputs returns, reads nothing uninitialised and stays in bounds, adds the round
  constants of its round to the four inputs modulo \<open>q\<close>, and changes only its four outputs.
\<close>

theorem ark4_adds_round_constants:
  assumes "r < 8" "circuit_consts_ok ctx" "component_ready ctx idx start"
    "unat start + 8 \<le> unat get_total_signal_no" "carries ctx (unat start + 4) 4 x"
  shows "runs ((ark4_runs ! r) idx) ctx (\<lambda>ctx'.
    carries ctx' (unat start) 4 (\<lambda>i. (x i + cst ctx (ark4_off ! r + i)) mod q_int) \<and>
    only_signals ctx ctx' (unat start) 4)"
  using assms by (rule ark4_correct)

theorem ark4_adds_round_constants_witness:
  "runs ((ark4_runs ! 2) 5) demo_ctx (\<lambda>ctx'.
    carries ctx' (unat (10 :: u64)) 4 (\<lambda>i. (1 + cst demo_ctx (ark4_off ! 2 + i)) mod q_int) \<and>
    only_signals demo_ctx ctx' (unat (10 :: u64)) 4)"
  by (rule ark4_adds_round_constants) (use demo_state in \<open>simp_all add: circuit_sizes\<close>)

text \<open>
  C12. The \<open>MixS\<close> functions of width 4, one for each of the 56 partial rounds: the first output is
  the product of the inputs with the first half of the round's sparse row, every other output
  adds the first input times an entry of the second half, modulo \<open>q\<close>.
\<close>

theorem mixs4_partial_round:
  assumes "r < 56" "circuit_consts_ok ctx" "component_ready ctx idx start"
    "unat start + 8 \<le> unat get_total_signal_no" "carries ctx (unat start + 4) 4 x"
  shows "runs ((mixs4_runs ! r) idx) ctx (\<lambda>ctx'.
    carries ctx' (unat start) 4 (sparse_round (\<lambda>i. cst ctx (mixs4_table ! i)) 4 (7 * r) x) \<and>
    only_signals ctx ctx' (unat start) 4)"
  using assms by (rule mixs4_correct)

theorem mixs4_partial_round_witness:
  "runs ((mixs4_runs ! 41) 5) demo_ctx (\<lambda>ctx'.
    carries ctx' (unat (10 :: u64)) 4 (sparse_round (\<lambda>i. cst demo_ctx (mixs4_table ! i)) 4 (7 * 41) (\<lambda>_. 1)) \<and>
    only_signals demo_ctx ctx' (unat (10 :: u64)) 4)"
  by (rule mixs4_partial_round) (use demo_state in \<open>simp_all add: circuit_sizes\<close>)

text \<open>
  \<open>Mix_3\<close> and \<open>Mix_7\<close> multiply the vector of the four inputs by the matrix \<open>M\<close> (or \<open>P\<close>),
  column \<open>i\<close> of the table giving output \<open>i\<close>, modulo \<open>q\<close>.
\<close>

theorem mix4_matrix_product:
  assumes "circuit_consts_ok ctx" "component_ready ctx idx start"
    "unat start + 8 \<le> unat get_total_signal_no" "carries ctx (unat start + 4) 4 x"
    "(f, ms) = (Mix_3_run, mat_M4) \<or> (f, ms) = (Mix_7_run, mat_P4)"
  shows "runs (f idx) ctx (\<lambda>ctx'.
    carries ctx' (unat start) 4 (\<lambda>i. (\<Sum>j<4. cst ctx (ms ! (4 * j + i)) * x j) mod q_int) \<and>
    only_signals ctx ctx' (unat start) 4)"
  using assms by (rule mix4_correct)

theorem mix4_matrix_product_witness:
  "runs (Mix_7_run 5) demo_ctx (\<lambda>ctx'.
    carries ctx' (unat (10 :: u64)) 4 (\<lambda>i. (\<Sum>j<4. cst demo_ctx (mat_P4 ! (4 * j + i)) * 1) mod q_int) \<and>
    only_signals demo_ctx ctx' (unat (10 :: u64)) 4)"
  by (rule mix4_matrix_product) (use demo_state in \<open>simp_all add: circuit_sizes\<close>)

text \<open>\<open>Sigma_1\<close>, the S-box of the permutation, outputs the fifth power of its input.\<close>

theorem sigma_is_fifth_power:
  assumes "component_ready ctx idx start" "unat start + 4 \<le> unat get_total_signal_no"
    "carries ctx (unat start + 1) 1 x"
  shows "runs (Sigma_1_run idx) ctx (\<lambda>ctx'.
    carries ctx' (unat start) 1 (\<lambda>_. x 0 ^ 5 mod q_int) \<and> only_signals ctx ctx' (unat start) 4)"
  unfolding Sigma_1_run_def using assms by (rule sigma_run)

theorem sigma_is_fifth_power_witness:
  "runs (Sigma_1_run 5) demo_ctx (\<lambda>ctx'.
    carries ctx' (unat (10 :: u64)) 1 (\<lambda>_. 1 ^ 5 mod q_int) \<and> only_signals demo_ctx ctx' (unat (10 :: u64)) 4)"
  by (rule sigma_is_fifth_power) (use demo_state in \<open>simp_all add: circuit_sizes\<close>)

text \<open>
  \<open>MixLast_67\<close> and \<open>MixLast_137\<close> output one coordinate of the matrix product, the one of the
  first column of \<open>M\<close>, which is the hash value.
\<close>

theorem mixlast_first_column:
  assumes "circuit_consts_ok ctx" "component_ready ctx idx start"
    "unat start + 1 + t \<le> unat get_total_signal_no" "carries ctx (unat start + 1) t x"
    "(f, t, ms) = (MixLast_67_run, 4, mat_M4) \<or> (f, t, ms) = (MixLast_137_run, 3, mat_M3)"
  shows "runs (f idx) ctx (\<lambda>ctx'.
    carries ctx' (unat start) 1 (\<lambda>_. (\<Sum>j<t. cst ctx (ms ! (t * j)) * x j) mod q_int) \<and>
    only_signals ctx ctx' (unat start) 1)"
  using assms by (rule mixlast_correct)

theorem mixlast_first_column_witness:
  "runs (MixLast_137_run 5) demo_ctx (\<lambda>ctx'.
    carries ctx' (unat (10 :: u64)) 1 (\<lambda>_. (\<Sum>j<3. cst demo_ctx (mat_M3 ! (3 * j)) * 1) mod q_int) \<and>
    only_signals demo_ctx ctx' (unat (10 :: u64)) 1)"
  by (rule mixlast_first_column) (use demo_state in \<open>simp_all add: circuit_sizes\<close>)

text \<open>The \<open>Ark\<close> functions of width 3, as those of width 4 for the permutation with two inputs.\<close>

theorem ark3_adds_round_constants:
  assumes "r < 8" "circuit_consts_ok ctx" "component_ready ctx idx start"
    "unat start + 6 \<le> unat get_total_signal_no" "carries ctx (unat start + 3) 3 x"
  shows "runs ((ark3_runs ! r) idx) ctx (\<lambda>ctx'.
    carries ctx' (unat start) 3 (\<lambda>i. (x i + cst ctx (841 + (ark3_off ! r + i))) mod q_int) \<and>
    only_signals ctx ctx' (unat start) 3)"
  using assms by (rule ark3_correct)

theorem ark3_adds_round_constants_witness:
  "runs ((ark3_runs ! 7) 5) demo_ctx (\<lambda>ctx'.
    carries ctx' (unat (10 :: u64)) 3 (\<lambda>i. (1 + cst demo_ctx (841 + (ark3_off ! 7 + i))) mod q_int) \<and>
    only_signals demo_ctx ctx' (unat (10 :: u64)) 3)"
  by (rule ark3_adds_round_constants) (use demo_state in \<open>simp_all add: circuit_sizes\<close>)

text \<open>The 57 \<open>MixS\<close> functions of width 3, as those of width 4 for the permutation with two inputs.\<close>

theorem mixs3_partial_round:
  assumes "r < 57" "circuit_consts_ok ctx" "component_ready ctx idx start"
    "unat start + 6 \<le> unat get_total_signal_no" "carries ctx (unat start + 3) 3 x"
  shows "runs ((mixs3_runs ! r) idx) ctx (\<lambda>ctx'.
    carries ctx' (unat start) 3 (sparse_round (\<lambda>i. cst ctx (mixs3_table ! i)) 3 (5 * r) x) \<and>
    only_signals ctx ctx' (unat start) 3)"
  using assms by (rule mixs3_correct)

theorem mixs3_partial_round_witness:
  "runs ((mixs3_runs ! 56) 5) demo_ctx (\<lambda>ctx'.
    carries ctx' (unat (10 :: u64)) 3 (sparse_round (\<lambda>i. cst demo_ctx (mixs3_table ! i)) 3 (5 * 56) (\<lambda>_. 1)) \<and>
    only_signals demo_ctx ctx' (unat (10 :: u64)) 3)"
  by (rule mixs3_partial_round) (use demo_state in \<open>simp_all add: circuit_sizes\<close>)

text \<open>
  \<open>Mix_72\<close> and \<open>Mix_76\<close> multiply the vector of the three inputs by their matrix, as C13 for
  the permutation with two inputs.
\<close>

theorem mix3_matrix_product:
  assumes "circuit_consts_ok ctx" "component_ready ctx idx start"
    "unat start + 6 \<le> unat get_total_signal_no" "carries ctx (unat start + 3) 3 x"
    "(f, ms) = (Mix_72_run, mat_M3) \<or> (f, ms) = (Mix_76_run, mat_P3)"
  shows "runs (f idx) ctx (\<lambda>ctx'.
    carries ctx' (unat start) 3 (\<lambda>i. (\<Sum>j<3. cst ctx (ms ! (3 * j + i)) * x j) mod q_int) \<and>
    only_signals ctx ctx' (unat start) 3)"
  using assms by (rule mix3_correct)

theorem mix3_matrix_product_witness:
  "runs (Mix_72_run 5) demo_ctx (\<lambda>ctx'.
    carries ctx' (unat (10 :: u64)) 3 (\<lambda>i. (\<Sum>j<3. cst demo_ctx (mat_M3 ! (3 * j + i)) * 1) mod q_int) \<and>
    only_signals demo_ctx ctx' (unat (10 :: u64)) 3)"
  by (rule mix3_matrix_product) (use demo_state in \<open>simp_all add: circuit_sizes\<close>)

section \<open>The path selector\<close>

text \<open>
  \<open>MultiMux1_140\<close> with a selector of 0 outputs the pair of first alternatives, with a selector
  of 1 the pair of second ones: the order in which a Merkle step hashes its two children.
\<close>

theorem multimux_selects:
  assumes "circuit_consts_ok ctx" "component_ready ctx idx start"
    "unat start + 7 \<le> unat get_total_signal_no" "carries ctx (unat start + 2) 5 x"
    "x 4 = 0 \<or> x 4 = 1"
  shows "runs (MultiMux1_140_run idx) ctx (\<lambda>ctx'.
    carries ctx' (unat start) 2 (\<lambda>i. if x 4 = 0 then x (2 * i) else x (2 * i + 1)) \<and>
    only_signals ctx ctx' (unat start) 2)"
proof -
  have r: "x j mod q_int = x j" if "j < 5" for j
  proof -
    obtain e where "fval e = x j" using assms(4) \<open>j < 5\<close> by (auto simp: carries_def)
    then show ?thesis using fval_bounds [of e] by auto
  qed
  have "((x (2 * i + 1) - x (2 * i)) * x 4 + x (2 * i)) mod q_int =
      (if x 4 = 0 then x (2 * i) else x (2 * i + 1))" if "i < 2" for i
    using assms(5) r [of "2 * i"] r [of "2 * i + 1"] that by auto
  then show ?thesis
    unfolding MultiMux1_140_run_def
    by (intro runs_mono [OF multimux_run [OF consts_width(3) [OF assms(1)] assms(2-4)]])
      (auto simp: carries_def)
qed

theorem multimux_selects_witness:
  "runs (MultiMux1_140_run 5) demo_ctx (\<lambda>ctx'.
    carries ctx' (unat (10 :: u64)) 2 (\<lambda>i. if (1 :: int) = 0 then 1 else 1) \<and>
    only_signals demo_ctx ctx' (unat (10 :: u64)) 2)"
  by (rule multimux_selects [of demo_ctx 5 10 "\<lambda>_. 1"]) (use demo_state in \<open>simp_all add: circuit_sizes\<close>)

section \<open>Field arithmetic\<close>

text \<open>
  C13. \<open>Fr_mul\<close> and \<open>Fr_square\<close> are multiplication modulo \<open>q\<close> on all combinations of the four
  representations, and their results are legal representations.
\<close>

theorem Fr_mul_square_field:
  assumes "fok a" "fok b"
  shows "fok (Fr_mul a b) \<and> fval (Fr_mul a b) = fval a * fval b mod q_int \<and>
    fok (Fr_square a) \<and> fval (Fr_square a) = fval a * fval a mod q_int"
  using Fr_mul_denotes [OF assms] Fr_square_denotes [OF assms(1)] by (simp add: denotes_def)

theorem Fr_mul_square_field_witness:
  "fok (Fr_mul (Fr_SHORT (- 7)) (Fr_LONG (FrRaw 5 1 0 0))) \<and>
   fval (Fr_mul (Fr_SHORT (- 7)) (Fr_LONG (FrRaw 5 1 0 0))) =
     fval (Fr_SHORT (- 7)) * fval (Fr_LONG (FrRaw 5 1 0 0)) mod q_int"
proof -
  have "fok (Fr_SHORT (- 7))" "fok (Fr_LONG (FrRaw 5 1 0 0))" by (simp_all add: q_int_def)
  from Fr_mul_square_field [OF this] show ?thesis by blast
qed

text \<open>
  C14. \<open>Fr_add\<close>, \<open>Fr_sub\<close> and \<open>Fr_neg\<close> are addition, subtraction and negation modulo \<open>q\<close> on all
  combinations of representations, the 32-bit overflow of short operands included.
\<close>

theorem Fr_add_sub_neg_field:
  assumes "fok a" "fok b"
  shows "fok (Fr_add a b) \<and> fval (Fr_add a b) = (fval a + fval b) mod q_int \<and>
    fok (Fr_sub a b) \<and> fval (Fr_sub a b) = (fval a - fval b) mod q_int \<and>
    fok (Fr_neg a) \<and> fval (Fr_neg a) = (- fval a) mod q_int"
  using Fr_add_denotes [OF assms] Fr_sub_denotes [OF assms] Fr_neg_denotes [OF assms(1)]
  by (simp add: denotes_def)

theorem Fr_add_sub_neg_field_witness:
  "fval (Fr_add (Fr_SHORT 2147483647) (Fr_SHORT 1)) =
    (fval (Fr_SHORT 2147483647) + fval (Fr_SHORT 1)) mod q_int"
proof -
  have "fok (Fr_SHORT 2147483647)" "fok (Fr_SHORT 1)" by simp_all
  from Fr_add_sub_neg_field [OF this] show ?thesis by blast
qed

text \<open>
  C15. The four order comparisons are those of the signed reading of the field, in which values
  above \<open>(q - 1) / 2\<close> are negative, whichever representations the operands are in.
\<close>

theorem Fr_order_is_signed:
  assumes "fok a" "fok b"
  shows "Fr_lt a b = bool_elem (signed_val (fval a) < signed_val (fval b)) \<and>
    Fr_gt a b = bool_elem (signed_val (fval b) < signed_val (fval a)) \<and>
    Fr_leq a b = bool_elem (signed_val (fval a) \<le> signed_val (fval b)) \<and>
    Fr_geq a b = bool_elem (signed_val (fval b) \<le> signed_val (fval a))"
  using Fr_rlt_signed [OF assms]
  by (simp add: Fr_lt_def Fr_gt_def Fr_leq_def Fr_geq_def not_less)

theorem Fr_order_is_signed_witness:
  "Fr_lt (Fr_SHORT (- 1)) (Fr_LONG (FrRaw 5 0 0 0)) =
     bool_elem (signed_val (fval (Fr_SHORT (- 1))) < signed_val (fval (Fr_LONG (FrRaw 5 0 0 0))))"
proof -
  have "fok (Fr_SHORT (- 1))" "fok (Fr_LONG (FrRaw 5 0 0 0))" by (simp_all add: q_int_def)
  from Fr_order_is_signed [OF this] show ?thesis by blast
qed

text \<open>
  C16. \<open>Fr_eq\<close> and \<open>Fr_neq\<close> decide equality of the field values, not of the representations, and
  \<open>Fr_isTrue\<close> decides whether the value is different from zero.
\<close>

theorem Fr_equality_of_values:
  assumes "fok a" "fok b"
  shows "Fr_eq a b = bool_elem (fval a = fval b) \<and> Fr_neq a b = bool_elem (fval a \<noteq> fval b) \<and>
    (Fr_isTrue a \<longleftrightarrow> fval a \<noteq> 0)"
  using Fr_req_iff [OF assms] Fr_isTrue_iff [OF assms(1)] by (simp add: Fr_eq_def Fr_neq_def)

theorem Fr_equality_of_values_witness:
  "Fr_eq (Fr_SHORT 3) (Fr_LONG (FrRaw 3 0 0 0)) = bool_elem (fval (Fr_SHORT 3) = fval (Fr_LONG (FrRaw 3 0 0 0)))"
proof -
  have "fok (Fr_SHORT 3)" "fok (Fr_LONG (FrRaw 3 0 0 0))" by (simp_all add: q_int_def)
  from Fr_equality_of_values [OF this] show ?thesis by blast
qed

text \<open>
  C17. \<open>Fr_rawMMul\<close>, four rows of 64-bit multiplications and reductions with carries, is the
  Montgomery product: its result is below \<open>q\<close> and equals \<open>a * b / 2 ^ 256\<close> modulo \<open>q\<close>.
\<close>

theorem rawMMul_is_montgomery_product:
  assumes "rval b < q_int"
  shows "rval (Fr_rawMMul a b) < q_int \<and> 2 ^ 256 * rval (Fr_rawMMul a b) mod q_int = rval a * rval b mod q_int"
proof -
  have "2 ^ 256 * (rval a * rval b * Rinv mod q_int) mod q_int = rval a * rval b * (2 ^ 256 * Rinv mod q_int) mod q_int"
    by (simp only: mod_mult_right_eq) (simp only: mult_ac)
  then show ?thesis
    using assms by (simp only: Fr_rawMMul_mod Rinv_inverse mult_1_right) simp
qed

theorem rawMMul_is_montgomery_product_witness:
  "rval (Fr_rawMMul (FrRaw 2 3 4 5) (FrRaw 7 0 0 1)) < q_int"
proof -
  have "rval (FrRaw 7 0 0 1) < q_int" by (simp add: q_int_def)
  from rawMMul_is_montgomery_product [OF this] show ?thesis by blast
qed

text \<open>
  C18. \<open>Fr_toInt\<close> returns the signed reading of an element whenever that fits in 32 bits, in every
  representation, without calling \<open>Fr_fail\<close>; so array indices are what the circuit computes.
\<close>

theorem Fr_toInt_of_small:
  assumes "fok a" "- (2 ^ 31) \<le> signed_val (fval a)" "signed_val (fval a) < 2 ^ 31"
  shows "Fr_toInt a = Inr (signed_val (fval a))"
  using assms by (rule Fr_toInt_small)

theorem Fr_toInt_of_small_witness:
  "Fr_toInt (Fr_LONG (FrRaw 12 0 0 0)) = Inr (signed_val (fval (Fr_LONG (FrRaw 12 0 0 0))))"
  by (rule Fr_toInt_of_small) (simp_all add: q_int_def signed_val_def)

text \<open>
  C19. What \<open>Fr_toInt\<close> does with every element that has no short value. A value below \<open>2 ^ 31\<close> is
  returned. The check for small negative integers subtracts \<open>q\<close> limb by limb and looks for a borrow
  and at the low limb of the difference only; so it accepts every value whose low limb is at most
  \<open>2 ^ 31\<close> below that of \<open>q\<close> while no other limb exceeds the one of \<open>q\<close>, and returns the difference of
  the low limbs. Anything else fails. The integer returned is wrong modulo \<open>q\<close> exactly for those
  accepted values whose upper limbs differ from those of \<open>q\<close>.
\<close>

theorem Fr_toInt_of_long:
  assumes "fok a" "shortVal a = None"
  shows "Fr_toInt a = (if fval a < 2 ^ 31 then Inr (fval a)
      else if read_as_negative (fval a) then Inr (limb_of (fval a) 0 - limb_of q_int 0) else Inl FrFail) \<and>
    ((\<exists>n. Fr_toInt a = Inr n \<and> n mod q_int \<noteq> fval a) \<longleftrightarrow>
      2 ^ 31 \<le> fval a \<and> read_as_negative (fval a) \<and> fval a div 2 ^ 64 \<noteq> q_int div 2 ^ 64)"
  using Fr_toInt_long [OF assms] misread_iff [of "fval a"] fval_bounds [of a] by auto

theorem Fr_toInt_of_long_witness:
  "\<exists>n. Fr_toInt (Fr_LONG (FrRaw (0x43e1f593f0000001 - 5) 0 0 0)) = Inr n \<and>
    n mod q_int \<noteq> fval (Fr_LONG (FrRaw (0x43e1f593f0000001 - 5) 0 0 0))"
  using Fr_toInt_of_long [of "Fr_LONG (FrRaw (0x43e1f593f0000001 - 5) 0 0 0)"]
  by (simp add: read_as_negative_def limb_of_def q_int_def)

text \<open>
  C20. \<open>Fr_band\<close>, \<open>Fr_bor\<close>, \<open>Fr_bxor\<close> and \<open>Fr_bnot\<close> are the operations on the 254 bits of the
  integers below \<open>q\<close> that the operands stand for, reduced modulo \<open>q\<close>, in every combination of
  representations, negative short operands included.
\<close>

theorem Fr_bitwise_on_254_bits:
  assumes "fok a" "fok b"
  shows "fval (Fr_band a b) = and (fval a) (fval b) mod q_int \<and>
    fval (Fr_bor a b) = or (fval a) (fval b) mod q_int \<and>
    fval (Fr_bxor a b) = xor (fval a) (fval b) mod q_int \<and>
    fval (Fr_bnot a) = (2 ^ 254 - 1 - fval a) mod q_int"
  using bits_element_val [OF assms] Fr_bnot_val [OF assms(1)]
  by (simp add: Fr_band_def Fr_bor_def Fr_bxor_def bits_val_def)

theorem Fr_bitwise_on_254_bits_witness:
  "fval (Fr_band (Fr_SHORT (- 1)) (Fr_LONG (FrRaw 12 0 0 0))) = 0 \<and> fval (Fr_bxor (Fr_SHORT 12) (Fr_SHORT 10)) = 6"
proof -
  have "fok (Fr_SHORT (- 1))" "fok (Fr_LONG (FrRaw 12 0 0 0))" "fok (Fr_SHORT 12)" "fok (Fr_SHORT 10)"
    by (simp_all add: q_int_def)
  then show ?thesis
    using Fr_bitwise_on_254_bits [of "Fr_SHORT (- 1)" "Fr_LONG (FrRaw 12 0 0 0)"]
      Fr_bitwise_on_254_bits [of "Fr_SHORT 12" "Fr_SHORT 10"] by (simp add: q_int_def)
qed

text \<open>
  C21. \<open>Fr_shl\<close> and \<open>Fr_shr\<close> shift the integer below \<open>q\<close> by the integer of the second operand: below 254
  in the direction of the name, left shifts cut to 254 bits and reduced; a shift by \<open>q - n\<close>, with \<open>n\<close>
  below 254, is one by \<open>n\<close> in the other direction; all others give zero. The quick paths for short
  operands, and the long paths over whole limbs and over bits across limbs, agree on that.
\<close>

theorem Fr_shifts_on_254_bits:
  assumes "fok a" "fok b"
  shows "fval (Fr_shl a b) =
      (if fval b < 254 then take_bit 254 (push_bit (nat (fval b)) (fval a)) mod q_int
       else if q_int - fval b < 254 then drop_bit (nat (q_int - fval b)) (fval a) else 0) \<and>
    fval (Fr_shr a b) =
      (if fval b < 254 then drop_bit (nat (fval b)) (fval a)
       else if q_int - fval b < 254 then take_bit 254 (push_bit (nat (q_int - fval b)) (fval a)) mod q_int else 0)"
  using Fr_shift_vals [OF assms] by (simp add: shift_val_def shl_val_def shr_val_def)

theorem Fr_shifts_on_254_bits_witness:
  "fval (Fr_shl (Fr_SHORT 3) (Fr_SHORT 100)) = 3 * 2 ^ 100 \<and>
   fval (Fr_shr (Fr_LONG (FrRaw 0 5 0 0)) (Fr_SHORT 63)) = 10 \<and> fval (Fr_shl (Fr_SHORT 24) (Fr_SHORT (- 3))) = 3"
proof -
  have "fok (Fr_SHORT 3)" "fok (Fr_SHORT 100)" "fok (Fr_LONG (FrRaw 0 5 0 0))" "fok (Fr_SHORT 63)"
    "fok (Fr_SHORT 24)" "fok (Fr_SHORT (- 3))" by (simp_all add: q_int_def)
  then show ?thesis
    using Fr_shifts_on_254_bits [of "Fr_SHORT 3" "Fr_SHORT 100"]
      Fr_shifts_on_254_bits [of "Fr_LONG (FrRaw 0 5 0 0)" "Fr_SHORT 63"]
      Fr_shifts_on_254_bits [of "Fr_SHORT 24" "Fr_SHORT (- 3)"]
    by (simp add: q_int_def take_bit_eq_mod push_bit_eq_mult drop_bit_eq_div)
qed

text \<open>
  C22. Every operation of the element layer gives a well-formed element from well-formed elements:
  long parts below \<open>q\<close>, and a cached Montgomery form that is the one of the short value.
\<close>

theorem Fr_operations_give_elements:
  assumes "fok a" "fok b"
  shows "list_all fok [Fr_add a b, Fr_sub a b, Fr_neg a, Fr_mul a b, Fr_square a, Fr_band a b, Fr_bor a b,
    Fr_bxor a b, Fr_bnot a, Fr_shl a b, Fr_shr a b, Fr_lt a b, Fr_gt a b, Fr_leq a b, Fr_geq a b, Fr_eq a b,
    Fr_neq a b, Fr_land a b, Fr_lor a b, Fr_lnot a, Fr_toMontgomery a, Fr_toNormal a, Fr_toLongNormal a, Fr_copy a]"
  using assms Fr_add_denotes [OF assms] Fr_sub_denotes [OF assms] Fr_neg_denotes [OF assms(1)]
    Fr_mul_denotes [OF assms] Fr_square_denotes [OF assms(1)] bits_element_val [OF assms] Fr_bnot_val [OF assms(1)]
    Fr_shift_vals [OF assms] Fr_toMontgomery_denotes [OF assms(1)] Fr_toNormal_denotes [OF assms(1)]
    Fr_toLongNormal_denotes [OF assms(1)]
  by (simp add: denotes_def Fr_band_def Fr_bor_def Fr_bxor_def Fr_lt_def Fr_gt_def Fr_leq_def Fr_geq_def
      Fr_eq_def Fr_neq_def Fr_land_def Fr_lor_def Fr_lnot_def Fr_copy_def)

theorem Fr_operations_give_elements_witness:
  "fok (Fr_shl (Fr_SHORT (- 1)) (Fr_SHORT 200)) \<and> fok (Fr_bnot (Fr_SHORT (- 1)))"
proof -
  have "fok (Fr_SHORT (- 1))" "fok (Fr_SHORT 200)" by simp_all
  from Fr_operations_give_elements [OF this] show ?thesis by simp
qed

text \<open>
  C23. Results in the place of an operand. \<open>Fr_bnot\<close> and \<open>Fr_add\<close> store the type of the result
  before a conversion reads the type of the operand. With the result apart they are right, and so is
  \<open>Fr_add\<close> anywhere when neither operand is long in Montgomery form. In place, \<open>Fr_bnot\<close> complements the
  long field whatever the element is, and \<open>Fr_add\<close> adds limbs in normal form to limbs in Montgomery form.
\<close>

theorem results_in_place:
  "(r \<noteq> a \<longrightarrow> view (bnot_mem r a m r) = Fr_bnot (view (m a))) \<and>
   (r \<noteq> a \<and> r \<noteq> b \<or> (\<forall>k. view (m a) \<noteq> Fr_LONGMONTGOMERY k \<and> view (m b) \<noteq> Fr_LONGMONTGOMERY k) \<longrightarrow>
     view (add_mem r a b m r) = Fr_add (view (m a)) (view (m b))) \<and>
   view (bnot_mem a a m a) = Fr_LONG (bnot_raw (st_long (m a))) \<and>
   (view (m a) = Fr_LONG l \<longrightarrow> view (m b) = Fr_LONGMONTGOMERY k \<longrightarrow>
     view (add_mem a a b m a) = Fr_LONGMONTGOMERY (Fr_rawAdd l k))"
  using bnot_mem_apart bnot_mem_in_place add_mem_apart add_mem_same_form add_mem_in_place by metis

theorem results_in_place_witness:
  "let m = (\<lambda>n. if n = 0 then \<lparr>st_short = 0, st_type = 0x80000000, st_long = FrRaw 1 0 0 0\<rparr>
                else \<lparr>st_short = 0, st_type = 0xC0000000, st_long = Fr_rawZero\<rparr>) in
    fval (view (add_mem 2 0 1 m 2)) = 1 \<and> fval (view (add_mem 0 0 1 m 0)) \<noteq> 1"
proof -
  let ?m = "\<lambda>n :: nat. if n = 0 then \<lparr>st_short = 0, st_type = 0x80000000, st_long = FrRaw 1 0 0 0\<rparr>
                else \<lparr>st_short = 0, st_type = 0xC0000000, st_long = Fr_rawZero\<rparr>"
  have v: "view (?m 0) = Fr_LONG (FrRaw 1 0 0 0)" "view (?m 1) = Fr_LONGMONTGOMERY Fr_rawZero"
    by (simp_all add: view_def type_bits)
  have f: "fok (Fr_LONG (FrRaw 1 0 0 0))" "fok (Fr_LONGMONTGOMERY Fr_rawZero)" "rval (FrRaw 1 0 0 0) = 1" "rval Fr_rawZero = 0"
    by (simp_all add: Fr_rawZero_def q_int_def)
  have "view (add_mem 2 0 1 ?m 2) = Fr_add (view (?m 0)) (view (?m 1))"
    "view (add_mem 0 0 1 ?m 0) = Fr_LONGMONTGOMERY (Fr_rawAdd (FrRaw 1 0 0 0) Fr_rawZero)"
    using results_in_place [of 2 0 ?m 1] results_in_place [of 0 0 ?m 1 "FrRaw 1 0 0 0" Fr_rawZero] v by simp_all
  moreover have "fval (Fr_add (view (?m 0)) (view (?m 1))) = 1"
    using Fr_add_denotes [OF f(1,2)] f(3,4) unfolding v by (simp add: denotes_def q_int_def)
  moreover have "rval (Fr_rawAdd (FrRaw 1 0 0 0) Fr_rawZero) = 1"
    using Fr_rawAdd_mod [of "FrRaw 1 0 0 0" Fr_rawZero] f(3,4) by (simp add: q_int_def)
  moreover have "Rinv mod q_int \<noteq> 1" by (simp add: Rinv_def q_int_def)
  ultimately show ?thesis by (simp add: Let_def del: rval.simps)
qed

section \<open>Conversions and operations through GMP\<close>

text \<open>
  C24. \<open>Fr_str2element\<close> after \<open>Fr_element2str\<close> gives a legal element with the same value, for an
  element in any representation, negative short ones included.
\<close>

theorem element_string_roundtrip:
  assumes "gmp_spec g" "fok e"
  shows "returns (Fr_str2element g (Fr_element2str g e) 10) (fval e)"
  using Fr_str2element_returns [OF assms(1) _ _ Fr_element2str_val(1) [OF assms]]
    Fr_element2str_val(2) [OF assms] fval_bounds [of e] by simp

theorem element_string_roundtrip_witness:
  "returns (Fr_str2element gmp_ref (Fr_element2str gmp_ref (Fr_SHORT (- 5))) 10) (fval (Fr_SHORT (- 5)))"
  by (rule element_string_roundtrip) (simp_all add: gmp_ref_spec)

text \<open>
  C25. \<open>Fr_idiv\<close> and \<open>Fr_mod\<close> are quotient and remainder of the values as integers, and stop with
  the arithmetic exception of GMP on a zero divisor.
\<close>

theorem Fr_idiv_mod_euclid:
  assumes "gmp_spec g" "fok a" "fok b"
  shows "if fval b = 0 then Fr_idiv g a b = Inl div_zero \<and> Fr_mod g a b = Inl div_zero
    else \<exists>d m. Fr_idiv g a b = Inr d \<and> Fr_mod g a b = Inr m \<and> fok d \<and> fok m \<and>
      fval a = fval d * fval b + fval m \<and> 0 \<le> fval m \<and> fval m < fval b"
proof (cases "fval b = 0")
  case True
  then show ?thesis using Fr_idiv_returns(2) [OF assms True] Fr_mod_returns(2) [OF assms True] by simp
next
  case False
  then have "0 < fval b" using fval_bounds [of b] by simp
  then show ?thesis
    using False Fr_idiv_returns(1) [OF assms False] Fr_mod_returns(1) [OF assms False]
      pos_mod_bound [of "fval b" "fval a"] by (auto simp: returns_def simp del: pos_mod_bound)
qed

theorem Fr_idiv_mod_euclid_witness:
  "if fval (Fr_SHORT 3) = 0
   then Fr_idiv gmp_ref (Fr_SHORT (- 1)) (Fr_SHORT 3) = Inl div_zero \<and>
        Fr_mod gmp_ref (Fr_SHORT (- 1)) (Fr_SHORT 3) = Inl div_zero
   else \<exists>d m. Fr_idiv gmp_ref (Fr_SHORT (- 1)) (Fr_SHORT 3) = Inr d \<and>
      Fr_mod gmp_ref (Fr_SHORT (- 1)) (Fr_SHORT 3) = Inr m \<and> fok d \<and> fok m \<and>
      fval (Fr_SHORT (- 1)) = fval d * fval (Fr_SHORT 3) + fval m \<and> 0 \<le> fval m \<and> fval m < fval (Fr_SHORT 3)"
  by (rule Fr_idiv_mod_euclid) (simp_all add: gmp_ref_spec)

text \<open>
  C26. \<open>Fr_pow\<close> is the power modulo \<open>q\<close> for every base and exponent, zero included, and \<open>Fr_div\<close> by a
  value that is invertible modulo \<open>q\<close> gives the element whose product with the divisor is the dividend.
\<close>

theorem Fr_pow_div_correct:
  assumes "gmp_spec g" "fok a" "fok b"
  shows "returns (Fr_pow g a b) (fval a ^ nat (fval b) mod q_int) \<and>
    (coprime (fval b) q_int \<longrightarrow> (\<exists>e. Fr_div g a b = Inr e \<and> fok e \<and> fval e * fval b mod q_int = fval a))"
  using Fr_pow_returns [OF assms] Fr_div_returns [OF assms] by simp

theorem Fr_pow_div_correct_witness:
  "returns (Fr_pow gmp_ref (Fr_SHORT 5) (Fr_SHORT 0)) 1 \<and> returns (Fr_pow gmp_ref (Fr_SHORT 5) (Fr_SHORT 3)) 125 \<and>
    (\<exists>e. Fr_div gmp_ref (Fr_SHORT 5) (Fr_SHORT 3) = Inr e \<and> fok e \<and> fval e * 3 mod q_int = 5)"
proof -
  have "q_int mod 3 = 1" by (simp add: q_int_def)
  then have c: "coprime (3 :: int) q_int" using gcd_red_int [of q_int 3] by (simp add: coprime_iff_gcd_eq_1 gcd.commute)
  have v: "fval (Fr_SHORT 0) = 0" "fval (Fr_SHORT 3) = 3" "fval (Fr_SHORT 5) = 5" by (simp_all add: q_int_def)
  have "(5 :: int) ^ nat 3 mod q_int = 125" "(5 :: int) ^ nat 0 mod q_int = 1" by (simp_all add: q_int_def)
  moreover have "returns (Fr_pow gmp_ref (Fr_SHORT 5) (Fr_SHORT 0)) (5 ^ nat 0 mod q_int)"
    using Fr_pow_div_correct [OF gmp_ref_spec, of "Fr_SHORT 5" "Fr_SHORT 0"] unfolding v by simp
  moreover have "returns (Fr_pow gmp_ref (Fr_SHORT 5) (Fr_SHORT 3)) (5 ^ nat 3 mod q_int) \<and>
    (\<exists>e. Fr_div gmp_ref (Fr_SHORT 5) (Fr_SHORT 3) = Inr e \<and> fok e \<and> fval e * 3 mod q_int = 5)"
    using Fr_pow_div_correct [OF gmp_ref_spec, of "Fr_SHORT 5" "Fr_SHORT 3"] c unfolding v by simp
  ultimately show ?thesis by (simp only: simp_thms)
qed

text \<open>
  C27. The class \<open>RawFr\<close> is the field in Montgomery form: its constructor sets zero, one and minus one,
  and its arithmetic and tests, with \<open>int\<close> operands too, are those of the values.
\<close>

theorem RawFr_is_the_field:
  assumes "gmp_spec g" "rval a < q_int" "rval b < q_int"
  shows "(\<exists>f. RawFr_new g = Inr f \<and> mval (fZero f) = 0 \<and> mval (fOne f) = 1 \<and> mval (fNegOne f) = q_int - 1) \<and>
    mval (RawFr_add a b) = (mval a + mval b) mod q_int \<and> mval (RawFr_sub a b) = (mval a - mval b) mod q_int \<and>
    mval (RawFr_mul a b) = mval a * mval b mod q_int \<and> mval (RawFr_neg a) = - mval a mod q_int \<and>
    mval (RawFr_square a) = (mval a)\<^sup>2 mod q_int \<and>
    (RawFr_eq a b \<longleftrightarrow> mval a = mval b) \<and> (RawFr_isZero a \<longleftrightarrow> mval a = 0) \<and>
    mreturns (RawFr_add_int g a n) ((mval a + sint n) mod q_int) \<and>
    mreturns (RawFr_sub_int g a n) ((mval a - sint n) mod q_int) \<and>
    mreturns (RawFr_mul_int g a n) (mval a * sint n mod q_int) \<and>
    mreturns (RawFr_add_int_left g n a) ((sint n + mval a) mod q_int) \<and>
    mreturns (RawFr_sub_int_left g n a) ((sint n - mval a) mod q_int) \<and>
    mreturns (RawFr_mul_int_left g n a) (sint n * mval a mod q_int)"
  using RawFr_new_returns [OF assms(1)] RawFr_ops [OF assms(2,3)] RawFr_tests [OF assms(2,3)]
    RawFr_int_ops [OF assms(1,2), of n]
  by (auto simp: mreturns_Inr power2_eq_square)

theorem RawFr_is_the_field_witness:
  "mval (RawFr_sub Fr_rawZero (FrRaw 1 0 0 0)) = (mval Fr_rawZero - mval (FrRaw 1 0 0 0)) mod q_int"
proof -
  have "rval Fr_rawZero < q_int" "rval (FrRaw 1 0 0 0) < q_int" by (simp_all add: Fr_rawZero_def q_int_def)
  from RawFr_is_the_field [OF gmp_ref_spec this] show ?thesis by blast
qed

text \<open>
  C28. \<open>RawFr::exp\<close>, square and multiply over the bits of a little-endian scalar, computes the power
  with the scalar as exponent, whatever the result held, for a size of up to \<open>2 ^ 28\<close> bytes. The index
  of the loop is \<open>scalarSize * 8 - 1\<close>, computed in 32 bits and then signed, so a larger size counts
  modulo \<open>2 ^ 29\<close>, and as no byte at all when the index comes out negative: \<open>exp_bytes\<close> is the number
  of bytes that are read, and they must lie in the scalar.
\<close>

theorem RawFr_exp_is_power:
  assumes "rval bs < q_int" "rval one < q_int" "mval one = 1" "exp_bytes scalarSize \<le> length scalar"
  shows "mreturns (RawFr_exp one r bs scalar scalarSize)
      (mval bs ^ nat (le_val (take (exp_bytes scalarSize) scalar)) mod q_int) \<and>
    (unat scalarSize \<le> 2 ^ 28 \<longrightarrow> exp_bytes scalarSize = unat scalarSize)"
  using RawFr_exp_correct [OF assms] exp_bytes_small by blast

theorem RawFr_exp_is_power_witness:
  "let one = Fr_rawToMontgomery (FrRaw 1 0 0 0); b = FrRaw 3 0 0 0 in
    mreturns (RawFr_exp one Fr_rawZero b [5, 1] 2) (mval b ^ 261 mod q_int) \<and>
    mreturns (RawFr_exp one Fr_rawZero b [5, 1] (2 ^ 29 + 1)) (mval b ^ 5 mod q_int)"
proof -
  let ?one = "Fr_rawToMontgomery (FrRaw 1 0 0 0)"
  have b: "rval (FrRaw 3 0 0 0) < q_int" "rval ?one < q_int" "mval ?one = 1"
    using mod_Rinv [of 1] by (simp_all add: q_int_def Fr_rawToMontgomery_mod mval_def)
  have n: "exp_bytes 2 = 2" "exp_bytes (2 ^ 29 + 1) = 1" by (simp_all add: exp_bytes_def)
  show ?thesis
    using RawFr_exp_is_power [OF b, of 2 "[5, 1]"] RawFr_exp_is_power [OF b, of "2 ^ 29 + 1" "[5, 1]"]
    unfolding n by (simp add: Let_def del: mval_def)
qed

text \<open>
  C29. \<open>RawFr::toRprBE\<close> reports 32 bytes written for the element zero and leaves the caller's
  buffer as it was: \<open>mpz_export\<close> writes no word for zero and nothing is padded.
\<close>

theorem toRprBE_of_zero_writes_nothing:
  assumes "gmp_spec g" "32 \<le> length data"
  shows "RawFr_toRprBE g Fr_rawZero data = (32, data)"
  using assms by (rule toRprBE_zero)

theorem toRprBE_of_zero_writes_nothing_witness:
  "RawFr_toRprBE gmp_ref Fr_rawZero (replicate 32 171) = (32, replicate 32 171)"
  by (rule toRprBE_of_zero_writes_nothing) (simp_all add: gmp_ref_spec)

section \<open>The calculator\<close>

text \<open>
  C30. The circuit is started only when all 193 inputs have been assigned: a \<open>run\<close> that does what the
  circuit does on the states in which every input signal is written, and anything at all on the others
  (stops, does not return, overwrites them), cannot be told apart from it by the whole program, for
  any circuit file and any JSON input. That the run function of the circuit itself leaves the
  bookkeeping of the inputs alone is proved of its text (\<open>run_circuit_keeps_inv\<close>).
\<close>

theorem circuit_runs_on_complete_inputs:
  assumes "\<And>c. inputs_complete c \<Longrightarrow> run c = run_circuit c"
  shows "main_program g number_text run bdata jin = main_program g number_text run_circuit bdata jin"
  using main_program_agrees [OF run_circuit_agrees [OF assms]] by simp

theorem circuit_runs_on_complete_inputs_witness:
  "let x = same_note_inputs file_circuit demo_coin (\<lambda>_. 1) (\<lambda>_. 0) (\<lambda>_. demo_coin) in
   \<exists>file. main_program gmp_ref (\<lambda>_. []) (\<lambda>c. if inputs_complete c then run_circuit c else None) full_file (numbers x) =
     Some (Inr file)"
proof -
  let ?x = "same_note_inputs file_circuit demo_coin (\<lambda>_. 1) (\<lambda>_. 0) (\<lambda>_. demo_coin)"
  have t: "InputHashMap file_circuit = full_table" by (simp add: file_circuit_def full_circuit_def)
  have "\<forall>i < 193. in_field (?x i)" by (rule same_note_in_field) (simp add: in_field_small)
  then obtain es where es: "json_assignments file_circuit gmp_ref (\<lambda>_. []) (numbers ?x) = Inr (inputs_of es)"
    "list_all2 (\<lambda>e v. fok e \<and> fval e = v) es (map ?x [0..<193])"
    by (rule numbers_assigned [OF t])
  have "transaction_ok file_circuit ?x" by (rule same_note_ok) simp
  then obtain ctx where "witness_ok ctx"
    "main_program gmp_ref (\<lambda>_. []) run_circuit full_file (numbers ?x) = Some (writeBinWitness ctx)"
    using program_outcome(1) [OF gmp_ref_spec full_file_loads file_circuit_ok _ es(1) inputs_target [OF t es(2)]]
      full_entries_in_range atLeast0LessThan by (auto simp del: upt_rec_numeral)
  then have "\<exists>file. main_program gmp_ref (\<lambda>_. []) run_circuit full_file (numbers ?x) = Some (Inr file)"
    by (metis written_length)
  then show ?thesis
    using circuit_runs_on_complete_inputs [of "\<lambda>c. if inputs_complete c then run_circuit c else None"] by (simp add: Let_def)
qed

text \<open>
  C31. \<open>getInputSignalHashPosition\<close> always returns, and its result is that of the reference search
  along the probe sequence: the position of the first entry with the hash, or the assertion that
  fails at the first empty slot or after a full round.
\<close>

theorem hash_lookup_is_linear_probing:
  assumes "table_size_ok (InputHashMap (circuit ctx))"
  shows "getInputSignalHashPosition ctx h = Some (lookup_spec (InputHashMap (circuit ctx)) h) \<and>
    (\<forall>p. getInputSignalHashPosition ctx h = Some (Inr p) \<longrightarrow>
       p < length (InputHashMap (circuit ctx)) \<and> hash (InputHashMap (circuit ctx) ! p) = h)"
  using lookup_eq_spec [OF assms] dir.sound [OF assms] by blast

theorem hash_lookup_is_linear_probing_witness:
  "getInputSignalHashPosition demo_ctx (fnv1a ''root'') =
     Some (lookup_spec (InputHashMap (circuit demo_ctx)) (fnv1a ''root''))"
  using hash_lookup_is_linear_probing [OF demo_table_ok] by blast

text \<open>
  C32. Every state that calls of \<open>setInputSignal\<close> reach from a new calculator, whatever their
  hashes, indices and elements, stands for a collection of inputs, each taken once. Where no input
  is left the signals are the witness of a transaction that satisfies the constraints. In
  every such state a further call returns: it fails, or takes one more input.
\<close>

theorem calculator_collects_inputs:
  assumes "circuit_data_ok circ" "table_size_ok (InputHashMap circ)" "calculator g circ ctx"
  shows "(\<exists>m. collected circ m \<and> represents circ m ctx) \<and>
    (inputSignalAssignedCounter ctx = 0 \<longrightarrow> (\<exists>x. transaction_ok circ x \<and> witness_signals circ x 1 ctx)) \<and>
    (fok v \<longrightarrow> (case setInputSignal run_circuit h i v ctx of
       None \<Rightarrow> False
     | Some (Inl e) \<Rightarrow> True
     | Some (Inr ctx') \<Rightarrow> unat (inputSignalAssignedCounter ctx) = Suc (unat (inputSignalAssignedCounter ctx'))))"
proof -
  obtain m where m: "collected circ m" "represents circ m ctx" using reachable_represents [OF assms] by blast
  have "transaction_ok circ (input_values m) \<and> witness_signals circ (input_values m) 1 ctx"
    if "inputSignalAssignedCounter ctx = 0"
    using m(2) represents_counter(2) [OF m(2)] that by (simp add: represents_def)
  moreover have "case setInputSignal run_circuit h i v ctx of None \<Rightarrow> False | Some (Inl e) \<Rightarrow> True
     | Some (Inr ctx') \<Rightarrow> unat (inputSignalAssignedCounter ctx) = Suc (unat (inputSignalAssignedCounter ctx'))" if "fok v"
    using call_outcome [OF assms(1,2) m(2) that, of h i] collect_counter [OF m(2)] by auto
  ultimately show ?thesis using m by blast
qed

theorem calculator_collects_inputs_witness:
  "\<exists>ctx. calculator gmp_ref file_circuit ctx \<and> inputSignalAssignedCounter ctx = 0 \<and>
    (\<exists>x. transaction_ok file_circuit x \<and> witness_signals file_circuit x 1 ctx)"
proof -
  obtain ctx where c: "calculator gmp_ref file_circuit ctx" "inputSignalAssignedCounter ctx = 0"
    using complete_calculator by blast
  have "table_size_ok (InputHashMap file_circuit)" using full_table_ok by (simp add: file_circuit_def)
  from calculator_collects_inputs [OF file_circuit_ok this c(1)] c show ?thesis by blast
qed

text \<open>
  An input is assigned at most once: after a successful assignment, a second one at the same
  position and index stops with the assertion.
\<close>

theorem no_input_is_assigned_twice:
  assumes "assign_input ctx pos i v = Inr ctx'" "inputs_inv ctx"
  shows "assign_input ctx' pos i w = Inl (AssertFailed ''Signal assigned twice'')"
  by (rule assign_twice [OF assms(1)]) (use assms(2) in \<open>simp add: inputs_inv_def circuit_sizes\<close>)

theorem no_input_is_assigned_twice_witness:
  "\<exists>ctx'. assign_input demo_ctx 197 0 (Fr_SHORT 9) = Inr ctx' \<and>
    assign_input ctx' 197 0 (Fr_SHORT 8) = Inl (AssertFailed ''Signal assigned twice'')"
proof -
  obtain ctx' where "assign_input demo_ctx 197 0 (Fr_SHORT 9) = Inr ctx'"
    by (simp add: assign_input_def entry_at_def read_list_def demo_ctx_def demo_circuit_def demo_table_def
        Let_def circuit_sizes arr_write_def)
  then show ?thesis using no_input_is_assigned_twice [OF _ demo_inv] by blast
qed

text \<open>
  C33. \<open>generate_position_array\<close> of the row-major index of a position prints that position: it
  inverts the numbering of the components of an array, for any number of dimensions.
\<close>

theorem position_array_inverts_row_major:
  assumes "list_all2 (\<lambda>i d. i < d) is ds" "row_major (rev ds) (rev is) < 2 ^ 32"
  shows "generate_position_array ds (of_nat (row_major (rev ds) (rev is))) = Inr (concat (map brackets is))"
  using position_loop_row_major [of "rev is" "rev ds" "[]"] assms
  by (simp add: generate_position_array_def list_all2_rev)

theorem position_array_inverts_row_major_witness:
  "generate_position_array [4, 20] (of_nat (row_major [20, 4] [7, 3])) = Inr (concat (map brackets [3, 7]))"
  using position_array_inverts_row_major [of "[3, 7]" "[4, 20]"] by simp

text \<open>
  C34. \<open>getTrace\<close> returns a name for every component whose chain of fathers goes down to component
  0, as it does when every father has a smaller number.
\<close>

theorem getTrace_terminates:
  assumes "fathers_ok ctx (unat c)"
  shows "\<exists>t. getTrace ctx c = Some (Inr t)"
  using assms by (rule getTrace_returns)

theorem getTrace_terminates_witness: "\<exists>t. getTrace demo_ctx 2 = Some (Inr t)"
  by (rule getTrace_terminates)
    (simp add: fathers_ok_def circuit_sizes demo_ctx_def demo_component_def)

text \<open>
  C35. \<open>release_memory_component\<close> releases a created component once; a second call on the same
  component deletes the subcomponent array twice, because the pointer is not cleared.
\<close>

theorem component_is_released_once:
  assumes "0 < i" "i < unat get_number_of_components"
    "componentMemory ctx i = c" "subcomponents c = Live xs"
    "subcomponentsParallel c = Null" "outputIsSet c = Null" "mutexes c = Null" "cvs c = Null" "sbct c = Null"
  shows "\<exists>ctx'. release_memory_component i ctx = Inr ctx' \<and>
    subcomponents (componentMemory ctx' i) = Freed \<and>
    release_memory_component i ctx' = Inl DoubleFree"
  using assms by (rule release_once)

theorem component_is_released_once_witness:
  "\<exists>ctx'. release_memory_component 5 demo_ctx = Inr ctx' \<and>
    subcomponents (componentMemory ctx' 5) = Freed \<and>
    release_memory_component 5 ctx' = Inl DoubleFree"
  by (rule component_is_released_once [OF _ _ refl, where xs = "[]"])
    (simp_all add: demo_ctx_def demo_component_def Circom_Component_new_def circuit_sizes)

section \<open>Input and output files\<close>

text \<open>
  C36. The witness file: a header of 76 bytes, then for each of the witness entries the 32
  little-endian bytes of the value of its signal, so that a reader gets back every value; the
  length of the file is that announced by the two section lengths.
\<close>

theorem witness_file_holds_the_witness:
  assumes "witness_ok ctx"
  shows "\<exists>file. writeBinWitness ctx = Inr file \<and>
    int (length file) = 12 + (12 + le_val (take 8 (drop 16 file))) + (12 + le_val (take 8 (drop 68 file))) \<and>
    (\<forall>i < unat get_size_of_witness. read_entry file i = witness_val ctx i)"
proof -
  let ?rows = "concat (map (\<lambda>j. le_bytes 32 (witness_val ctx j)) [0..<unat get_size_of_witness])"
  have w: "writeBinWitness ctx = Inr (witness_header @ ?rows)" by (rule writeBinWitness_eq [OF assms])
  have "length ?rows = 32 * unat get_size_of_witness"
    by (simp add: length_concat comp_def sum_list_triv)
  moreover have "le_val (take 8 (drop 16 (witness_header @ ?rows))) = 40"
    "le_val (take 8 (drop 68 (witness_header @ ?rows))) = 32 * int (unat get_size_of_witness)"
    by (simp_all add: witness_header_def le_val_le_bytes n8_def circuit_sizes)
  ultimately show ?thesis
    using w header_length read_entry_written [OF assms w] by (intro exI [of _ "witness_header @ ?rows"]) simp
qed

theorem witness_file_holds_the_witness_witness:
  "\<exists>file. writeBinWitness demo_ctx = Inr file \<and>
    int (length file) = 12 + (12 + le_val (take 8 (drop 16 file))) + (12 + le_val (take 8 (drop 68 file))) \<and>
    (\<forall>i < unat get_size_of_witness. read_entry file i = witness_val demo_ctx i)"
  by (rule witness_file_holds_the_witness) (rule demo_witness_ok)

text \<open>
  C37. A JSON value that is a string, or arrays of strings nested to any depth, is read as the
  list of its strings from left to right, each one the value of its digits in the base that its
  prefix selects, modulo \<open>q\<close>.
\<close>

theorem json_strings_are_read_in_order:
  assumes "gmp_spec g"
    and "list_all2 (\<lambda>v (t, bs). \<exists>s. v = J_string s \<and> split_prefix s = (t, bs) \<and> numeral_in bs t)
           (json_leaves v) tbs"
  shows "\<exists>es. json2FrElements g number_text v [] = Inr es \<and>
    list_all2 (\<lambda>e (t, bs). fok e \<and> fval e = numeral_val bs t mod q_int) es tbs"
proof -
  have "list_all2 (\<lambda>v x. \<exists>s. v = J_string s \<and> returns (string2Fr g s) x) (json_leaves v)
      (map (\<lambda>(t, bs). numeral_val bs t mod q_int) tbs)"
    unfolding list_all2_map2 using assms(2)
    by (rule list_all2_mono) (use string2Fr_numeral [OF assms(1)] in auto)
  from json2Fr_strings [OF this, of number_text "[]"] show ?thesis
    by (simp add: json2Fr_flatten(1) list_all2_map2 case_prod_unfold)
qed

theorem json_strings_are_read_in_order_witness:
  "\<exists>es. json2FrElements gmp_ref (\<lambda>_. []) (J_array [J_string ''0x1F'', J_array [J_string ''7'']]) [] = Inr es \<and>
    list_all2 (\<lambda>e (t, bs). fok e \<and> fval e = numeral_val bs t mod q_int) es [(''1F'', 16), (''7'', 10)]"
  by (rule json_strings_are_read_in_order)
    (simp_all add: gmp_ref_spec split_prefix_def numeral_in_def digit_of_def)

text \<open>
  C38. The circuit file: whatever the input table, the witness list, the constants and the field maps
  are, \<open>loadCircuit\<close> reads them back exactly from the file laid out as the code expects it, tags and
  limbs of the constants and lengths of the field maps included. A template that is listed twice
  has the later field map.
\<close>

theorem circuit_file_roundtrip:
  assumes "length hs = 256" "length ws = 48610" "length cs = 25024" "length es = 133" "\<forall>e \<in> set es. pair_ok (snd e)"
  shows "loadCircuit (dat_file hs ws cs es) =
    Inr \<lparr>InputHashMap = hs, witness2SignalList = ws, circuitConstants = cs,
         templateInsId2IOSignalInfo = map_of (rev es), busInsId2FieldInfo = Some []\<rparr>"
  using assms by (rule loadCircuit_dat_file)

theorem circuit_file_roundtrip_witness:
  "\<exists>circ. loadCircuit full_file = Inr circ \<and> circuitConstants circ = map full_const [0..<25024]"
proof -
  have "\<forall>e \<in> set file_fields. pair_ok (snd e)"
    by (auto simp: file_fields_def full_fields_def pair_ok_def simp del: upt_rec_numeral)
  then show ?thesis
    using circuit_file_roundtrip [of full_table "replicate 48610 5" "map full_const [0..<25024]" file_fields]
    by (simp add: full_file_def full_table_def file_fields_def del: upt_rec_numeral)
qed

lemma constants_file_roundtrip:
  "map element_of (chunks 40 (length es) (concat (map element_bytes es))) = es"
  by (rule constants_roundtrip)

text \<open>
  The selector of \<open>MultiMux1\<close> is not constrained to be a bit, and that breaks the Merkle proof
  built on it. The step hashes the pair selected from the running value \<open>cur\<close> and a path element
  \<open>sib\<close>. For any pair of children \<open>l\<close>, \<open>r\<close> that is hashed somewhere in the tree, and any \<open>cur\<close>
  at all (outside one residue class), there are a path element and a selector for which the step
  hashes exactly \<open>l\<close> and \<open>r\<close>: a leaf that is not in the tree gets a path to its root.
\<close>

theorem multimux_forges_children:
  assumes "0 \<le> l" "l < q_int" "0 \<le> r" "r < q_int" "coprime (l + r - 2 * cur) q_int"
  shows "\<exists>sib s. 0 \<le> sib \<and> sib < q_int \<and> 0 \<le> s \<and> s < q_int \<and>
    (\<forall>ctx idx start. circuit_consts_ok ctx \<longrightarrow> component_ready ctx idx start \<longrightarrow>
      unat start + 7 \<le> unat get_total_signal_no \<longrightarrow>
      carries ctx (unat start + 2) 5 (\<lambda>i. [cur, sib, sib, cur, s] ! i) \<longrightarrow>
      runs (MultiMux1_140_run idx) ctx (\<lambda>ctx'. carries ctx' (unat start) 2 (\<lambda>i. [l, r] ! i)))"
proof -
  obtain sib s where s: "0 \<le> sib" "sib < q_int" "0 \<le> s" "s < q_int"
      "((sib - cur) * s + cur) mod q_int = l" "((cur - sib) * s + sib) mod q_int = r"
    using selector_for_children [OF assms] by blast
  show ?thesis
  proof (rule exI [of _ sib], rule exI [of _ s], intro conjI allI impI)
    fix ctx idx start
    assume a: "circuit_consts_ok ctx" "component_ready ctx idx start"
      "unat start + 7 \<le> unat get_total_signal_no"
      "carries ctx (unat start + 2) 5 (\<lambda>i. [cur, sib, sib, cur, s] ! i)"
    show "runs (MultiMux1_140_run idx) ctx (\<lambda>ctx'. carries ctx' (unat start) 2 (\<lambda>i. [l, r] ! i))"
      unfolding MultiMux1_140_run_def
      by (intro runs_mono [OF multimux_run [OF consts_width(3) [OF a(1)] a(2-4)]])
        (use s in \<open>auto simp: carries_def less_2_cases_iff\<close>)
  qed (rule s)+
qed

theorem multimux_forges_children_witness:
  "\<exists>sib s. 0 \<le> sib \<and> sib < q_int \<and> 0 \<le> s \<and> s < q_int \<and>
    (\<forall>ctx idx start. circuit_consts_ok ctx \<longrightarrow> component_ready ctx idx start \<longrightarrow>
      unat start + 7 \<le> unat get_total_signal_no \<longrightarrow>
      carries ctx (unat start + 2) 5 (\<lambda>i. [1000000, sib, sib, 1000000, s] ! i) \<longrightarrow>
      runs (MultiMux1_140_run idx) ctx (\<lambda>ctx'. carries ctx' (unat start) 2 (\<lambda>i. [1000001, 1000000] ! i)))"
  by (rule multimux_forges_children) (simp_all add: q_int_def)

section \<open>The pallet\<close>

text \<open>
  C39. The pallet. In every chain, whatever calls of whatever origins it executes, at most one call
  that spends succeeds, no commitment is ever numbered and the root stays the default: after one
  \<open>unshield\<close> or \<open>private_transfer\<close> every further one is refused, so shielded funds stay in the pool.
\<close>

theorem pallet_spends_at_most_once:
  assumes "chain env c0 st tr"
  shows "length (filter spends tr) \<le> 1 \<and> NextLeafIndex st = 0 \<and> CommitmentRoot st = default_hash env \<and>
    (filter spends tr \<noteq> [] \<longrightarrow> spends (c, True) \<longrightarrow> isl (fst (execute env n origin c st)))"
  using chain_inv [OF assms] spent_refuses [of env st c n origin] by (auto split: if_splits)

theorem pallet_spends_at_most_once_witness:
  "let env = \<lparr>ensure_signed = \<lambda>a. Inr a, hashing = \<lambda>bs. bs,
       currency_transfer = \<lambda>a b n c. if n \<le> c a then Inr (c(a := c a - n, b := c b + n)) else Inl [],
       account_id = 0, default_hash = []\<rparr>;
     c0 = (\<lambda>a :: nat. 9 :: nat); (r, st) = execute env 1 7 (Unshield 5 []) (genesis env c0)
   in r = Inr () \<and> currency st 7 = 14 \<and> isl (fst (execute env 2 8 (Unshield 1 []) st))"
proof -
  define env :: "(nat, nat, bytes, nat \<Rightarrow> nat) frame_env" where
    "env = \<lparr>ensure_signed = \<lambda>a. Inr a, hashing = \<lambda>bs. bs,
       currency_transfer = \<lambda>a b n c. if n \<le> c a then Inr (c(a := c a - n, b := c b + n)) else Inl [],
       account_id = 0, default_hash = []\<rparr>"
  obtain r st where d: "execute env 1 7 (Unshield 5 []) (genesis env (\<lambda>_. 9)) = (r, st)" by fastforce
  then have r: "r = Inr ()" "currency st 7 = 14"
    by (auto simp: pallet_defs genesis_def env_def)
  have "chain env (\<lambda>_. 9) st ([] @ [(Unshield 5 [], True)])" by (rule chain.succeeds [OF chain.start d [unfolded r]])
  from pallet_spends_at_most_once [OF this, of "Unshield 1 []" 2 8] r d show ?thesis
    by (simp add: env_def [symmetric] Let_def)
qed

text \<open>
  C40. What the pallet does with the funds of the pool. While the empty nullifier is not yet revealed,
  any signed account can \<open>unshield\<close> any amount that the currency can move, without a note or a proof,
  after any calls so far; and from then on no call that spends succeeds. An \<open>unshield\<close> that the
  currency refuses has the same effect without a payment, when what a failing call has written stays:
  the nullifier is inserted first, so the pool is locked. A signed \<open>private_transfer\<close> that names a
  nullifier, a commitment or a note is refused as invalid in every later state and changes nothing.
\<close>

theorem pallet_pays_the_first_unshield:
  assumes "chain env c0 st tr" "\<not> spent env st" "ensure_signed env origin = Inr who"
  shows "(case currency_transfer env (account_id env) who amt (currency st) of
      Inr c \<Rightarrow> \<exists>st'. chain env c0 st' (tr @ [(Unshield amt [], True)]) \<and> currency st' = c \<and>
        (\<forall>st'' tr'. follows env st' st'' tr' \<longrightarrow> filter spends tr' = [])
    | Inl e \<Rightarrow> \<exists>st'. chain env c0 st' (tr @ [(Unshield amt [], False)]) \<and> currency st' = currency st \<and>
        (\<forall>st'' tr'. follows env st' st'' tr' \<longrightarrow> filter spends tr' = [])) \<and>
    (\<forall>st' tr' nf cs ns n. follows env st st' tr' \<and> (nf \<noteq> [] \<or> cs \<noteq> [] \<or> ns \<noteq> []) \<longrightarrow>
      execute env n origin (PrivateTransfer nf cs ns) st' = (Inl (Module InvalidTransaction), st'))"
proof (intro conjI allI impI)
  show "case currency_transfer env (account_id env) who amt (currency st) of
      Inr c \<Rightarrow> \<exists>st'. chain env c0 st' (tr @ [(Unshield amt [], True)]) \<and> currency st' = c \<and>
        (\<forall>st'' tr'. follows env st' st'' tr' \<longrightarrow> filter spends tr' = [])
    | Inl e \<Rightarrow> \<exists>st'. chain env c0 st' (tr @ [(Unshield amt [], False)]) \<and> currency st' = currency st \<and>
        (\<forall>st'' tr'. follows env st' st'' tr' \<longrightarrow> filter spends tr' = [])"
  proof (cases "currency_transfer env (account_id env) who amt (currency st)")
    case (Inl e)
    obtain st' where x: "execute env 0 origin (Unshield amt []) st = (Inl (CurrencyError e), st')"
      and c: "currency st' = currency st" "spent env st'" using unshield_open(2) [OF assms(3,2) Inl] by blast
    from chain.fails [OF assms(1) x, of st'] nothing_spent_later [OF _ c(2)] c(1) show ?thesis unfolding Inl sum.case by blast
  next
    case (Inr c)
    obtain st' where x: "execute env 0 origin (Unshield amt []) st = (Inr (), st')"
      and c: "currency st' = c" "spent env st'" using unshield_open(1) [OF assms(3,2) Inr] by blast
    from chain.succeeds [OF assms(1) x] nothing_spent_later [OF _ c(2)] c(1) show ?thesis unfolding Inr sum.case by blast
  qed
qed (use named_transfer_refused [OF assms(3)] in blast)

theorem pallet_pays_the_first_unshield_witness:
  "let env = \<lparr>ensure_signed = \<lambda>a. Inr a, hashing = \<lambda>bs. bs,
       currency_transfer = \<lambda>a b n c. if n \<le> c a then Inr (c(a := c a - n, b := c b + n)) else Inl [],
       account_id = 0, default_hash = []\<rparr>;
     c0 = (\<lambda>a :: nat. 9 :: nat)
   in (\<exists>st. chain env c0 st [(Unshield 9 [], True)] \<and> currency st 7 = 18 \<and> currency st 0 = 0) \<and>
     (\<exists>st. chain env c0 st [(Unshield 10 [], False)] \<and> currency st = c0 \<and>
       (\<forall>st' tr. follows env st st' tr \<longrightarrow> filter spends tr = []))"
proof -
  define env :: "(nat, nat, bytes, nat \<Rightarrow> nat) frame_env" where
    "env = \<lparr>ensure_signed = \<lambda>a. Inr a, hashing = \<lambda>bs. bs,
       currency_transfer = \<lambda>a b n c. if n \<le> c a then Inr (c(a := c a - n, b := c b + n)) else Inl [],
       account_id = 0, default_hash = []\<rparr>"
  have s: "\<not> spent env (genesis env (\<lambda>_. 9))" "ensure_signed env 7 = Inr 7" by (simp_all add: spent_def genesis_def env_def)
  have t: "currency_transfer env (account_id env) 7 9 (currency (genesis env (\<lambda>_. 9))) = Inr ((\<lambda>_. 9)(0 := 0, 7 := 18))"
    "currency_transfer env (account_id env) 7 10 (currency (genesis env (\<lambda>_. 9))) = Inl []"
    by (simp_all add: env_def genesis_def)
  obtain st where "chain env (\<lambda>_. 9) st [(Unshield 9 [], True)]" "currency st 7 = 18" "currency st 0 = 0"
    using pallet_pays_the_first_unshield [OF chain.start s, of 9] unfolding t by auto
  moreover obtain st' where "chain env (\<lambda>_. 9) st' [(Unshield 10 [], False)]" "currency st' = (\<lambda>_. 9)"
    "\<forall>st'' tr. follows env st' st'' tr \<longrightarrow> filter spends tr = []"
    using pallet_pays_the_first_unshield [OF chain.start s, of 10] unfolding t by (auto simp: genesis_def)
  ultimately show ?thesis by (auto simp: Let_def env_def [symmetric])
qed

end
